(* ===== verification/Prelude.thy ===== *)
theory Prelude
  imports Main "HOL-Library.Word" "HOL-Library.Sublist" "HOL-Library.Code_Target_Nat"
begin

text \<open>
  Shared ground of the development: the machine-integer types of the Rust sources, big- and
  little-endian reads, bounds-checked slicing, checked and saturating arithmetic, the byte-level
  reading of Rust strings, and the lemma collections that the component theories feed and use.

  Rust integers of a fixed width are words (\<open>u8\<close>, \<open>u16\<close>, \<open>u32\<close>, \<open>u64\<close>) wherever bits or
  wrap-around matter. \<open>usize\<close> offsets and lengths are natural numbers; the \<open>checked_add\<close> of the
  sources is written out with its 64-bit limit. A Rust \<open>String\<close> is the list of its UTF-8 bytes,
  as the 8-bit characters of \<open>string\<close>.
\<close>

unbundle bit_operations_syntax

section \<open>Types and collections of facts\<close>

type_synonym u8 = "8 word"
type_synonym u16 = "16 word"
type_synonym u32 = "32 word"
type_synonym u64 = "64 word"

named_theorems bytes_simps \<open>lengths, reads and encodings of byte lists\<close>
named_theorems bounds_intros \<open>offsets that stay inside a packet\<close>

section \<open>Endian reads and writes\<close>

definition be16 :: "u8 \<Rightarrow> u8 \<Rightarrow> u16" where
  "be16 a b = word_of_nat (unat a * 256 + unat b)"

definition be32 :: "u8 \<Rightarrow> u8 \<Rightarrow> u8 \<Rightarrow> u8 \<Rightarrow> u32" where
  "be32 a b c d = word_of_nat (((unat a * 256 + unat b) * 256 + unat c) * 256 + unat d)"

definition to_be16 :: "u16 \<Rightarrow> u8 list" where
  "to_be16 w = [word_of_nat (unat w div 256), word_of_nat (unat w mod 256)]"

definition to_be32 :: "u32 \<Rightarrow> u8 list" where
  "to_be32 w = [word_of_nat (unat w div 2 ^ 24), word_of_nat (unat w div 2 ^ 16 mod 256),
                word_of_nat (unat w div 256 mod 256), word_of_nat (unat w mod 256)]"

lemma unat_u8_less [simp]: "unat (b :: u8) < 256"
  using unsigned_less [of b] by simp

lemma unat_u16_less [simp]: "unat (w :: u16) < 65536"
  using unsigned_less [of w] by simp

lemma unat_u32_less [simp]: "unat (w :: u32) < 4294967296"
  using unsigned_less [of w] by simp

lemma unat_word_of_nat: "n < 2 ^ LENGTH('a) \<Longrightarrow> unat (word_of_nat n :: 'a::len word) = n"
  by (simp add: unsigned_of_nat take_bit_nat_eq_self)

lemma unat_be16 [bytes_simps]: "unat (be16 a b) = unat a * 256 + unat b"
proof -
  have "unat a * 256 + unat b < 65536"
    using unat_u8_less [of a] unat_u8_less [of b] by linarith
  then show ?thesis
    unfolding be16_def by (intro unat_word_of_nat) simp
qed

lemma length_to_be16 [simp]: "length (to_be16 w) = 2"
  by (simp add: to_be16_def)

lemma length_to_be32 [simp]: "length (to_be32 w) = 4"
  by (simp add: to_be32_def)

lemma unat_of_nat_u8: "n < 256 \<Longrightarrow> unat (word_of_nat n :: u8) = n"
  by (rule unat_word_of_nat) simp

lemma be16_to_be16 [simp]:
  "be16 (word_of_nat (unat w div 256)) (word_of_nat (unat w mod 256)) = w"
proof -
  have "unat w div 256 < 256"
    using unat_u16_less [of w] by (simp add: less_mult_imp_div_less)
  then have "unat (be16 (word_of_nat (unat w div 256)) (word_of_nat (unat w mod 256))) = unat w"
    by (simp add: unat_be16 unat_of_nat_u8)
  then show ?thesis by (simp only: word_unat_eq_iff)
qed

lemma to_be16_nth [simp]:
  "be16 (to_be16 w ! 0) (to_be16 w ! Suc 0) = w"
  by (simp add: to_be16_def)

section \<open>Bounds-checked access\<close>

text \<open>\<open>slice.get(a..b)\<close> and \<open>slice.get(i)\<close>: out of range is \<open>None\<close>, never a default value.\<close>

definition slice :: "nat \<Rightarrow> nat \<Rightarrow> 'a list \<Rightarrow> 'a list" where
  "slice a b xs = take (b - a) (drop a xs)"

definition get_range :: "'a list \<Rightarrow> nat \<Rightarrow> nat \<Rightarrow> 'a list option" where
  "get_range xs a b = (if a \<le> b \<and> b \<le> length xs then Some (slice a b xs) else None)"

definition get_at :: "'a list \<Rightarrow> nat \<Rightarrow> 'a option" where
  "get_at xs i = (if i < length xs then Some (xs ! i) else None)"

lemma length_slice [simp]: "b \<le> length xs \<Longrightarrow> length (slice a b xs) = b - a"
  by (simp add: slice_def)

lemma slice_nth [simp]: "i < b - a \<Longrightarrow> b \<le> length xs \<Longrightarrow> slice a b xs ! i = xs ! (a + i)"
  by (simp add: slice_def)

lemma slice_append_left: "b \<le> length xs \<Longrightarrow> slice a b (xs @ ys) = slice a b xs"
  by (simp add: slice_def)

lemma slice_middle [simp]:
  "slice (length xs) (length xs + length ys) (xs @ ys @ zs) = ys"
  by (simp add: slice_def)

lemma slice_split: "a \<le> b \<Longrightarrow> b \<le> c \<Longrightarrow> slice a c xs = slice a b xs @ slice b c xs"
proof -
  assume "a \<le> b" "b \<le> c"
  then have "slice a c xs = take ((b - a) + (c - b)) (drop a xs)"
    by (simp add: slice_def)
  also have "\<dots> = take (b - a) (drop a xs) @ take (c - b) (drop (b - a) (drop a xs))"
    by (rule take_add)
  finally show ?thesis
    using \<open>a \<le> b\<close> by (simp add: slice_def)
qed

section \<open>Checked and saturating arithmetic\<close>

text \<open>\<open>usize::checked_add\<close> on a 64-bit target, and \<open>u32\<close>/\<open>u64\<close> saturating addition on naturals.\<close>

definition usize_checked_add :: "nat \<Rightarrow> nat \<Rightarrow> nat option" where
  "usize_checked_add a b = (if a + b < 2 ^ 64 then Some (a + b) else None)"

definition u32_max :: nat where
  "u32_max = 4294967295"

definition sat_add32 :: "nat \<Rightarrow> nat \<Rightarrow> nat" where
  "sat_add32 a b = min (a + b) u32_max"

lemma usize_checked_add_code [code]:
  "usize_checked_add a b = (if int (a + b) < 18446744073709551616 then Some (a + b) else None)"
  by (simp add: usize_checked_add_def)

lemma usize_checked_add_Some:
  "usize_checked_add a b = Some c \<longleftrightarrow> a + b < 2 ^ 64 \<and> c = a + b"
  by (auto simp: usize_checked_add_def)

lemma sat_add32_le: "sat_add32 a b \<le> a + b"
  by (simp add: sat_add32_def)

lemma fold_sat_add32: "fold (\<lambda>w acc. sat_add32 acc w) ws a = (if ws = [] then a else min (a + sum_list ws) u32_max)"
  by (induction ws arbitrary: a) (auto simp: sat_add32_def min_def)

section \<open>Text\<close>

text \<open>
  \<open>to_lowercase\<close> on the UTF-8 bytes of a string. ASCII letters are lowered; of all other code
  points exactly two lower to text that contains ASCII: KELVIN SIGN (E2 84 AA) to \<open>k\<close> and LATIN
  CAPITAL I WITH DOT ABOVE (C4 B0) to \<open>i\<close> followed by CC 87. The lower-case form of every other
  non-ASCII code point is again non-ASCII, so leaving its bytes alone decides every search for an
  ASCII needle the way the code does, and that is the only use the code makes of the result.
\<close>

definition ascii_lower :: "char \<Rightarrow> char" where
  "ascii_lower c = (let n = (of_char c :: nat) in if 65 \<le> n \<and> n \<le> 90 then char_of (n + 32) else c)"

definition to_ascii_lowercase :: "string \<Rightarrow> string" where
  "to_ascii_lowercase s = map ascii_lower s"

fun to_lowercase :: "string \<Rightarrow> string" where
  "to_lowercase [] = []"
| "to_lowercase (a # s) =
    (if a = CHR 0xE2 \<and> take 2 s = [CHR 0x84, CHR 0xAA] then CHR ''k'' # to_lowercase (drop 2 s)
     else if a = CHR 0xC4 \<and> take 1 s = [CHR 0xB0] then CHR ''i'' # CHR 0xCC # CHR 0x87 # to_lowercase (drop 1 s)
     else ascii_lower a # to_lowercase s)"

text \<open>\<open>str::contains\<close> and \<open>windows(n).any(|w| w == needle)\<close> for a non-empty needle.\<close>

definition contains :: "'a list \<Rightarrow> 'a list \<Rightarrow> bool" where
  "contains hay needle = sublist needle hay"

lemma contains_code [code]: "contains hay needle = sublist needle hay"
  by (rule contains_def)

lemma length_to_ascii_lowercase [simp]: "length (to_ascii_lowercase s) = length s"
  by (simp add: to_ascii_lowercase_def)

text \<open>Splitting at every occurrence of a separator, as \<open>str::split\<close> does: \<open>n\<close> separators give
  \<open>n + 1\<close> pieces, some possibly empty.\<close>

fun split_on :: "'a \<Rightarrow> 'a list \<Rightarrow> 'a list list" where
  "split_on d [] = [[]]"
| "split_on d (x # xs) =
    (if x = d then [] # split_on d xs
     else case split_on d xs of [] \<Rightarrow> [[x]] | p # ps \<Rightarrow> (x # p) # ps)"

definition trim_end_matches :: "'a \<Rightarrow> 'a list \<Rightarrow> 'a list" where
  "trim_end_matches d xs = rev (dropWhile (\<lambda>x. x = d) (rev xs))"

lemma split_on_nonempty [simp]: "split_on d xs \<noteq> []"
  by (induction xs) (auto split: list.splits)

lemma split_on_no_sep: "p \<in> set (split_on d xs) \<Longrightarrow> d \<notin> set p"
  by (induction xs arbitrary: p) (auto split: list.splits if_splits)

fun join_with :: "'a \<Rightarrow> 'a list list \<Rightarrow> 'a list" where
  "join_with d [] = []"
| "join_with d [p] = p"
| "join_with d (p # q # ps) = p @ d # join_with d (q # ps)"

lemma join_split [simp]: "join_with d (split_on d xs) = xs"
proof (induction xs)
  case Nil
  then show ?case by simp
next
  case (Cons x xs)
  obtain p ps where ps: "split_on d xs = p # ps"
    using split_on_nonempty [of d xs] by (cases "split_on d xs") auto
  then show ?case
    using Cons by (cases ps) auto
qed

end
