(* ===== verification/Wire.thy ===== *)
theory Wire
  imports Prelude
begin

text \<open>
  The DNS wire codec of \<open>crates/dnsguard/src/wire.rs\<close>: parsing a query packet (header, one
  question, the EDNS0 OPT record of a query), skipping names, summarising and validating upstream
  responses, rewriting response flags. Packets are byte lists, offsets are natural numbers, every
  read is guarded the way the source guards it. The builders of the same file are in
  \<open>Wire_Build\<close>, the OPT handling of responses in \<open>Wire_Edns\<close>.
\<close>

section \<open>Constants\<close>

definition HEADER_LEN :: nat where [simp]: "HEADER_LEN = 12"
definition MAX_NAME_WIRE_LEN :: nat where [simp]: "MAX_NAME_WIRE_LEN = 255"
definition MAX_LABEL_LEN :: nat where [simp]: "MAX_LABEL_LEN = 63"
definition TYPE_A :: u16 where [simp]: "TYPE_A = 1"
definition TYPE_AAAA :: u16 where [simp]: "TYPE_AAAA = 28"
definition TYPE_OPT :: u16 where [simp]: "TYPE_OPT = 41"
definition CLASS_IN :: u16 where [simp]: "CLASS_IN = 1"
definition RCODE_NOERROR :: u8 where [simp]: "RCODE_NOERROR = 0"
definition RCODE_FORMERR :: u8 where [simp]: "RCODE_FORMERR = 1"
definition RCODE_SERVFAIL :: u8 where [simp]: "RCODE_SERVFAIL = 2"
definition RCODE_NXDOMAIN :: u8 where [simp]: "RCODE_NXDOMAIN = 3"
definition RCODE_NOTIMP :: u8 where [simp]: "RCODE_NOTIMP = 4"
definition FLAG_QR :: u16 where [simp]: "FLAG_QR = 0x8000"
definition FLAG_OPCODE_MASK :: u16 where [simp]: "FLAG_OPCODE_MASK = 0x7800"
definition FLAG_AA :: u16 where [simp]: "FLAG_AA = 0x0400"
definition FLAG_TC :: u16 where [simp]: "FLAG_TC = 0x0200"
definition FLAG_RD :: u16 where [simp]: "FLAG_RD = 0x0100"
definition FLAG_RA :: u16 where [simp]: "FLAG_RA = 0x0080"
definition FLAG_AD :: u16 where [simp]: "FLAG_AD = 0x0020"
definition FLAG_CD :: u16 where [simp]: "FLAG_CD = 0x0010"
definition MAX_UDP_PAYLOAD :: nat where [simp]: "MAX_UDP_PAYLOAD = 512"
definition MAX_EDNS_UDP_PAYLOAD :: nat where [simp]: "MAX_EDNS_UDP_PAYLOAD = 4096"
definition MIN_EDNS_UDP_PAYLOAD :: nat where [simp]: "MIN_EDNS_UDP_PAYLOAD = 512"

definition clamp_edns_udp_size :: "u16 \<Rightarrow> nat" where
  "clamp_edns_udp_size n = max MIN_EDNS_UDP_PAYLOAD (min (unat n) MAX_EDNS_UDP_PAYLOAD)"

section \<open>Data\<close>

datatype wire_error =
    Truncated
  | NotAQuery
  | BadQuestionCount u16
  | CompressionInQuestion
  | InvalidLabelType
  | NameTooLong

record query =
  q_id :: u16
  q_opcode :: u8
  q_recursion_desired :: bool
  q_qname :: string
  q_qname_wire :: "u8 list"
  q_qtype :: u16
  q_qclass :: u16
  q_question_end :: nat
  q_checking_disabled :: bool
  q_dnssec_ok :: bool
  q_edns_udp_size :: "u16 option"

record response_info =
  ri_rcode :: u8
  ri_min_ttl :: "u32 option"

section \<open>Names\<close>

definition read_u16 :: "u8 list \<Rightarrow> nat \<Rightarrow> u16 option" where
  "read_u16 bytes offset =
     (case get_range bytes offset (offset + 2) of
        None \<Rightarrow> None
      | Some pair \<Rightarrow> Some (be16 (pair ! 0) (pair ! 1)))"

text \<open>One loop iteration per label; a pointer ends the name without being followed.\<close>

function skip_name :: "u8 list \<Rightarrow> nat \<Rightarrow> nat option" where
  "skip_name bytes offset =
     (case get_at bytes offset of
        None \<Rightarrow> None
      | Some len \<Rightarrow>
          if len = 0 then Some (offset + 1)
          else if len AND 0xC0 = 0xC0 then
            (if offset + 2 \<le> length bytes then Some (offset + 2) else None)
          else if len AND 0xC0 \<noteq> 0 then None
          else
            let offset' = offset + (1 + unat len) in
            if offset' > length bytes then None else skip_name bytes offset')"
  by pat_completeness auto
termination
  by (relation "measure (\<lambda>(bytes, offset). length bytes - offset)")
    (auto simp: get_at_def split: if_splits)

declare skip_name.simps [simp del]

text \<open>\<open>write!(out, "\\{byte:03}")\<close>: three decimal digits.\<close>

definition digit_char :: "nat \<Rightarrow> char" where
  "digit_char d = char_of (48 + d)"

definition escape_byte :: "u8 \<Rightarrow> string" where
  "escape_byte byte =
     (if byte = 0x2E then [CHR 0x5C, CHR 0x2E]
      else if byte = 0x5C then [CHR 0x5C, CHR 0x5C]
      else if 0x20 \<le> byte \<and> byte \<le> 0x7E then [char_of (unat byte)]
      else [CHR 0x5C, digit_char (unat byte div 100), digit_char (unat byte div 10 mod 10),
            digit_char (unat byte mod 10)])"

definition push_label_escaped :: "string \<Rightarrow> u8 list \<Rightarrow> string" where
  "push_label_escaped out label = out @ concat (map escape_byte label)"

text \<open>The loop of \<open>parse_question_name\<close>: \<open>name\<close> and \<open>wire_len\<close> are its accumulators.\<close>

function question_name_loop ::
    "u8 list \<Rightarrow> nat \<Rightarrow> string \<Rightarrow> nat \<Rightarrow> wire_error + (string \<times> nat)" where
  "question_name_loop bytes offset name wire_len =
     (case get_at bytes offset of
        None \<Rightarrow> Inl Truncated
      | Some len \<Rightarrow>
          if len = 0 then Inr (name, offset + 1)
          else if len AND 0xC0 = 0xC0 then Inl CompressionInQuestion
          else if len AND 0xC0 \<noteq> 0 then Inl InvalidLabelType
          else
            let end = offset + 1 + unat len in
            if end > length bytes then Inl Truncated
            else
              let wire_len' = wire_len + (1 + unat len) in
              if wire_len' > MAX_NAME_WIRE_LEN then Inl NameTooLong
              else
                let name' = (if name = [] then name else name @ [CHR 0x2E]) in
                question_name_loop bytes end
                  (push_label_escaped name' (slice (offset + 1) end bytes)) wire_len')"
  by pat_completeness auto
termination
  by (relation "measure (\<lambda>(bytes, offset, _, _). length bytes - offset)")
    (auto simp: get_at_def split: if_splits)

declare question_name_loop.simps [simp del]

definition parse_question_name :: "u8 list \<Rightarrow> nat \<Rightarrow> wire_error + (string \<times> nat)" where
  "parse_question_name bytes offset = question_name_loop bytes offset [] 1"

section \<open>Parsing a query\<close>

text \<open>
  \<open>find_opt\<close>: the record count bounds the loop; the first OPT wins, any malformed record means
  "no EDNS".
\<close>

fun find_opt_loop :: "nat \<Rightarrow> u8 list \<Rightarrow> nat \<Rightarrow> bool \<times> u16 option" where
  "find_opt_loop 0 bytes offset = (False, None)"
| "find_opt_loop (Suc records) bytes offset =
     (case skip_name bytes offset of
        None \<Rightarrow> (False, None)
      | Some after_name \<Rightarrow>
          (case get_range bytes after_name (after_name + 10) of
             None \<Rightarrow> (False, None)
           | Some fixed \<Rightarrow>
               let rtype = be16 (fixed ! 0) (fixed ! 1);
                   rclass = be16 (fixed ! 2) (fixed ! 3);
                   flags = be16 (fixed ! 6) (fixed ! 7);
                   rdlength = unat (be16 (fixed ! 8) (fixed ! 9)) in
               (case Option.bind (usize_checked_add after_name 10)
                       (\<lambda>p. usize_checked_add p rdlength) of
                  None \<Rightarrow> (False, None)
                | Some data_end \<Rightarrow>
                    if \<not> data_end \<le> length bytes then (False, None)
                    else if rtype = 41 then (flags AND 0x8000 \<noteq> 0, Some rclass)
                    else find_opt_loop records bytes data_end)))"

definition find_opt :: "u8 list \<Rightarrow> nat \<Rightarrow> u16 \<Rightarrow> u16 \<Rightarrow> u16 \<Rightarrow> bool \<times> u16 option" where
  "find_opt bytes offset ancount nscount arcount =
     find_opt_loop (unat ancount + unat nscount + unat arcount) bytes offset"

definition parse_query :: "u8 list \<Rightarrow> wire_error + query" where
  "parse_query bytes =
     (if length bytes < HEADER_LEN then Inl Truncated
      else
        let id = be16 (bytes ! 0) (bytes ! 1);
            flags = be16 (bytes ! 2) (bytes ! 3) in
        if flags AND FLAG_QR \<noteq> 0 then Inl NotAQuery
        else
          let opcode = (ucast (drop_bit 11 (flags AND FLAG_OPCODE_MASK)) :: u8);
              recursion_desired = (flags AND FLAG_RD \<noteq> 0);
              checking_disabled = (flags AND FLAG_CD \<noteq> 0);
              qdcount = be16 (bytes ! 4) (bytes ! 5) in
          if qdcount \<noteq> 1 then Inl (BadQuestionCount qdcount)
          else
            (case parse_question_name bytes HEADER_LEN of
               Inl e \<Rightarrow> Inl e
             | Inr (qname, name_end) \<Rightarrow>
                 (case read_u16 bytes name_end of
                    None \<Rightarrow> Inl Truncated
                  | Some qtype \<Rightarrow>
                      (case read_u16 bytes (name_end + 2) of
                         None \<Rightarrow> Inl Truncated
                       | Some qclass \<Rightarrow>
                           let question_end = name_end + 4;
                               (dnssec_ok, edns_udp_size) =
                                 find_opt bytes question_end
                                   (be16 (bytes ! 6) (bytes ! 7))
                                   (be16 (bytes ! 8) (bytes ! 9))
                                   (be16 (bytes ! 10) (bytes ! 11)) in
                           Inr \<lparr>q_id = id, q_opcode = opcode,
                                q_recursion_desired = recursion_desired, q_qname = qname,
                                q_qname_wire = slice HEADER_LEN name_end bytes,
                                q_qtype = qtype, q_qclass = qclass,
                                q_question_end = question_end,
                                q_checking_disabled = checking_disabled,
                                q_dnssec_ok = dnssec_ok,
                                q_edns_udp_size = edns_udp_size\<rparr>))))"

section \<open>Reading responses\<close>

fun walk_answers_loop ::
    "nat \<Rightarrow> u8 list \<Rightarrow> nat \<Rightarrow> u32 option \<Rightarrow> u32 option option" where
  "walk_answers_loop 0 bytes offset min_ttl = Some min_ttl"
| "walk_answers_loop (Suc n) bytes offset0 min_ttl =
     (case skip_name bytes offset0 of
        None \<Rightarrow> None
      | Some offset \<Rightarrow>
          (case usize_checked_add offset 10 of
             None \<Rightarrow> None
           | Some fixed_end \<Rightarrow>
               if fixed_end > length bytes then None
               else
                 let ttl = be32 (bytes ! (offset + 4)) (bytes ! (offset + 5))
                                (bytes ! (offset + 6)) (bytes ! (offset + 7));
                     rdlength = unat (be16 (bytes ! (offset + 8)) (bytes ! (offset + 9)));
                     offset' = offset + 10 in
                 (case usize_checked_add offset' rdlength of
                    None \<Rightarrow> None
                  | Some data_end \<Rightarrow>
                      if data_end > length bytes then None
                      else walk_answers_loop n bytes (offset' + rdlength)
                             (Some (case min_ttl of Some current \<Rightarrow> min current ttl
                                                  | None \<Rightarrow> ttl)))))"

definition walk_answers :: "u8 list \<Rightarrow> nat \<Rightarrow> nat \<Rightarrow> u8 \<Rightarrow> response_info option" where
  "walk_answers bytes offset ancount rcode =
     map_option (\<lambda>min_ttl. \<lparr>ri_rcode = rcode, ri_min_ttl = min_ttl\<rparr>)
       (walk_answers_loop ancount bytes offset None)"

text \<open>The question loop shared by \<open>response_info\<close> and \<open>additional_section_start\<close>.\<close>

fun skip_questions :: "nat \<Rightarrow> u8 list \<Rightarrow> nat \<Rightarrow> nat option" where
  "skip_questions 0 bytes offset = Some offset"
| "skip_questions (Suc n) bytes offset =
     (case skip_name bytes offset of
        None \<Rightarrow> None
      | Some after_name \<Rightarrow>
          (case usize_checked_add after_name 4 of
             None \<Rightarrow> None
           | Some offset' \<Rightarrow>
               if offset' > length bytes then None else skip_questions n bytes offset'))"

definition response_info :: "u8 list \<Rightarrow> response_info option" where
  "response_info bytes =
     (if length bytes < HEADER_LEN then None
      else
        let flags = be16 (bytes ! 2) (bytes ! 3);
            rcode = (ucast (flags AND 0x000F) :: u8);
            qdcount = unat (be16 (bytes ! 4) (bytes ! 5));
            ancount = unat (be16 (bytes ! 6) (bytes ! 7)) in
        (case skip_questions qdcount bytes HEADER_LEN of
           None \<Rightarrow> None
         | Some offset \<Rightarrow> walk_answers bytes offset ancount rcode))"

text \<open>\<open>eq_ignore_ascii_case\<close> on byte slices.\<close>

definition lower_u8 :: "u8 \<Rightarrow> u8" where
  "lower_u8 b = (if 65 \<le> b \<and> b \<le> 90 then b + 32 else b)"

definition eq_ignore_ascii_case_u8 :: "u8 list \<Rightarrow> u8 list \<Rightarrow> bool" where
  "eq_ignore_ascii_case_u8 a b = (map lower_u8 a = map lower_u8 b)"

definition validate_response :: "u8 list \<Rightarrow> u16 \<Rightarrow> u8 list \<Rightarrow> response_info option" where
  "validate_response bytes expected_id question =
     (if length bytes < HEADER_LEN then None
      else if be16 (bytes ! 0) (bytes ! 1) \<noteq> expected_id then None
      else
        let flags = be16 (bytes ! 2) (bytes ! 3) in
        if flags AND FLAG_QR = 0 then None
        else
          let rcode = (ucast (flags AND 0x000F) :: u8) in
          if be16 (bytes ! 4) (bytes ! 5) \<noteq> 1 then None
          else
            let ancount = unat (be16 (bytes ! 6) (bytes ! 7)) in
            if length question < 4 then None
            else
              (case Option.bind (usize_checked_add HEADER_LEN (length question))
                      (get_range bytes HEADER_LEN) of
                 None \<Rightarrow> None
               | Some echoed \<Rightarrow>
                   let cut = length echoed - 4; qcut = length question - 4 in
                   if \<not> eq_ignore_ascii_case_u8 (take cut echoed) (take qcut question)
                      \<or> drop cut echoed \<noteq> drop qcut question then None
                   else walk_answers bytes (HEADER_LEN + length question) ancount rcode))"

definition is_truncated_response :: "u8 list \<Rightarrow> bool" where
  "is_truncated_response bytes \<longleftrightarrow>
     HEADER_LEN \<le> length bytes \<and> be16 (bytes ! 2) (bytes ! 3) AND FLAG_TC \<noteq> 0"

definition rewrite_response_flags_for_client :: "u8 list \<Rightarrow> bool \<Rightarrow> bool \<Rightarrow> u8 list" where
  "rewrite_response_flags_for_client resp recursion_desired checking_disabled =
     (if length resp < HEADER_LEN then resp
      else
        let flags0 = be16 (resp ! 2) (resp ! 3);
            flags1 = flags0 AND NOT (FLAG_AD OR FLAG_RD OR FLAG_CD);
            flags2 = (if recursion_desired then flags1 OR FLAG_RD else flags1);
            flags3 = (if checking_disabled then flags2 OR FLAG_CD else flags2) in
        take 2 resp @ to_be16 flags3 @ drop 4 resp)"

end
