(* ===== verification/Domain_Filter.thy ===== *)
theory Domain_Filter
  imports Wire
begin

text \<open>
  The domain filter of \<open>crates/dnsguard/src/filter.rs\<close>: name normalisation, the four rule sets and
  the decision, the rule syntax, and the budgeted ingest of hosts files and domain lists. Hash sets
  are sets; a reader is the bytes it delivers and how it ends.
\<close>

section \<open>Constants and data\<close>

definition CANARY_DOMAIN :: string where
  "CANARY_DOMAIN = ''webguard-test.sentinella.invalid''"

definition MAX_HOSTS_LINES :: nat where "MAX_HOSTS_LINES = 2000000"
definition MAX_HOSTS_BYTES :: nat where "MAX_HOSTS_BYTES = 256 * 1024 * 1024"
definition MAX_HOSTS_RULES :: nat where "MAX_HOSTS_RULES = 4000000"
definition MAX_CONSECUTIVE_UNDECODABLE :: nat where "MAX_CONSECUTIVE_UNDECODABLE = 64"

datatype list_kind = AllowList | BlockList

datatype domain_list_policy = ExactPolicy | SuffixPolicy

datatype rule_kind = ExactRule | SuffixRule

definition rule_kind_from :: "domain_list_policy \<Rightarrow> rule_kind" where
  "rule_kind_from p = (case p of ExactPolicy \<Rightarrow> ExactRule | SuffixPolicy \<Rightarrow> SuffixRule)"

datatype decision = Allow | Block

record filter_engine =
  allow_exact :: "string set"
  allow_suffix :: "string set"
  block_exact :: "string set"
  block_suffix :: "string set"
  unnormalizable_queries :: nat

definition new_engine :: filter_engine where
  "new_engine = \<lparr>allow_exact = {}, allow_suffix = {}, block_exact = {CANARY_DOMAIN},
                 block_suffix = {}, unnormalizable_queries = 0\<rparr>"

section \<open>Normalising a name\<close>

text \<open>The trailing root dot goes, unless an odd number of backslashes stands before it.\<close>

definition strip_root_dot :: "string \<Rightarrow> string" where
  "strip_root_dot name =
     (if name \<noteq> [] \<and> last name = CHR 0x2E
         \<and> even (length (takeWhile (\<lambda>c. c = CHR 0x5C) (rev (butlast name))))
      then butlast name else name)"

definition is_ascii :: "string \<Rightarrow> bool" where
  "is_ascii s \<longleftrightarrow> list_all (\<lambda>c. (of_char c :: nat) < 128) s"

definition is_ascii_digit :: "char \<Rightarrow> bool" where
  "is_ascii_digit c \<longleftrightarrow> (let n = (of_char c :: nat) in 48 \<le> n \<and> n \<le> 57)"

text \<open>The accounting loop: the wire length of the finished labels and the octets of the open one;
  \<open>None\<close> is each early return, a dangling escape included.\<close>

function (sequential) wire_account :: "nat \<Rightarrow> nat \<Rightarrow> string \<Rightarrow> (nat \<times> nat) option" where
  "wire_account wire_len label_octets [] = Some (wire_len, label_octets)"
| "wire_account wire_len label_octets (c # rest) =
     (if c = CHR 0x5C then
        (if 3 \<le> length rest \<and> list_all is_ascii_digit (take 3 rest)
         then wire_account wire_len (label_octets + 1) (drop 3 rest)
         else if rest = [] then None
         else wire_account wire_len (label_octets + 1) (tl rest))
      else if c = CHR 0x2E then
        (if label_octets = 0 then None
         else if label_octets > MAX_LABEL_LEN then None
         else if wire_len + (1 + label_octets) > MAX_NAME_WIRE_LEN then None
         else wire_account (wire_len + (1 + label_octets)) 0 rest)
      else wire_account wire_len (label_octets + 1) rest)"
  by pat_completeness auto
termination
  by (relation "measure (\<lambda>(_, _, s). length s)") auto

definition normalize_name :: "string \<Rightarrow> string option" where
  "normalize_name name =
     (let trimmed = strip_root_dot name in
      if trimmed = [] \<or> \<not> is_ascii trimmed then None
      else
        (case wire_account 1 0 trimmed of
           None \<Rightarrow> None
         | Some (wire_len, label_octets) \<Rightarrow>
             if label_octets = 0 then None
             else if label_octets > MAX_LABEL_LEN then None
             else if wire_len + (1 + label_octets) > MAX_NAME_WIRE_LEN then None
             else Some (to_ascii_lowercase trimmed)))"

section \<open>Rules\<close>

definition add_allow :: "string \<Rightarrow> filter_engine \<Rightarrow> bool \<times> filter_engine" where
  "add_allow name e =
     (case normalize_name name of
        Some n \<Rightarrow> (True, e\<lparr>allow_suffix := insert n (allow_suffix e)\<rparr>) | None \<Rightarrow> (False, e))"

definition add_allow_exact :: "string \<Rightarrow> filter_engine \<Rightarrow> bool \<times> filter_engine" where
  "add_allow_exact name e =
     (case normalize_name name of
        Some n \<Rightarrow> (True, e\<lparr>allow_exact := insert n (allow_exact e)\<rparr>) | None \<Rightarrow> (False, e))"

definition add_block :: "string \<Rightarrow> filter_engine \<Rightarrow> bool \<times> filter_engine" where
  "add_block name e =
     (case normalize_name name of
        Some n \<Rightarrow> (True, e\<lparr>block_suffix := insert n (block_suffix e)\<rparr>) | None \<Rightarrow> (False, e))"

definition add_block_exact :: "string \<Rightarrow> filter_engine \<Rightarrow> bool \<times> filter_engine" where
  "add_block_exact name e =
     (case normalize_name name of
        Some n \<Rightarrow> (True, e\<lparr>block_exact := insert n (block_exact e)\<rparr>) | None \<Rightarrow> (False, e))"

definition add_rule :: "list_kind \<Rightarrow> string \<Rightarrow> rule_kind \<Rightarrow> filter_engine \<Rightarrow> bool \<times> filter_engine" where
  "add_rule kind token dflt e =
     (let (name, is_suffix) =
        (case token of
           c # rest \<Rightarrow> if c = CHR 0x2E then (rest, True) else (token, dflt = SuffixRule)
         | [] \<Rightarrow> (token, dflt = SuffixRule)) in
      (case (kind, is_suffix) of
         (AllowList, True) \<Rightarrow> add_allow name e
       | (AllowList, False) \<Rightarrow> add_allow_exact name e
       | (BlockList, True) \<Rightarrow> add_block name e
       | (BlockList, False) \<Rightarrow> add_block_exact name e))"

definition add_allow_rule :: "string \<Rightarrow> filter_engine \<Rightarrow> bool \<times> filter_engine" where
  "add_allow_rule token e = add_rule AllowList token ExactRule e"

definition add_block_rule :: "string \<Rightarrow> filter_engine \<Rightarrow> bool \<times> filter_engine" where
  "add_block_rule token e = add_rule BlockList token ExactRule e"

section \<open>The decision\<close>

text \<open>The scan of \<open>suffix_match\<close>: \<open>escaped\<close> is its flag, the list what is left of the name.\<close>

fun suffix_scan :: "string set \<Rightarrow> bool \<Rightarrow> string \<Rightarrow> bool" where
  "suffix_scan rules escaped [] = False"
| "suffix_scan rules escaped (byte # rest) =
     (if escaped then suffix_scan rules False rest
      else if byte = CHR 0x5C then suffix_scan rules True rest
      else if byte = CHR 0x2E \<and> rest \<in> rules then True
      else suffix_scan rules False rest)"

definition suffix_match :: "string set \<Rightarrow> string \<Rightarrow> bool" where
  "suffix_match rules name \<longleftrightarrow> name \<in> rules \<or> suffix_scan rules False name"

definition decide :: "filter_engine \<Rightarrow> string \<Rightarrow> decision \<times> filter_engine" where
  "decide e qname =
     (case normalize_name qname of
        None \<Rightarrow> (Allow, e\<lparr>unnormalizable_queries := unnormalizable_queries e + 1\<rparr>)
      | Some name \<Rightarrow>
          if name \<in> allow_exact e \<or> suffix_match (allow_suffix e) name then (Allow, e)
          else if name \<in> block_exact e \<or> suffix_match (block_suffix e) name then (Block, e)
          else (Allow, e))"

definition rule_count :: "filter_engine \<Rightarrow> nat" where
  "rule_count e = card (allow_exact e) + card (allow_suffix e) + card (block_exact e)
     + card (block_suffix e)"

end
