(* ===== verification/Std_Text.thy ===== *)
theory Std_Text
  imports Prelude
begin

text \<open>
  The parts of the Rust standard library's text handling that the loaders use, on the UTF-8 bytes
  of a string: UTF-8 validity, \<open>split_whitespace\<close>, \<open>trim\<close>, searching and replacing, and
  \<open>str::parse::<IpAddr>\<close>.
\<close>

definition byte_of :: "char \<Rightarrow> nat" where
  "byte_of c = of_char c"

section \<open>UTF-8\<close>

definition in_range :: "nat \<Rightarrow> nat \<Rightarrow> char \<Rightarrow> bool" where
  "in_range lo hi c \<longleftrightarrow> lo \<le> byte_of c \<and> byte_of c \<le> hi"

abbreviation continuation :: "char \<Rightarrow> bool" where
  "continuation \<equiv> in_range 0x80 0xBF"

text \<open>The number of bytes of the well-formed code point at the head, 0 when there is none.\<close>

definition utf8_head :: "string \<Rightarrow> nat" where
  "utf8_head s =
     (case s of
        [] \<Rightarrow> 0
      | a # r \<Rightarrow>
          if byte_of a < 0x80 then 1
          else
            (case r of
               [] \<Rightarrow> 0
             | b # r2 \<Rightarrow>
                 if in_range 0xC2 0xDF a \<and> continuation b then 2
                 else
                   (case r2 of
                      [] \<Rightarrow> 0
                    | c # r3 \<Rightarrow>
                        if (byte_of a = 0xE0 \<and> in_range 0xA0 0xBF b
                            \<or> in_range 0xE1 0xEC a \<and> continuation b
                            \<or> byte_of a = 0xED \<and> in_range 0x80 0x9F b
                            \<or> in_range 0xEE 0xEF a \<and> continuation b) \<and> continuation c then 3
                        else
                          (case r3 of
                             [] \<Rightarrow> 0
                           | d # _ \<Rightarrow>
                               if (byte_of a = 0xF0 \<and> in_range 0x90 0xBF b
                                   \<or> in_range 0xF1 0xF3 a \<and> continuation b
                                   \<or> byte_of a = 0xF4 \<and> in_range 0x80 0x8F b)
                                  \<and> continuation c \<and> continuation d then 4 else 0))))"

function utf8_valid :: "string \<Rightarrow> bool" where
  "utf8_valid s =
     (if s = [] then True else if utf8_head s = 0 then False
      else utf8_valid (drop (utf8_head s) s))"
  by pat_completeness auto
termination
  by (relation "measure length") auto

declare utf8_valid.simps [simp del]

text \<open>\<open>String::from_utf8_lossy\<close>: a maximal invalid prefix of a code point becomes U+FFFD.\<close>

definition second_ok :: "char \<Rightarrow> char \<Rightarrow> bool" where
  "second_ok a b \<longleftrightarrow>
     byte_of a = 0xE0 \<and> in_range 0xA0 0xBF b
     \<or> (in_range 0xE1 0xEC a \<or> in_range 0xEE 0xEF a) \<and> continuation b
     \<or> byte_of a = 0xED \<and> in_range 0x80 0x9F b
     \<or> byte_of a = 0xF0 \<and> in_range 0x90 0xBF b
     \<or> in_range 0xF1 0xF3 a \<and> continuation b
     \<or> byte_of a = 0xF4 \<and> in_range 0x80 0x8F b"

definition utf8_bad_length :: "string \<Rightarrow> nat" where
  "utf8_bad_length s =
     (case s of
        a # b # r \<Rightarrow>
          if second_ok a b then
            (if in_range 0xF0 0xF4 a \<and> r \<noteq> [] \<and> continuation (hd r) then 3 else 2)
          else 1
      | _ \<Rightarrow> 1)"

definition replacement_character :: string where
  "replacement_character = map char_of [0xEF :: nat, 0xBF, 0xBD]"

function utf8_lossy :: "string \<Rightarrow> string" where
  "utf8_lossy s =
     (if s = [] then []
      else if utf8_head s = 0 then replacement_character @ utf8_lossy (drop (utf8_bad_length s) s)
      else take (utf8_head s) s @ utf8_lossy (drop (utf8_head s) s))"
  by pat_completeness auto
termination
  by (relation "measure length") (auto simp: utf8_bad_length_def split: list.splits if_splits)

declare utf8_lossy.simps [simp del]

lemma utf8_lossy_valid: "utf8_valid s \<Longrightarrow> utf8_lossy s = s"
proof (induction s rule: utf8_valid.induct)
  case (1 s)
  show ?case
  proof (cases "s = []")
    case False
    then have h: "utf8_head s \<noteq> 0" "utf8_valid (drop (utf8_head s) s)"
      using 1(2) by (simp_all add: utf8_valid.simps [of s] split: if_splits)
    then show ?thesis
      using 1(1) [OF False h(1)] False by (simp add: utf8_lossy.simps [of s])
  qed (simp add: utf8_lossy.simps)
qed

section \<open>UTF-16\<close>

definition encode_utf8 :: "nat \<Rightarrow> string" where
  "encode_utf8 p =
     map char_of
       (if p < 0x80 then [p]
        else if p < 0x800 then [0xC0 + p div 64, 0x80 + p mod 64]
        else if p < 0x10000 then [0xE0 + p div 4096, 0x80 + p div 64 mod 64, 0x80 + p mod 64]
        else [0xF0 + p div 262144, 0x80 + p div 4096 mod 64, 0x80 + p div 64 mod 64, 0x80 + p mod 64])"

fun utf16_points :: "nat list \<Rightarrow> nat list" where
  "utf16_points [] = []"
| "utf16_points [u] = [if 0xD800 \<le> u \<and> u \<le> 0xDFFF then 0xFFFD else u]"
| "utf16_points (u # v # us) =
     (if u < 0xD800 \<or> 0xDFFF < u then u # utf16_points (v # us)
      else if u \<le> 0xDBFF \<and> 0xDC00 \<le> v \<and> v \<le> 0xDFFF
      then (0x10000 + (u - 0xD800) * 1024 + (v - 0xDC00)) # utf16_points us
      else 0xFFFD # utf16_points (v # us))"

text \<open>\<open>String::from_utf16_lossy\<close>.\<close>

definition utf16_lossy :: "nat list \<Rightarrow> string" where
  "utf16_lossy us = concat (map encode_utf8 (utf16_points us))"

section \<open>White space\<close>

text \<open>Bytes of the \<open>White_Space\<close> code point at the head, 0 when the head is none.\<close>

definition white_space_head :: "string \<Rightarrow> nat" where
  "white_space_head s =
     (let b = map byte_of (take 3 s) in
      if b = [] then 0
      else if (9 \<le> hd b \<and> hd b \<le> 13) \<or> hd b = 32 then 1
      else if take 2 b = [0xC2, 0x85] \<or> take 2 b = [0xC2, 0xA0] then 2
      else if b = [0xE1, 0x9A, 0x80] \<or> b = [0xE2, 0x81, 0x9F] \<or> b = [0xE3, 0x80, 0x80] then 3
      else if length b = 3 \<and> take 2 b = [0xE2, 0x80]
        \<and> ((0x80 \<le> b ! 2 \<and> b ! 2 \<le> 0x8A) \<or> b ! 2 = 0xA8 \<or> b ! 2 = 0xA9 \<or> b ! 2 = 0xAF) then 3
      else 0)"

text \<open>The tokens between white space; \<open>token\<close> is the one being read.\<close>

function split_ws :: "string \<Rightarrow> string \<Rightarrow> string list" where
  "split_ws token s =
     (if s = [] then (if token = [] then [] else [token])
      else if 0 < white_space_head s then
        (if token = [] then split_ws [] (drop (white_space_head s) s)
         else token # split_ws [] (drop (white_space_head s) s))
      else split_ws (token @ [hd s]) (tl s))"
  by pat_completeness auto
termination
  by (relation "measure (\<lambda>(_, s). length s)")
    (auto simp: white_space_head_def Let_def neq_Nil_conv split: if_splits)

declare split_ws.simps [simp del]

definition split_whitespace :: "string \<Rightarrow> string list" where
  "split_whitespace s = split_ws [] s"

text \<open>\<open>str::trim\<close> on white space.\<close>

function trim_start :: "string \<Rightarrow> string" where
  "trim_start s = (if 0 < white_space_head s then trim_start (drop (white_space_head s) s) else s)"
  by pat_completeness auto
termination
  by (relation "measure length") (auto simp: white_space_head_def Let_def split: if_splits)

declare trim_start.simps [simp del]

fun trim_end :: "string \<Rightarrow> string" where
  "trim_end [] = []"
| "trim_end (c # s) = (if trim_start (c # s) = [] then [] else c # trim_end s)"

definition trim :: "string \<Rightarrow> string" where
  "trim s = trim_end (trim_start s)"

text \<open>White space is no ASCII byte but the six.\<close>

lemma white_space_head_bytes:
  assumes "byte_of x < 128" "x \<in> set (take (white_space_head s) s)"
  shows "byte_of x \<in> {9, 10, 11, 12, 13, 32}"
proof (cases s)
  case (Cons a r)
  show ?thesis
  proof (cases r)
    case Nil
    then show ?thesis
      using assms Cons by (auto simp: white_space_head_def Let_def split: if_splits)
  next
    case r: (Cons b t)
    show ?thesis
    proof (cases t)
      case Nil
      then show ?thesis
        using assms Cons r by (auto simp: white_space_head_def Let_def numeral_2_eq_2 numeral_3_eq_3 split: if_splits)
    next
      case (Cons c u)
      then show ?thesis
        using assms \<open>s = a # r\<close> r by (auto simp: white_space_head_def Let_def numeral_2_eq_2 numeral_3_eq_3 split: if_splits)
    qed
  qed
qed (use assms in simp)

lemma trim_start_keeps:
  "byte_of x < 128 \<Longrightarrow> byte_of x \<notin> {9, 10, 11, 12, 13, 32} \<Longrightarrow> x \<in> set s \<Longrightarrow> x \<in> set (trim_start s)"
proof (induction s rule: trim_start.induct)
  case (1 s)
  show ?case
  proof (cases "0 < white_space_head s")
    case True
    have "x \<notin> set (take (white_space_head s) s)"
      using white_space_head_bytes [of x s] 1(2,3) by blast
    then have "x \<in> set (drop (white_space_head s) s)"
      using 1(4) by (metis Un_iff append_take_drop_id set_append)
    then show ?thesis
      using 1(1) [OF True 1(2,3)] True by (subst trim_start.simps) simp
  next
    case False
    then show ?thesis using 1(4) by (subst trim_start.simps) simp
  qed
qed

lemma trim_end_keeps:
  assumes "byte_of (last s) < 128" "byte_of (last s) \<notin> {9, 10, 11, 12, 13, 32}"
  shows "trim_end s = s"
  using assms
proof (induction s)
  case (Cons c s)
  have "last (c # s) \<in> set (trim_start (c # s))"
    by (rule trim_start_keeps) (use Cons.prems in auto)
  then have "trim_start (c # s) \<noteq> []" by auto
  then show ?case
    using Cons by (cases s) (auto split: if_splits)
qed simp

lemma trim_unchanged:
  assumes "s \<noteq> []" "byte_of (hd s) < 128" "byte_of (hd s) \<notin> {9, 10, 11, 12, 13, 32}"
    "byte_of (last s) < 128" "byte_of (last s) \<notin> {9, 10, 11, 12, 13, 32}"
  shows "trim s = s"
proof -
  have "white_space_head s = 0"
  proof (rule ccontr)
    assume "white_space_head s \<noteq> 0"
    then have "hd s \<in> set (take (white_space_head s) s)"
      using assms(1) by (cases s; cases "white_space_head s") auto
    then show False
      using white_space_head_bytes [of "hd s" s] assms(2,3) by simp
  qed
  then have "trim_start s = s"
    by (subst trim_start.simps) simp
  then show ?thesis
    using trim_end_keeps [OF assms(4,5)] by (simp add: trim_def)
qed

text \<open>\<open>chars().filter(|c| !c.is_whitespace())\<close>.\<close>

function without_white :: "string \<Rightarrow> string" where
  "without_white s =
     (if s = [] then []
      else if 0 < white_space_head s then without_white (drop (white_space_head s) s)
      else hd s # without_white (tl s))"
  by pat_completeness auto
termination
  by (relation "measure length") (auto simp: white_space_head_def Let_def neq_Nil_conv split: if_splits)

declare without_white.simps [simp del]

definition is_hex_digit :: "char \<Rightarrow> bool" where
  "is_hex_digit c \<longleftrightarrow> in_range 0x30 0x39 c \<or> in_range 0x41 0x46 c \<or> in_range 0x61 0x66 c"

section \<open>Searching\<close>

text \<open>The text before and after the first occurrence of a needle.\<close>

fun find_sub :: "string \<Rightarrow> string \<Rightarrow> (string \<times> string) option" where
  "find_sub needle [] = (if needle = [] then Some ([], []) else None)"
| "find_sub needle (c # s) =
     (if prefix needle (c # s) then Some ([], drop (length needle) (c # s))
      else map_option (\<lambda>(before, after). (c # before, after)) (find_sub needle s))"

lemma find_sub_length:
  "find_sub needle s = Some (b, a) \<Longrightarrow> length b + length needle + length a = length s"
  by (induction needle s arbitrary: b a rule: find_sub.induct)
    (auto simp: prefix_length_le split: if_splits dest: prefix_length_le)

text \<open>\<open>str::replace\<close> for a non-empty needle.\<close>

function replace_all :: "string \<Rightarrow> string \<Rightarrow> string \<Rightarrow> string" where
  "replace_all needle new s =
     (if needle = [] then s
      else case find_sub needle s of
        None \<Rightarrow> s
      | Some (before, after) \<Rightarrow> before @ new @ replace_all needle new after)"
  by auto
termination
  by (relation "measure (\<lambda>(needle, new, s). length s)")
    (auto dest!: find_sub_length simp flip: length_greater_0_conv)

declare replace_all.simps [simp del]

text \<open>A text in which the needle can start nowhere, whatever follows it.\<close>

definition starts_nowhere :: "string \<Rightarrow> string \<Rightarrow> bool" where
  "starts_nowhere needle t \<longleftrightarrow> list_all (\<lambda>i. needle \<parallel> drop i t) [0..<length t]"

lemma starts_nowhere_Cons: "starts_nowhere needle (c # t) \<longleftrightarrow> needle \<parallel> (c # t) \<and> starts_nowhere needle t"
proof -
  have "[0..<length (c # t)] = 0 # map Suc [0..<length t]"
    by (simp add: upt_conv_Cons map_Suc_upt del: upt_Suc)
  then show ?thesis
    by (simp only: starts_nowhere_def list.pred_inject list.pred_map comp_def drop_0 drop_Suc_Cons)
qed

lemma inert_Nil [simp]: "starts_nowhere needle []"
  by (simp add: starts_nowhere_def)

lemma find_sub_inert:
  "starts_nowhere needle t \<Longrightarrow> find_sub needle (t @ s) = map_option (\<lambda>(b, a). (t @ b, a)) (find_sub needle s)"
proof (induction t)
  case Nil
  then show ?case by (simp add: case_prod_unfold option.map_ident)
next
  case (Cons c t)
  then have "\<not> prefix needle ((c # t) @ s)"
    using prefix_same_cases [of needle "(c # t) @ s" "c # t"] by (auto simp: starts_nowhere_Cons parallel_def)
  then show ?case
    using Cons by (simp add: starts_nowhere_Cons option.map_comp comp_def case_prod_unfold)
qed

lemma replace_all_inert:
  "starts_nowhere needle t \<Longrightarrow> replace_all needle new (t @ s) = t @ replace_all needle new s"
  by (subst (1 2) replace_all.simps) (auto simp: find_sub_inert split: option.splits)

lemma replace_all_needle:
  assumes "needle \<noteq> []"
  shows "replace_all needle new (needle @ s) = new @ replace_all needle new s"
proof -
  have "find_sub needle (needle @ s) = Some ([], s)"
    using assms by (cases needle) auto
  then show ?thesis
    using assms by (subst replace_all.simps) simp
qed

lemma replace_all_Nil [simp]: "replace_all needle new [] = []"
  by (subst replace_all.simps) simp

text \<open>Token by token: a token is the needle, or the needle starts nowhere in it.\<close>

lemma replace_all_tokens:
  assumes "\<And>c. f c = needle \<and> g c = new \<or> starts_nowhere needle (f c) \<and> g c = f c" "needle \<noteq> []"
  shows "replace_all needle new (concat (map f s)) = concat (map g s)"
proof (induction s)
  case (Cons c s)
  then show ?case
    using assms(1) [of c] assms(2) by (auto simp: replace_all_needle replace_all_inert)
qed simp

text \<open>\<open>Display\<close> of an unsigned integer.\<close>

fun show_nat :: "nat \<Rightarrow> string" where
  "show_nat n = (if n < 10 then [char_of (48 + n)] else show_nat (n div 10) @ [char_of (48 + n mod 10)])"

declare show_nat.simps [simp del]

section \<open>IP literals\<close>

text \<open>\<open>read_number\<close>: digits of a radix, at most \<open>max_digits\<close> of them; \<open>None\<close> on no digit, on one
  digit too many, on a value that does not fit, and on a leading zero where that is not allowed.\<close>

definition digit_val :: "nat \<Rightarrow> char \<Rightarrow> nat option" where
  "digit_val radix c =
     (let n = byte_of c;
          v = (if 48 \<le> n \<and> n \<le> 57 then n - 48 else if 97 \<le> n \<and> n \<le> 102 then n - 87
               else if 65 \<le> n \<and> n \<le> 70 then n - 55 else 99) in
      if v < radix then Some v else None)"

definition take_digits :: "nat \<Rightarrow> string \<Rightarrow> nat list" where
  "take_digits radix s = map (\<lambda>c. the (digit_val radix c)) (takeWhile (\<lambda>c. digit_val radix c \<noteq> None) s)"

definition read_number :: "nat \<Rightarrow> nat \<Rightarrow> nat \<Rightarrow> bool \<Rightarrow> string \<Rightarrow> (nat \<times> string) option" where
  "read_number radix max_digits bound allow_zero s =
     (let ds = take_digits radix s; v = foldl (\<lambda>acc d. acc * radix + d) 0 ds in
      if ds = [] \<or> length ds > max_digits \<or> v > bound
         \<or> (\<not> allow_zero \<and> hd ds = 0 \<and> length ds > 1) then None
      else Some (v, drop (length ds) s))"

definition read_char :: "char \<Rightarrow> string \<Rightarrow> string option" where
  "read_char c s = (case s of x # r \<Rightarrow> if x = c then Some r else None | [] \<Rightarrow> None)"

fun read_octets :: "nat \<Rightarrow> string \<Rightarrow> string option" where
  "read_octets 0 s = Some s"
| "read_octets (Suc n) s =
     (case read_number 10 3 255 False s of
        None \<Rightarrow> None
      | Some (_, r) \<Rightarrow>
          if n = 0 then Some r
          else (case read_char CHR 0x2E r of None \<Rightarrow> None | Some r2 \<Rightarrow> read_octets n r2))"

definition read_ipv4 :: "string \<Rightarrow> string option" where
  "read_ipv4 s = read_octets 4 s"

text \<open>\<open>read_groups\<close>: how many of at most \<open>limit\<close> groups were read, whether an IPv4 tail ended them,
  and the rest of the input. \<open>i\<close> is the index of the group to read.\<close>

fun read_groups :: "nat \<Rightarrow> nat \<Rightarrow> string \<Rightarrow> nat \<times> bool \<times> string" where
  "read_groups 0 i s = (i, False, s)"
| "read_groups (Suc left) i s =
     (let sep = (if i = 0 then Some s else read_char CHR '':'' s) in
      case sep of
        None \<Rightarrow> (i, False, s)
      | Some r \<Rightarrow>
          (case (if 0 < left then read_ipv4 r else None) of
             Some r4 \<Rightarrow> (i + 2, True, r4)
           | None \<Rightarrow>
               (case read_number 16 4 0xFFFF True r of
                  None \<Rightarrow> (i, False, s)
                | Some (_, r6) \<Rightarrow> read_groups left (i + 1) r6)))"

definition read_ipv6 :: "string \<Rightarrow> string option" where
  "read_ipv6 s =
     (let (head_size, head_ipv4, r) = read_groups 8 0 s in
      if head_size = 8 then Some r
      else if head_ipv4 then None
      else
        (case Option.bind (read_char CHR '':'' r) (read_char CHR '':'') of
           None \<Rightarrow> None
         | Some r2 \<Rightarrow> (let (_, _, r3) = read_groups (8 - (head_size + 1)) 0 r2 in Some r3)))"

definition is_ip_addr :: "string \<Rightarrow> bool" where
  "is_ip_addr s \<longleftrightarrow>
     (case (case read_ipv4 s of Some r \<Rightarrow> Some r | None \<Rightarrow> read_ipv6 s) of
        Some r \<Rightarrow> r = [] | None \<Rightarrow> False)"

end
