(* ===== verification/Domain_Load.thy ===== *)
theory Domain_Load
  imports Domain_Filter Std_Text
begin

text \<open>
  The list loaders of \<open>crates/dnsguard/src/filter.rs\<close>. A reader is the bytes it delivers and how it
  ends: at end of file, or with a read that fails for good - with the \<open>InvalidData\<close> kind or another.
  \<open>Take\<close> cuts the bytes at the budget plus one; \<open>lines()\<close> then yields decoded lines, undecodable
  ones and failures, each with the bytes it consumed.
\<close>

section \<open>The reader\<close>

datatype read_end = Eof | Fails_Invalid_Data | Fails_Other

record source =
  src_bytes :: string
  src_end :: read_end

datatype line_item = Line string nat | Undecodable nat | Broken nat

text \<open>\<open>lines()\<close> drops the newline and a carriage return before it.\<close>

definition strip_newline :: "string \<Rightarrow> string" where
  "strip_newline s =
     (if s \<noteq> [] \<and> last s = CHR 0x0A
      then (let t = butlast s in if t \<noteq> [] \<and> last t = CHR 0x0D then butlast t else t)
      else s)"

definition decode_line :: "string \<Rightarrow> line_item" where
  "decode_line raw =
     (if utf8_valid raw then Line (strip_newline raw) (length raw) else Undecodable (length raw))"

text \<open>A read that fails after the last whole line loses the bytes behind it; one that keeps failing
  without consuming is met again by every later call, of which the loop makes at most 65.\<close>

definition failing_tail :: "read_end \<Rightarrow> nat \<Rightarrow> line_item list" where
  "failing_tail how pending =
     (case how of
        Eof \<Rightarrow> []
      | Fails_Invalid_Data \<Rightarrow> Undecodable pending # replicate 64 (Undecodable 0)
      | Fails_Other \<Rightarrow> [Broken pending])"

function line_items :: "read_end \<Rightarrow> string \<Rightarrow> line_item list" where
  "line_items how s =
     (if CHR 0x0A \<in> set s then
        (let n = length (takeWhile (\<lambda>c. c \<noteq> CHR 0x0A) s) + 1 in
         decode_line (take n s) # line_items how (drop n s))
      else if how = Eof then (if s = [] then [] else [decode_line s])
      else failing_tail how (length s))"
  by pat_completeness auto
termination
  by (relation "measure (\<lambda>(_, s). length s)") (auto intro!: diff_less length_pos_if_in_set)

declare line_items.simps [simp del]

text \<open>\<open>reader.take(limit).lines()\<close>: a source with at least \<open>limit\<close> bytes ends at the limit.\<close>

definition limited_lines :: "nat \<Rightarrow> source \<Rightarrow> line_item list" where
  "limited_lines limit src =
     (if limit \<le> length (src_bytes src) then line_items Eof (take limit (src_bytes src))
      else line_items (src_end src) (src_bytes src))"

section \<open>The ingest loop\<close>

record hosts_load_stats =
  lines_read :: nat
  bytes_read :: nat
  rules_added :: nat
  lines_skipped :: nat
  hosts_rejected :: nat
  load_truncated :: bool

definition no_stats :: hosts_load_stats where
  "no_stats = \<lparr>lines_read = 0, bytes_read = 0, rules_added = 0, lines_skipped = 0,
     hosts_rejected = 0, load_truncated = False\<rparr>"

datatype io_error = Invalid_Data | Other_Error

type_synonym line_parser = "string \<Rightarrow> nat \<Rightarrow> filter_engine \<Rightarrow> (nat \<times> nat) \<times> filter_engine"

text \<open>\<open>used\<close> is what the \<open>take\<close> has consumed; \<open>limit () == 0\<close> after the loop means all of it.\<close>

fun ingest_loop ::
    "line_parser \<Rightarrow> nat \<Rightarrow> nat \<Rightarrow> nat \<Rightarrow> line_item list \<Rightarrow> nat \<Rightarrow> hosts_load_stats \<Rightarrow> nat
     \<Rightarrow> filter_engine \<Rightarrow> (io_error + hosts_load_stats \<times> nat) \<times> filter_engine" where
  "ingest_loop parse max_lines max_bytes max_rules [] run st used e = (Inr (st, used), e)"
| "ingest_loop parse max_lines max_bytes max_rules (Broken n # items) run st used e =
     (if rules_added st = 0 then (Inl Other_Error, e)
      else (Inr (st\<lparr>load_truncated := True\<rparr>, used + n), e))"
| "ingest_loop parse max_lines max_bytes max_rules (Undecodable n # items) run st used e =
     (if run < MAX_CONSECUTIVE_UNDECODABLE then
        (if lines_read st \<ge> max_lines then (Inr (st\<lparr>load_truncated := True\<rparr>, used + n), e)
         else ingest_loop parse max_lines max_bytes max_rules items (run + 1)
                (st\<lparr>lines_read := lines_read st + 1, lines_skipped := lines_skipped st + 1,
                    hosts_rejected := hosts_rejected st + 1\<rparr>) (used + n) e)
      else if rules_added st = 0 then (Inl Invalid_Data, e)
      else (Inr (st\<lparr>load_truncated := True\<rparr>, used + n), e))"
| "ingest_loop parse max_lines max_bytes max_rules (Line s n # items) run st used e =
     (let line_bytes = length s + 1 in
      if lines_read st \<ge> max_lines \<or> bytes_read st + line_bytes > max_bytes
      then (Inr (st\<lparr>load_truncated := True\<rparr>, used + n), e)
      else
        let st1 = st\<lparr>lines_read := lines_read st + 1, bytes_read := bytes_read st + line_bytes\<rparr>;
            ((added, rejected), e1) = parse s (max_rules - rules_added st1) e;
            st2 = st1\<lparr>rules_added := rules_added st1 + added,
                      hosts_rejected := hosts_rejected st1 + rejected,
                      lines_skipped := lines_skipped st1 + (if added = 0 then 1 else 0)\<rparr> in
        if rules_added st2 \<ge> max_rules
        then (Inr (st2\<lparr>load_truncated := True\<rparr>, used + n), e1)
        else ingest_loop parse max_lines max_bytes max_rules items 0 st2 (used + n) e1)"

definition ingest_lines ::
    "line_parser \<Rightarrow> nat \<Rightarrow> nat \<Rightarrow> nat \<Rightarrow> source \<Rightarrow> filter_engine
     \<Rightarrow> (io_error + hosts_load_stats) \<times> filter_engine" where
  "ingest_lines parse max_lines max_bytes max_rules src e =
     (let limit = max_bytes + 1 in
      case ingest_loop parse max_lines max_bytes max_rules (limited_lines limit src) 0 no_stats 0 e of
        (Inl err, e') \<Rightarrow> (Inl err, e')
      | (Inr (st, used), e') \<Rightarrow>
          (Inr (if used = limit then st\<lparr>load_truncated := True\<rparr> else st), e'))"

section \<open>The two line formats\<close>

definition strip_comment :: "string \<Rightarrow> string" where
  "strip_comment line = takeWhile (\<lambda>c. c \<noteq> CHR 0x23) line"

fun add_hosts ::
    "list_kind \<Rightarrow> nat \<Rightarrow> string list \<Rightarrow> nat \<Rightarrow> nat \<Rightarrow> filter_engine \<Rightarrow> (nat \<times> nat) \<times> filter_engine" where
  "add_hosts kind room [] added rejected e = ((added, rejected), e)"
| "add_hosts kind room (host # hosts) added rejected e =
     (if added \<ge> room then ((added, rejected), e)
      else
        (case add_rule kind host ExactRule e of
           (True, e') \<Rightarrow> add_hosts kind room hosts (added + 1) rejected e'
         | (False, e') \<Rightarrow> add_hosts kind room hosts added (rejected + 1) e'))"

definition parse_hosts_line :: "list_kind \<Rightarrow> line_parser" where
  "parse_hosts_line kind line room e =
     (case split_whitespace (strip_comment line) of
        [] \<Rightarrow> ((0, 0), e)
      | ip # hosts \<Rightarrow> if is_ip_addr ip then add_hosts kind room hosts 0 0 e else ((0, 0), e))"

definition parse_domain_list_line :: "list_kind \<Rightarrow> domain_list_policy \<Rightarrow> line_parser" where
  "parse_domain_list_line kind policy line room e =
     (case split_whitespace (strip_comment line) of
        [] \<Rightarrow> ((0, 0), e)
      | [token] \<Rightarrow>
          (case add_rule kind token (rule_kind_from policy) e of
             (True, e') \<Rightarrow> ((1, 0), e') | (False, e') \<Rightarrow> ((0, 1), e'))
      | _ \<Rightarrow> ((0, 1), e))"

definition load_hosts_with_limit ::
    "list_kind \<Rightarrow> nat \<Rightarrow> nat \<Rightarrow> nat \<Rightarrow> source \<Rightarrow> filter_engine
     \<Rightarrow> (io_error + hosts_load_stats) \<times> filter_engine" where
  "load_hosts_with_limit kind max_lines max_bytes max_rules =
     ingest_lines (parse_hosts_line kind) max_lines max_bytes max_rules"

definition load_domain_list_with_limit ::
    "list_kind \<Rightarrow> domain_list_policy \<Rightarrow> nat \<Rightarrow> nat \<Rightarrow> nat \<Rightarrow> source \<Rightarrow> filter_engine
     \<Rightarrow> (io_error + hosts_load_stats) \<times> filter_engine" where
  "load_domain_list_with_limit kind policy max_lines max_bytes max_rules =
     ingest_lines (parse_domain_list_line kind policy) max_lines max_bytes max_rules"

definition load_hosts ::
    "list_kind \<Rightarrow> source \<Rightarrow> filter_engine \<Rightarrow> (io_error + hosts_load_stats) \<times> filter_engine" where
  "load_hosts kind = load_hosts_with_limit kind MAX_HOSTS_LINES MAX_HOSTS_BYTES MAX_HOSTS_RULES"

definition load_domain_list ::
    "list_kind \<Rightarrow> domain_list_policy \<Rightarrow> source \<Rightarrow> filter_engine
     \<Rightarrow> (io_error + hosts_load_stats) \<times> filter_engine" where
  "load_domain_list kind policy =
     load_domain_list_with_limit kind policy MAX_HOSTS_LINES MAX_HOSTS_BYTES MAX_HOSTS_RULES"

end
