(* ===== verification/Wire_Build.thy ===== *)
theory Wire_Build
  imports Wire
begin

text \<open>
  The packet builders of \<open>crates/dnsguard/src/wire.rs\<close>: client-side queries (\<open>build_query\<close>), the
  clean query sent upstream (\<open>build_upstream_query\<close>), and the locally made answers: truncated,
  error and zero-IP responses.
\<close>

section \<open>Queries\<close>

definition bytes_of :: "string \<Rightarrow> u8 list" where
  "bytes_of s = map (\<lambda>c. word_of_nat (of_char c)) s"

fun encode_labels :: "nat \<Rightarrow> string list \<Rightarrow> u8 list option" where
  "encode_labels wire_len [] = Some []"
| "encode_labels wire_len (label # labels) =
     (if label = [] \<or> length label > MAX_LABEL_LEN then None
      else
        let wire_len' = wire_len + (1 + length label) in
        if wire_len' > MAX_NAME_WIRE_LEN then None
        else
          map_option (\<lambda>rest. word_of_nat (length label) # bytes_of label @ rest)
            (encode_labels wire_len' labels))"

definition build_query :: "u16 \<Rightarrow> string \<Rightarrow> u16 \<Rightarrow> u16 \<Rightarrow> u8 list option" where
  "build_query txid qname0 qtype qclass =
     (let qname = trim_end_matches CHR 0x2E qname0;
          out = to_be16 txid @ to_be16 FLAG_RD @ to_be16 1 @ [0, 0, 0, 0, 0, 0];
          labels = (if qname \<noteq> [] then split_on CHR 0x2E qname else []) in
      map_option (\<lambda>enc. out @ enc @ [0] @ to_be16 qtype @ to_be16 qclass)
        (encode_labels 1 labels))"

definition build_upstream_query ::
    "u16 \<Rightarrow> u8 list \<Rightarrow> bool \<Rightarrow> (u16 \<times> bool) option \<Rightarrow> u8 list" where
  "build_upstream_query txid question checking_disabled edns =
     (let flags = FLAG_RD OR (if checking_disabled then FLAG_CD else 0);
          out = to_be16 txid @ to_be16 flags @ to_be16 1 @ [0, 0, 0, 0]
                @ to_be16 (if edns \<noteq> None then 1 else 0) @ question in
      (case edns of
         None \<Rightarrow> out
       | Some (udp_size, dnssec_ok) \<Rightarrow>
           out @ [0] @ to_be16 41 @ to_be16 (word_of_nat (clamp_edns_udp_size udp_size))
           @ [0, 0, if dnssec_ok then 0x80 else 0, 0] @ [0, 0]))"

section \<open>Local answers\<close>

text \<open>\<open>parse_query(request).ok().map(|q| &request[HEADER_LEN..q.question_end])\<close>\<close>

definition request_question :: "u8 list \<Rightarrow> u8 list option" where
  "request_question request =
     (case parse_query request of
        Inl _ \<Rightarrow> None
      | Inr q \<Rightarrow> Some (slice HEADER_LEN (q_question_end q) request))"

definition echo_response :: "u8 list \<Rightarrow> u16 \<Rightarrow> u8 list" where
  "echo_response request flags =
     (let question = request_question request in
      take 2 request @ to_be16 flags @ to_be16 (if question \<noteq> None then 1 else 0)
      @ [0, 0, 0, 0, 0, 0] @ (case question of None \<Rightarrow> [] | Some q \<Rightarrow> q))"

definition build_truncated_response :: "u8 list \<Rightarrow> u8 \<Rightarrow> u8 list option" where
  "build_truncated_response request rcode =
     (if length request < HEADER_LEN then None
      else
        let flags_in = be16 (request ! 2) (request ! 3);
            flags = FLAG_QR OR (flags_in AND FLAG_OPCODE_MASK) OR (flags_in AND FLAG_RD)
                    OR (flags_in AND FLAG_CD) OR FLAG_RA OR FLAG_TC OR ucast (rcode AND 0x0F) in
        Some (echo_response request flags))"

definition build_error_response :: "u8 list \<Rightarrow> u8 \<Rightarrow> bool \<Rightarrow> u8 list option" where
  "build_error_response request rcode aa =
     (if length request < HEADER_LEN then None
      else
        let flags_in = be16 (request ! 2) (request ! 3);
            flags = FLAG_QR OR (flags_in AND FLAG_OPCODE_MASK) OR (flags_in AND FLAG_RD)
                    OR (flags_in AND FLAG_CD) OR FLAG_RA OR (if aa then FLAG_AA else 0)
                    OR ucast (rcode AND 0x0F) in
        Some (echo_response request flags))"

definition build_zero_ip_response :: "u8 list \<Rightarrow> u32 \<Rightarrow> u8 list option" where
  "build_zero_ip_response request ttl =
     (case parse_query request of
        Inl _ \<Rightarrow> None
      | Inr q \<Rightarrow>
          if q_qtype q = TYPE_A \<or> q_qtype q = TYPE_AAAA then
            (let rdata = (if q_qtype q = TYPE_A then replicate 4 0 else replicate 16 0) :: u8 list;
                 flags_in = be16 (request ! 2) (request ! 3);
                 flags = FLAG_QR OR (flags_in AND FLAG_OPCODE_MASK) OR (flags_in AND FLAG_RD)
                         OR (flags_in AND FLAG_CD) OR FLAG_RA OR FLAG_AA;
                 question = slice HEADER_LEN (q_question_end q) request in
             Some (take 2 request @ to_be16 flags @ to_be16 1 @ to_be16 1 @ [0, 0, 0, 0]
                   @ question @ [0xC0, 0x0C] @ to_be16 (q_qtype q) @ to_be16 (q_qclass q)
                   @ to_be32 ttl @ to_be16 (word_of_nat (length rdata)) @ rdata))
          else build_error_response request RCODE_NXDOMAIN True)"

end
