(* ===== verification/Wire_Edns.thy ===== *)
theory Wire_Edns
  imports Wire_Build
begin

text \<open>
  OPT handling on responses, from \<open>crates/dnsguard/src/wire.rs\<close>: where the additional section
  starts, the span of one record, removing every OPT record and appending the requester's own.
\<close>

definition additional_record_span :: "u8 list \<Rightarrow> nat \<Rightarrow> (nat \<times> bool) option" where
  "additional_record_span resp offset =
     (case skip_name resp offset of
        None \<Rightarrow> None
      | Some after_name \<Rightarrow>
          (case read_u16 resp after_name of
             None \<Rightarrow> None
           | Some rtype \<Rightarrow>
               (case Option.bind (usize_checked_add after_name 8) (read_u16 resp) of
                  None \<Rightarrow> None
                | Some rdlen \<Rightarrow>
                    (case Option.bind (usize_checked_add after_name 10)
                            (\<lambda>p. usize_checked_add p (unat rdlen)) of
                       None \<Rightarrow> None
                     | Some end \<Rightarrow>
                         if end > length resp then None else Some (end, rtype = TYPE_OPT)))))"

fun skip_records :: "nat \<Rightarrow> u8 list \<Rightarrow> nat \<Rightarrow> nat option" where
  "skip_records 0 resp offset = Some offset"
| "skip_records (Suc n) resp offset =
     (case additional_record_span resp offset of
        None \<Rightarrow> None
      | Some (end, _) \<Rightarrow> skip_records n resp end)"

definition additional_section_start :: "u8 list \<Rightarrow> (nat \<times> u16) option" where
  "additional_section_start resp =
     (if length resp < HEADER_LEN then None
      else
        (case (read_u16 resp 4, read_u16 resp 6, read_u16 resp 8, read_u16 resp 10) of
           (Some qdcount, Some ancount, Some nscount, Some arcount) \<Rightarrow>
             (case skip_questions (unat qdcount) resp HEADER_LEN of
                None \<Rightarrow> None
              | Some offset \<Rightarrow>
                  map_option (\<lambda>offset'. (offset', arcount))
                    (skip_records (unat ancount + unat nscount) resp offset))
         | _ \<Rightarrow> None))"

text \<open>The loop of \<open>strip_opt_records\<close>: the kept bytes, the kept count and the end offset, or \<open>None\<close>
  where a record does not parse and the source returns the response untouched.\<close>

fun strip_loop :: "nat \<Rightarrow> u8 list \<Rightarrow> nat \<Rightarrow> u8 list \<Rightarrow> u16 \<Rightarrow> (u8 list \<times> u16 \<times> nat) option" where
  "strip_loop 0 resp offset out kept = Some (out, kept, offset)"
| "strip_loop (Suc n) resp offset out kept =
     (case additional_record_span resp offset of
        None \<Rightarrow> None
      | Some (end, is_opt) \<Rightarrow>
          if \<not> is_opt then strip_loop n resp end (out @ slice offset end resp) (kept + 1)
          else strip_loop n resp end out kept)"

definition strip_opt_records :: "u8 list \<Rightarrow> u8 list" where
  "strip_opt_records resp =
     (case additional_section_start resp of
        None \<Rightarrow> resp
      | Some (ar_start, arcount) \<Rightarrow>
          if arcount = 0 then resp
          else
            (case strip_loop (unat arcount) resp ar_start (take ar_start resp) 0 of
               None \<Rightarrow> resp
             | Some (out, kept, offset) \<Rightarrow>
                 let out' = out @ drop offset resp in
                 take 10 out' @ to_be16 kept @ drop 12 out'))"

definition append_client_opt :: "u8 list \<Rightarrow> u16 \<Rightarrow> bool \<Rightarrow> u8 list" where
  "append_client_opt resp udp_size dnssec_ok =
     (if length resp < HEADER_LEN then resp
      else
        (case read_u16 resp 10 of
           None \<Rightarrow> resp
         | Some arcount \<Rightarrow>
             if unat arcount + 1 \<ge> 65536 then resp
             else
               let resp' = resp @ [0x00] @ to_be16 TYPE_OPT @ to_be16 udp_size
                           @ [0, 0, if dnssec_ok then 0x80 else 0, 0] @ [0, 0] in
               take 10 resp' @ to_be16 (arcount + 1) @ drop 12 resp'))"

end
