(* ===== verification/Wire_Names.thy ===== *)
theory Wire_Names
  imports Wire
begin

text \<open>
  What a wire name is: a list of labels. This theory states the encoding and the presentation form
  of a label list without offsets or loops, and shows that the byte-level routines of \<open>Wire\<close>
  (\<open>parse_question_name\<close>, \<open>skip_name\<close>) accept exactly the encodings, that the escaped
  presentation determines the labels, and how far a cursor moves.
\<close>

section \<open>Bytes\<close>

lemma top_bits_zero_iff: "(len :: u8) AND 0xC0 = 0 \<longleftrightarrow> unat len < 64"
proof -
  have "len AND 0xC0 = push_bit 6 (take_bit 2 (drop_bit 6 len))"
    using slice_eq_mask [of 6 2 len] by (simp add: mask_eq_exp_minus_1)
  moreover have "take_bit 2 (drop_bit 6 len) = drop_bit 6 len"
    by (rule bit_word_eqI) (auto simp: bit_simps dest: bit_imp_le_length)
  moreover have "push_bit 6 (drop_bit 6 len) = 0 \<longleftrightarrow> drop_bit 6 len = 0"
    using bits_ident [of 6 len] take_bit_eq_self_iff_drop_bit_eq_0 [of 6 len] by auto
  moreover have "drop_bit 6 len = 0 \<longleftrightarrow> unat len div 64 = 0"
  proof -
    have "drop_bit 6 len = 0 \<longleftrightarrow> unat (drop_bit 6 len) = 0" by (rule unat_eq_0 [symmetric])
    also have "unat (drop_bit 6 len) = unat len div 64"
      by (simp only: unat_drop_bit_eq) (simp add: drop_bit_eq_div)
    finally show ?thesis .
  qed
  ultimately show ?thesis by (simp add: div_eq_0_iff)
qed

lemma drop_get_at: "get_at bs i = Some b \<Longrightarrow> drop i bs = b # drop (Suc i) bs"
  by (auto simp: get_at_def Cons_nth_drop_Suc split: if_splits)

lemma get_at_drop: "drop i bs = b # rest \<Longrightarrow> get_at bs i = Some b"
  by (metis drop_all get_at_def leI list.distinct(1) list.sel(1) hd_drop_conv_nth)

section \<open>Label lists\<close>

definition label_ok :: "u8 list \<Rightarrow> bool" where
  "label_ok l \<longleftrightarrow> 0 < length l \<and> length l \<le> 63"

definition encode_name :: "u8 list list \<Rightarrow> u8 list" where
  "encode_name ls = concat (map (\<lambda>l. word_of_nat (length l) # l) ls) @ [0]"

definition name_ok :: "u8 list list \<Rightarrow> bool" where
  "name_ok ls \<longleftrightarrow> list_all label_ok ls \<and> length (encode_name ls) \<le> 255"

definition escape_label :: "u8 list \<Rightarrow> string" where
  "escape_label l = concat (map escape_byte l)"

definition present :: "u8 list list \<Rightarrow> string" where
  "present ls = join_with CHR 0x2E (map escape_label ls)"

lemma encode_name_Nil [simp]: "encode_name [] = [0]"
  by (simp add: encode_name_def)

lemma encode_name_Cons [simp]: "encode_name (l # ls) = word_of_nat (length l) # l @ encode_name ls"
  by (simp add: encode_name_def)

lemma encode_name_nonempty [simp]: "encode_name ls \<noteq> []"
  by (simp add: encode_name_def)

lemma label_length_byte:
  "label_ok l \<Longrightarrow> unat (word_of_nat (length l) :: u8) = length l"
  "label_ok l \<Longrightarrow> (word_of_nat (length l) :: u8) \<noteq> 0"
  "label_ok l \<Longrightarrow> (word_of_nat (length l) :: u8) AND 0xC0 = 0"
proof -
  assume ok: "label_ok l"
  then show 1: "unat (word_of_nat (length l) :: u8) = length l"
    by (intro unat_of_nat_u8) (simp add: label_ok_def)
  show "(word_of_nat (length l) :: u8) \<noteq> 0"
    using 1 ok unfolding label_ok_def by (metis less_numeral_extra(3) unsigned_0)
  show "(word_of_nat (length l) :: u8) AND 0xC0 = 0"
    using 1 ok unfolding label_ok_def top_bits_zero_iff by simp
qed

fun append_labels :: "string \<Rightarrow> u8 list list \<Rightarrow> string" where
  "append_labels nm [] = nm"
| "append_labels nm (l # ls) =
     append_labels (push_label_escaped (if nm = [] then nm else nm @ [CHR 0x2E]) l) ls"

lemma escape_byte_nonempty [simp]: "escape_byte b \<noteq> []"
  by (simp add: escape_byte_def)

lemma escape_label_nonempty [simp]: "label_ok l \<Longrightarrow> escape_label l \<noteq> []"
  by (cases l) (auto simp: escape_label_def label_ok_def)

lemma join_with_merge: "join_with d (p # q # ps) = join_with d ((p @ d # q) # ps)"
  by (cases ps) simp_all

lemma append_labels_present:
  "list_all label_ok ls \<Longrightarrow> nm \<noteq> [] \<Longrightarrow>
   append_labels nm ls = join_with CHR 0x2E (nm # map escape_label ls)"
proof (induction ls arbitrary: nm)
  case (Cons l ls)
  then show ?case
    by (simp add: push_label_escaped_def join_with_merge del: join_with.simps(3)
        flip: escape_label_def)
qed simp

lemma append_labels_Nil: "list_all label_ok ls \<Longrightarrow> append_labels [] ls = present ls"
proof (cases ls)
  case (Cons l ls')
  assume "list_all label_ok ls"
  with Cons show ?thesis
    using append_labels_present [of ls' "escape_label l"]
    by (simp add: present_def push_label_escaped_def flip: escape_label_def)
qed (simp add: present_def)

section \<open>The name parser accepts exactly the encodings\<close>

lemma question_name_loop_sound:
  "question_name_loop bs i nm wl = Inr (nm', e) \<Longrightarrow> wl \<le> 255 \<Longrightarrow>
   \<exists>ls rest. list_all label_ok ls \<and> drop i bs = encode_name ls @ rest \<and>
     e = i + length (encode_name ls) \<and> nm' = append_labels nm ls \<and>
     wl + length (encode_name ls) \<le> 256"
proof (induction bs i nm wl rule: question_name_loop.induct)
  case (1 bs i nm wl)
  note run = \<open>question_name_loop bs i nm wl = Inr (nm', e)\<close>
  obtain len where len: "get_at bs i = Some len"
    using run by (subst (asm) question_name_loop.simps) (auto split: option.splits)
  show ?case
  proof (cases "len = 0")
    case True
    then show ?thesis
      using run len drop_get_at [OF len] \<open>wl \<le> 255\<close>
      by (subst (asm) question_name_loop.simps) (auto intro!: exI [of _ "[]"] exI [of _ "drop (Suc i) bs"])
  next
    case False
    define end' where "end' = i + 1 + unat len"
    have ok: "len AND 0xC0 = 0" "end' \<le> length bs" "wl + (1 + unat len) \<le> 255"
      and rec: "question_name_loop bs end'
          (push_label_escaped (if nm = [] then nm else nm @ [CHR 0x2E]) (slice (i + 1) end' bs))
          (wl + (1 + unat len)) = Inr (nm', e)"
      using run len False unfolding end'_def
      by (subst (asm) question_name_loop.simps; simp add: Let_def split: if_splits)+
    let ?l = "slice (i + 1) end' bs"
    obtain ls rest where ih: "list_all label_ok ls" "drop end' bs = encode_name ls @ rest"
        "e = end' + length (encode_name ls)"
        "nm' = append_labels (push_label_escaped (if nm = [] then nm else nm @ [CHR 0x2E]) ?l) ls"
        "wl + (1 + unat len) + length (encode_name ls) \<le> 256"
      using 1(1) [OF len False _ _ end'_def _ refl _ refl rec] ok
      by (auto simp: end'_def)
    have l: "length ?l = unat len"
      using ok by (simp add: end'_def)
    have "unat len \<noteq> 0" using False by (simp add: unat_eq_0)
    then have "label_ok ?l"
      using l ok(1) by (simp add: label_ok_def top_bits_zero_iff)
    moreover have "drop i bs = len # ?l @ drop end' bs"
    proof -
      have "?l = take (unat len) (drop (Suc i) bs)"
        by (simp add: slice_def end'_def)
      moreover have "drop end' bs = drop (unat len) (drop (Suc i) bs)"
        by (simp add: end'_def add.commute)
      ultimately show ?thesis
        by (simp only: append_take_drop_id drop_get_at [OF len])
    qed
    ultimately show ?thesis
      using ih l by (intro exI [of _ "?l # ls"] exI [of _ rest]) (simp add: end'_def)
  qed
qed

lemma question_name_loop_complete:
  "list_all label_ok ls \<Longrightarrow> drop i bs = encode_name ls @ rest \<Longrightarrow>
   wl + length (encode_name ls) \<le> 256 \<Longrightarrow>
   question_name_loop bs i nm wl = Inr (append_labels nm ls, i + length (encode_name ls))"
proof (induction ls arbitrary: i nm wl)
  case Nil
  then show ?case
    by (subst question_name_loop.simps) (simp add: get_at_drop)
next
  case (Cons l ls)
  let ?n = "word_of_nat (length l) :: u8"
  have ok: "label_ok l" using Cons.prems(1) by simp
  note byte = label_length_byte [OF ok]
  have at: "get_at bs i = Some ?n"
    using Cons.prems(2) by (auto intro: get_at_drop)
  have dr: "drop (i + 1 + length l) bs = encode_name ls @ rest"
    using arg_cong [OF Cons.prems(2), of "drop (1 + length l)"] by (simp add: add.commute)
  have sl: "slice (i + 1) (i + 1 + length l) bs = l"
    using arg_cong [OF Cons.prems(2), of "drop 1"] by (simp add: slice_def)
  have len: "i + 1 + length l \<le> length bs"
    using dr encode_name_nonempty [of ls] by (metis drop_all append_is_Nil_conv linear)
  have wl: "wl + (1 + length l) \<le> 255"
    using Cons.prems(3) encode_name_nonempty [of ls] by (cases "encode_name ls") auto
  show ?case
    using Cons.IH [OF _ dr, of "wl + (1 + length l)"] Cons.prems byte at sl len wl
    by (subst question_name_loop.simps) (simp add: Let_def)
qed

lemma drop_eq_slice: "drop i bs = enc @ rest \<Longrightarrow> slice i (i + length enc) bs = enc"
  by (simp add: slice_def)

lemma drop_eq_bound:
  assumes "drop i bs = enc @ rest" "enc \<noteq> []"
  shows "i + length enc \<le> length bs"
proof -
  have "length bs - i = length enc + length rest"
    using arg_cong [OF assms(1), of length] by simp
  with assms(2) show ?thesis by (cases enc) auto
qed

lemma parse_question_name_sound:
  assumes "parse_question_name bs i = Inr (nm, e)"
  obtains ls rest where "name_ok ls" "drop i bs = encode_name ls @ rest"
    "e = i + length (encode_name ls)" "nm = present ls"
  using question_name_loop_sound [OF assms [unfolded parse_question_name_def]]
  by (auto simp: name_ok_def append_labels_Nil)

lemma parse_question_name_complete:
  "name_ok ls \<Longrightarrow> drop i bs = encode_name ls @ rest \<Longrightarrow>
   parse_question_name bs i = Inr (present ls, i + length (encode_name ls))"
  unfolding parse_question_name_def name_ok_def
  by (subst question_name_loop_complete) (auto simp: append_labels_Nil)

section \<open>The presentation determines the labels\<close>

definition unescape_byte :: "string \<Rightarrow> u8 \<times> string" where
  "unescape_byte s =
     (case s of
        c # rest \<Rightarrow>
          if c \<noteq> CHR 0x5C then (word_of_nat (of_char c), rest)
          else if hd rest = CHR 0x2E \<or> hd rest = CHR 0x5C then (word_of_nat (of_char (hd rest)), tl rest)
          else (word_of_nat (100 * (of_char (rest ! 0) - 48) + 10 * (of_char (rest ! 1) - 48)
                  + (of_char (rest ! 2) - 48)), drop 3 rest)
      | [] \<Rightarrow> (0, []))"

lemma of_char_digit: "d \<le> 9 \<Longrightarrow> (of_char (digit_char d) :: nat) = 48 + d"
  by (simp add: digit_char_def)

lemma digit_char_neq: "d \<le> 9 \<Longrightarrow> digit_char d \<noteq> CHR 0x2E \<and> digit_char d \<noteq> CHR 0x5C"
  by (auto simp: of_char_digit dest: arg_cong [of _ _ "of_char :: char \<Rightarrow> nat"])

lemma decimal_digits: "(n :: nat) = 100 * (n div 100) + 10 * (n div 10 mod 10) + n mod 10"
proof -
  have "n div 100 = n div 10 div 10" using div_mult2_eq [of n 10 10] by simp
  moreover have "10 * (n div 10 div 10) + n div 10 mod 10 = n div 10" "10 * (n div 10) + n mod 10 = n"
    by (rule mult_div_mod_eq)+
  ultimately show ?thesis by linarith
qed

lemma of_char_printable: "(of_char (char_of (unat (b :: u8))) :: nat) = unat b"
  by simp

lemma char_of_u8_eq: "char_of (unat (b :: u8)) = c \<longleftrightarrow> b = word_of_nat (of_char c)"
proof
  show "b = word_of_nat (of_char c)" if "char_of (unat b) = c"
    using that of_char_printable [of b] by auto
  show "char_of (unat b) = c" if "b = word_of_nat (of_char c)"
    using that by (simp add: unat_of_nat_u8)
qed

lemma unescape_escape [simp]: "unescape_byte (escape_byte b @ rest) = (b, rest)"
proof -
  have "unat b < 10 * 100" using unat_u8_less [of b] by linarith
  then have "unat b div 100 < 10" by (rule less_mult_imp_div_less)
  then have "unat b div 100 \<le> 9" by simp
  then show ?thesis
    using of_char_printable [of b] decimal_digits [of "unat b"]
    by (auto simp: unescape_byte_def escape_byte_def digit_char_neq of_char_digit char_of_u8_eq)
qed

lemma escape_byte_hd [simp]: "hd (escape_byte b) \<noteq> CHR 0x2E"
  by (simp add: escape_byte_def char_of_u8_eq)

text \<open>What follows a label in a presentation is nothing or a dot.\<close>

definition dot_tail :: "string \<Rightarrow> bool" where
  "dot_tail s \<longleftrightarrow> s = [] \<or> hd s = CHR 0x2E"

lemma escape_label_Nil [simp]: "escape_label [] = []"
  by (simp add: escape_label_def)

lemma escape_label_Cons [simp]: "escape_label (b # l) = escape_byte b @ escape_label l"
  by (simp add: escape_label_def)

lemma escape_label_inj:
  "escape_label l @ s = escape_label k @ t \<Longrightarrow> dot_tail s \<Longrightarrow> dot_tail t \<Longrightarrow> l = k \<and> s = t"
proof (induction l arbitrary: k)
  case Nil
  then show ?case
    by (cases k) (auto simp: dot_tail_def)
next
  case (Cons b l)
  then obtain c k' where k: "k = c # k'"
    by (cases k) (auto simp: dot_tail_def)
  from Cons.prems(1) have "unescape_byte (escape_byte b @ escape_label l @ s)
      = unescape_byte (escape_byte c @ escape_label k' @ t)"
    unfolding k by simp
  then show ?case
    using Cons.IH [of k'] Cons.prems k by simp
qed

lemma present_Nil [simp]: "present [] = []"
  by (simp add: present_def)

lemma present_Cons:
  "present (l # ls) = escape_label l @ (if ls = [] then [] else CHR 0x2E # present ls)"
  by (cases ls) (simp_all add: present_def)

lemma present_inj:
  "list_all label_ok ls \<Longrightarrow> list_all label_ok ks \<Longrightarrow> present ls = present ks \<Longrightarrow> ls = ks"
proof (induction ls arbitrary: ks)
  case Nil
  then show ?case by (cases ks) (auto simp: present_Cons)
next
  case (Cons l ls)
  then obtain k ks' where ks: "ks = k # ks'"
    by (cases ks) (auto simp: present_Cons)
  have "l = k \<and> (if ls = [] then [] else CHR 0x2E # present ls)
      = (if ks' = [] then [] else CHR 0x2E # present ks')"
    using Cons.prems(3) unfolding ks present_Cons
    by (rule escape_label_inj) (simp_all add: dot_tail_def)
  then show ?case
    using Cons ks by (auto split: if_splits)
qed

section \<open>Lower case\<close>

lemma unat_lower_u8: "unat (lower_u8 b) = (if 65 \<le> unat b \<and> unat b \<le> 90 then unat b + 32 else unat b)"
proof (cases "65 \<le> unat b \<and> unat b \<le> 90")
  case True
  then have "unat (b + 32) = unat b + 32"
    by (subst unat_add_lem [THEN iffD1]) simp_all
  then show ?thesis using True by (simp add: lower_u8_def word_le_nat_alt)
qed (auto simp: lower_u8_def word_le_nat_alt)

lemma lower_u8_small: "lower_u8 b = c \<Longrightarrow> unat c < 64 \<Longrightarrow> b = c"
  using unat_lower_u8 [of b] by (auto simp: word_unat_eq_iff split: if_splits)

text \<open>A byte string equal to a name's encoding up to ASCII case is an encoding of the same shape.\<close>

lemma lower_encode_name:
  "map lower_u8 xs = map lower_u8 (encode_name ls) \<Longrightarrow> list_all label_ok ls \<Longrightarrow>
   \<exists>ks. xs = encode_name ks \<and> list_all label_ok ks"
proof (induction ls arbitrary: xs)
  case Nil
  then obtain x where "xs = [x]" "lower_u8 x = lower_u8 0" by auto
  then have "xs = encode_name []"
    using lower_u8_small [of x 0] by (simp add: lower_u8_def)
  then show ?case by (intro exI [of _ "[]"]) simp
next
  case (Cons l ls)
  then have ok: "label_ok l" by simp
  let ?n = "word_of_nat (length l) :: u8"
  obtain x ys where xs: "xs = x # ys" "lower_u8 x = lower_u8 ?n"
      "map lower_u8 ys = map lower_u8 (l @ encode_name ls)"
    using Cons.prems(1) by (cases xs) auto
  have n: "unat ?n = length l" "length l < 64"
    using label_length_byte(1) [OF ok] ok by (simp_all add: label_ok_def)
  then have "lower_u8 ?n = ?n" by (simp add: lower_u8_def word_le_nat_alt)
  then have x: "x = ?n" using xs(2) n lower_u8_small [of x ?n] by simp
  have len: "length ys = length l + length (encode_name ls)"
    using arg_cong [OF xs(3), of length] by simp
  have "map lower_u8 (drop (length l) ys) = map lower_u8 (encode_name ls)"
    using arg_cong [OF xs(3), of "drop (length l)"] by (simp add: drop_map)
  then obtain ks where ks: "drop (length l) ys = encode_name ks" "list_all label_ok ks"
    using Cons.IH Cons.prems(2) by auto
  let ?k = "take (length l) ys"
  have "length ?k = length l" using len by simp
  moreover from this have "xs = encode_name (?k # ks)"
    using x xs(1) ks(1) by (simp flip: ks(1))
  ultimately show ?case
    using ok ks(2) len by (intro exI [of _ "?k # ks"]) (auto simp: label_ok_def [of l] label_ok_def [of ?k])
qed

end
