(* ===== verification/Wire_Cursor.thy ===== *)
theory Wire_Cursor
  imports Wire_Edns Wire_Names
begin

text \<open>
  Every routine that walks a packet does it with a cursor: a function from an offset to the offset
  behind one item (a name, a question, an answer, a record). The locale \<open>cursor\<close> states what all
  of them promise - they move forward, stay inside the packet, and read nothing but the item
  itself - and derives what any loop over such items satisfies. It is interpreted on \<open>skip_name\<close>,
  on the question and answer steps of \<open>response_info\<close> and on \<open>additional_record_span\<close>.
\<close>

section \<open>The interface\<close>

text \<open>\<open>n\<close> bytes of \<open>bs\<close> from \<open>i\<close> and of \<open>cs\<close> from \<open>j\<close> exist and are the same.\<close>

definition agree :: "nat \<Rightarrow> u8 list \<Rightarrow> nat \<Rightarrow> u8 list \<Rightarrow> nat \<Rightarrow> bool" where
  "agree n bs i cs j \<longleftrightarrow>
     i + n \<le> length bs \<and> j + n \<le> length cs \<and> (\<forall>k<n. bs ! (i + k) = cs ! (j + k))"

lemma agree_nth: "agree n bs i cs j \<Longrightarrow> k < n \<Longrightarrow> cs ! (j + k) = bs ! (i + k)"
  by (simp add: agree_def)

lemma agree_mono: "agree n bs i cs j \<Longrightarrow> m \<le> n \<Longrightarrow> agree m bs i cs j"
  by (simp add: agree_def)

lemma agree_shift: "agree (m + n) bs i cs j \<Longrightarrow> agree n bs (i + m) cs (j + m)"
proof -
  assume a: "agree (m + n) bs i cs j"
  then have "bs ! (i + m + k) = cs ! (j + m + k)" if "k < n" for k
    using that agree_nth [of "m + n" bs i cs j "m + k"] by (simp add: add.assoc)
  then show ?thesis using a by (simp add: agree_def)
qed

lemma agree_tail: "agree (e - i) bs i cs j \<Longrightarrow> i + m \<le> e \<Longrightarrow> agree (e - (i + m)) bs (i + m) cs (j + m)"
  using agree_shift [of m "e - (i + m)" bs i cs j] by simp

lemma agree_slice: "agree n bs i cs j \<longleftrightarrow>
    i + n \<le> length bs \<and> j + n \<le> length cs \<and> slice i (i + n) bs = slice j (j + n) cs"
  by (auto simp: agree_def list_eq_iff_nth_eq)

lemma agree_append: "i + n \<le> length bs \<Longrightarrow> agree n bs i (bs @ cs) i"
  by (simp add: agree_def nth_append)

fun iterate :: "(u8 list \<Rightarrow> nat \<Rightarrow> nat option) \<Rightarrow> nat \<Rightarrow> u8 list \<Rightarrow> nat \<Rightarrow> nat option" where
  "iterate step 0 bs i = Some i"
| "iterate step (Suc n) bs i =
     (case step bs i of None \<Rightarrow> None | Some e \<Rightarrow> iterate step n bs e)"

locale cursor =
  fixes step :: "u8 list \<Rightarrow> nat \<Rightarrow> nat option"
  assumes advance: "step bs i = Some e \<Longrightarrow> i < e \<and> e \<le> length bs"
    and local: "step bs i = Some e \<Longrightarrow> agree (e - i) bs i cs j \<Longrightarrow> length cs < 2 ^ 64 \<Longrightarrow>
                step cs j = Some (j + (e - i))"
begin

lemma iterate_advance:
  "iterate step n bs i = Some e \<Longrightarrow> i \<le> length bs \<Longrightarrow> i + n \<le> e \<and> e \<le> length bs"
  by (induction n arbitrary: i) (fastforce split: option.splits dest: advance)+

lemma iterate_local:
  "iterate step n bs i = Some e \<Longrightarrow> agree (e - i) bs i cs j \<Longrightarrow> i \<le> length bs \<Longrightarrow>
   length cs < 2 ^ 64 \<Longrightarrow> iterate step n cs j = Some (j + (e - i))"
proof (induction n arbitrary: i j)
  case (Suc n)
  then obtain m where m: "step bs i = Some m" "iterate step n bs m = Some e"
    by (auto split: option.splits)
  then have le: "i < m" "m \<le> e" "m \<le> length bs"
    using advance iterate_advance by fastforce+
  then have "step cs j = Some (j + (m - i))"
    using m Suc.prems agree_mono by (intro local) auto
  moreover have "agree (e - m) bs m cs (j + (m - i))"
    using agree_tail [OF Suc.prems(2), of "m - i"] le by simp
  ultimately show ?case
    using Suc.IH [OF m(2), of "j + (m - i)"] Suc.prems le by simp
qed simp

lemma iterate_append:
  "iterate step n bs i = Some e \<Longrightarrow> i \<le> length bs \<Longrightarrow> length (bs @ cs) < 2 ^ 64 \<Longrightarrow>
   iterate step n (bs @ cs) i = Some e"
proof -
  assume a: "iterate step n bs i = Some e" "i \<le> length bs" "length (bs @ cs) < 2 ^ 64"
  then have "i \<le> e" "e \<le> length bs" using iterate_advance by fastforce+
  then show ?thesis
    using iterate_local [OF a(1), of "bs @ cs" i] a agree_append [of i "e - i" bs cs] by simp
qed

lemma iterate_add:
  "iterate step (m + n) bs i =
     (case iterate step m bs i of None \<Rightarrow> None | Some k \<Rightarrow> iterate step n bs k)"
  by (induction m arbitrary: i) (auto split: option.splits)

end

section \<open>Names\<close>

lemma skip_name_advance: "skip_name bs i = Some e \<Longrightarrow> i < e \<and> e \<le> length bs"
proof (induction bs i rule: skip_name.induct)
  case (1 bs i)
  then show ?case
    by (subst (asm) (2) skip_name.simps)
      (fastforce simp: get_at_def Let_def split: if_splits)
qed

lemma skip_name_local:
  "skip_name bs i = Some e \<Longrightarrow> agree (e - i) bs i cs j \<Longrightarrow> skip_name cs j = Some (j + (e - i))"
proof (induction bs i arbitrary: j rule: skip_name.induct)
  case (1 bs i)
  have lt: "i < e" "e \<le> length bs"
    using skip_name_advance [OF "1.prems"(1)] by auto
  then have at: "get_at bs i = Some (bs ! i)" "get_at cs j = Some (bs ! i)"
    using "1.prems"(2) agree_nth [OF "1.prems"(2), of 0] by (auto simp: get_at_def agree_def)
  have jl: "j + (e - i) \<le> length cs" using "1.prems"(2) by (simp add: agree_def)
  consider "bs ! i = 0" | "bs ! i \<noteq> 0" "bs ! i AND 0xC0 = 0xC0"
    | "bs ! i \<noteq> 0" "bs ! i AND 0xC0 = 0"
    using "1.prems"(1) at by (subst (asm) skip_name.simps) (auto split: if_splits)
  then show ?case
  proof cases
    case 3
    let ?k = "1 + unat (bs ! i)"
    have rec: "skip_name bs (i + ?k) = Some e" and "i + ?k \<le> length bs"
      using "1.prems"(1) at 3 by (subst (asm) skip_name.simps; simp add: Let_def split: if_splits)+
    then have e: "i + ?k < e" using skip_name_advance by blast
    then obtain d where d: "e = i + ?k + d" by (metis less_imp_add_positive)
    have "agree d bs (i + ?k) cs (j + ?k)"
      using agree_tail [OF "1.prems"(2), of ?k] d by simp
    then have "skip_name cs (j + ?k) = Some (j + ?k + d)"
      using "1.IH" [OF at(1) 3(1) _ _ refl _ rec, of "j + ?k"] 3 e lt d by simp
    then show ?thesis
      using jl at 3 by (subst skip_name.simps) (simp add: Let_def d)
  qed (use "1.prems"(1) at jl in \<open>auto simp: skip_name.simps [of bs] skip_name.simps [of cs] split: if_splits\<close>)
qed

interpretation name: cursor skip_name
  by unfold_locales (auto dest: skip_name_advance skip_name_local)

lemma skip_name_encode:
  "list_all label_ok ls \<Longrightarrow> drop i bs = encode_name ls @ rest \<Longrightarrow>
   skip_name bs i = Some (i + length (encode_name ls))"
proof (induction ls arbitrary: i)
  case Nil
  then show ?case by (subst skip_name.simps) (simp add: get_at_drop)
next
  case (Cons l ls)
  then have ok: "label_ok l" by simp
  have dr: "drop (i + 1 + length l) bs = encode_name ls @ rest"
    using arg_cong [OF Cons.prems(2), of "drop (1 + length l)"] by (simp add: add.commute)
  have "i + 1 + length l \<le> length bs"
    using dr encode_name_nonempty [of ls] by (metis drop_all append_is_Nil_conv linear)
  moreover have "get_at bs i = Some (word_of_nat (length l))"
    using Cons.prems(2) by (auto intro: get_at_drop)
  ultimately show ?case
    using Cons.IH [OF _ dr] Cons.prems label_length_byte [OF ok]
    by (subst skip_name.simps) (simp add: Let_def)
qed

section \<open>Questions\<close>

definition question_step :: "u8 list \<Rightarrow> nat \<Rightarrow> nat option" where
  "question_step bs i =
     (case skip_name bs i of
        None \<Rightarrow> None
      | Some a \<Rightarrow> if a + 4 < 2 ^ 64 \<and> a + 4 \<le> length bs then Some (a + 4) else None)"

lemma skip_questions_iterate: "skip_questions n bs i = iterate question_step n bs i"
  by (induction n arbitrary: i)
    (auto simp: question_step_def usize_checked_add_def not_le split: option.splits)

lemma question_step_Some:
  "question_step bs i = Some e \<longleftrightarrow>
     (\<exists>a. skip_name bs i = Some a \<and> e = a + 4 \<and> e < 2 ^ 64 \<and> e \<le> length bs)"
  by (auto simp: question_step_def split: option.splits)

interpretation question: cursor question_step
proof
  fix bs cs :: "u8 list" and i e j :: nat
  show "question_step bs i = Some e \<Longrightarrow> i < e \<and> e \<le> length bs"
    by (auto simp: question_step_Some dest: skip_name_advance)
  assume step: "question_step bs i = Some e" and ag: "agree (e - i) bs i cs j"
    and len: "length cs < 2 ^ 64"
  then obtain a where a: "skip_name bs i = Some a" "e = a + 4"
    by (auto simp: question_step_Some)
  obtain d where d: "a = i + d"
    using a(1) skip_name_advance by (metis less_imp_add_positive)
  have ag': "agree (d + 4) bs i cs j" using ag by (simp add: a(2) d)
  then have "skip_name cs j = Some (j + d)"
    using skip_name_local [OF a(1), of cs j] agree_mono [OF ag', of d] d by simp
  moreover have "j + d + 4 \<le> length cs"
    using ag' by (simp add: agree_def)
  ultimately show "question_step cs j = Some (j + (e - i))"
    using len by (simp add: question_step_Some a(2) d)
qed

section \<open>Resource records\<close>

text \<open>The end of the record at \<open>i\<close>: an owner name, ten fixed bytes and \<open>RDLENGTH\<close> bytes of data.\<close>

definition record_end :: "u8 list \<Rightarrow> nat \<Rightarrow> nat option" where
  "record_end bs i = map_option fst (additional_record_span bs i)"

definition is_opt_at :: "u8 list \<Rightarrow> nat \<Rightarrow> bool" where
  "is_opt_at bs i \<longleftrightarrow> (\<exists>e. additional_record_span bs i = Some (e, True))"

lemma read_u16_eq:
  "read_u16 bs i = (if i + 2 \<le> length bs then Some (be16 (bs ! i) (bs ! (i + 1))) else None)"
  by (simp add: read_u16_def get_range_def)

lemma read_u16_Some: "read_u16 bs i = Some w \<longleftrightarrow> i + 2 \<le> length bs \<and> w = be16 (bs ! i) (bs ! (i + 1))"
  by (auto simp: read_u16_eq)

lemma read_u16_agree:
  "agree n bs i cs j \<Longrightarrow> k + 2 \<le> n \<Longrightarrow> read_u16 cs (j + k) = read_u16 bs (i + k)"
  using agree_nth [of n bs i cs j k] agree_nth [of n bs i cs j "k + 1"]
  by (simp add: read_u16_eq agree_def)

definition record_data_len :: "u8 list \<Rightarrow> nat \<Rightarrow> nat" where
  "record_data_len bs a = unat (be16 (bs ! (a + 8)) (bs ! (a + 9)))"

lemma additional_record_span_eq:
  "additional_record_span bs i =
     (case skip_name bs i of
        None \<Rightarrow> None
      | Some a \<Rightarrow>
          (let e = a + 10 + record_data_len bs a in
           if e \<le> length bs \<and> e < 2 ^ 64 then Some (e, be16 (bs ! a) (bs ! (a + 1)) = TYPE_OPT)
           else None))"
proof (cases "skip_name bs i")
  case (Some a)
  show ?thesis
  proof (cases "a + 10 \<le> length bs \<and> a + 10 < 2 ^ 64")
    case True
    then show ?thesis
      using Some by (simp add: additional_record_span_def read_u16_eq usize_checked_add_def
          record_data_len_def Let_def add.commute [of 9 a])
  next
    case False
    then show ?thesis
      using Some by (auto simp: additional_record_span_def read_u16_eq usize_checked_add_def
          Let_def split: option.splits bind_splits)
  qed
qed (simp add: additional_record_span_def)

lemma additional_record_span_Some:
  "additional_record_span bs i = Some (e, t) \<longleftrightarrow>
     (\<exists>a. skip_name bs i = Some a \<and> e = a + 10 + record_data_len bs a \<and> e \<le> length bs \<and>
        e < 2 ^ 64 \<and> (t \<longleftrightarrow> be16 (bs ! a) (bs ! (a + 1)) = TYPE_OPT))"
  by (auto simp: additional_record_span_eq Let_def split: option.splits)

lemma record_end_Some: "record_end bs i = Some e \<longleftrightarrow> (\<exists>t. additional_record_span bs i = Some (e, t))"
  by (auto simp: record_end_def)

lemma record_span_local:
  assumes span: "additional_record_span bs i = Some (e, t)" and ag: "agree (e - i) bs i cs j"
    and len: "length cs < 2 ^ 64"
  shows "additional_record_span cs j = Some (j + (e - i), t)"
proof -
  obtain a where a: "skip_name bs i = Some a" "e = a + 10 + record_data_len bs a" "e < 2 ^ 64"
      "t \<longleftrightarrow> be16 (bs ! a) (bs ! (a + 1)) = TYPE_OPT"
    using span unfolding additional_record_span_Some by blast
  obtain d where d: "a = i + d"
    using a(1) skip_name_advance by (metis less_imp_add_positive)
  define r where "r = 10 + record_data_len bs a"
  have r: "e = i + d + r" "10 \<le> r" "e - i = d + r"
    using a(2) d by (simp_all add: r_def)
  note ag' = ag [unfolded r(3)]
  have "skip_name cs j = Some (j + d)"
    using skip_name_local [OF a(1), of cs j] agree_mono [OF ag', of d] d by simp
  moreover have eq: "cs ! (j + d + k) = bs ! (i + d + k)" if "k < r" for k
    using agree_nth [OF ag', of "d + k"] that by (simp add: add.assoc)
  have "cs ! (j + d) = bs ! a" "cs ! (j + d + 1) = bs ! (a + 1)"
    "record_data_len cs (j + d) = record_data_len bs a"
    using eq [of 0] eq [of 1] eq [of 8] eq [of 9] r(2) by (simp_all add: d record_data_len_def)
  moreover have "j + d + r \<le> length cs" using ag' by (simp add: agree_def)
  ultimately show ?thesis
    using a(4) len r(3) unfolding additional_record_span_Some
    by (intro exI [of _ "j + d"]) (simp add: r_def)
qed

lemma record_span_advance:
  "additional_record_span bs i = Some (e, t) \<Longrightarrow> i + 10 < e \<and> e \<le> length bs"
  by (auto simp: additional_record_span_Some dest: skip_name_advance)

interpretation record_walk: cursor record_end
proof
  fix bs cs :: "u8 list" and i e j :: nat
  show "record_end bs i = Some e \<Longrightarrow> i < e \<and> e \<le> length bs"
    by (auto simp: record_end_Some dest: record_span_advance)
  show "record_end bs i = Some e \<Longrightarrow> agree (e - i) bs i cs j \<Longrightarrow> length cs < 2 ^ 64 \<Longrightarrow>
      record_end cs j = Some (j + (e - i))"
    by (auto simp: record_end_Some dest: record_span_local)
qed

lemma skip_records_iterate: "skip_records n bs i = iterate record_end n bs i"
  by (induction n arbitrary: i) (auto simp: record_end_def split: option.splits)

lemma walk_answers_loop_Suc:
  "walk_answers_loop (Suc n) bs i m =
     (case skip_name bs i of
        None \<Rightarrow> None
      | Some a \<Rightarrow>
          (let e = a + 10 + record_data_len bs a;
               ttl = be32 (bs ! (a + 4)) (bs ! (a + 5)) (bs ! (a + 6)) (bs ! (a + 7)) in
           if e \<le> length bs \<and> e < 2 ^ 64
           then walk_answers_loop n bs e (Some (case m of Some c \<Rightarrow> min c ttl | None \<Rightarrow> ttl))
           else None))"
proof (cases "skip_name bs i")
  case (Some a)
  then show ?thesis
    by (simp add: usize_checked_add_def record_data_len_def Let_def not_le)
qed simp

lemma walk_answers_loop_iterate:
  "walk_answers_loop n bs i m \<noteq> None \<longleftrightarrow> iterate record_end n bs i \<noteq> None"
proof (induction n arbitrary: i m)
  case (Suc n)
  then show ?case
    by (simp add: walk_answers_loop_Suc record_end_def additional_record_span_eq Let_def
        del: walk_answers_loop.simps split: option.splits)
qed simp

end
