(* ===== verification/Wire_Query.thy ===== *)
theory Wire_Query
  imports Wire_Cursor
begin

text \<open>
  What \<open>parse_query\<close> accepts and returns, and that the queries the proxy and its clients build
  (\<open>build_query\<close>, \<open>build_upstream_query\<close>) read back as what they were built from.
\<close>

section \<open>The header and the question\<close>

lemma to_be16_be16 [simp]: "to_be16 (be16 a b) = [a, b]"
  by (simp add: to_be16_def unat_be16)

lemma slice_two: "i + 2 \<le> length bs \<Longrightarrow> slice i (i + 2) bs = [bs ! i, bs ! (i + 1)]"
  by (rule nth_equalityI) (auto simp: less_2_cases_iff numeral_2_eq_2 less_Suc_eq)

lemma length_ge_4: "4 \<le> length xs \<Longrightarrow> \<exists>w x y z r. xs = w # x # y # z # r"
  by (auto simp: numeral_eq_Suc Suc_le_length_iff)

definition question_of :: "u8 list list \<Rightarrow> u16 \<Rightarrow> u16 \<Rightarrow> u8 list" where
  "question_of ls qtype qclass = encode_name ls @ to_be16 qtype @ to_be16 qclass"

lemma length_question_of: "length (question_of ls t c) = length (encode_name ls) + 4"
  by (simp add: question_of_def)

text \<open>Everything \<open>parse_query\<close> checks, as one condition on the packet.\<close>

definition query_packet :: "u8 list \<Rightarrow> u8 list list \<Rightarrow> u16 \<Rightarrow> u16 \<Rightarrow> bool" where
  "query_packet bs ls qtype qclass \<longleftrightarrow>
     12 \<le> length bs \<and> be16 (bs ! 2) (bs ! 3) AND 0x8000 = 0 \<and> be16 (bs ! 4) (bs ! 5) = 1 \<and>
     name_ok ls \<and> (\<exists>rest. drop 12 bs = question_of ls qtype qclass @ rest)"

definition query_of_packet :: "u8 list \<Rightarrow> u8 list list \<Rightarrow> u16 \<Rightarrow> u16 \<Rightarrow> query" where
  "query_of_packet bs ls qtype qclass =
     (let flags = be16 (bs ! 2) (bs ! 3);
          qend = 12 + length (question_of ls qtype qclass);
          edns = find_opt bs qend (be16 (bs ! 6) (bs ! 7)) (be16 (bs ! 8) (bs ! 9))
                   (be16 (bs ! 10) (bs ! 11)) in
      \<lparr>q_id = be16 (bs ! 0) (bs ! 1), q_opcode = ucast (drop_bit 11 (flags AND 0x7800)),
       q_recursion_desired = (flags AND 0x0100 \<noteq> 0), q_qname = present ls,
       q_qname_wire = encode_name ls, q_qtype = qtype, q_qclass = qclass,
       q_question_end = qend, q_checking_disabled = (flags AND 0x0010 \<noteq> 0),
       q_dnssec_ok = fst edns, q_edns_udp_size = snd edns\<rparr>)"

lemma parse_query_complete:
  assumes "query_packet bs ls t c"
  shows "parse_query bs = Inr (query_of_packet bs ls t c)"
proof -
  obtain rest where dr: "drop 12 bs = question_of ls t c @ rest"
    using assms by (auto simp: query_packet_def)
  let ?e = "12 + length (encode_name ls)"
  have enc: "drop 12 bs = encode_name ls @ (to_be16 t @ to_be16 c @ rest)"
    using dr by (simp add: question_of_def)
  have tail: "drop ?e bs = to_be16 t @ to_be16 c @ rest"
    using arg_cong [OF enc, of "drop (length (encode_name ls))"] by (simp add: add.commute)
  have len: "?e + 4 \<le> length bs"
    using drop_eq_bound [OF tail [folded append_assoc]] by (simp add: to_be16_def)
  have at: "bs ! (?e + k) = (to_be16 t @ to_be16 c @ rest) ! k" for k
    using tail len by (metis add.commute add_leD1 nth_drop)
  have "read_u16 bs ?e = Some t" "read_u16 bs (?e + 2) = Some c"
    using len at [of 0] at [of 1] at [of 2] at [of 3]
    by (auto simp: read_u16_eq to_be16_def add.assoc)
  moreover have "slice 12 ?e bs = encode_name ls"
    by (rule drop_eq_slice [OF enc])
  ultimately show ?thesis
    using assms parse_question_name_complete [OF _ enc]
    by (simp add: query_packet_def parse_query_def query_of_packet_def length_question_of Let_def
        split_beta numeral_eq_Suc)
qed

lemma parse_query_sound:
  assumes "parse_query bs = Inr q"
  obtains ls where "query_packet bs ls (q_qtype q) (q_qclass q)"
    "q = query_of_packet bs ls (q_qtype q) (q_qclass q)"
proof -
  have hd: "12 \<le> length bs" "be16 (bs ! 2) (bs ! 3) AND 0x8000 = 0" "be16 (bs ! 4) (bs ! 5) = 1"
    using assms by (auto simp: parse_query_def Let_def split: if_splits)
  obtain nm e where nm: "parse_question_name bs 12 = Inr (nm, e)"
    using assms hd by (auto simp: parse_query_def Let_def split: sum.splits)
  obtain ls rest where ls: "name_ok ls" "drop 12 bs = encode_name ls @ rest"
      "e = 12 + length (encode_name ls)" "nm = present ls"
    using parse_question_name_sound [OF nm] by blast
  obtain t c where tc: "read_u16 bs e = Some t" "read_u16 bs (e + 2) = Some c"
    using assms hd nm by (auto simp: parse_query_def Let_def split: option.splits)
  have at: "rest ! k = bs ! (e + k)" if "k < 4" for k
    using arg_cong [OF ls(2), of "\<lambda>xs. xs ! (length (encode_name ls) + k)"] hd(1) ls(3)
    by (simp add: nth_append add.assoc)
  have "length rest = length bs - e" "e + 4 \<le> length bs"
    using arg_cong [OF ls(2), of length] tc ls(3) by (auto simp: read_u16_Some)
  then have "4 \<le> length rest" by simp
  then obtain w x y z r where r: "rest = w # x # y # z # r"
    using length_ge_4 by blast
  have "rest = to_be16 t @ to_be16 c @ r"
    using tc at [of 0] at [of 1] at [of 2] at [of 3] by (simp add: read_u16_Some r numeral_eq_Suc)
  then have "query_packet bs ls t c"
    using hd ls by (auto simp: query_packet_def question_of_def)
  moreover from this have "q = query_of_packet bs ls t c"
    using assms parse_query_complete by fastforce
  moreover have "q_qtype q = t" "q_qclass q = c"
    using \<open>q = _\<close> by (simp_all add: query_of_packet_def Let_def)
  ultimately show thesis using that by simp
qed

section \<open>What an accepted query looks like\<close>

lemma query_packet_bounds:
  "query_packet bs ls t c \<Longrightarrow>
   12 + length (question_of ls t c) \<le> length bs \<and> length (question_of ls t c) \<le> 259 \<and>
   slice 12 (12 + length (question_of ls t c)) bs = question_of ls t c"
proof -
  assume a: "query_packet bs ls t c"
  then obtain rest where dr: "drop 12 bs = question_of ls t c @ rest"
    by (auto simp: query_packet_def)
  have "question_of ls t c \<noteq> []" by (simp add: question_of_def)
  with a show ?thesis
    using drop_eq_bound [OF dr] drop_eq_slice [OF dr]
    by (simp add: query_packet_def name_ok_def length_question_of)
qed

text \<open>
C30: \<open>parse_question_name\<close> accepts a name at an offset exactly when the bytes there are the encoding
of a list of labels of 1 to 63 bytes whose encoding is at most 255 bytes long, wholly inside the
packet; it returns the escaped presentation of those labels and the offset behind the terminator.
\<close>

theorem parse_question_name_correct:
  "parse_question_name bs i = Inr (nm, e) \<longleftrightarrow>
     (\<exists>ls. name_ok ls \<and> nm = present ls \<and> slice i e bs = encode_name ls \<and> i < e \<and> e \<le> length bs)"
proof
  assume "parse_question_name bs i = Inr (nm, e)"
  then obtain ls rest where "name_ok ls" "drop i bs = encode_name ls @ rest"
      "e = i + length (encode_name ls)" "nm = present ls"
    by (rule parse_question_name_sound)
  then show "\<exists>ls. name_ok ls \<and> nm = present ls \<and> slice i e bs = encode_name ls \<and> i < e \<and> e \<le> length bs"
    using drop_eq_slice drop_eq_bound by (intro exI [of _ ls]) fastforce
next
  assume "\<exists>ls. name_ok ls \<and> nm = present ls \<and> slice i e bs = encode_name ls \<and> i < e \<and> e \<le> length bs"
  then obtain ls where ls: "name_ok ls" "nm = present ls" "slice i e bs = encode_name ls"
      "i < e" "e \<le> length bs"
    by blast
  have "length (encode_name ls) = e - i" using length_slice [OF ls(5), of i] ls(3) by simp
  moreover have "drop i bs = encode_name ls @ drop (e - i) (drop i bs)"
    unfolding ls(3) [symmetric] slice_def by (simp only: append_take_drop_id)
  ultimately show "parse_question_name bs i = Inr (nm, e)"
    using parse_question_name_complete [OF ls(1)] ls(2,4) by fastforce
qed

text \<open>
C33: The presentation of a query name is faithful: two accepted queries have the same \<open>qname\<close> string
exactly when they ask for the same wire name, so no name the filter decides on stands for another.
\<close>

theorem qname_identifies_wire_name:
  assumes "parse_query a = Inr p" and "parse_query b = Inr q"
  shows "q_qname p = q_qname q \<longleftrightarrow> q_qname_wire p = q_qname_wire q"
proof -
  obtain ls where ls: "query_packet a ls (q_qtype p) (q_qclass p)"
      "p = query_of_packet a ls (q_qtype p) (q_qclass p)"
    using assms(1) by (rule parse_query_sound)
  obtain ks where ks: "query_packet b ks (q_qtype q) (q_qclass q)"
      "q = query_of_packet b ks (q_qtype q) (q_qclass q)"
    using assms(2) by (rule parse_query_sound)
  have names: "q_qname p = present ls" "q_qname_wire p = encode_name ls"
    "q_qname q = present ks" "q_qname_wire q = encode_name ks"
    by (subst ls(2) ks(2); simp add: query_of_packet_def Let_def)+
  have ok: "name_ok ls" "name_ok ks" using ls(1) ks(1) by (simp_all add: query_packet_def)
  have "ls = ks" if "encode_name ls = encode_name ks"
    using that ok parse_question_name_complete [of ls 0 "encode_name ls" "[]"]
      parse_question_name_complete [of ks 0 "encode_name ls" "[]"]
      present_inj [of ls ks] by (simp add: name_ok_def)
  then show ?thesis
    using present_inj [of ls ks] ok by (auto simp: names name_ok_def)
qed

lemma parse_query_layout:
  assumes "parse_query bs = Inr q"
  shows "12 \<le> length bs" "be16 (bs ! 2) (bs ! 3) AND 0x8000 = 0" "be16 (bs ! 4) (bs ! 5) = 1"
    "q_id q = be16 (bs ! 0) (bs ! 1)" "q_question_end q = 16 + length (q_qname_wire q)"
    "q_question_end q \<le> length bs" "length (q_qname_wire q) \<le> 255" "q_qname_wire q \<noteq> []"
    "slice 12 (q_question_end q) bs = q_qname_wire q @ to_be16 (q_qtype q) @ to_be16 (q_qclass q)"
proof -
  obtain ls where ls: "query_packet bs ls (q_qtype q) (q_qclass q)"
      "q = query_of_packet bs ls (q_qtype q) (q_qclass q)"
    using assms by (rule parse_query_sound)
  have f: "q_question_end q = 12 + length (question_of ls (q_qtype q) (q_qclass q))"
    "q_qname_wire q = encode_name ls" "q_id q = be16 (bs ! 0) (bs ! 1)"
    by (subst ls(2); simp add: query_of_packet_def Let_def)+
  have len: "length (question_of ls (q_qtype q) (q_qclass q)) = length (q_qname_wire q) + 4"
    by (simp add: f length_question_of)
  show "12 \<le> length bs" "be16 (bs ! 2) (bs ! 3) AND 0x8000 = 0" "be16 (bs ! 4) (bs ! 5) = 1"
    "q_id q = be16 (bs ! 0) (bs ! 1)" "q_question_end q = 16 + length (q_qname_wire q)"
    "q_question_end q \<le> length bs" "length (q_qname_wire q) \<le> 255" "q_qname_wire q \<noteq> []"
    "slice 12 (q_question_end q) bs = q_qname_wire q @ to_be16 (q_qtype q) @ to_be16 (q_qclass q)"
    using query_packet_bounds [OF ls(1)] ls(1) f len
    by (simp_all add: query_packet_def question_of_def)
qed

text \<open>
Whatever bytes arrive, an accepted query is backed by the packet: the header is complete, QR is
clear, there is exactly one question, the echoed question lies inside the packet behind the header,
is at most 259 bytes long and is the wire name followed by the type and class the query reports.
\<close>

theorem parse_query_bounds:
  assumes "parse_query bs = Inr q"
  shows "12 \<le> length bs \<and> be16 (bs ! 2) (bs ! 3) AND 0x8000 = 0 \<and> be16 (bs ! 4) (bs ! 5) = 1 \<and>
    q_id q = be16 (bs ! 0) (bs ! 1) \<and>
    12 < q_question_end q \<and> q_question_end q \<le> length bs \<and> q_question_end q \<le> 12 + 259 \<and>
    slice 12 (q_question_end q) bs =
      q_qname_wire q @ to_be16 (q_qtype q) @ to_be16 (q_qclass q)"
  using parse_query_layout [OF assms] by simp

definition sample_query :: "u8 list" where
  "sample_query = [0x12, 0x34, 0x01, 0x10, 0, 1, 0, 0, 0, 0, 0, 1,
     3, 0x61, 0x2E, 0x42, 2, 0x63, 0x6F, 0, 0, 1, 0, 1,
     0, 0, 41, 4, 0xD0, 0, 0, 0x80, 0, 0, 0]"

definition sample_query_fields :: query where
  "sample_query_fields =
    \<lparr>q_id = 0x1234, q_opcode = 0, q_recursion_desired = True,
     q_qname = [CHR ''a'', CHR 0x5C, CHR 0x2E, CHR ''B'', CHR 0x2E, CHR ''c'', CHR ''o''],
     q_qname_wire = [3, 0x61, 0x2E, 0x42, 2, 0x63, 0x6F, 0], q_qtype = 1, q_qclass = 1,
     q_question_end = 24, q_checking_disabled = True, q_dnssec_ok = True,
     q_edns_udp_size = Some 1232\<rparr>"

lemma parse_sample_query: "parse_query sample_query = Inr sample_query_fields"
  by code_simp

theorem parse_query_bounds_witness:
  "q_question_end sample_query_fields \<le> length sample_query"
  using parse_query_bounds [OF parse_sample_query] by blast

theorem qname_identifies_wire_name_witness:
  "q_qname sample_query_fields = q_qname sample_query_fields \<longleftrightarrow>
   q_qname_wire sample_query_fields = q_qname_wire sample_query_fields"
  by (rule qname_identifies_wire_name [OF parse_sample_query parse_sample_query])

section \<open>Queries built by the program\<close>

definition plain_char :: "char \<Rightarrow> bool" where
  "plain_char c \<longleftrightarrow> (let n = (of_char c :: nat) in 0x20 \<le> n \<and> n \<le> 0x7E) \<and> c \<noteq> CHR 0x5C"

lemma length_bytes_of [simp]: "length (bytes_of s) = length s"
  by (simp add: bytes_of_def)

lemma bytes_of_eq_Nil [simp]: "bytes_of s = [] \<longleftrightarrow> s = []"
  by (simp add: bytes_of_def)

lemma of_char_less [simp]: "(of_char (c :: char) :: nat) < 256"
  by (simp add: of_char_def) 

lemma u8_of_char: "unat (word_of_nat (of_char c) :: u8) = of_char c"
  by (rule unat_of_nat_u8) simp

lemma escape_plain:
  assumes "plain_char c" "c \<noteq> CHR 0x2E"
  shows "escape_byte (word_of_nat (of_char c)) = [c]"
proof -
  let ?b = "word_of_nat (of_char c) :: u8"
  have c: "char_of (unat ?b) = c" by (simp only: u8_of_char char_of_char)
  then have "?b \<noteq> 0x2E" "?b \<noteq> 0x5C"
    using assms char_of_u8_eq [of ?b "CHR 0x2E"] char_of_u8_eq [of ?b "CHR 0x5C"]
    by (auto simp: plain_char_def)
  moreover have "0x20 \<le> ?b" "?b \<le> 0x7E"
    using assms by (simp_all only: plain_char_def Let_def word_le_nat_alt u8_of_char) simp_all
  ultimately show ?thesis using c by (simp add: escape_byte_def)
qed

lemma escape_label_bytes_of:
  "(\<And>c. c \<in> set l \<Longrightarrow> plain_char c \<and> c \<noteq> CHR 0x2E) \<Longrightarrow> escape_label (bytes_of l) = l"
  by (induction l) (simp_all add: bytes_of_def escape_plain)

lemma split_on_subset: "p \<in> set (split_on d xs) \<Longrightarrow> set p \<subseteq> set xs"
  by (induction xs arbitrary: p) (fastforce split: list.splits if_splits)+

lemma encode_labels_Some:
  "encode_labels wl ls = Some enc \<Longrightarrow> wl \<le> 255 \<Longrightarrow>
   list_all label_ok (map bytes_of ls) \<and> encode_name (map bytes_of ls) = enc @ [0] \<and>
   wl + length enc \<le> 255"
proof (induction ls arbitrary: wl enc)
  case (Cons l ls)
  then obtain rest where r: "encode_labels (wl + (1 + length l)) ls = Some rest"
      "enc = word_of_nat (length l) # bytes_of l @ rest" "l \<noteq> []" "length l \<le> 63"
      "wl + (1 + length l) \<le> 255"
    by (auto simp: Let_def split: if_splits)
  then show ?case
    using Cons.IH [OF r(1)] by (simp add: label_ok_def)
qed simp

lemma query_packet_intro:
  assumes "length hdr = 12" "be16 (hdr ! 2) (hdr ! 3) AND 0x8000 = 0" "be16 (hdr ! 4) (hdr ! 5) = 1"
    and "name_ok ls"
  shows "query_packet (hdr @ question_of ls t c @ rest) ls t c"
  using assms by (simp add: query_packet_def nth_append)

lemma build_query_reads:
  assumes "build_query txid qname qtype qclass = Some pkt"
  shows "\<exists>q. parse_query pkt = Inr q \<and> q_id q = txid \<and> q_opcode q = 0 \<and>
    q_recursion_desired q \<and> \<not> q_checking_disabled q \<and> q_qtype q = qtype \<and> q_qclass q = qclass \<and>
    q_edns_udp_size q = None \<and> q_question_end q = length pkt \<and>
    (list_all plain_char qname \<longrightarrow> q_qname q = trim_end_matches CHR 0x2E qname)"
proof -
  define nm where "nm = trim_end_matches CHR 0x2E qname"
  define labels where "labels = (if nm \<noteq> [] then split_on CHR 0x2E nm else [])"
  define hdr where "hdr = to_be16 txid @ to_be16 FLAG_RD @ to_be16 1 @ [0, 0, 0, 0, 0, 0]"
  let ?ls = "map bytes_of labels"
  obtain enc where enc: "encode_labels 1 labels = Some enc"
      "pkt = hdr @ enc @ [0] @ to_be16 qtype @ to_be16 qclass"
    using assms unfolding build_query_def Let_def nm_def [symmetric] labels_def [symmetric]
    by (auto simp: hdr_def)
  note e = encode_labels_Some [OF enc(1)]
  have pkt: "pkt = hdr @ question_of ?ls qtype qclass @ []"
    using e enc(2) by (simp add: question_of_def)
  have h0: "be16 (hdr ! 0) (hdr ! 1) = txid"
    by (simp add: hdr_def to_be16_def)
  have h: "length hdr = 12" "be16 (hdr ! 2) (hdr ! 3) = 0x0100"
    "be16 (hdr ! 4) (hdr ! 5) = 1" "be16 (hdr ! 6) (hdr ! 7) = 0" "be16 (hdr ! 8) (hdr ! 9) = 0"
    "be16 (hdr ! 10) (hdr ! 11) = 0"
    by (simp_all add: hdr_def to_be16_def be16_def)
  have "query_packet pkt ?ls qtype qclass"
    unfolding pkt using h e by (intro query_packet_intro) (simp_all add: name_ok_def)
  then have parse: "parse_query pkt = Inr (query_of_packet pkt ?ls qtype qclass)"
    by (rule parse_query_complete)
  have at: "pkt ! k = hdr ! k" if "k < 12" for k
    using that h(1) by (simp add: pkt nth_append)
  have "present ?ls = nm" if "list_all plain_char qname"
  proof -
    have "set nm \<subseteq> set qname"
      by (auto simp: nm_def trim_end_matches_def dest: set_dropWhileD)
    then have "escape_label (bytes_of l) = l" if "l \<in> set labels" for l
      using that \<open>list_all plain_char qname\<close> split_on_no_sep split_on_subset
      by (intro escape_label_bytes_of) (fastforce simp: labels_def list_all_iff split: if_splits)
    then have "map escape_label ?ls = labels" by (simp add: map_idI)
    then show ?thesis by (simp add: present_def labels_def)
  qed
  moreover have "length pkt = 12 + length (question_of ?ls qtype qclass)"
    by (simp add: pkt h(1))
  ultimately show ?thesis
    using parse h h0 at by (simp add: query_of_packet_def Let_def find_opt_def nm_def)
qed

text \<open>
A query \<open>build_query\<close> makes is read back by \<open>parse_query\<close>: same id, type and class, standard
opcode, RD set and CD clear, no EDNS, ending with the question; and for a name of printable
characters without a backslash the parsed name is the given one without its trailing dots.
\<close>

theorem build_query_parses_back:
  assumes "build_query txid qname qtype qclass = Some pkt"
  shows "\<exists>q. parse_query pkt = Inr q \<and> q_id q = txid \<and> q_opcode q = 0 \<and>
    q_recursion_desired q \<and> \<not> q_checking_disabled q \<and> q_qtype q = qtype \<and> q_qclass q = qclass \<and>
    q_edns_udp_size q = None \<and> q_question_end q = length pkt \<and>
    (list_all plain_char qname \<longrightarrow> q_qname q = trim_end_matches CHR 0x2E qname)"
  using assms by (rule build_query_reads)

theorem build_query_parses_back_witness:
  "\<exists>q. parse_query [0, 7, 1, 0, 0, 1, 0, 0, 0, 0, 0, 0, 1, 0x61, 2, 0x62, 0x63, 0, 0, 28, 0, 1] = Inr q
     \<and> q_id q = 7 \<and> q_qname q = ''a.bc''"
proof -
  have "build_query 7 ''a.bc.'' 28 1 =
      Some [0, 7, 1, 0, 0, 1, 0, 0, 0, 0, 0, 0, 1, 0x61, 2, 0x62, 0x63, 0, 0, 28, 0, 1]"
    by code_simp
  moreover have "list_all plain_char ''a.bc.''" "trim_end_matches CHR 0x2E ''a.bc.'' = ''a.bc''"
    by code_simp+
  ultimately show ?thesis using build_query_parses_back by metis
qed

lemma find_opt_at:
  assumes dr: "drop i bs = [0] @ to_be16 41 @ to_be16 sz @ [0, 0, if d then 0x80 else 0, 0, 0, 0] @ rest"
    and len: "length bs < 2 ^ 64"
  shows "find_opt_loop (Suc n) bs i = (d, Some sz)"
proof -
  have sk: "skip_name bs i = Some (i + 1)"
    using skip_name_encode [of "[]" i bs] dr by simp
  have dr1: "drop (i + 1) bs
      = (to_be16 41 @ to_be16 sz @ [0, 0, if d then 0x80 else 0, 0, 0, 0]) @ rest"
    using arg_cong [OF dr, of "drop 1"] by simp
  have fixed: "slice (i + 1) (i + 11) bs = to_be16 41 @ to_be16 sz @ [0, 0, if d then 0x80 else 0, 0, 0, 0]"
    using drop_eq_slice [OF dr1] by (simp add: add.commute [of i 11])
  have le: "i + 11 \<le> length bs"
    using drop_eq_bound [OF dr1] by simp
  let ?f = "to_be16 41 @ to_be16 sz @ [0, 0, if d then 0x80 else 0, 0, 0, 0] :: u8 list"
  have f: "be16 (?f ! 0) (?f ! 1) = 41" "be16 (?f ! 2) (?f ! 3) = sz"
    "be16 (?f ! 6) (?f ! 7) AND 0x8000 \<noteq> 0 \<longleftrightarrow> d" "unat (be16 (?f ! 8) (?f ! 9)) = 0"
    by (simp_all add: to_be16_def) (simp_all add: be16_def)
  have "get_range bs (i + 1) (i + 1 + 10) = Some ?f"
    using fixed le by (simp add: get_range_def add.commute [of 11 i])
  with sk f le len show ?thesis
    by (simp add: usize_checked_add_def)
qed

text \<open>
The query the proxy sends upstream for an accepted client query is a fresh query for the same
question: it parses back with the proxy's transaction id, RD set, the given CD bit, the same name,
type and class, an OPT record exactly when one was asked for, with the clamped size and the DO bit,
and it is at most 282 bytes long.
\<close>

theorem build_upstream_query_parses_back:
  assumes "parse_query req = Inr q"
  shows "let pkt = build_upstream_query txid (slice 12 (q_question_end q) req) cd edns in
    length pkt \<le> 282 \<and>
    (\<exists>u. parse_query pkt = Inr u \<and> q_id u = txid \<and> q_opcode u = 0 \<and> q_recursion_desired u \<and>
       q_checking_disabled u = cd \<and> q_qname u = q_qname q \<and> q_qtype u = q_qtype q \<and>
       q_qclass u = q_qclass q \<and> q_question_end u = q_question_end q \<and>
       q_edns_udp_size u = map_option (\<lambda>(sz, _). word_of_nat (clamp_edns_udp_size sz)) edns \<and>
       q_dnssec_ok u = (case edns of None \<Rightarrow> False | Some (_, dnssec) \<Rightarrow> dnssec))"
proof -
  obtain ls where ls: "query_packet req ls (q_qtype q) (q_qclass q)"
      "q = query_of_packet req ls (q_qtype q) (q_qclass q)"
    using assms by (rule parse_query_sound)
  let ?qs = "question_of ls (q_qtype q) (q_qclass q)"
  have q: "q_question_end q = 12 + length ?qs" "q_qname q = present ls"
    by (subst ls(2); simp add: query_of_packet_def Let_def)+
  have qs: "slice 12 (q_question_end q) req = ?qs" "length ?qs \<le> 259"
    using query_packet_bounds [OF ls(1)] by (simp_all add: q)
  define hdr where "hdr = to_be16 txid @ to_be16 (FLAG_RD OR (if cd then FLAG_CD else 0))
      @ to_be16 1 @ [0, 0, 0, 0] @ to_be16 (if edns \<noteq> None then 1 else 0)"
  define tail where "tail = (case edns of None \<Rightarrow> [] | Some (sz, d) \<Rightarrow>
      [0] @ to_be16 41 @ to_be16 (word_of_nat (clamp_edns_udp_size sz))
      @ [0, 0, if d then 0x80 else 0, 0, 0, 0])"
  define pkt where "pkt = build_upstream_query txid (slice 12 (q_question_end q) req) cd edns"
  have pkt: "pkt = hdr @ ?qs @ tail"
    by (simp add: pkt_def build_upstream_query_def Let_def qs hdr_def tail_def split: option.split)
  have h0: "be16 (hdr ! 0) (hdr ! 1) = txid"
    by (simp add: hdr_def to_be16_def)
  have h: "length hdr = 12" "be16 (hdr ! 2) (hdr ! 3) = 0x0100 OR (if cd then 0x10 else 0)"
    "be16 (hdr ! 4) (hdr ! 5) = 1" "be16 (hdr ! 6) (hdr ! 7) = 0" "be16 (hdr ! 8) (hdr ! 9) = 0"
    "be16 (hdr ! 10) (hdr ! 11) = (if edns \<noteq> None then 1 else 0)"
    by (simp_all add: hdr_def to_be16_def be16_def)
  have at: "pkt ! k = hdr ! k" if "k < 12" for k
    using that h(1) by (simp add: pkt nth_append)
  have tail_len: "length tail \<le> 11"
    by (simp add: tail_def split: option.split)
  have len: "length pkt \<le> 282"
    using tail_len qs(2) by (simp add: pkt h(1))
  have "query_packet pkt ls (q_qtype q) (q_qclass q)"
    unfolding pkt using h ls(1) by (intro query_packet_intro) (simp_all add: query_packet_def)
  then have parse: "parse_query pkt = Inr (query_of_packet pkt ls (q_qtype q) (q_qclass q))"
    by (rule parse_query_complete)
  have "find_opt pkt (12 + length ?qs) 0 0 (if edns \<noteq> None then 1 else 0)
      = (case edns of None \<Rightarrow> (False, None)
         | Some (sz, d) \<Rightarrow> (d, Some (word_of_nat (clamp_edns_udp_size sz))))"
  proof (cases edns)
    case (Some p)
    obtain sz d where p: "p = (sz, d)" by (cases p)
    have "drop (12 + length ?qs) pkt = tail" by (simp add: pkt h(1))
    then show ?thesis
      using find_opt_at [of "12 + length ?qs" pkt _ d "[]" 0] len Some
      by (simp add: find_opt_def tail_def p del: find_opt_loop.simps)
  qed (simp add: find_opt_def)
  then show ?thesis
    using parse len h h0 at unfolding pkt_def [symmetric]
    by (simp add: query_of_packet_def Let_def q split: option.split)
qed

theorem build_upstream_query_parses_back_witness:
  "length (build_upstream_query 9 (slice 12 24 sample_query) True (Some (65535, True))) \<le> 282"
  using build_upstream_query_parses_back [OF parse_sample_query, of 9 True "Some (65535, True)"]
  by (simp add: sample_query_fields_def Let_def)

end
