(* ===== verification/Domain_Spec.thy ===== *)
theory Domain_Spec
  imports Domain_Load Wire_Query
begin

text \<open>
  What the filter promises, on label lists: every wire name other than the root normalises, and the
  decision is the one the rules describe - an exact rule for the name, or a suffix rule for a run of
  its last labels. The loaders respect their budgets and report what they did.
\<close>

section \<open>Lower case commutes with the presentation\<close>

definition lower_labels :: "u8 list list \<Rightarrow> u8 list list" where
  "lower_labels ls = map (map lower_u8) ls"

lemma ascii_lower_char_of: "ascii_lower (char_of (unat (b :: u8))) = char_of (unat (lower_u8 b))"
  by (simp add: ascii_lower_def unat_lower_u8 of_char_printable Let_def)

lemma ascii_lower_digit: "d \<le> 9 \<Longrightarrow> ascii_lower (digit_char d) = digit_char d"
  by (simp add: ascii_lower_def of_char_digit Let_def)

lemma lower_escape_byte: "map ascii_lower (escape_byte b) = escape_byte (lower_u8 b)"
proof (cases "65 \<le> unat b \<and> unat b \<le> 90")
  case True
  then show ?thesis
    using ascii_lower_char_of [of b] unat_lower_u8 [of b]
    by (simp add: escape_byte_def word_le_nat_alt word_unat_eq_iff)
next
  case False
  then have l: "lower_u8 b = b" using unat_lower_u8 [of b] by (simp add: word_unat_eq_iff)
  have "unat b < 10 * 100" using unat_u8_less [of b] by linarith
  then have "unat b div 100 < 10" by (rule less_mult_imp_div_less)
  then have "unat b div 100 \<le> 9" by simp
  then show ?thesis
    using ascii_lower_char_of [of b]
    by (simp add: escape_byte_def l ascii_lower_digit) (simp add: ascii_lower_def)
qed

lemma lower_escape_label: "map ascii_lower (escape_label l) = escape_label (map lower_u8 l)"
  by (induction l) (simp_all add: lower_escape_byte)

lemma lower_present: "to_ascii_lowercase (present ls) = present (lower_labels ls)"
proof (induction ls)
  case (Cons l ls)
  then show ?case
    by (auto simp: present_Cons lower_labels_def to_ascii_lowercase_def lower_escape_label)
      (simp add: ascii_lower_def)
qed (simp add: lower_labels_def to_ascii_lowercase_def)

lemma lower_labels_ok [simp]: "list_all label_ok (lower_labels ls) = list_all label_ok ls"
  by (simp add: lower_labels_def list_all_iff label_ok_def)

section \<open>The wire accounting on a presentation\<close>

lemma is_ascii_digit_digit [simp]: "d \<le> 9 \<Longrightarrow> is_ascii_digit (digit_char d)"
  by (simp add: is_ascii_digit_def of_char_digit)

lemma wire_account_escape_byte:
  "wire_account w k (escape_byte b @ rest) = wire_account w (k + 1) rest"
proof -
  have "unat b < 10 * 100" using unat_u8_less [of b] by linarith
  then have "unat b div 100 < 10" by (rule less_mult_imp_div_less)
  then have "unat b div 100 \<le> 9" by simp
  moreover have "\<not> is_ascii_digit CHR 0x2E" "\<not> is_ascii_digit CHR 0x5C"
    by (simp_all add: is_ascii_digit_def)
  ultimately show ?thesis
    by (auto simp: escape_byte_def char_of_u8_eq numeral_3_eq_3)
qed

lemma wire_account_escape_label:
  "wire_account w k (escape_label l @ rest) = wire_account w (k + length l) rest"
  by (induction l arbitrary: k) (simp_all add: wire_account_escape_byte)

lemma wire_account_present:
  "list_all label_ok ls \<Longrightarrow> ls \<noteq> [] \<Longrightarrow> w + length (encode_name ls) \<le> 256 \<Longrightarrow>
   wire_account w 0 (present ls)
     = Some (w + length (encode_name (butlast ls)) - 1, length (last ls))"
proof (induction ls arbitrary: w)
  case (Cons l ls)
  then have ok: "0 < length l" "length l \<le> 63" by (simp_all add: label_ok_def)
  show ?case
  proof (cases "ls = []")
    case True
    then show ?thesis
      using wire_account_escape_label [of w 0 l "[]"] by (simp add: present_Cons)
  next
    case False
    have "1 \<le> length (encode_name ls)" by (cases "encode_name ls") simp_all
    moreover have "w + (1 + length l + length (encode_name ls)) \<le> 256"
      using Cons.prems(3) by simp
    ultimately have "w + (1 + length l) \<le> 255" by linarith
    then show ?thesis
      using Cons.IH [of "w + (1 + length l)"] Cons.prems False ok
      by (simp add: present_Cons wire_account_escape_label)
  qed
qed simp

section \<open>Every wire name but the root normalises\<close>

definition trailing_backslashes :: "string \<Rightarrow> nat" where
  "trailing_backslashes s = length (takeWhile (\<lambda>c. c = CHR 0x5C) (rev s))"

lemma trailing_snoc:
  "trailing_backslashes (s @ [c]) = (if c = CHR 0x5C then trailing_backslashes s + 1 else 0)"
  by (simp add: trailing_backslashes_def)

lemma digit_char_not_special [simp]:
  "d \<le> 9 \<Longrightarrow> digit_char d \<noteq> CHR 0x5C" "d \<le> 9 \<Longrightarrow> digit_char d \<noteq> CHR 0x2E"
  using digit_char_neq by blast+

lemma mod_10_le: "(n :: nat) mod 10 \<le> 9"
  using mod_less_divisor [of 10 n] by linarith

lemma trailing_escape_byte:
  "even (trailing_backslashes s) \<Longrightarrow> even (trailing_backslashes (s @ escape_byte b))"
proof -
  assume e: "even (trailing_backslashes s)"
  have two: "s @ [c, d] = (s @ [c]) @ [d]" "s @ [c, d, x, y] = (s @ [c, d, x]) @ [y]" for c d x y
    by simp_all
  show ?thesis
    using e by (auto simp: escape_byte_def two trailing_snoc char_of_u8_eq mod_10_le
        simp del: append_assoc append.append_Cons)
qed

lemma trailing_escape_label:
  "even (trailing_backslashes s) \<Longrightarrow> even (trailing_backslashes (s @ escape_label l))"
proof (induction l arbitrary: s)
  case (Cons b l)
  then show ?case
    using Cons.IH [OF trailing_escape_byte [OF Cons.prems]] by simp
qed simp

text \<open>A presentation ends in a dot only when that dot is escaped.\<close>

definition safe_end :: "string \<Rightarrow> bool" where
  "safe_end s \<longleftrightarrow> s \<noteq> [] \<and> (last s = CHR 0x2E \<longrightarrow> odd (trailing_backslashes (butlast s)))"

lemma safe_end_escape_byte:
  "even (trailing_backslashes s) \<Longrightarrow> safe_end (s @ escape_byte b)"
  by (auto simp: safe_end_def escape_byte_def char_of_u8_eq mod_10_le butlast_append trailing_snoc)

lemma safe_end_escape_label:
  "even (trailing_backslashes s) \<Longrightarrow> l \<noteq> [] \<Longrightarrow> safe_end (s @ escape_label l)"
proof -
  assume e: "even (trailing_backslashes s)" and "l \<noteq> []"
  then obtain k b where l: "l = k @ [b]" by (metis rev_exhaust)
  have "escape_label l = escape_label k @ escape_byte b"
    by (simp add: l escape_label_def)
  then show ?thesis
    using safe_end_escape_byte [OF trailing_escape_label [OF e], of k b] by simp
qed

lemma safe_end_present:
  "list_all label_ok ls \<Longrightarrow> ls \<noteq> [] \<Longrightarrow> even (trailing_backslashes s) \<Longrightarrow> safe_end (s @ present ls)"
proof (induction ls arbitrary: s)
  case (Cons l ls)
  then have l: "l \<noteq> []" by (auto simp: label_ok_def)
  show ?case
  proof (cases "ls = []")
    case True
    then show ?thesis
      using safe_end_escape_label [OF Cons.prems(3) l] by (simp add: present_Cons)
  next
    case False
    have "even (trailing_backslashes ((s @ escape_label l) @ [CHR 0x2E]))"
      by (simp only: trailing_snoc) simp
    then have "safe_end (((s @ escape_label l) @ [CHR 0x2E]) @ present ls)"
      using Cons.IH [OF _ False] Cons.prems(1) by (simp del: append_assoc)
    then show ?thesis using False by (simp add: present_Cons)
  qed
qed simp

lemma strip_root_dot_present:
  "list_all label_ok ls \<Longrightarrow> ls \<noteq> [] \<Longrightarrow> strip_root_dot (present ls) = present ls"
  using safe_end_present [of ls "[]"]
  by (auto simp: strip_root_dot_def safe_end_def trailing_backslashes_def)

lemma is_ascii_append [simp]: "is_ascii (s @ t) \<longleftrightarrow> is_ascii s \<and> is_ascii t"
  by (simp add: is_ascii_def)

lemma is_ascii_simps [simp]:
  "is_ascii []" "is_ascii (c # s) \<longleftrightarrow> (of_char c :: nat) < 128 \<and> is_ascii s"
  by (simp_all add: is_ascii_def)

lemma is_ascii_escape_byte: "is_ascii (escape_byte b)"
proof -
  have "unat b < 10 * 100" using unat_u8_less [of b] by linarith
  then have "unat b div 100 < 10" by (rule less_mult_imp_div_less)
  then have "unat b div 100 \<le> 9" by simp
  then show ?thesis
    by (auto simp: escape_byte_def of_char_digit mod_10_le word_le_nat_alt)
qed

lemma is_ascii_escape_label: "is_ascii (escape_label l)"
  by (induction l) (simp_all add: is_ascii_escape_byte)

lemma is_ascii_present: "is_ascii (present ls)"
  by (induction ls) (auto simp: present_Cons is_ascii_escape_label)

lemma present_nonempty: "list_all label_ok ls \<Longrightarrow> present ls = [] \<longleftrightarrow> ls = []"
  by (cases ls) (auto simp: present_Cons)

lemma normalize_present:
  assumes "name_ok ls" "ls \<noteq> []"
  shows "normalize_name (present ls) = Some (present (lower_labels ls))"
proof -
  have ok: "list_all label_ok ls" "length (encode_name ls) \<le> 255"
    using assms(1) by (simp_all add: name_ok_def)
  have l: "label_ok (last ls)"
    using ok(1) assms(2) by (simp add: list_all_iff)
  have enc: "length (encode_name ls) = length (encode_name (butlast ls)) + (1 + length (last ls))"
    using arg_cong [OF append_butlast_last_id [OF assms(2)], of "\<lambda>x. length (encode_name x)"]
    by (simp add: encode_name_def)
  show ?thesis
    using assms ok l enc wire_account_present [OF ok(1) assms(2), of 1]
    by (simp add: normalize_name_def strip_root_dot_present present_nonempty is_ascii_present
        lower_present label_ok_def Let_def)
qed

section \<open>The decision on label lists\<close>

lemma suffix_scan_escape_byte [simp]:
  "suffix_scan rules False (escape_byte b @ rest) = suffix_scan rules False rest"
proof -
  have "unat b < 10 * 100" using unat_u8_less [of b] by linarith
  then have "unat b div 100 < 10" by (rule less_mult_imp_div_less)
  then have "unat b div 100 \<le> 9" by simp
  then show ?thesis
    by (auto simp: escape_byte_def char_of_u8_eq mod_10_le)
qed

lemma suffix_scan_escape_label [simp]:
  "suffix_scan rules False (escape_label l @ rest) = suffix_scan rules False rest"
  by (induction l) simp_all

lemma suffix_scan_present:
  "suffix_scan rules False (present ls) \<longleftrightarrow>
     (\<exists>ks. ks \<noteq> [] \<and> strict_suffix ks ls \<and> present ks \<in> rules)"
proof (induction ls)
  case (Cons l ls)
  show ?case
  proof (cases "ls = []")
    case True
    then show ?thesis
      using suffix_scan_escape_label [of rules l "[]"]
      by (auto simp: present_Cons strict_suffix_def suffix_Cons)
  next
    case False
    have "strict_suffix ks (l # ls) \<longleftrightarrow> ks = ls \<or> strict_suffix ks ls" for ks
      by (auto simp: strict_suffix_def suffix_Cons dest: suffix_length_le)
    then show ?thesis
      using Cons.IH False by (auto simp: present_Cons)
  qed
qed simp

text \<open>What two rule sets say of a name: an exact rule for it, or a suffix rule for its last labels.\<close>

definition listed :: "string set \<Rightarrow> string set \<Rightarrow> u8 list list \<Rightarrow> bool" where
  "listed exact tails ls \<longleftrightarrow>
     present ls \<in> exact \<or> (\<exists>ks. ks \<noteq> [] \<and> suffix ks ls \<and> present ks \<in> tails)"

lemma listed_iff:
  "ls \<noteq> [] \<Longrightarrow> listed exact tails ls \<longleftrightarrow> present ls \<in> exact \<or> suffix_match tails (present ls)"
  by (auto simp: listed_def suffix_match_def suffix_scan_present strict_suffix_def)

definition blocked_by :: "filter_engine \<Rightarrow> u8 list list \<Rightarrow> bool" where
  "blocked_by e ls \<longleftrightarrow> \<not> listed (allow_exact e) (allow_suffix e) (lower_labels ls)
     \<and> listed (block_exact e) (block_suffix e) (lower_labels ls)"

lemma decide_present:
  "name_ok ls \<Longrightarrow> ls \<noteq> [] \<Longrightarrow> decide e (present ls) = (if blocked_by e ls then Block else Allow, e)"
  by (simp add: decide_def normalize_present blocked_by_def listed_iff lower_labels_def)

text \<open>
C4: For every accepted query but the root one, the filter's answer is the one its rules describe on
the labels of the wire name, case ignored: \<open>Block\<close> exactly when a block rule covers the name and no
allow rule does, an exact rule covering one name and a suffix rule the names ending in its labels.
The fail-open counter does not move.
\<close>

theorem decide_follows_rules:
  assumes "parse_query bs = Inr q" and "q_qname q \<noteq> []"
  shows "\<exists>ls. name_ok ls \<and> q_qname_wire q = encode_name ls \<and>
    decide e (q_qname q) = (if blocked_by e ls then Block else Allow, e)"
proof -
  obtain ls where ls: "query_packet bs ls (q_qtype q) (q_qclass q)"
      "q = query_of_packet bs ls (q_qtype q) (q_qclass q)"
    using assms(1) by (rule parse_query_sound)
  have f: "q_qname q = present ls" "q_qname_wire q = encode_name ls"
    by (subst ls(2); simp add: query_of_packet_def Let_def)+
  have "name_ok ls" using ls(1) by (simp add: query_packet_def)
  moreover have "ls \<noteq> []" using assms(2) f(1) by auto
  ultimately show ?thesis using decide_present f by auto
qed

theorem decide_follows_rules_witness:
  "\<exists>ls. name_ok ls \<and> q_qname_wire sample_query_fields = encode_name ls \<and>
    decide new_engine (q_qname sample_query_fields)
      = (if blocked_by new_engine ls then Block else Allow, new_engine)"
  by (rule decide_follows_rules [OF parse_sample_query]) (simp add: sample_query_fields_def)

section \<open>Adding rules\<close>

lemma present_hd: "list_all label_ok ls \<Longrightarrow> present ls \<noteq> CHR 0x2E # s"
proof (cases ls)
  case (Cons l ks)
  assume "list_all label_ok ls"
  then obtain b k where "l = b # k" using Cons by (cases l) (auto simp: label_ok_def)
  then show ?thesis
    using Cons escape_byte_hd [of b] escape_byte_nonempty [of b]
    by (cases "escape_byte b") (auto simp: present_Cons)
qed simp

lemma present_lower_eq:
  "list_all label_ok ls \<Longrightarrow> list_all label_ok ks \<Longrightarrow>
   present (lower_labels ls) = present (lower_labels ks) \<longleftrightarrow> lower_labels ls = lower_labels ks"
  using present_inj [of "lower_labels ls" "lower_labels ks"] by auto

lemma suffix_list_all: "suffix ks ls \<Longrightarrow> list_all P ls \<Longrightarrow> list_all P ks"
  by (auto simp: suffix_def)

lemma listed_insert_suffix:
  assumes "list_all label_ok ls" "list_all label_ok ks" "ks \<noteq> []"
  shows "listed exact (insert (present ks) tails) ls \<longleftrightarrow> listed exact tails ls \<or> suffix ks ls"
proof -
  have "present js = present ks \<longleftrightarrow> js = ks" if "suffix js ls" for js
    using present_inj [of js ks] suffix_list_all [OF that assms(1)] assms(2) by auto
  then show ?thesis using assms(3) by (auto simp: listed_def)
qed

lemma listed_insert_exact:
  "list_all label_ok ls \<Longrightarrow> list_all label_ok ks \<Longrightarrow>
   listed (insert (present ks) exact) tails ls \<longleftrightarrow> listed exact tails ls \<or> ls = ks"
  using present_inj [of ls ks] by (auto simp: listed_def)

text \<open>
The rule syntax means what it says. A block rule written with a leading dot blocks, besides what
was blocked, exactly the names ending in its labels; one written bare exactly the name itself; never
a name that merely contains its text; and an allow rule on a name keeps winning.
\<close>

theorem add_block_rule_semantics:
  assumes "name_ok ks" "ks \<noteq> []" "name_ok ls" "ls \<noteq> []"
  shows "let (ok, e') = add_block_rule (CHR 0x2E # present ks) e;
             (ok2, e2) = add_block_rule (present ks) e;
             allowed = listed (allow_exact e) (allow_suffix e) (lower_labels ls) in
    ok \<and> ok2 \<and>
    (fst (decide e' (present ls)) = Block \<longleftrightarrow> fst (decide e (present ls)) = Block
       \<or> \<not> allowed \<and> suffix (lower_labels ks) (lower_labels ls)) \<and>
    (fst (decide e2 (present ls)) = Block \<longleftrightarrow> fst (decide e (present ls)) = Block
       \<or> \<not> allowed \<and> lower_labels ls = lower_labels ks)"
proof -
  have ok: "list_all label_ok ks" "list_all label_ok ls" using assms by (simp_all add: name_ok_def)
  have ne: "lower_labels ks \<noteq> []" using assms(2) by (simp add: lower_labels_def)
  have n: "normalize_name (present ks) = Some (present (lower_labels ks))"
    by (rule normalize_present [OF assms(1,2)])
  have a: "add_block_rule (CHR 0x2E # present ks) e
      = (True, e\<lparr>block_suffix := insert (present (lower_labels ks)) (block_suffix e)\<rparr>)"
    by (simp add: add_block_rule_def add_rule_def add_block_def n)
  obtain c s where cs: "present ks = c # s" "c \<noteq> CHR 0x2E"
    using present_hd [OF ok(1)] present_nonempty [OF ok(1)] assms(2) by (cases "present ks") auto
  have b: "add_block_rule (present ks) e
      = (True, e\<lparr>block_exact := insert (present (lower_labels ks)) (block_exact e)\<rparr>)"
    using cs n by (simp add: add_block_rule_def add_rule_def add_block_exact_def)
  show ?thesis
    using ok ne by (auto simp: a b decide_present [OF assms(3,4)] blocked_by_def listed_insert_suffix
        listed_insert_exact)
qed

theorem add_block_rule_semantics_witness:
  "fst (decide (snd (add_block_rule ''.b'' new_engine)) ''a.B'') = Block"
proof -
  have ok: "name_ok [[0x62]]" "name_ok [[0x61], [0x42]]" by code_simp+
  have p: "present [[0x62]] = ''b''" "present [[0x61], [0x42]] = ''a.B''" by code_simp+
  have s: "suffix (lower_labels [[0x62]]) (lower_labels [[0x61], [0x42]])"
    by (simp add: lower_labels_def lower_u8_def suffix_def)
  have "\<not> listed (allow_exact new_engine) (allow_suffix new_engine) (lower_labels [[0x61], [0x42]])"
    by (simp add: listed_def new_engine_def)
  then show ?thesis
    using add_block_rule_semantics [OF ok(1) _ ok(2), of new_engine] s
    by (simp add: p Let_def split_beta)
qed

end
