(* ===== verification/Load_Spec.thy ===== *)
theory Load_Spec
  imports Domain_Spec
begin

text \<open>
  The list loaders keep their budgets, report what they did, and only ever add rules to their own
  list. The locale \<open>line_format\<close> is what the ingest loop relies on of a line parser; it is interpreted
  on the hosts format and on the domain list format.
\<close>

section \<open>What adding rules may change\<close>

text \<open>Only the sets of the given list grow, the rest of the engine stays.\<close>

definition grows :: "list_kind \<Rightarrow> filter_engine \<Rightarrow> filter_engine \<Rightarrow> bool" where
  "grows kind e e' \<longleftrightarrow>
     unnormalizable_queries e' = unnormalizable_queries e \<and>
     allow_exact e \<subseteq> allow_exact e' \<and> allow_suffix e \<subseteq> allow_suffix e' \<and>
     block_exact e \<subseteq> block_exact e' \<and> block_suffix e \<subseteq> block_suffix e' \<and>
     (kind = BlockList \<longrightarrow> allow_exact e' = allow_exact e \<and> allow_suffix e' = allow_suffix e) \<and>
     (kind = AllowList \<longrightarrow> block_exact e' = block_exact e \<and> block_suffix e' = block_suffix e)"

lemma grows_refl [simp]: "grows kind e e"
  by (simp add: grows_def)

lemma grows_trans: "grows kind a b \<Longrightarrow> grows kind b c \<Longrightarrow> grows kind a c"
  by (auto simp: grows_def)

lemma add_rule_cases:
  "add_rule kind token d e = (ok, e') \<Longrightarrow> grows kind e e' \<and> (\<not> ok \<longrightarrow> e' = e)"
  by (cases kind)
    (auto simp: add_rule_def add_allow_def add_allow_exact_def add_block_def add_block_exact_def
      grows_def Let_def split: list.splits option.splits bool.splits if_splits prod.splits)

fun item_size :: "line_item \<Rightarrow> nat" where
  "item_size (Line s n) = n"
| "item_size (Undecodable n) = n"
| "item_size (Broken n) = n"

text \<open>A loop over items it must not get through cleanly, ends marked as cut short or as failed.\<close>

definition unclean :: "line_parser \<Rightarrow> line_item list \<Rightarrow> bool" where
  "unclean parse items \<longleftrightarrow> (\<forall>ml mb mr run st used e st' u e'.
     ingest_loop parse ml mb mr items run st used e = (Inr (st', u), e') \<longrightarrow> load_truncated st')"

lemma unclean_Cons: "unclean parse items \<Longrightarrow> unclean parse (item # items)"
  by (cases item) (fastforce simp: unclean_def Let_def split: if_splits prod.splits)+

lemma unclean_append: "unclean parse items \<Longrightarrow> unclean parse (pre @ items)"
  by (induction pre) (auto intro: unclean_Cons)

lemma unclean_Broken: "unclean parse [Broken n]"
  by (auto simp: unclean_def)

lemma undecodable_run:
  "ingest_loop parse ml mb mr (replicate k (Undecodable 0)) run st used e = (Inr (st', u), e') \<Longrightarrow>
   64 < run + k \<Longrightarrow> run \<le> 64 \<Longrightarrow> load_truncated st'"
  by (induction k arbitrary: run st used)
    (auto simp: MAX_CONSECUTIVE_UNDECODABLE_def split: if_splits)

lemma unclean_failing_tail: "how \<noteq> Eof \<Longrightarrow> unclean parse (failing_tail how n)"
proof -
  have "unclean parse (Undecodable n # replicate 64 (Undecodable 0))"
    unfolding unclean_def
    by (auto simp: MAX_CONSECUTIVE_UNDECODABLE_def
        split: if_splits dest: undecodable_run)
  then show "how \<noteq> Eof \<Longrightarrow> ?thesis"
    using unclean_Broken by (auto simp: failing_tail_def split: read_end.splits)
qed

lemma unclean_failing: "how \<noteq> Eof \<Longrightarrow> unclean parse (line_items how s)"
proof (induction how s rule: line_items.induct)
  case (1 how s)
  then show ?case
    using unclean_Cons unclean_failing_tail by (subst line_items.simps) (simp add: Let_def)
qed

lemma ingest_loop_complete:
  "ingest_loop parse ml mb mr items run st used e = (Inr (st', u), e') \<Longrightarrow> \<not> load_truncated st' \<Longrightarrow>
   u = used + sum_list (map item_size items) \<and> lines_read st' = lines_read st + length items"
proof (induction items arbitrary: run st used e)
  case (Cons item items)
  then show ?case
    by (cases item) (fastforce simp: Let_def split: if_splits prod.splits)+
qed auto

section \<open>The interface of a line parser\<close>

locale line_format =
  fixes parse :: line_parser and kind :: list_kind
  assumes parse_law: "parse line room e = ((added, rejected), e') \<Longrightarrow>
    added \<le> max 1 room \<and> grows kind e e' \<and> (added = 0 \<longrightarrow> e' = e)"
begin

text \<open>One decoded line: the parser's counts and the engine it leaves.\<close>

lemma ingest_loop_law:
  "ingest_loop parse ml mb mr items run st used e = (res, e') \<Longrightarrow>
   lines_read st \<le> ml \<Longrightarrow> bytes_read st \<le> mb \<Longrightarrow> rules_added st \<le> max 1 mr \<Longrightarrow>
   (rules_added st < mr \<or> rules_added st = 0) \<Longrightarrow>
   grows kind e e' \<and>
   (case res of
      Inl err \<Rightarrow> rules_added st = 0 \<and> e' = e
    | Inr (st', _) \<Rightarrow> lines_read st' \<le> ml \<and> bytes_read st' \<le> mb \<and> rules_added st' \<le> max 1 mr)"
proof (induction items arbitrary: run st used e)
  case (Cons item items)
  show ?case
  proof (cases item)
    case (Line s n)
    show ?thesis
    proof (cases "lines_read st \<ge> ml \<or> bytes_read st + (length s + 1) > mb")
      case True
      then show ?thesis using Cons.prems by (auto simp: Line)
    next
      case False
      obtain a r e1 where p: "parse s (mr - rules_added st) e = ((a, r), e1)"
        by (metis prod.exhaust)
      define st2 where "st2 = st\<lparr>lines_read := lines_read st + 1,
        bytes_read := bytes_read st + (length s + 1), rules_added := rules_added st + a,
        hosts_rejected := hosts_rejected st + r,
        lines_skipped := lines_skipped st + (if a = 0 then 1 else 0)\<rparr>"
      have law: "a \<le> max 1 (mr - rules_added st)" "grows kind e e1" "a = 0 \<longrightarrow> e1 = e"
        using parse_law [OF p] by auto
      have st2: "rules_added st2 \<le> max 1 mr" "lines_read st2 \<le> ml" "bytes_read st2 \<le> mb"
        "rules_added st2 = rules_added st + a"
        using law(1) Cons.prems(4,5) False by (auto simp: st2_def)
      show ?thesis
      proof (cases "rules_added st2 \<ge> mr")
        case True
        then show ?thesis
          using Cons.prems(1) False p law st2 by (auto simp: Line Let_def st2_def)
      next
        case more: False
        then have "ingest_loop parse ml mb mr items 0 st2 (used + n) e1 = (res, e')"
          using Cons.prems(1) False p by (simp add: Line Let_def st2_def)
        from Cons.IH [OF this st2(2,3,1)] more law st2(4) show ?thesis
          by (auto intro: grows_trans split: sum.splits)
      qed
    qed
  next
    case (Undecodable n)
    show ?thesis
    proof (cases "run < MAX_CONSECUTIVE_UNDECODABLE \<and> lines_read st < ml")
      case True
      let ?st = "st\<lparr>lines_read := lines_read st + 1, lines_skipped := lines_skipped st + 1,
          hosts_rejected := hosts_rejected st + 1\<rparr>"
      have "ingest_loop parse ml mb mr items (run + 1) ?st (used + n) e = (res, e')"
        using Cons.prems(1) True by (simp add: Undecodable)
      from Cons.IH [OF this] Cons.prems(2-5) True show ?thesis
        by (auto split: sum.splits)
    next
      case False
      then show ?thesis
        using Cons.prems by (auto simp: Undecodable split: if_splits)
    qed
  next
    case (Broken n)
    then show ?thesis using Cons.prems by (auto split: if_splits)
  qed
qed auto

lemma ingest_lines_law:
  "ingest_lines parse ml mb mr src e = (res, e') \<Longrightarrow>
   grows kind e e' \<and>
   (case res of
      Inl err \<Rightarrow> e' = e
    | Inr st \<Rightarrow> lines_read st \<le> ml \<and> bytes_read st \<le> mb \<and> rules_added st \<le> max 1 mr)"
  by (auto simp: ingest_lines_def no_stats_def Let_def split: prod.splits sum.splits
      dest!: ingest_loop_law)

end

section \<open>Both formats\<close>

lemma add_hosts_law:
  "add_hosts kind room hosts a r e = ((a', r'), e') \<Longrightarrow> a \<le> room \<Longrightarrow>
   a \<le> a' \<and> a' \<le> room \<and> grows kind e e' \<and> (a' = a \<longrightarrow> e' = e)"
proof (induction hosts arbitrary: a r e)
  case (Cons host hosts)
  obtain ok e1 where add: "add_rule kind host ExactRule e = (ok, e1)" by (cases "add_rule kind host ExactRule e")
  show ?case
  proof (cases "a \<ge> room")
    case False
    show ?thesis
      using Cons.prems False add add_rule_cases [OF add] Cons.IH [of "a + 1" r e1]
        Cons.IH [of a "r + 1" e1]
      by (cases ok) (auto intro: grows_trans)
  qed (use Cons.prems in auto)
qed auto

interpretation hosts: line_format "parse_hosts_line kind" kind for kind
proof
  fix line room e added rejected e'
  assume "parse_hosts_line kind line room e = ((added, rejected), e')"
  then show "added \<le> max 1 room \<and> grows kind e e' \<and> (added = 0 \<longrightarrow> e' = e)"
    by (fastforce simp: parse_hosts_line_def split: list.splits if_splits dest!: add_hosts_law)
qed

interpretation domain_list: line_format "parse_domain_list_line kind policy" kind for kind policy
proof
  fix line room e added rejected e'
  assume "parse_domain_list_line kind policy line room e = ((added, rejected), e')"
  then show "added \<le> max 1 room \<and> grows kind e e' \<and> (added = 0 \<longrightarrow> e' = e)"
    by (auto simp: parse_domain_list_line_def split: list.splits prod.splits bool.splits
        dest!: add_rule_cases)
qed

lemma item_sizes: "sum_list (map item_size (line_items Eof s)) = length s"
proof (induction s rule: length_induct)
  case (1 s)
  have size: "item_size (decode_line raw) = length raw" for raw
    by (simp add: decode_line_def)
  show ?case
  proof (cases "CHR 0x0A \<in> set s")
    case True
    let ?n = "length (takeWhile (\<lambda>c. c \<noteq> CHR 0x0A) s) + 1"
    have n: "?n \<le> length s"
    proof -
      have "takeWhile (\<lambda>c. c \<noteq> CHR 0x0A) s \<noteq> s"
        using True by (auto simp: takeWhile_eq_all_conv)
      then have "length (takeWhile (\<lambda>c. c \<noteq> CHR 0x0A) s) \<noteq> length s"
        by (metis takeWhile_eq_take take_all order_refl)
      then show ?thesis using length_takeWhile_le [of "\<lambda>c. c \<noteq> CHR 0x0A" s] by simp
    qed
    have "length (drop ?n s) < length s" using n by simp
    then have "sum_list (map item_size (line_items Eof (drop ?n s))) = length s - ?n"
      using 1 by simp
    then show ?thesis
      using True n size [of "take ?n s"] by (subst line_items.simps) (simp add: Let_def)
  qed (subst line_items.simps, simp add: size)
qed

text \<open>
Both loaders keep their budgets: with a positive rule budget no load reads more lines or bytes or
adds more rules than it may, a failed load leaves the engine as it was, and no load, failed or not,
takes a rule away or touches the other list or the fail-open counter.
\<close>

theorem load_budgets:
  assumes "0 < max_rules"
    and "load = load_hosts_with_limit kind \<or> load = load_domain_list_with_limit kind policy"
  shows "case load max_lines max_bytes max_rules src e of
      (Inl err, e') \<Rightarrow> e' = e
    | (Inr st, e') \<Rightarrow> grows kind e e' \<and> lines_read st \<le> max_lines \<and> bytes_read st \<le> max_bytes \<and>
        rules_added st \<le> max_rules"
  using assms hosts.ingest_lines_law [of kind max_lines max_bytes max_rules src e]
    domain_list.ingest_lines_law [of kind policy max_lines max_bytes max_rules src e]
  by (fastforce simp: load_hosts_with_limit_def load_domain_list_with_limit_def split: prod.splits sum.splits)

definition sample_list :: source where
  "sample_list = \<lparr>src_bytes = ''0.0.0.0 evil.example .bad.test'' @ [CHR 0x0A] @ ''::1 x # y''
     @ [CHR 0x0A], src_end = Eof\<rparr>"

theorem load_budgets_witness:
  "case load_hosts_with_limit BlockList 10 100 1 sample_list new_engine of
      (Inl err, e') \<Rightarrow> e' = new_engine
    | (Inr st, e') \<Rightarrow> grows BlockList new_engine e' \<and> lines_read st \<le> 10 \<and> bytes_read st \<le> 100 \<and>
        rules_added st \<le> 1"
  by (rule load_budgets [OF _ disjI1 [OF refl]]) simp

text \<open>
A load that does not report itself as truncated has read everything: the source ended at end of
file without a failed read, fits the byte budget, and every one of its lines was counted.
\<close>

theorem load_not_truncated_is_whole:
  assumes "load = load_hosts_with_limit kind \<or> load = load_domain_list_with_limit kind policy"
    and "load max_lines max_bytes max_rules src e = (Inr st, e')" and "\<not> load_truncated st"
  shows "src_end src = Eof \<and> length (src_bytes src) \<le> max_bytes \<and>
    lines_read st = length (line_items Eof (src_bytes src))"
proof -
  obtain parse where p: "parse = parse_hosts_line kind \<or> parse = parse_domain_list_line kind policy"
    "ingest_lines parse max_lines max_bytes max_rules src e = (Inr st, e')"
    using assms(1,2) unfolding load_hosts_with_limit_def load_domain_list_with_limit_def by metis
  obtain u where loop: "ingest_loop parse max_lines max_bytes max_rules
      (limited_lines (max_bytes + 1) src) 0 no_stats 0 e = (Inr (st, u), e')" "u \<noteq> max_bytes + 1"
    using p(2) assms(3) by (auto simp: ingest_lines_def Let_def split: prod.splits sum.splits if_splits)
  have "u = 0 + sum_list (map item_size (limited_lines (max_bytes + 1) src)) \<and>
      lines_read st = lines_read no_stats + length (limited_lines (max_bytes + 1) src)"
    by (rule ingest_loop_complete [OF loop(1) assms(3)])
  then have "u = sum_list (map item_size (limited_lines (max_bytes + 1) src)) \<and>
      lines_read st = length (limited_lines (max_bytes + 1) src)"
    by (simp add: no_stats_def)
  moreover have "\<not> max_bytes + 1 \<le> length (src_bytes src)"
    using calculation loop(2) by (auto simp: limited_lines_def item_sizes)
  moreover from this have "src_end src = Eof"
    using loop(1) assms(3) unclean_failing [of "src_end src" parse "src_bytes src"]
    unfolding limited_lines_def unclean_def by (metis (full_types))
  ultimately show ?thesis by (auto simp: limited_lines_def)
qed

theorem load_not_truncated_is_whole_witness:
  "fst (load_hosts_with_limit BlockList 10 100 9 sample_list new_engine)
     = Inr \<lparr>lines_read = 2, bytes_read = 41, rules_added = 3, lines_skipped = 0, hosts_rejected = 0,
            load_truncated = False\<rparr> \<and> src_end sample_list = Eof"
proof -
  have r: "fst (load_hosts_with_limit BlockList 10 100 9 sample_list new_engine)
     = Inr \<lparr>lines_read = 2, bytes_read = 41, rules_added = 3, lines_skipped = 0, hosts_rejected = 0,
            load_truncated = False\<rparr>"
    by code_simp
  then obtain e' where "load_hosts_with_limit BlockList 10 100 9 sample_list new_engine
     = (Inr \<lparr>lines_read = 2, bytes_read = 41, rules_added = 3, lines_skipped = 0, hosts_rejected = 0,
            load_truncated = False\<rparr>, e')"
    by (metis prod.collapse)
  from load_not_truncated_is_whole [OF disjI1 [OF refl] this] r show ?thesis by simp
qed

text \<open>
Loading a block list, from any source and even when the load fails, never unblocks a name; in
particular the canary of a new engine stays blocked.
\<close>

theorem block_load_keeps_blocking:
  "let e' = snd (load_hosts_with_limit BlockList ml mb mr src e);
       e2 = snd (load_domain_list_with_limit BlockList policy ml mb mr src e) in
   (fst (decide e name) = Block \<longrightarrow> fst (decide e' name) = Block \<and> fst (decide e2 name) = Block) \<and>
   fst (decide new_engine CANARY_DOMAIN) = Block"
proof -
  have mono: "fst (decide e name) = Block \<Longrightarrow> grows BlockList e e' \<Longrightarrow> fst (decide e' name) = Block" for e'
  proof -
    assume b: "fst (decide e name) = Block" and g: "grows BlockList e e'"
    have scan: "suffix_scan A f s \<Longrightarrow> A \<subseteq> B \<Longrightarrow> suffix_scan B f s" for A B f s
      by (induction A f s rule: suffix_scan.induct) (auto split: if_splits)
    then have "suffix_match A s \<Longrightarrow> A \<subseteq> B \<Longrightarrow> suffix_match B s" for A B s
      by (auto simp: suffix_match_def)
    then show ?thesis
      using b g by (fastforce simp: decide_def grows_def split: option.splits if_splits)
  qed
  have g: "grows BlockList e (snd (load_hosts_with_limit BlockList ml mb mr src e))"
    "grows BlockList e (snd (load_domain_list_with_limit BlockList policy ml mb mr src e))"
    unfolding load_hosts_with_limit_def load_domain_list_with_limit_def
    using hosts.ingest_lines_law [OF prod.collapse [symmetric]]
      domain_list.ingest_lines_law [OF prod.collapse [symmetric]] by blast+
  have "fst (decide new_engine CANARY_DOMAIN) = Block" by code_simp
  then show ?thesis using mono g by (simp add: Let_def)
qed

theorem block_load_keeps_blocking_witness:
  "fst (decide (snd (load_hosts_with_limit BlockList 10 100 9 sample_list new_engine)) CANARY_DOMAIN) = Block"
proof -
  have "fst (decide new_engine CANARY_DOMAIN) = Block" by code_simp
  then show ?thesis
    using block_load_keeps_blocking [where e = new_engine and name = CANARY_DOMAIN]
    unfolding Let_def by blast
qed

text \<open>The rule budget cuts a hosts line in the middle: two hosts, room for one.\<close>

lemma hosts_line_half_ingested:
  "fst (parse_hosts_line BlockList ''0.0.0.0 a.test b.test'' 1 new_engine) = (1, 0) \<and>
   fst (decide (snd (parse_hosts_line BlockList ''0.0.0.0 a.test b.test'' 1 new_engine)) ''a.test'') = Block \<and>
   fst (decide (snd (parse_hosts_line BlockList ''0.0.0.0 a.test b.test'' 1 new_engine)) ''b.test'') = Allow"
  by code_simp

end
