(* ===== verification/Proxy.thy ===== *)
theory Proxy
  imports Domain_Load Wire_Edns "HOL-Library.AList"
begin

text \<open>
  The proxy core of \<open>crates/dnsguard/src/proxy.rs\<close>: configuration, counters, the response cache with
  its byte accounting, upstream validation, the exchange with an upstream and the query pipeline.
  The network, the clock readings and the keyed hash behind the transaction ids are the record
  \<open>env\<close>, an argument of every operation that uses them. Locks and atomics are taken one operation at
  a time; tasks interleave between operations.
\<close>

section \<open>Addresses\<close>

datatype ip_addr = V4 u32 | V6 "128 word"

definition is_loopback :: "ip_addr \<Rightarrow> bool" where
  "is_loopback ip = (case ip of V4 w \<Rightarrow> drop_bit 24 w = 127 | V6 w \<Rightarrow> w = 1)"

definition is_unspecified :: "ip_addr \<Rightarrow> bool" where
  "is_unspecified ip = (case ip of V4 w \<Rightarrow> w = 0 | V6 w \<Rightarrow> w = 0)"

record socket_addr =
  sa_ip :: ip_addr
  sa_port :: u16
  sa_flowinfo :: u32
  sa_scope_id :: u32

definition v4_addr :: "u32 \<Rightarrow> u16 \<Rightarrow> socket_addr" where
  "v4_addr ip port = \<lparr>sa_ip = V4 ip, sa_port = port, sa_flowinfo = 0, sa_scope_id = 0\<rparr>"

section \<open>Configuration\<close>

text \<open>Durations and instants are nanoseconds.\<close>

definition secs :: "nat \<Rightarrow> nat" where "secs n = n * 1000000000"

definition DEFAULT_MAX_IN_FLIGHT :: nat where "DEFAULT_MAX_IN_FLIGHT = 256"
definition DEFAULT_TCP_MAX_CONNECTIONS :: nat where "DEFAULT_TCP_MAX_CONNECTIONS = 128"
definition DEFAULT_TCP_QUEUE_TIMEOUT :: nat where "DEFAULT_TCP_QUEUE_TIMEOUT = secs 2"
definition DEFAULT_UPSTREAM_TIMEOUT :: nat where "DEFAULT_UPSTREAM_TIMEOUT = secs 3"
definition DEFAULT_MAX_TTL :: nat where "DEFAULT_MAX_TTL = secs 300"
definition DEFAULT_NEGATIVE_TTL :: nat where "DEFAULT_NEGATIVE_TTL = secs 60"
definition DEFAULT_CACHE_CAPACITY :: nat where "DEFAULT_CACHE_CAPACITY = 10000"
definition CACHE_MAX_BYTES :: nat where "CACHE_MAX_BYTES = 8 * 1024 * 1024"
definition MAX_DATAGRAM :: nat where "MAX_DATAGRAM = 4096"
definition ZERO_IP_TTL :: u32 where "ZERO_IP_TTL = 60"

datatype block_response = Nxdomain | Zero_Ip

record proxy_config =
  listen :: socket_addr
  cfg_upstreams :: "socket_addr list"
  upstream_timeout :: nat
  max_in_flight :: nat
  cache_capacity :: nat
  max_ttl :: nat
  negative_ttl :: nat
  cfg_block_response :: block_response
  tcp_idle_timeout :: nat
  tcp_max_lifetime :: nat
  tcp_max_connections :: nat
  tcp_queue_timeout :: nat
  tcp_max_queued :: nat
  health_check_name :: string

definition default_config :: proxy_config where
  "default_config =
    \<lparr>listen = v4_addr 0x7F000001 53, cfg_upstreams = [],
     upstream_timeout = DEFAULT_UPSTREAM_TIMEOUT, max_in_flight = DEFAULT_MAX_IN_FLIGHT,
     cache_capacity = DEFAULT_CACHE_CAPACITY, max_ttl = DEFAULT_MAX_TTL,
     negative_ttl = DEFAULT_NEGATIVE_TTL, cfg_block_response = Nxdomain,
     tcp_idle_timeout = secs 10, tcp_max_lifetime = secs 60,
     tcp_max_connections = DEFAULT_TCP_MAX_CONNECTIONS,
     tcp_queue_timeout = DEFAULT_TCP_QUEUE_TIMEOUT,
     tcp_max_queued = DEFAULT_TCP_MAX_CONNECTIONS, health_check_name = ''example.com''\<rparr>"

datatype config_error = No_Upstream | Self_Referential socket_addr | Bad_Health_Name

definition self_referential :: "socket_addr \<Rightarrow> socket_addr \<Rightarrow> bool" where
  "self_referential upstream listen_addr \<longleftrightarrow>
     upstream = listen_addr
     \<or> (sa_port listen_addr \<noteq> 0 \<and> sa_port upstream = sa_port listen_addr
        \<and> is_loopback (sa_ip upstream)
        \<and> (is_loopback (sa_ip listen_addr) \<or> is_unspecified (sa_ip listen_addr)))"

definition validate_upstreams ::
    "socket_addr list \<Rightarrow> socket_addr \<Rightarrow> config_error option" where
  "validate_upstreams upstreams listen_addr =
     (if upstreams = [] then Some No_Upstream
      else map_option Self_Referential
             (find (\<lambda>u. self_referential u listen_addr) upstreams))"

definition validate_health_check_name :: "string \<Rightarrow> config_error option" where
  "validate_health_check_name name =
     (if trim_end_matches CHR 0x2E name = [] then Some Bad_Health_Name
      else if CHR 0x5C \<in> set name then Some Bad_Health_Name
      else if build_query 0 name TYPE_A CLASS_IN = None then Some Bad_Health_Name
      else None)"

section \<open>Counters and events\<close>

record counters =
  queries :: nat
  forwarded :: nat
  blocked :: nat
  cache_hits :: nat
  upstream_errors :: nat
  shed_count :: nat
  tcp_lifetime_kills :: nat
  tcp_pool_full :: nat
  canary_probes :: nat

definition zero_counters :: counters where
  "zero_counters = \<lparr>queries = 0, forwarded = 0, blocked = 0, cache_hits = 0, upstream_errors = 0,
     shed_count = 0, tcp_lifetime_kills = 0, tcp_pool_full = 0, canary_probes = 0\<rparr>"

datatype query_outcome =
  Blocked | Forwarded_Outcome | Cache_Hit | Upstream_Error | Shed | Malformed | Not_Implemented

record decision_event =
  ev_client :: socket_addr
  ev_qname :: string
  ev_qtype :: u16
  ev_qclass :: u16
  ev_outcome :: query_outcome

section \<open>The response cache\<close>

type_synonym cache_key = "u8 list \<times> u16 \<times> u16 \<times> u8"

record cache_entry =
  ce_bytes :: "u8 list"
  expires_at :: nat

text \<open>\<open>entries\<close> is the hash map as an association list, \<open>total\<close> the running byte count.\<close>

record response_cache =
  entries :: "(cache_key \<times> cache_entry) list"
  total :: nat

definition empty_cache :: response_cache where
  "empty_cache = \<lparr>entries = [], total = 0\<rparr>"

definition rc_get :: "response_cache \<Rightarrow> cache_key \<Rightarrow> cache_entry option" where
  "rc_get c key = map_of (entries c) key"

definition rc_remove :: "cache_key \<Rightarrow> response_cache \<Rightarrow> response_cache" where
  "rc_remove key c =
     (case map_of (entries c) key of
        None \<Rightarrow> c
      | Some entry \<Rightarrow> \<lparr>entries = AList.delete key (entries c),
                      total = total c - length (ce_bytes entry)\<rparr>)"

definition purge_expired :: "nat \<Rightarrow> response_cache \<Rightarrow> response_cache" where
  "purge_expired now c =
     (let freed = sum_list (map (\<lambda>(_, e). length (ce_bytes e))
                              (filter (\<lambda>(_, e). \<not> expires_at e > now) (entries c))) in
      \<lparr>entries = filter (\<lambda>(_, e). expires_at e > now) (entries c), total = total c - freed\<rparr>)"

definition rc_insert :: "cache_key \<Rightarrow> cache_entry \<Rightarrow> response_cache \<Rightarrow> response_cache" where
  "rc_insert key entry c =
     (let grown = total c + length (ce_bytes entry) in
      \<lparr>entries = AList.update key entry (entries c),
       total = (case map_of (entries c) key of
                  None \<Rightarrow> grown | Some old \<Rightarrow> grown - length (ce_bytes old))\<rparr>)"

end
