(* ===== verification/Proxy_Query.thy ===== *)
theory Proxy_Query
  imports Proxy
begin

text \<open>
  The query pipeline of \<open>crates/dnsguard/src/proxy.rs\<close>: cache access under the lock, forwarding with
  the EDNS and TCP fallbacks, and \<open>handle_query\<close>, which answers one client query.
\<close>

section \<open>State and environment\<close>

record proxy_state =
  config :: proxy_config
  engine :: filter_engine
  upstreams :: "socket_addr list"
  cache :: response_cache
  txid_counter :: nat
  counts :: counters
  hook_log :: "decision_event list"
  upstream_rr :: nat

datatype net_error = Not_Connected | Invalid_Response | Timed_Out | Io_Failed

text \<open>What a socket delivers while an exchange waits: datagrams in order, or a receive error.\<close>

datatype recv_event = Datagram "u8 list" | Recv_Error

text \<open>
  \<open>udp_open\<close> is whether bind, connect and send succeed, \<open>udp_recv\<close> what arrives before the deadline
  for a query sent to an upstream, \<open>tcp_reply\<close> the outcome of a framed exchange within the timeout,
  \<open>txid_hash\<close> the keyed hash of the transaction-id counter (its value already shifted to 16 bits), and
  the rest the clock readings of one query.
\<close>

record env =
  udp_open :: "socket_addr \<Rightarrow> bool"
  udp_recv :: "socket_addr \<Rightarrow> u8 list \<Rightarrow> recv_event list"
  tcp_reply :: "socket_addr \<Rightarrow> u8 list \<Rightarrow> net_error + u8 list"
  txid_hash :: "nat \<Rightarrow> u16"
  now_get :: nat
  now_purge :: nat
  now_put :: nat

definition initial_state :: "proxy_config \<Rightarrow> filter_engine \<Rightarrow> proxy_state" where
  "initial_state cfg eng =
    \<lparr>config = cfg, engine = eng, upstreams = cfg_upstreams cfg, cache = empty_cache,
     txid_counter = 0, counts = zero_counters, hook_log = [], upstream_rr = 0\<rparr>"

text \<open>\<open>Proxy::bind\<close> up to the sockets: the checks on the configuration, then on the address bound.\<close>

definition bind_proxy ::
    "proxy_config \<Rightarrow> filter_engine \<Rightarrow> u16 \<Rightarrow> config_error + (proxy_state \<times> socket_addr)" where
  "bind_proxy cfg eng port =
     (case validate_health_check_name (health_check_name cfg) of
        Some e \<Rightarrow> Inl e
      | None \<Rightarrow>
          (case validate_upstreams (cfg_upstreams cfg) (listen cfg) of
             Some e \<Rightarrow> Inl e
           | None \<Rightarrow>
               let local_addr = \<lparr>sa_ip = sa_ip (listen cfg), sa_port = port, sa_flowinfo = 0, sa_scope_id = 0\<rparr> in
               (case validate_upstreams (cfg_upstreams cfg) local_addr of
                  Some e \<Rightarrow> Inl e
                | None \<Rightarrow> Inr (initial_state cfg eng, local_addr))))"

definition set_upstreams ::
    "socket_addr list \<Rightarrow> socket_addr \<Rightarrow> proxy_state \<Rightarrow> config_error option \<times> proxy_state" where
  "set_upstreams new listen_addr st =
     (case validate_upstreams new listen_addr of
        Some e \<Rightarrow> (Some e, st)
      | None \<Rightarrow> (None, st\<lparr>upstreams := new\<rparr>))"

section \<open>State operations\<close>

definition next_txid :: "env \<Rightarrow> proxy_state \<Rightarrow> u16 \<times> proxy_state" where
  "next_txid ev st = (txid_hash ev (txid_counter st), st\<lparr>txid_counter := txid_counter st + 1\<rparr>)"

definition state_decide :: "string \<Rightarrow> proxy_state \<Rightarrow> decision \<times> proxy_state" where
  "state_decide qname st = (let (d, e) = decide (engine st) qname in (d, st\<lparr>engine := e\<rparr>))"

definition pick_upstream :: "proxy_state \<Rightarrow> socket_addr option \<times> proxy_state" where
  "pick_upstream st =
     (if upstreams st = [] then (None, st)
      else (Some (upstreams st ! (upstream_rr st mod length (upstreams st))),
            st\<lparr>upstream_rr := upstream_rr st + 1\<rparr>))"

definition patch_id :: "u16 \<Rightarrow> u8 list \<Rightarrow> u8 list" where
  "patch_id new bytes = (if length bytes \<ge> 2 then to_be16 new @ drop 2 bytes else bytes)"

definition cache_get ::
    "nat \<Rightarrow> cache_key \<Rightarrow> u16 \<Rightarrow> bool \<Rightarrow> bool \<Rightarrow> response_cache \<Rightarrow> u8 list option \<times> response_cache" where
  "cache_get now key txid rd cd c =
     (case rc_get c key of
        None \<Rightarrow> (None, c)
      | Some entry \<Rightarrow>
          if expires_at entry \<le> now then (None, rc_remove key c)
          else (Some (patch_id txid (rewrite_response_flags_for_client (ce_bytes entry) rd cd)), c))"

text \<open>How long a response may be kept: \<open>None\<close> for one that is not cached.\<close>

definition cache_ttl :: "proxy_config \<Rightarrow> u8 list \<Rightarrow> nat option" where
  "cache_ttl cfg response =
     (case response_info response of
        None \<Rightarrow> None
      | Some info \<Rightarrow>
          if ri_rcode info = RCODE_NXDOMAIN then Some (negative_ttl cfg)
          else if ri_rcode info = RCODE_NOERROR then
            (case ri_min_ttl info of
               None \<Rightarrow> None
             | Some min_ttl \<Rightarrow>
                 if min_ttl = 0 then None else Some (min (secs (unat min_ttl)) (max_ttl cfg)))
          else None)"

definition would_be :: "cache_key \<Rightarrow> u8 list \<Rightarrow> response_cache \<Rightarrow> nat" where
  "would_be key response c =
     total c - (case rc_get c key of None \<Rightarrow> 0 | Some e \<Rightarrow> length (ce_bytes e)) + length response"

definition cache_full :: "proxy_config \<Rightarrow> cache_key \<Rightarrow> u8 list \<Rightarrow> response_cache \<Rightarrow> bool" where
  "cache_full cfg key response c \<longleftrightarrow>
     length (entries c) \<ge> cache_capacity cfg \<or> would_be key response c > CACHE_MAX_BYTES"

definition cache_store ::
    "proxy_config \<Rightarrow> nat \<Rightarrow> nat \<Rightarrow> cache_key \<Rightarrow> u8 list \<Rightarrow> response_cache \<Rightarrow> response_cache" where
  "cache_store cfg t_purge t_put key response c =
     (case cache_ttl cfg response of
        None \<Rightarrow> c
      | Some ttl \<Rightarrow>
          let c1 = (if cache_full cfg key response c then purge_expired t_purge c else c) in
          if cache_full cfg key response c \<and> cache_full cfg key response c1 then c1
          else rc_insert key \<lparr>ce_bytes = response, expires_at = t_put + ttl\<rparr> c1)"

definition emit ::
    "socket_addr \<Rightarrow> query \<Rightarrow> query_outcome \<Rightarrow> proxy_state \<Rightarrow> proxy_state" where
  "emit client q outcome st =
     st\<lparr>hook_log := hook_log st @
        [\<lparr>ev_client = client, ev_qname = q_qname q, ev_qtype = q_qtype q,
          ev_qclass = q_qclass q, ev_outcome = outcome\<rparr>]\<rparr>"

definition bump :: "(counters \<Rightarrow> counters) \<Rightarrow> proxy_state \<Rightarrow> proxy_state" where
  "bump f st = st\<lparr>counts := f (counts st)\<rparr>"

text \<open>\<open>if !synthetic { ... }\<close>\<close>

definition unless_synthetic :: "bool \<Rightarrow> (proxy_state \<Rightarrow> proxy_state) \<Rightarrow> proxy_state \<Rightarrow> proxy_state" where
  "unless_synthetic synthetic f st = (if synthetic then st else f st)"

section \<open>Exchanges with an upstream\<close>

fun udp_receive :: "u16 \<Rightarrow> recv_event list \<Rightarrow> net_error + u8 list" where
  "udp_receive expected_id [] = Inl Timed_Out"
| "udp_receive expected_id (Recv_Error # rest) = Inl Io_Failed"
| "udp_receive expected_id (Datagram d # rest) =
     (let buf = take MAX_DATAGRAM d in
      if length buf < HEADER_LEN then udp_receive expected_id rest
      else if be16 (buf ! 0) (buf ! 1) \<noteq> expected_id then udp_receive expected_id rest
      else Inr buf)"

definition udp_exchange :: "env \<Rightarrow> socket_addr \<Rightarrow> u8 list \<Rightarrow> u16 \<Rightarrow> net_error + u8 list" where
  "udp_exchange ev upstream q expected_id =
     (if udp_open ev upstream then udp_receive expected_id (udp_recv ev upstream q)
      else Inl Io_Failed)"

text \<open>The reply body is read into a buffer of a 16-bit length.\<close>

definition tcp_exchange :: "env \<Rightarrow> socket_addr \<Rightarrow> u8 list \<Rightarrow> net_error + u8 list" where
  "tcp_exchange ev upstream q =
     (case tcp_reply ev upstream q of Inl e \<Rightarrow> Inl e | Inr r \<Rightarrow> Inr (take 65535 r))"

record forwarded_answer =
  fw_bytes :: "u8 list"
  fw_edns_stripped :: bool

definition is_formerr :: "u8 list \<Rightarrow> bool" where
  "is_formerr resp \<longleftrightarrow>
     (case response_info resp of Some info \<Rightarrow> ri_rcode info = RCODE_FORMERR | None \<Rightarrow> False)"

definition checked_tcp ::
    "env \<Rightarrow> socket_addr \<Rightarrow> u8 list \<Rightarrow> u16 \<Rightarrow> u8 list \<Rightarrow> net_error + u8 list" where
  "checked_tcp ev upstream pkt upstream_id question =
     (case tcp_exchange ev upstream pkt of
        Inl e \<Rightarrow> Inl e
      | Inr resp \<Rightarrow>
          if validate_response resp upstream_id question = None then Inl Invalid_Response else Inr resp)"

text \<open>The tail of \<open>forward_via\<close>: the TCP exchange and its own EDNS fallback.\<close>

definition forward_tcp ::
    "env \<Rightarrow> socket_addr \<Rightarrow> u8 list \<Rightarrow> u8 list \<Rightarrow> bool \<Rightarrow> u16 \<Rightarrow> u8 list \<Rightarrow> net_error + forwarded_answer" where
  "forward_tcp ev upstream pkt plain has_edns upstream_id question =
     (case checked_tcp ev upstream pkt upstream_id question of
        Inl e \<Rightarrow> Inl e
      | Inr resp \<Rightarrow>
          if has_edns \<and> is_formerr resp then
            (case checked_tcp ev upstream plain upstream_id question of
               Inl e \<Rightarrow> Inl e
             | Inr resp2 \<Rightarrow> Inr \<lparr>fw_bytes = resp2, fw_edns_stripped = True\<rparr>)
          else Inr \<lparr>fw_bytes = resp, fw_edns_stripped = False\<rparr>)"

text \<open>The plain retry over UDP after a FORMERR, escalating to TCP when the answer is truncated.\<close>

definition forward_plain_udp ::
    "env \<Rightarrow> socket_addr \<Rightarrow> u8 list \<Rightarrow> u16 \<Rightarrow> u8 list \<Rightarrow> net_error + forwarded_answer" where
  "forward_plain_udp ev upstream plain upstream_id question =
     (case udp_exchange ev upstream plain upstream_id of
        Inl e \<Rightarrow> Inl e
      | Inr resp \<Rightarrow>
          if validate_response resp upstream_id question = None then Inl Invalid_Response
          else if \<not> is_truncated_response resp then
            Inr \<lparr>fw_bytes = resp, fw_edns_stripped = True\<rparr>
          else
            (case checked_tcp ev upstream plain upstream_id question of
               Inl e \<Rightarrow> Inl e
             | Inr resp2 \<Rightarrow> Inr \<lparr>fw_bytes = resp2, fw_edns_stripped = True\<rparr>))"

definition forward_via ::
    "env \<Rightarrow> u8 list \<Rightarrow> query \<Rightarrow> bool \<Rightarrow> socket_addr \<Rightarrow> proxy_state
     \<Rightarrow> (net_error + forwarded_answer) \<times> proxy_state" where
  "forward_via ev query_bytes q via_tcp upstream st =
     (let (upstream_id, st) = next_txid ev st;
          question = slice HEADER_LEN (q_question_end q) query_bytes;
          edns = map_option (\<lambda>sz. (sz, q_dnssec_ok q)) (q_edns_udp_size q);
          pkt = build_upstream_query upstream_id question (q_checking_disabled q) edns;
          plain = build_upstream_query upstream_id question (q_checking_disabled q) None;
          tail = forward_tcp ev upstream pkt plain (edns \<noteq> None) upstream_id question in
      (if via_tcp then tail
       else
         (case udp_exchange ev upstream pkt upstream_id of
            Inl e \<Rightarrow> Inl e
          | Inr resp \<Rightarrow>
              if validate_response resp upstream_id question = None then Inl Invalid_Response
              else if edns \<noteq> None \<and> is_formerr resp then
                forward_plain_udp ev upstream plain upstream_id question
              else if \<not> is_truncated_response resp then
                Inr \<lparr>fw_bytes = resp, fw_edns_stripped = False\<rparr>
              else tail),
       st))"

definition forward ::
    "env \<Rightarrow> u8 list \<Rightarrow> query \<Rightarrow> bool \<Rightarrow> proxy_state \<Rightarrow> (net_error + forwarded_answer) \<times> proxy_state" where
  "forward ev query_bytes q via_tcp st =
     (case pick_upstream st of
        (None, st) \<Rightarrow> (Inl Not_Connected, st)
      | (Some upstream, st) \<Rightarrow> forward_via ev query_bytes q via_tcp upstream st)"

end
