(* ===== verification/Proxy_Serve.thy ===== *)
theory Proxy_Serve
  imports Proxy_Query
begin

text \<open>
  Serving one query (\<open>handle_query\<close> and its stages), the datagram the UDP listener sends, the frame
  the TCP listener writes, the overload answers and the connection clock of \<open>tcp_conn\<close>, all of
  \<open>crates/dnsguard/src/proxy.rs\<close>.
\<close>

section \<open>The pipeline\<close>

definition normalize_client_edns :: "u8 list \<Rightarrow> u8 list \<Rightarrow> u8 list" where
  "normalize_client_edns request resp =
     (let out = strip_opt_records resp in
      case parse_query request of
        Inl _ \<Rightarrow> out
      | Inr q \<Rightarrow>
          (case q_edns_udp_size q of
             None \<Rightarrow> out
           | Some sz \<Rightarrow>
               append_client_opt out (word_of_nat (clamp_edns_udp_size sz)) (q_dnssec_ok q)))"

definition eq_ignore_ascii_case :: "string \<Rightarrow> string \<Rightarrow> bool" where
  "eq_ignore_ascii_case a b \<longleftrightarrow> to_ascii_lowercase a = to_ascii_lowercase b"

definition dnssec_slot :: "query \<Rightarrow> u8" where
  "dnssec_slot q = (if q_dnssec_ok q then 1 else 0) OR (if q_checking_disabled q then 2 else 0)"

definition query_cache_key :: "query \<Rightarrow> cache_key" where
  "query_cache_key q = (q_qname_wire q, q_qtype q, q_qclass q, dnssec_slot q)"

definition store_key :: "query \<Rightarrow> bool \<Rightarrow> cache_key" where
  "store_key q edns_stripped =
     (if edns_stripped \<and> q_dnssec_ok q
      then (q_qname_wire q, q_qtype q, q_qclass q, dnssec_slot q AND NOT 1)
      else query_cache_key q)"

definition query_udp_limit :: "query \<Rightarrow> nat" where
  "query_udp_limit q =
     (case q_edns_udp_size q of None \<Rightarrow> MAX_UDP_PAYLOAD | Some sz \<Rightarrow> clamp_edns_udp_size sz)"

text \<open>The last stage: forward, restore the client's header, store, answer.\<close>

definition answer_from_upstream ::
    "env \<Rightarrow> u8 list \<Rightarrow> query \<Rightarrow> socket_addr \<Rightarrow> bool \<Rightarrow> bool \<Rightarrow> proxy_state
     \<Rightarrow> u8 list option \<times> proxy_state" where
  "answer_from_upstream ev bytes q client via_tcp synthetic st =
     (case forward ev bytes q via_tcp st of
        (Inr fw, st) \<Rightarrow>
          let st = unless_synthetic synthetic (bump (\<lambda>c. c\<lparr>forwarded := forwarded c + 1\<rparr>)) st;
              resp = rewrite_response_flags_for_client (patch_id (q_id q) (fw_bytes fw))
                       (q_recursion_desired q) (q_checking_disabled q);
              st = st\<lparr>cache := cache_store (config st) (now_purge ev) (now_put ev)
                       (store_key q (fw_edns_stripped fw)) (strip_opt_records resp) (cache st)\<rparr>;
              st = unless_synthetic synthetic (emit client q Forwarded_Outcome) st in
          (Some resp, st)
      | (Inl _, st) \<Rightarrow>
          let st = unless_synthetic synthetic
                (emit client q Upstream_Error \<circ> bump (\<lambda>c. c\<lparr>upstream_errors := upstream_errors c + 1\<rparr>)) st in
          (build_error_response bytes RCODE_SERVFAIL False, st))"

text \<open>The stages behind the canary check up to the upstream: the filter and the cache. \<open>None\<close> is a
  miss, on which the query goes on to the upstream.\<close>

definition answer_locally ::
    "env \<Rightarrow> u8 list \<Rightarrow> query \<Rightarrow> socket_addr \<Rightarrow> bool \<Rightarrow> proxy_state
     \<Rightarrow> u8 list option option \<times> proxy_state" where
  "answer_locally ev bytes q client synthetic st0 =
     (let st1 = unless_synthetic synthetic (bump (\<lambda>c. c\<lparr>queries := queries c + 1\<rparr>)) st0;
          (d, st2) = state_decide (q_qname q) st1 in
      if d = Block then
        (let st3 = unless_synthetic synthetic
              (emit client q Blocked \<circ> bump (\<lambda>c. c\<lparr>blocked := blocked c + 1\<rparr>)) st2 in
         (case cfg_block_response (config st3) of
            Nxdomain \<Rightarrow> (Some (build_error_response bytes RCODE_NXDOMAIN True), st3)
          | Zero_Ip \<Rightarrow> (Some (build_zero_ip_response bytes ZERO_IP_TTL), st3)))
      else
        (case cache_get (now_get ev) (query_cache_key q) (q_id q) (q_recursion_desired q)
                (q_checking_disabled q) (cache st2) of
           (Some resp, c) \<Rightarrow>
             (Some (Some resp), unless_synthetic synthetic
                (emit client q Cache_Hit \<circ> bump (\<lambda>k. k\<lparr>cache_hits := cache_hits k + 1\<rparr>))
                (st2\<lparr>cache := c\<rparr>))
         | (None, c) \<Rightarrow> (None, st2\<lparr>cache := c\<rparr>)))"

definition answer_filtered ::
    "env \<Rightarrow> u8 list \<Rightarrow> query \<Rightarrow> socket_addr \<Rightarrow> bool \<Rightarrow> bool \<Rightarrow> proxy_state
     \<Rightarrow> u8 list option \<times> proxy_state" where
  "answer_filtered ev bytes q client via_tcp synthetic st =
     (case answer_locally ev bytes q client synthetic st of
        (Some answer, st') \<Rightarrow> (answer, st')
      | (None, st') \<Rightarrow> answer_from_upstream ev bytes q client via_tcp synthetic st')"

definition handle_query_inner ::
    "env \<Rightarrow> u8 list \<Rightarrow> socket_addr \<Rightarrow> bool \<Rightarrow> bool \<Rightarrow> proxy_state
     \<Rightarrow> (u8 list \<times> nat) option \<times> proxy_state" where
  "handle_query_inner ev bytes client via_tcp synthetic st =
     (case parse_query bytes of
        Inl _ \<Rightarrow>
          (map_option (\<lambda>resp. (resp, MAX_UDP_PAYLOAD)) (build_error_response bytes RCODE_FORMERR False),
           unless_synthetic synthetic (bump (\<lambda>c. c\<lparr>queries := queries c + 1\<rparr>)) st)
      | Inr q \<Rightarrow>
          if q_opcode q \<noteq> 0 then
            (map_option (\<lambda>resp. (resp, MAX_UDP_PAYLOAD)) (build_error_response bytes RCODE_NOTIMP False),
             unless_synthetic synthetic
               (emit client q Not_Implemented \<circ> bump (\<lambda>c. c\<lparr>queries := queries c + 1\<rparr>)) st)
          else if eq_ignore_ascii_case (q_qname q) CANARY_DOMAIN then
            (map_option (\<lambda>resp. (resp, query_udp_limit q)) (build_zero_ip_response bytes ZERO_IP_TTL),
             bump (\<lambda>c. c\<lparr>canary_probes := canary_probes c + 1\<rparr>) st)
          else
            (let (resp, st') = answer_filtered ev bytes q client via_tcp synthetic st in
             (map_option (\<lambda>r. (r, query_udp_limit q)) resp, st')))"

definition handle_query ::
    "env \<Rightarrow> u8 list \<Rightarrow> socket_addr \<Rightarrow> bool \<Rightarrow> bool \<Rightarrow> proxy_state
     \<Rightarrow> (u8 list \<times> nat) option \<times> proxy_state" where
  "handle_query ev bytes client via_tcp synthetic st =
     (let (answer, st') = handle_query_inner ev bytes client via_tcp synthetic st in
      (map_option (\<lambda>(resp, limit). (normalize_client_edns bytes resp, limit)) answer, st'))"

text \<open>What a query leaves behind when its task is dropped while it waits for the upstream, the only
  place it waits: everything up to the exchange, the picked upstream and the transaction id included.\<close>

definition handle_query_dropped ::
    "env \<Rightarrow> u8 list \<Rightarrow> socket_addr \<Rightarrow> bool \<Rightarrow> proxy_state \<Rightarrow> proxy_state" where
  "handle_query_dropped ev bytes client synthetic st =
     (case parse_query bytes of
        Inl _ \<Rightarrow> snd (handle_query ev bytes client True synthetic st)
      | Inr q \<Rightarrow>
          if q_opcode q \<noteq> 0 \<or> eq_ignore_ascii_case (q_qname q) CANARY_DOMAIN
          then snd (handle_query ev bytes client True synthetic st)
          else
            (case answer_locally ev bytes q client synthetic st of
               (Some _, st') \<Rightarrow> st'
             | (None, st') \<Rightarrow>
                 (case pick_upstream st' of
                    (None, st2) \<Rightarrow> snd (handle_query ev bytes client True synthetic st)
                  | (Some _, st2) \<Rightarrow> snd (next_txid ev st2))))"

section \<open>What leaves the listeners\<close>

definition truncate_for_client :: "u8 list \<Rightarrow> u8 list \<Rightarrow> u8 list option" where
  "truncate_for_client request oversized =
     (let rcode = (case response_info oversized of Some info \<Rightarrow> ri_rcode info | None \<Rightarrow> RCODE_NOERROR) in
      case build_truncated_response request rcode of
        Some t \<Rightarrow> Some (normalize_client_edns request t)
      | None \<Rightarrow> map_option (normalize_client_edns request)
                  (build_error_response request RCODE_SERVFAIL False))"

text \<open>The task the UDP loop spawns for a query with a permit: what is sent, if anything.\<close>

definition udp_task ::
    "env \<Rightarrow> u8 list \<Rightarrow> socket_addr \<Rightarrow> bool \<Rightarrow> proxy_state \<Rightarrow> u8 list option \<times> proxy_state" where
  "udp_task ev bytes peer synthetic st =
     (let (answer, st') = handle_query ev bytes peer False synthetic st in
      (case answer of
         None \<Rightarrow> None
       | Some (resp, udp_limit) \<Rightarrow>
           if length resp > udp_limit then truncate_for_client bytes resp else Some resp, st'))"

definition shed ::
    "u8 list \<Rightarrow> socket_addr \<Rightarrow> bool \<Rightarrow> proxy_state \<Rightarrow> u8 list option \<times> proxy_state" where
  "shed bytes peer synthetic st0 =
     (let st1 = bump (\<lambda>c. c\<lparr>shed_count := shed_count c + 1\<rparr>) st0;
          st2 = unless_synthetic synthetic (bump (\<lambda>c. c\<lparr>queries := queries c + 1\<rparr>)) st1;
          st3 = (case parse_query bytes of
                   Inl _ \<Rightarrow> st2
                 | Inr q \<Rightarrow> unless_synthetic synthetic (emit peer q Shed) st2) in
      (map_option (normalize_client_edns bytes) (build_error_response bytes RCODE_SERVFAIL False),
       st3))"

definition serve_overflow_servfail :: "u8 list \<Rightarrow> u8 list option" where
  "serve_overflow_servfail buf =
     map_option (\<lambda>resp0. let resp = normalize_client_edns buf resp0 in
                   to_be16 (word_of_nat (length resp)) @ resp)
       (build_error_response buf RCODE_SERVFAIL False)"

text \<open>The framing step of \<open>tcp_conn\<close>: \<open>None\<close> closes the connection.\<close>

definition tcp_frame :: "u8 list \<Rightarrow> u8 list \<Rightarrow> u8 list option" where
  "tcp_frame request resp =
     (if length resp < 65536 then Some (to_be16 (word_of_nat (length resp)) @ resp)
      else
        (case truncate_for_client request resp of
           None \<Rightarrow> None
         | Some t \<Rightarrow> if length t < 65536 then Some (to_be16 (word_of_nat (length t)) @ t) else None))"

definition is_canary_signature :: "u8 list \<Rightarrow> u16 \<Rightarrow> bool" where
  "is_canary_signature resp probe_id \<longleftrightarrow>
     HEADER_LEN + 4 \<le> length resp \<and> be16 (resp ! 0) (resp ! 1) = probe_id \<and>
     be16 (resp ! 2) (resp ! 3) AND 0x000F = 0 \<and> be16 (resp ! 2) (resp ! 3) AND FLAG_AA \<noteq> 0 \<and>
     be16 (resp ! 6) (resp ! 7) = 1 \<and> drop (length resp - 4) resp = [0, 0, 0, 0]"

section \<open>The clock of a TCP connection\<close>

text \<open>
  A wait under \<open>timeout(budget, ...)\<close> ends after its own time when that is within the budget, and
  with the budget otherwise; \<open>None\<close> never ends by itself. A completed wait may still be an error.
\<close>

record wait_event =
  takes :: "nat option"
  fine :: bool

definition run_wait :: "nat \<Rightarrow> wait_event \<Rightarrow> bool \<times> nat" where
  "run_wait budget w =
     (case takes w of
        None \<Rightarrow> (False, budget)
      | Some t \<Rightarrow> if t \<le> budget then (fine w, t) else (False, budget))"

text \<open>One message of a client: the waits for prefix, body, answer and write, the body it sent and the
  environment of its query.\<close>

record tcp_message =
  prefix_wait :: wait_event
  body_wait :: wait_event
  answer_wait :: wait_event
  write_wait :: wait_event
  msg_body :: "u8 list"
  msg_env :: env

definition time_left :: "nat \<Rightarrow> nat \<Rightarrow> nat option" where
  "time_left deadline now = (if now < deadline then Some (deadline - now) else None)"

text \<open>One turn of the loop: the time after it, whether the loop goes on, the frame written, the state.
  A query whose wait is cut is dropped; a frame is written only when every wait was fine.\<close>

definition tcp_turn ::
    "nat \<Rightarrow> nat \<Rightarrow> tcp_message \<Rightarrow> socket_addr \<Rightarrow> bool \<Rightarrow> nat \<Rightarrow> proxy_state
     \<Rightarrow> nat \<times> bool \<times> u8 list option \<times> proxy_state" where
  "tcp_turn deadline idle msg peer synthetic now st =
     (case time_left deadline now of
        None \<Rightarrow> (now, False, None, st)
      | Some b1 \<Rightarrow>
          (let (ok1, d1) = run_wait (min b1 idle) (prefix_wait msg); now = now + d1 in
           if \<not> ok1 then (now, False, None, st)
           else
             (case time_left deadline now of
                None \<Rightarrow> (now, False, None, st)
              | Some b2 \<Rightarrow>
                  (let (ok2, d2) = run_wait (min b2 idle) (body_wait msg); now = now + d2 in
                   if \<not> ok2 then (now, False, None, st)
                   else
                     (case time_left deadline now of
                        None \<Rightarrow> (now, False, None, st)
                      | Some b3 \<Rightarrow>
                          (let (ok3, d3) = run_wait b3 (answer_wait msg); now = now + d3;
                               (answer, st') = handle_query (msg_env msg) (msg_body msg) peer True synthetic st in
                           if \<not> ok3 then
                             (now, False, None, handle_query_dropped (msg_env msg) (msg_body msg) peer synthetic st)
                           else
                             (case answer of
                                None \<Rightarrow> (now, False, None, st')
                              | Some (resp, _) \<Rightarrow>
                                  (case time_left deadline now of
                                     None \<Rightarrow> (now, False, None, st')
                                   | Some b4 \<Rightarrow>
                                       (case tcp_frame (msg_body msg) resp of
                                          None \<Rightarrow> (now, False, None, st')
                                        | Some frame \<Rightarrow>
                                            (let (ok4, d4) = run_wait b4 (write_wait msg) in
                                             (now + d4, ok4, if ok4 then Some frame else None, st')))))))))))"

fun tcp_turns ::
    "nat \<Rightarrow> nat \<Rightarrow> tcp_message list \<Rightarrow> socket_addr \<Rightarrow> bool \<Rightarrow> nat \<Rightarrow> proxy_state
     \<Rightarrow> nat \<times> u8 list list \<times> proxy_state" where
  "tcp_turns deadline idle [] peer synthetic now st = (now, [], st)"
| "tcp_turns deadline idle (msg # msgs) peer synthetic now st =
     (case tcp_turn deadline idle msg peer synthetic now st of
        (now', go_on, frame, st') \<Rightarrow>
          let written = (case frame of None \<Rightarrow> [] | Some f \<Rightarrow> [f]) in
          if go_on then
            (case tcp_turns deadline idle msgs peer synthetic now' st' of
               (end, frames, st'') \<Rightarrow> (end, written @ frames, st''))
          else (now', written, st'))"

definition tcp_conn ::
    "tcp_message list \<Rightarrow> socket_addr \<Rightarrow> bool \<Rightarrow> nat \<Rightarrow> proxy_state \<Rightarrow> nat \<times> u8 list list \<times> proxy_state" where
  "tcp_conn msgs peer synthetic start st =
     (let deadline = start + tcp_max_lifetime (config st);
          (end, frames, st') = tcp_turns deadline (tcp_idle_timeout (config st)) msgs peer synthetic start st in
      (end, frames,
       if end \<ge> deadline then bump (\<lambda>c. c\<lparr>tcp_lifetime_kills := tcp_lifetime_kills c + 1\<rparr>) st' else st'))"

end
