(* ===== verification/Wire_Response.thy ===== *)
theory Wire_Response
  imports Wire_Query
begin

text \<open>
  Responses: what \<open>validate_response\<close> lets through, that the answers made locally
  (\<open>build_error_response\<close>, \<open>build_truncated_response\<close>, \<open>build_zero_ip_response\<close>) are valid answers
  to the request they are made from, and the effect of the flag rewriting.
\<close>

section \<open>Flag words\<close>

lemma flag_bit:
  "(w :: u16) AND 0x8000 = 0 \<longleftrightarrow> \<not> bit w 15" "w AND 0x0400 = 0 \<longleftrightarrow> \<not> bit w 10"
  "w AND 0x0200 = 0 \<longleftrightarrow> \<not> bit w 9" "w AND 0x0100 = 0 \<longleftrightarrow> \<not> bit w 8"
  "w AND 0x0020 = 0 \<longleftrightarrow> \<not> bit w 5" "w AND 0x0010 = 0 \<longleftrightarrow> \<not> bit w 4"
  using and_exp_eq_0_iff_not_bit [of w 15] and_exp_eq_0_iff_not_bit [of w 10]
    and_exp_eq_0_iff_not_bit [of w 9] and_exp_eq_0_iff_not_bit [of w 8]
    and_exp_eq_0_iff_not_bit [of w 5] and_exp_eq_0_iff_not_bit [of w 4]
  by simp_all

definition response_flags :: "u16 \<Rightarrow> u16 \<Rightarrow> u8 \<Rightarrow> u16" where
  "response_flags flags_in extra rcode =
     0x8000 OR (flags_in AND 0x7800) OR (flags_in AND 0x0100) OR (flags_in AND 0x0010)
       OR 0x0080 OR extra OR ucast (rcode AND 0x0F)"

lemma response_flags_QR [simp]: "response_flags f x r AND 0x8000 \<noteq> 0"
  by (simp add: response_flags_def flag_bit bit_simps)

lemma ucast_nibble: "(ucast (ucast (r AND 0x0F :: u8) :: u16) :: u8) = r AND 0x0F"
  by (rule bit_word_eqI) (auto simp: bit_simps)

lemma response_flags_rcode [simp]:
  "x AND 0x000F = 0 \<Longrightarrow> (ucast (response_flags f x r AND 0x000F) :: u8) = r AND 0x0F"
proof -
  assume x: "x AND 0x000F = 0"
  have "(ucast (r AND 0x0F :: u8) :: u16) AND 0x000F = ucast (r AND 0x0F)"
    by (rule bit_word_eqI) (auto simp: bit_simps)
  then show ?thesis
    using x by (simp add: response_flags_def bit.conj_disj_distrib2 and.assoc ucast_nibble)
qed

section \<open>Answers made locally\<close>

lemma request_question_parsed:
  "parse_query req = Inr q \<Longrightarrow> request_question req = Some (slice 12 (q_question_end q) req)"
  by (simp add: request_question_def)

lemma echo_response_parsed:
  "parse_query req = Inr q \<Longrightarrow>
   echo_response req flags = [req ! 0, req ! 1] @ to_be16 flags @ [0, 1, 0, 0, 0, 0, 0, 0]
      @ slice 12 (q_question_end q) req"
proof -
  assume p: "parse_query req = Inr q"
  then have "12 \<le> length req" by (rule parse_query_layout)
  then have "take 2 req = [req ! 0, req ! 1]"
    using slice_two [of 0 req] by (simp add: slice_def numeral_2_eq_2)
  then show ?thesis
    using request_question_parsed [OF p] by (simp add: echo_response_def to_be16_def)
qed

text \<open>A response whose header echoes the request's id and whose body starts with its question.\<close>

lemma validate_echo:
  assumes p: "parse_query req = Inr q" and qr: "flags AND 0x8000 \<noteq> 0"
    and len: "length an < 2 ^ 63"
  shows "validate_response
      ([req ! 0, req ! 1] @ to_be16 flags @ [0, 1] @ to_be16 (word_of_nat n) @ [0, 0, 0, 0]
        @ slice 12 (q_question_end q) req @ an)
      (q_id q) (slice 12 (q_question_end q) req)
    = walk_answers ([req ! 0, req ! 1] @ to_be16 flags @ [0, 1] @ to_be16 (word_of_nat n)
        @ [0, 0, 0, 0] @ slice 12 (q_question_end q) req @ an)
        (q_question_end q) (unat (word_of_nat n :: u16)) (ucast (flags AND 0x000F))"
proof -
  note b = parse_query_layout [OF p]
  let ?qs = "slice 12 (q_question_end q) req"
  define hdr where "hdr = [req ! 0, req ! 1] @ to_be16 flags @ [0, 1] @ to_be16 (word_of_nat n)
      @ [0, 0, 0, 0]"
  have l: "length hdr = 12" by (simp add: hdr_def)
  have h: "be16 (hdr ! 0) (hdr ! 1) = q_id q" "be16 (hdr ! 2) (hdr ! 3) = flags"
    "be16 (hdr ! 6) (hdr ! 7) = word_of_nat n"
    using b by (simp_all add: hdr_def to_be16_def)
  have h1: "be16 (hdr ! 4) (hdr ! 5) = 1"
    by (simp add: hdr_def to_be16_def) (simp add: be16_def)
  have at: "(hdr @ ?qs @ an) ! k = hdr ! k" if "k < 12" for k
    using that l by (simp add: nth_append)
  have qlen: "length ?qs = q_question_end q - 12" "4 \<le> length ?qs" "length ?qs \<le> 259"
    "12 + length ?qs = q_question_end q"
    using length_slice [OF b(6), of 12] b(5,7) by simp_all
  have "get_range (hdr @ ?qs @ an) 12 (12 + length ?qs) = Some ?qs"
    using slice_middle [of hdr ?qs an] l by (simp add: get_range_def)
  then have "validate_response (hdr @ ?qs @ an) (q_id q) ?qs
    = walk_answers (hdr @ ?qs @ an) (12 + length ?qs) (unat (word_of_nat n :: u16))
        (ucast (flags AND 0x000F))"
    using h h1 at l qr qlen(2,3)
    by (simp add: validate_response_def usize_checked_add_def eq_ignore_ascii_case_u8_def Let_def)
  then show ?thesis
    using qlen(4) by (simp add: hdr_def)
qed

lemma be32_to_be32: "be32 (to_be32 w ! 0) (to_be32 w ! 1) (to_be32 w ! 2) (to_be32 w ! 3) = w"
proof -
  let ?n = "unat w"
  have "?n < 256 * 2 ^ 24" by (rule less_le_trans [OF unat_u32_less]) simp
  then have "?n div 2 ^ 24 < 256" by (rule less_mult_imp_div_less)
  moreover have "((?n div 2 ^ 24 * 256 + ?n div 2 ^ 16 mod 256) * 256 + ?n div 256 mod 256) * 256
      + ?n mod 256 = ?n"
  proof -
    have "?n div 2 ^ 24 = ?n div 2 ^ 16 div 256" "?n div 2 ^ 16 = ?n div 256 div 256"
      using div_mult2_eq [of ?n "2 ^ 16" 256] div_mult2_eq [of ?n 256 256] by simp_all
    then show ?thesis
      using div_mult_mod_eq [of "?n div 2 ^ 16" 256] div_mult_mod_eq [of "?n div 256" 256]
        div_mult_mod_eq [of ?n 256] by simp
  qed
  ultimately have "unat (be32 (to_be32 w ! 0) (to_be32 w ! 1) (to_be32 w ! 2) (to_be32 w ! 3)) = ?n"
    by (simp add: to_be32_def be32_def unat_of_nat_u8)
  then show ?thesis by (simp only: word_unat_eq_iff)
qed

lemma local_error_answers:
  assumes "parse_query req = Inr q"
  shows "\<exists>e t. build_error_response req rcode aa = Some e \<and>
      build_truncated_response req rcode = Some t \<and>
      validate_response e (q_id q) (slice 12 (q_question_end q) req)
        = Some \<lparr>ri_rcode = rcode AND 0x0F, ri_min_ttl = None\<rparr> \<and>
      validate_response t (q_id q) (slice 12 (q_question_end q) req)
        = Some \<lparr>ri_rcode = rcode AND 0x0F, ri_min_ttl = None\<rparr> \<and>
      \<not> is_truncated_response e \<and> is_truncated_response t \<and>
      length e = q_question_end q \<and> length t = q_question_end q \<and> q_question_end q \<le> 271"
proof -
  note b = parse_query_layout [OF assms]
  let ?fin = "be16 (req ! 2) (req ! 3)"
  let ?fe = "response_flags ?fin (if aa then 0x0400 else 0) rcode"
  let ?ft = "response_flags ?fin 0x0200 rcode"
  have len: "12 + length (slice 12 (q_question_end q) req) = q_question_end q"
    using length_slice [OF b(6), of 12] b(5) by simp
  have e: "build_error_response req rcode aa = Some (echo_response req ?fe)"
    using b(1) by (simp add: build_error_response_def response_flags_def Let_def)
  have t: "build_truncated_response req rcode = Some (echo_response req ?ft)"
    using b(1) by (simp add: build_truncated_response_def response_flags_def Let_def or.assoc)
  have valid: "validate_response (echo_response req (response_flags ?fin x rcode)) (q_id q)
      (slice 12 (q_question_end q) req) = Some \<lparr>ri_rcode = rcode AND 0x0F, ri_min_ttl = None\<rparr>"
    if "x AND 0x000F = 0" for x
    using validate_echo [OF assms, of "response_flags ?fin x rcode" "[]" 0] that
    by (simp add: echo_response_parsed [OF assms] walk_answers_def to_be16_def)
  have trunc: "is_truncated_response (echo_response req (response_flags ?fin x rcode)) \<longleftrightarrow> bit x 9"
    for x
    by (simp add: echo_response_parsed [OF assms] is_truncated_response_def to_be16_def flag_bit)
      (simp add: response_flags_def bit_simps)
  show ?thesis
    using e t valid [where x = "if aa then 0x0400 else 0"] valid [where x = "0x0200"] trunc len b(5,7)
    by (simp add: echo_response_parsed [OF assms])
qed

text \<open>
The error and truncated answers made locally answer the request they are made from: they carry
its id and question, pass \<open>validate_response\<close> with the low four bits of the given rcode and no
answers, end with the question (so at most 271 bytes), and only the truncated one has TC set.
\<close>

theorem local_error_answers_valid:
  assumes "parse_query req = Inr q"
  shows "\<exists>e t. build_error_response req rcode aa = Some e \<and>
      build_truncated_response req rcode = Some t \<and>
      validate_response e (q_id q) (slice 12 (q_question_end q) req)
        = Some \<lparr>ri_rcode = rcode AND 0x0F, ri_min_ttl = None\<rparr> \<and>
      validate_response t (q_id q) (slice 12 (q_question_end q) req)
        = Some \<lparr>ri_rcode = rcode AND 0x0F, ri_min_ttl = None\<rparr> \<and>
      \<not> is_truncated_response e \<and> is_truncated_response t \<and>
      length e = q_question_end q \<and> length t = q_question_end q \<and> q_question_end q \<le> 271"
  using assms by (rule local_error_answers)

theorem local_error_answers_valid_witness:
  "\<exists>e. build_error_response sample_query 3 True = Some e \<and> length e = 24 \<and>
     validate_response e 0x1234 (slice 12 24 sample_query)
       = Some \<lparr>ri_rcode = 3 AND 0x0F, ri_min_ttl = None\<rparr>"
  using local_error_answers_valid [OF parse_sample_query, of 3 True]
  by (auto simp: sample_query_fields_def)

lemma zero_ip_answers:
  assumes "parse_query req = Inr q"
  shows "if q_qtype q = TYPE_A \<or> q_qtype q = TYPE_AAAA
    then \<exists>r. build_zero_ip_response req ttl = Some r \<and>
      validate_response r (q_id q) (slice 12 (q_question_end q) req)
        = Some \<lparr>ri_rcode = 0, ri_min_ttl = Some ttl\<rparr> \<and>
      bit (be16 (r ! 2) (r ! 3)) 10 \<and> \<not> is_truncated_response r \<and>
      drop (q_question_end q + 12) r = replicate (if q_qtype q = TYPE_A then 4 else 16) 0
    else build_zero_ip_response req ttl = build_error_response req RCODE_NXDOMAIN True"
proof (cases "q_qtype q = TYPE_A \<or> q_qtype q = TYPE_AAAA")
  case True
  note b = parse_query_layout [OF assms]
  let ?qs = "slice 12 (q_question_end q) req"
  define fl where "fl = response_flags (be16 (req ! 2) (req ! 3)) 0x0400 0"
  define rd where "rd = (replicate (if q_qtype q = TYPE_A then 4 else 16) 0 :: u8 list)"
  define an where "an = [0xC0, 0x0C] @ to_be16 (q_qtype q) @ to_be16 (q_qclass q) @ to_be32 ttl
      @ to_be16 (word_of_nat (length rd)) @ rd"
  define r where "r = [req ! 0, req ! 1] @ to_be16 fl @ [0, 1] @ to_be16 (word_of_nat 1)
      @ [0, 0, 0, 0] @ ?qs @ an"
  have len: "12 + length ?qs = q_question_end q"
    using length_slice [OF b(6), of 12] b(5) by simp
  have t2: "take 2 req = [req ! 0, req ! 1]"
    using slice_two [of 0 req] b(1) by (simp add: slice_def numeral_2_eq_2)
  have build: "build_zero_ip_response req ttl = Some r"
    using assms True t2
    by (auto simp: build_zero_ip_response_def Let_def r_def an_def rd_def fl_def
        response_flags_def or.assoc to_be16_def)
  have rd: "length rd \<le> 16" "unat (word_of_nat (length rd) :: u16) = length rd"
    by (simp_all add: rd_def)
  define hdr where "hdr = [req ! 0, req ! 1] @ to_be16 fl @ [0, 1] @ to_be16 (word_of_nat 1)
      @ [0, 0, 0, 0]"
  have "r = (hdr @ ?qs) @ an" "length (hdr @ ?qs) = q_question_end q"
    using len by (simp_all add: r_def hdr_def)
  then have dr: "drop (q_question_end q) r = an"
    by (metis append_eq_conv_conj)
  have rlen: "length r = q_question_end q + 12 + length rd"
    using len by (simp add: r_def an_def)
  have at: "r ! (q_question_end q + k) = an ! k" if "k < 12" for k
    using that dr rlen by (metis le_add1 le_trans nth_drop)
  have sk: "skip_name r (q_question_end q) = Some (q_question_end q + 2)"
    using at [of 0] rlen by (subst skip_name.simps) (simp add: get_at_def an_def)
  have "record_data_len r (q_question_end q + 2) = unat (word_of_nat (length rd) :: u16)"
    using at [of 10] at [of 11]
    by (simp add: record_data_len_def an_def to_be16_def to_be32_def
        add.commute [of 10 "q_question_end q"] add.commute [of 11 "q_question_end q"])
  then have rdlen: "record_data_len r (q_question_end q + 2) = length rd"
    by (simp only: rd(2))
  have ttl: "be32 (r ! (q_question_end q + 6)) (r ! (q_question_end q + 7))
      (r ! (q_question_end q + 8)) (r ! (q_question_end q + 9)) = ttl"
    using at [of 6] at [of 7] at [of 8] at [of 9] be32_to_be32 [of ttl]
    by (simp add: an_def to_be16_def to_be32_def)
  have "walk_answers r (q_question_end q) 1 0 = Some \<lparr>ri_rcode = 0, ri_min_ttl = Some ttl\<rparr>"
    using sk rdlen ttl rlen rd(1) b(5,7)
    by (simp add: walk_answers_def walk_answers_loop_Suc Let_def add.assoc del: walk_answers_loop.simps(2))
  moreover have "validate_response r (q_id q) ?qs = walk_answers r (q_question_end q) 1 0"
    using validate_echo [OF assms, of fl an 1] rd(1) unfolding r_def fl_def
    by (simp add: an_def)
  moreover have "be16 (r ! 2) (r ! 3) = fl" by (simp add: r_def to_be16_def)
  moreover have "drop (q_question_end q + 12) r = rd"
    using arg_cong [OF dr, of "drop 12"] by (simp add: an_def to_be16_def to_be32_def add.commute)
  moreover have "bit fl 10" "\<not> bit fl 9" by (simp_all add: fl_def response_flags_def bit_simps)
  ultimately show ?thesis
    using build True rlen len by (simp add: is_truncated_response_def flag_bit rd_def)
qed (use assms in \<open>simp add: build_zero_ip_response_def\<close>)

text \<open>
The canary and block answer for an accepted A or AAAA query is a NOERROR response to that very
request with exactly one answer, whose TTL is the given one and whose data is all zero bytes; every
other type gets NXDOMAIN.
\<close>

theorem build_zero_ip_answers:
  assumes "parse_query req = Inr q"
  shows "if q_qtype q = TYPE_A \<or> q_qtype q = TYPE_AAAA
    then \<exists>r. build_zero_ip_response req ttl = Some r \<and>
      validate_response r (q_id q) (slice 12 (q_question_end q) req)
        = Some \<lparr>ri_rcode = 0, ri_min_ttl = Some ttl\<rparr> \<and>
      bit (be16 (r ! 2) (r ! 3)) 10 \<and> \<not> is_truncated_response r \<and>
      drop (q_question_end q + 12) r = replicate (if q_qtype q = TYPE_A then 4 else 16) 0
    else build_zero_ip_response req ttl = build_error_response req RCODE_NXDOMAIN True"
  using assms by (rule zero_ip_answers)

theorem build_zero_ip_answers_witness:
  "\<exists>r. build_zero_ip_response sample_query 60 = Some r \<and>
     drop (24 + 12) r = [0, 0, 0, 0]"
  using build_zero_ip_answers [OF parse_sample_query, of 60]
  by (auto simp: sample_query_fields_def eval_nat_numeral)

section \<open>Responses from upstream\<close>

definition answer_ttl :: "u8 list \<Rightarrow> nat \<Rightarrow> u32" where
  "answer_ttl bs i =
     (case skip_name bs i of
        None \<Rightarrow> 0
      | Some a \<Rightarrow> be32 (bs ! (a + 4)) (bs ! (a + 5)) (bs ! (a + 6)) (bs ! (a + 7)))"

lemma walk_answers_loop_step:
  "walk_answers_loop (Suc n) bs i m =
     (case record_end bs i of
        None \<Rightarrow> None
      | Some e \<Rightarrow> walk_answers_loop n bs e
          (Some (case m of Some c \<Rightarrow> min c (answer_ttl bs i) | None \<Rightarrow> answer_ttl bs i)))"
  by (simp add: walk_answers_loop_Suc record_end_def additional_record_span_eq answer_ttl_def
      Let_def del: walk_answers_loop.simps split: option.splits)

lemma walk_answers_loop_min:
  "walk_answers_loop n bs i m = Some m' \<Longrightarrow>
   (n = 0 \<longrightarrow> m' = m) \<and> (\<forall>c. m = Some c \<longrightarrow> (\<exists>t. m' = Some t \<and> t \<le> c)) \<and>
   (\<forall>k<n. \<exists>j t. iterate record_end k bs i = Some j \<and> m' = Some t \<and> t \<le> answer_ttl bs j)"
proof (induction n arbitrary: i m)
  case (Suc n)
  then obtain e where e: "record_end bs i = Some e"
      "walk_answers_loop n bs e
        (Some (case m of Some c \<Rightarrow> min c (answer_ttl bs i) | None \<Rightarrow> answer_ttl bs i)) = Some m'"
    unfolding walk_answers_loop_step by (auto split: option.splits)
  note ih = Suc.IH [OF e(2)]
  then obtain t where t: "m' = Some t"
      "t \<le> (case m of Some c \<Rightarrow> min c (answer_ttl bs i) | None \<Rightarrow> answer_ttl bs i)"
    by auto
  have "\<exists>j t. iterate record_end k bs i = Some j \<and> m' = Some t \<and> t \<le> answer_ttl bs j"
    if "k < Suc n" for k
    using that ih e(1) t by (cases k) (auto split: option.splits)
  then show ?case using t by (auto split: option.splits)
qed simp

lemma walk_answers_Some:
  "walk_answers bs i n rc = Some info \<Longrightarrow>
   ri_rcode info = rc \<and> walk_answers_loop n bs i None = Some (ri_min_ttl info)"
  by (auto simp: walk_answers_def)

text \<open>
C20: An upstream response that passes \<open>validate_response\<close> is a response to the query it is checked
against: complete header, the expected id, QR set, one question that repeats the asked one (names up
to ASCII case, type and class exactly), all announced answers inside the packet; the summary has the
header's rcode and, when there are answers, a TTL no longer than that of any of them.
\<close>

theorem validate_response_sound:
  assumes "validate_response bs xid question = Some info"
  shows "12 + length question \<le> length bs \<and> 4 \<le> length question \<and>
    be16 (bs ! 0) (bs ! 1) = xid \<and> bit (be16 (bs ! 2) (bs ! 3)) 15 \<and>
    be16 (bs ! 4) (bs ! 5) = 1 \<and>
    map lower_u8 (slice 12 (8 + length question) bs) = map lower_u8 (take (length question - 4) question) \<and>
    slice (8 + length question) (12 + length question) bs = drop (length question - 4) question \<and>
    ri_rcode info = ucast (be16 (bs ! 2) (bs ! 3) AND 0x000F) \<and>
    iterate record_end (unat (be16 (bs ! 6) (bs ! 7))) bs (12 + length question) \<noteq> None \<and>
    (ri_min_ttl info = None \<longleftrightarrow> be16 (bs ! 6) (bs ! 7) = 0) \<and>
    (\<forall>k<unat (be16 (bs ! 6) (bs ! 7)). \<exists>j t.
       iterate record_end k bs (12 + length question) = Some j \<and> ri_min_ttl info = Some t \<and>
       t \<le> answer_ttl bs j)"
proof -
  let ?n = "unat (be16 (bs ! 6) (bs ! 7))" and ?m = "length question"
  have hd: "12 \<le> length bs" "be16 (bs ! 0) (bs ! 1) = xid" "be16 (bs ! 2) (bs ! 3) AND 0x8000 \<noteq> 0"
    "be16 (bs ! 4) (bs ! 5) = 1" "4 \<le> ?m"
    using assms by (auto simp: validate_response_def Let_def split: if_splits)
  obtain echoed where echoed: "get_range bs 12 (12 + ?m) = Some echoed"
    using assms hd by (auto simp: validate_response_def Let_def usize_checked_add_def split: option.splits if_splits)
  then have sl: "12 + ?m \<le> length bs" "echoed = slice 12 (12 + ?m) bs" "length echoed = ?m"
    by (auto simp: get_range_def split: if_splits)
  have body: "map lower_u8 (take (?m - 4) echoed) = map lower_u8 (take (?m - 4) question)"
    "drop (?m - 4) echoed = drop (?m - 4) question"
    "walk_answers bs (12 + ?m) ?n (ucast (be16 (bs ! 2) (bs ! 3) AND 0x000F)) = Some info"
    using assms hd echoed sl(3)
    by (auto simp: validate_response_def Let_def usize_checked_add_def eq_ignore_ascii_case_u8_def
        split: if_splits)
  have parts: "take (?m - 4) echoed = slice 12 (8 + ?m) bs"
    "drop (?m - 4) echoed = slice (8 + ?m) (12 + ?m) bs"
    using hd(5) by (simp_all add: sl(2) slice_def min_def drop_take add.commute)
  note w = walk_answers_Some [OF body(3)]
  have "iterate record_end ?n bs (12 + ?m) \<noteq> None"
    using walk_answers_loop_iterate [of ?n bs "12 + ?m" None] w by auto
  moreover note min = walk_answers_loop_min [OF conjunct2 [OF w]]
  have "ri_min_ttl info = None \<longleftrightarrow> ?n = 0"
    using min by (cases "?n = 0") auto
  ultimately show ?thesis
    using hd sl(1) body(1,2) parts(1,2) conjunct1 [OF w]
      conjunct2 [OF conjunct2 [OF min]] flag_bit(1) [of "be16 (bs ! 2) (bs ! 3)"]
    by (intro conjI) (simp_all only: unat_eq_0 not_False_eq_True simp_thms)
qed

theorem validate_response_sound_witness:
  "validate_response ([0x12, 0x34, 0x80, 3, 0, 1, 0, 0, 0, 0, 0, 0, 1, 0x41, 0, 0, 1, 0, 1]) 0x1234
     [1, 0x61, 0, 0, 1, 0, 1] = Some \<lparr>ri_rcode = 3, ri_min_ttl = None\<rparr> \<and>
   bit (be16 0x80 3) 15"
proof -
  have v: "validate_response ([0x12, 0x34, 0x80, 3, 0, 1, 0, 0, 0, 0, 0, 0, 1, 0x41, 0, 0, 1, 0, 1])
     0x1234 [1, 0x61, 0, 0, 1, 0, 1] = Some \<lparr>ri_rcode = 3, ri_min_ttl = None\<rparr>"
    by code_simp
  show ?thesis using validate_response_sound [OF v] v by simp
qed

text \<open>
Rewriting a response for its client touches the flag word only: AD is cleared, RD and CD become
the client's own bits, every other bit of the word and every other byte stay as they were.
\<close>

theorem rewrite_response_flags_exact:
  "let r = rewrite_response_flags_for_client resp rd cd in
   length r = length resp \<and> take 2 r = take 2 resp \<and> drop 4 r = drop 4 resp \<and>
   (if 12 \<le> length resp
    then (bit (be16 (r ! 2) (r ! 3)) n \<longleftrightarrow>
      (if n = 5 then False else if n = 8 then rd else if n = 4 then cd
       else bit (be16 (resp ! 2) (resp ! 3)) n))
    else r = resp)"
proof (cases "12 \<le> length resp")
  case True
  define f where "f = be16 (resp ! 2) (resp ! 3)"
  define fl where "fl = (if cd then (if rd then f AND NOT (FLAG_AD OR FLAG_RD OR FLAG_CD) OR FLAG_RD
      else f AND NOT (FLAG_AD OR FLAG_RD OR FLAG_CD)) OR FLAG_CD
      else (if rd then f AND NOT (FLAG_AD OR FLAG_RD OR FLAG_CD) OR FLAG_RD
      else f AND NOT (FLAG_AD OR FLAG_RD OR FLAG_CD)))"
  have r: "rewrite_response_flags_for_client resp rd cd = take 2 resp @ to_be16 fl @ drop 4 resp"
    using True by (simp add: rewrite_response_flags_for_client_def Let_def fl_def f_def)
  have m: "(0x130 :: u16) = 2 ^ 4 OR 2 ^ 5 OR 2 ^ 8" "(0x100 :: u16) = 2 ^ 8" "(0x10 :: u16) = 2 ^ 4"
    by simp_all
  have mask: "bit (0x130 :: u16) n \<longleftrightarrow> n = 4 \<or> n = 5 \<or> n = 8" "bit (0x100 :: u16) n \<longleftrightarrow> n = 8"
    "bit (0x10 :: u16) n \<longleftrightarrow> n = 4"
    unfolding m bit_or_iff bit_exp_iff by auto
  have "(- 305 :: u16) = NOT 0x130" by simp
  then have compl: "n < 16 \<Longrightarrow> bit (- 305 :: u16) n \<longleftrightarrow> \<not> bit (0x130 :: u16) n"
    by (simp only: bit_not_iff) simp
  have "bit fl n \<longleftrightarrow> (if n = 5 then False else if n = 8 then rd else if n = 4 then cd else bit f n)"
    using mask compl bit_imp_le_length [of f n]
    by (cases rd; cases cd) (auto simp: fl_def bit_or_iff bit_and_iff bit_not_iff)
  then show ?thesis
    using True by (simp add: r Let_def f_def to_be16_def nth_append)
qed (simp add: rewrite_response_flags_for_client_def)

end
