(* ===== verification/Wire_Opt.thy ===== *)
theory Wire_Opt
  imports Wire_Response
begin

text \<open>
  Correctness of the OPT handling of \<open>Wire_Edns\<close>: \<open>strip_opt_records\<close> removes exactly the OPT
  records of the additional section and fixes ARCOUNT, \<open>append_client_opt\<close> adds exactly one. The
  walk over the records is the cursor \<open>record_end\<close>; records are moved, so the proofs rest on the
  locality law of that cursor.
\<close>

section \<open>Runs of records without OPT\<close>

fun plain_records :: "nat \<Rightarrow> u8 list \<Rightarrow> nat \<Rightarrow> nat option" where
  "plain_records 0 bs i = Some i"
| "plain_records (Suc n) bs i =
     (case additional_record_span bs i of
        Some (e, False) \<Rightarrow> plain_records n bs e
      | _ \<Rightarrow> None)"

lemma plain_records_iterate: "plain_records n bs i = Some e \<Longrightarrow> iterate record_end n bs i = Some e"
  by (induction n arbitrary: i) (auto simp: record_end_def split: option.splits bool.splits)

lemma strip_loop_iterate: "strip_loop n bs i out kept = Some (out', kept', e) \<Longrightarrow>
    iterate record_end n bs i = Some e"
  by (induction n arbitrary: i out kept)
    (auto simp: record_end_def split: option.splits if_splits)

lemma iterate_strip_loop: "iterate record_end n bs i \<noteq> None \<Longrightarrow> strip_loop n bs i out kept \<noteq> None"
  by (induction n arbitrary: i out kept) (auto simp: record_end_def split: option.splits)

lemma strip_loop_plain:
  "plain_records n bs i = Some e \<Longrightarrow> i \<le> length bs \<Longrightarrow>
   strip_loop n bs i out kept = Some (out @ slice i e bs, kept + word_of_nat n, e)"
proof (induction n arbitrary: i out kept)
  case 0
  then show ?case by (simp add: slice_def)
next
  case (Suc n)
  then obtain m where m: "additional_record_span bs i = Some (m, False)" "plain_records n bs m = Some e"
    by (auto split: option.splits bool.splits)
  have le: "i \<le> m" "m \<le> length bs" using record_span_advance [OF m(1)] by auto
  have "m \<le> e"
    using record_walk.iterate_advance [OF plain_records_iterate [OF m(2)] le(2)] by simp
  then show ?case
    using Suc.IH [OF m(2) le(2)] m(1) slice_split [of i m e bs] le
    by (simp add: algebra_simps)
qed

text \<open>What the loop keeps is, wherever it is moved to, a run of records without OPT.\<close>

lemma strip_loop_keeps:
  "strip_loop n bs i out kept = Some (out', kept', e) \<Longrightarrow> i \<le> length bs \<Longrightarrow>
   \<exists>ks m. out' = out @ ks \<and> kept' = kept + word_of_nat m \<and> m \<le> n \<and> i + length ks \<le> e \<and>
     e \<le> length bs \<and>
     (\<forall>P T. length (P @ ks @ T) < 2 ^ 64 \<longrightarrow>
        plain_records m (P @ ks @ T) (length P) = Some (length P + length ks))"
proof (induction n arbitrary: i out kept)
  case 0
  then show ?case by (intro exI [of _ "[]"] exI [of _ "0 :: nat"]) simp
next
  case (Suc n)
  then obtain b is_opt where span: "additional_record_span bs i = Some (b, is_opt)"
    by (auto split: option.splits)
  have le: "i \<le> b" "b \<le> length bs" using record_span_advance [OF span] by auto
  show ?case
  proof (cases is_opt)
    case True
    then have "strip_loop n bs b out kept = Some (out', kept', e)"
      using Suc.prems(1) span by simp
    from Suc.IH [OF this le(2)] obtain ks m where
      "out' = out @ ks \<and> kept' = kept + word_of_nat m \<and> m \<le> n \<and> b + length ks \<le> e \<and>
       e \<le> length bs \<and>
       (\<forall>P T. length (P @ ks @ T) < 2 ^ 64 \<longrightarrow>
          plain_records m (P @ ks @ T) (length P) = Some (length P + length ks))" by blast
    then show ?thesis
      using le by (intro exI [of _ ks] exI [of _ m]) auto
  next
    case False
    let ?r = "slice i b bs"
    have rl: "length ?r = b - i" using le by simp
    from False have "strip_loop n bs b (out @ ?r) (kept + 1) = Some (out', kept', e)"
      using Suc.prems(1) span by simp
    from Suc.IH [OF this le(2)] obtain ks m where ih:
      "out' = (out @ ?r) @ ks" "kept' = kept + 1 + word_of_nat m" "m \<le> n" "b + length ks \<le> e"
      "e \<le> length bs"
      "\<And>P T. length (P @ ks @ T) < 2 ^ 64 \<Longrightarrow>
          plain_records m (P @ ks @ T) (length P) = Some (length P + length ks)" by blast
    have "plain_records (Suc m) (P @ (?r @ ks) @ T) (length P) = Some (length P + length (?r @ ks))"
      if len: "length (P @ (?r @ ks) @ T) < 2 ^ 64" for P T
    proof -
      let ?cs = "P @ (?r @ ks) @ T"
      have "agree (b - i) bs i ?cs (length P)"
        using le rl slice_middle [of P ?r "ks @ T"] by (simp add: agree_slice)
      then have "additional_record_span ?cs (length P) = Some (length P + (b - i), False)"
        using record_span_local [OF span _ len] False by simp
      moreover have "plain_records m ?cs (length P + (b - i)) = Some (length P + length (?r @ ks))"
        using ih(6) [of "P @ ?r" T] len rl by simp
      ultimately show ?thesis by simp
    qed
    then show ?thesis
      using ih(1-5) le rl by (intro exI [of _ "?r @ ks"] exI [of _ "Suc m"]) (simp add: add.assoc)
  qed
qed

section \<open>Where the additional section starts\<close>

lemma additional_section_start_Some:
  "additional_section_start bs = Some (s, n) \<longleftrightarrow>
     12 \<le> length bs \<and> n = be16 (bs ! 10) (bs ! 11) \<and>
     (\<exists>m. iterate question_step (unat (be16 (bs ! 4) (bs ! 5))) bs 12 = Some m \<and>
          iterate record_end (unat (be16 (bs ! 6) (bs ! 7)) + unat (be16 (bs ! 8) (bs ! 9))) bs m
            = Some s)"
  by (auto simp: additional_section_start_def read_u16_eq skip_questions_iterate
      skip_records_iterate split: option.splits)

lemma additional_section_start_bounds:
  "additional_section_start bs = Some (s, n) \<Longrightarrow> 12 \<le> s \<and> s \<le> length bs"
  by (fastforce simp: additional_section_start_Some
      dest: question.iterate_advance record_walk.iterate_advance)

lemma additional_section_start_local:
  assumes start: "additional_section_start bs = Some (s, n)"
    and header: "\<And>k. 4 \<le> k \<Longrightarrow> k < 10 \<Longrightarrow> cs ! k = bs ! k"
    and body: "agree (s - 12) bs 12 cs 12" and len: "length cs < 2 ^ 64"
  shows "additional_section_start cs = Some (s, be16 (cs ! 10) (cs ! 11))"
proof -
  obtain m where m: "12 \<le> length bs"
      "iterate question_step (unat (be16 (bs ! 4) (bs ! 5))) bs 12 = Some m"
      "iterate record_end (unat (be16 (bs ! 6) (bs ! 7)) + unat (be16 (bs ! 8) (bs ! 9))) bs m
        = Some s"
    using start unfolding additional_section_start_Some by blast
  have le: "12 \<le> m" "m \<le> length bs"
    using question.iterate_advance [OF m(2,1)] by auto
  then have "m \<le> s" using record_walk.iterate_advance [OF m(3)] by simp
  have "agree (m - 12) bs 12 cs 12" using body \<open>m \<le> s\<close> by (auto intro: agree_mono)
  then have "iterate question_step (unat (be16 (bs ! 4) (bs ! 5))) cs 12 = Some m"
    using question.iterate_local [OF m(2) _ m(1) len] le(1) by simp
  moreover have "agree (s - m) bs m cs m"
    using agree_tail [OF body, of "m - 12"] le(1) \<open>m \<le> s\<close> by simp
  then have "iterate record_end (unat (be16 (bs ! 6) (bs ! 7)) + unat (be16 (bs ! 8) (bs ! 9))) cs m
      = Some s"
    using record_walk.iterate_local [OF m(3) _ le(2) len] \<open>m \<le> s\<close> by simp
  moreover have "12 \<le> length cs" using body by (simp add: agree_def)
  ultimately show ?thesis
    using header by (simp add: additional_section_start_Some)
qed

section \<open>Stripping\<close>

lemma packet_split:
  "12 \<le> s \<Longrightarrow> bs = take 10 bs @ slice 10 12 bs @ slice 12 s bs @ drop s bs"
  using slice_split [of 0 10 s bs] slice_split [of 10 12 s bs] append_take_drop_id [of s bs]
  by (simp add: slice_def)

lemma strip_opt_records_shape:
  assumes start: "additional_section_start resp = Some (s, ar)"
    and walk: "iterate record_end (unat ar) resp s = Some e" and len: "length resp < 2 ^ 64"
  obtains ks m where "strip_opt_records resp
      = take 10 resp @ to_be16 (word_of_nat m) @ slice 12 s resp @ ks @ drop e resp"
    "m \<le> unat ar" "s + length ks \<le> e" "e \<le> length resp"
    "\<And>P T. length (P @ ks @ T) < 2 ^ 64 \<Longrightarrow>
        plain_records m (P @ ks @ T) (length P) = Some (length P + length ks)"
proof (cases "ar = 0")
  case True
  note b = additional_section_start_bounds [OF start]
  have ar: "be16 (resp ! 10) (resp ! 11) = 0" "12 \<le> length resp"
    using start True by (auto simp: additional_section_start_Some)
  have hd2: "slice 10 12 resp = to_be16 (be16 (resp ! 10) (resp ! 11))"
    using slice_two [of 10 resp] ar(2) by simp
  have "resp = take 10 resp @ slice 10 12 resp @ slice 12 s resp @ drop s resp"
    using b by (intro packet_split) simp
  then have "strip_opt_records resp
      = take 10 resp @ to_be16 (word_of_nat 0) @ slice 12 s resp @ [] @ drop s resp"
    using start True hd2 ar by (simp add: strip_opt_records_def)
  then show thesis using that [of 0 "[]"] walk True b by simp
next
  case False
  note b = additional_section_start_bounds [OF start]
  obtain out kept where loop: "strip_loop (unat ar) resp s (take s resp) 0 = Some (out, kept, e)"
    using iterate_strip_loop [of "unat ar" resp s "take s resp" 0] strip_loop_iterate walk
    by fastforce
  obtain ks m where km: "out = take s resp @ ks" "kept = 0 + word_of_nat m" "m \<le> unat ar"
      "s + length ks \<le> e" "e \<le> length resp"
      "\<And>P T. length (P @ ks @ T) < 2 ^ 64 \<Longrightarrow>
          plain_records m (P @ ks @ T) (length P) = Some (length P + length ks)"
    using strip_loop_keeps [OF loop] b by blast
  have "strip_opt_records resp = take 10 (out @ drop e resp) @ to_be16 kept @ drop 12 (out @ drop e resp)"
    using start False loop by (simp add: strip_opt_records_def Let_def)
  moreover have "drop 12 (take s resp) = slice 12 s resp"
    by (simp add: slice_def drop_take)
  ultimately have "strip_opt_records resp
      = take 10 resp @ to_be16 (word_of_nat m) @ slice 12 s resp @ ks @ drop e resp"
    using b by (simp add: km(1,2) min_def)
  then show thesis using that km(3-6) by blast
qed

text \<open>
When every additional record of a response parses, stripping leaves the header (ARCOUNT apart),
the question, answer and authority sections and whatever follows the additional section untouched,
leaves an additional section whose records all parse and none of which is OPT, with ARCOUNT their
number, and a second stripping changes nothing.
\<close>

theorem strip_opt_records_correct:
  assumes start: "additional_section_start resp = Some (s, ar)"
    and walk: "iterate record_end (unat ar) resp s = Some e" and len: "length resp < 2 ^ 64"
  shows "let r = strip_opt_records resp in
    take 10 r = take 10 resp \<and> slice 12 s r = slice 12 s resp \<and> length r \<le> length resp \<and>
    (\<exists>k e'. additional_section_start r = Some (s, k) \<and> k \<le> ar \<and>
       plain_records (unat k) r s = Some e' \<and> drop e' r = drop e resp) \<and>
    strip_opt_records r = r"
proof -
  note b = additional_section_start_bounds [OF start]
  obtain ks m where r: "strip_opt_records resp
      = take 10 resp @ to_be16 (word_of_nat m) @ slice 12 s resp @ ks @ drop e resp"
    and m: "m \<le> unat ar" "s + length ks \<le> e" "e \<le> length resp"
    and keeps: "\<And>P T. length (P @ ks @ T) < 2 ^ 64 \<Longrightarrow>
        plain_records m (P @ ks @ T) (length P) = Some (length P + length ks)"
    using strip_opt_records_shape [OF assms] by metis
  define P where "P = take 10 resp @ to_be16 (word_of_nat m) @ slice 12 s resp"
  define r' where "r' = P @ ks @ drop e resp"
  have res: "strip_opt_records resp = r'" by (simp add: r r'_def P_def)
  have lP: "length P = s" using b by (auto simp add: P_def)
  have lr: "length r' \<le> length resp" "length r' < 2 ^ 64"
    using lP m len by (simp_all add: r'_def)
  have m16: "unat (word_of_nat m :: u16) = m"
    using m(1) unat_u16_less [of ar] by (intro unat_word_of_nat) (simp del: unat_u16_less)
  have h: "r' ! k = resp ! k" if "k < 10" for k
    using that b by (simp add: r'_def P_def nth_append)
  have ar': "be16 (r' ! 10) (r' ! 11) = word_of_nat m"
    using b by (simp add: r'_def P_def nth_append to_be16_def)
  have t10: "take 10 r' = take 10 resp" using b by (simp add: r'_def P_def)
  have sl: "slice 12 s r' = slice 12 s resp"
  proof -
    let ?A = "take 10 resp @ to_be16 (word_of_nat m)"
    have "length ?A = 12" "12 + length (slice 12 s resp) = s" using b by simp_all
    then show ?thesis
      using slice_middle [of ?A "slice 12 s resp" "ks @ drop e resp"] by (simp add: r'_def P_def)
  qed
  have start': "additional_section_start r' = Some (s, word_of_nat m)"
    using additional_section_start_local [OF start, of r'] h sl lr(2) ar' b lP
    by (simp add: agree_slice r'_def [THEN arg_cong, of length])
  have plain: "plain_records m r' s = Some (s + length ks)"
    using keeps [of P "drop e resp"] lr(2) lP by (simp add: r'_def)
  have rest: "drop (s + length ks) r' = drop e resp"
    using lP by (simp add: r'_def)
  have again: "strip_opt_records r' = r'"
  proof (cases "m = 0")
    case False
    have "r' = take s r' @ slice s (s + length ks) r' @ drop (s + length ks) r'"
      using lP slice_middle [of P ks "drop e resp"] by (simp add: r'_def)
    moreover have "take 10 r' @ to_be16 (word_of_nat m) @ drop 12 r' = r'"
      using b by (simp add: r'_def P_def)
    moreover have "(word_of_nat m :: u16) \<noteq> 0"
      using m16 False by (metis unsigned_0)
    ultimately show ?thesis
      using strip_loop_plain [OF plain, of "take s r'" 0] start' m16 lP
      by (simp add: strip_opt_records_def Let_def r'_def)
  qed (use start' in \<open>simp add: strip_opt_records_def\<close>)
  have "(word_of_nat m :: u16) \<le> ar" using m(1) m16 by (simp add: word_le_nat_alt)
  then show ?thesis
    using t10 sl lr(1) start' plain rest again m16 by (auto simp: res Let_def)
qed

definition sample_response :: "u8 list" where
  "sample_response = [0, 7, 0x81, 0x80, 0, 1, 0, 0, 0, 0, 0, 2, 1, 0x61, 0, 0, 1, 0, 1,
     0, 0, 41, 4, 0xD0, 0, 0, 0x80, 0, 0, 0, 0xC0, 0x0C, 0, 1, 0, 1, 0, 0, 0, 60, 0, 1, 9]"

lemma sample_response_start: "additional_section_start sample_response = Some (19, 2)"
  by code_simp

lemma sample_response_walk: "iterate record_end 2 sample_response 19 = Some 43"
  by code_simp

theorem strip_opt_records_correct_witness:
  "strip_opt_records (strip_opt_records sample_response) = strip_opt_records sample_response"
proof -
  have "iterate record_end (unat (2 :: u16)) sample_response 19 = Some 43"
    using sample_response_walk by simp
  from strip_opt_records_correct [OF sample_response_start this] show ?thesis
    by (simp add: Let_def) (simp add: sample_response_def)
qed

section \<open>Appending\<close>

text \<open>
For a response that ends with its last additional record, \<open>append_client_opt\<close> keeps everything
up to the ARCOUNT field and from the question to the end, and adds exactly one more record at the
end: an OPT record that reads back with the given payload size and DO bit.
\<close>

theorem append_client_opt_correct:
  assumes start: "additional_section_start resp = Some (s, n)"
    and walk: "iterate record_end (unat n) resp s = Some (length resp)"
    and room: "unat n < 65535" and len: "length resp + 11 < 2 ^ 64"
  shows "let r = append_client_opt resp sz d in
    length r = length resp + 11 \<and> take 10 r = take 10 resp \<and>
    slice 12 (length resp) r = drop 12 resp \<and>
    additional_section_start r = Some (s, n + 1) \<and>
    iterate record_end (unat n) r s = Some (length resp) \<and>
    additional_record_span r (length resp) = Some (length r, True) \<and>
    find_opt_loop 1 r (length resp) = (d, Some sz)"
proof -
  note b = additional_section_start_bounds [OF start]
  have n: "n = be16 (resp ! 10) (resp ! 11)" "12 \<le> length resp"
    using start by (auto simp: additional_section_start_Some)
  define opt where "opt = [0x00] @ to_be16 41 @ to_be16 sz
      @ [0, 0, if d then 0x80 else 0, 0, 0, 0 :: u8]"
  define r where "r = take 10 resp @ to_be16 (n + 1) @ drop 12 resp @ opt"
  have lo: "length opt = 11" by (simp add: opt_def)
  have res: "append_client_opt resp sz d = r"
    using n room by (simp add: append_client_opt_def read_u16_eq Let_def r_def opt_def)
  have lr: "length r = length resp + 11" using n lo by (simp add: r_def)
  have h: "r ! k = resp ! k" if "k < 10" for k
    using that n by (simp add: r_def nth_append)
  have ar: "be16 (r ! 10) (r ! 11) = n + 1"
    using n by (simp add: r_def nth_append to_be16_def)
  have body: "slice 12 (length resp) r = drop 12 resp"
    using n by (simp add: r_def slice_def)
  have same: "agree (length resp - 12) resp 12 r 12"
    using n lr body by (auto simp: agree_slice slice_def)
  have "additional_section_start r = Some (s, n + 1)"
    using additional_section_start_local [OF start, of r] h ar lr len
      agree_mono [OF same diff_le_mono [OF conjunct2 [OF b]]] by simp
  moreover have "agree (length resp - s) resp s r s"
    using agree_tail [OF same, of "s - 12"] b by simp
  then have "iterate record_end (unat n) r s = Some (length resp)"
    using record_walk.iterate_local [OF walk _ _ _, of r s] lr len b by simp
  moreover have dr: "drop (length resp) r = opt" using n by (simp add: r_def)
  have "find_opt_loop 1 r (length resp) = (d, Some sz)"
    using find_opt_at [of "length resp" r sz d "[]" 0] dr lr len
    by (simp add: opt_def del: find_opt_loop.simps)
  moreover have "additional_record_span r (length resp) = Some (length r, True)"
  proof -
    have "skip_name r (length resp) = Some (length resp + 1)"
      using skip_name_encode [of "[]" "length resp" r] dr by (simp add: opt_def)
    moreover have "r ! (length resp + k) = opt ! k" if "k < 11" for k
      using that dr lr by (metis le_add1 nth_drop)
    from this [of 1] this [of 2] this [of 9] this [of 10]
    have "be16 (r ! (length resp + 1)) (r ! (length resp + 2)) = 41"
      "record_data_len r (length resp + 1) = 0"
      by (simp_all add: opt_def to_be16_def record_data_len_def be16_def
          add.commute [of 9 "length resp"] add.commute [of 10 "length resp"])
    ultimately show ?thesis
      using lr len by (simp add: additional_record_span_eq Let_def)
  qed
  moreover have "take 10 r = take 10 resp" using n by (simp add: r_def)
  ultimately show ?thesis
    using lr body by (simp add: res Let_def)
qed

theorem append_client_opt_correct_witness:
  "find_opt_loop 1 (append_client_opt sample_response 1232 True) 43 = (True, Some 1232)"
proof -
  have l: "length sample_response = 43" by (simp add: sample_response_def)
  have "iterate record_end (unat (2 :: u16)) sample_response 19 = Some (length sample_response)"
    using sample_response_walk l by simp
  from append_client_opt_correct [OF sample_response_start this, of 1232 True] show ?thesis
    by (simp add: Let_def l del: find_opt_loop.simps)
qed

end
