(* ===== verification/Answer_Valid.thy ===== *)
theory Answer_Valid
  imports Wire_Opt
begin

text \<open>
  A response stays a valid answer to its question through everything the proxy does to it: a new
  id, rewritten flags, stripped and appended OPT records.
\<close>

section \<open>Validity as a condition on the packet\<close>

definition same_question :: "u8 list \<Rightarrow> u8 list \<Rightarrow> bool" where
  "same_question bs question \<longleftrightarrow>
     12 + length question \<le> length bs \<and> 4 \<le> length question \<and>
     map lower_u8 (slice 12 (8 + length question) bs) = map lower_u8 (take (length question - 4) question) \<and>
     slice (8 + length question) (12 + length question) bs = drop (length question - 4) question"

definition valid_answer :: "u8 list \<Rightarrow> u16 \<Rightarrow> u8 list \<Rightarrow> bool" where
  "valid_answer bs xid question \<longleftrightarrow> validate_response bs xid question \<noteq> None"

lemma valid_answer_iff:
  assumes "length question < 2 ^ 63"
  shows "valid_answer bs xid question \<longleftrightarrow>
    be16 (bs ! 0) (bs ! 1) = xid \<and> bit (be16 (bs ! 2) (bs ! 3)) 15 \<and> be16 (bs ! 4) (bs ! 5) = 1 \<and>
    same_question bs question \<and>
    iterate record_end (unat (be16 (bs ! 6) (bs ! 7))) bs (12 + length question) \<noteq> None"
proof -
  let ?m = "length question"
  have parts: "take (?m - 4) (slice 12 (12 + ?m) bs) = slice 12 (8 + ?m) bs"
    "drop (?m - 4) (slice 12 (12 + ?m) bs) = slice (8 + ?m) (12 + ?m) bs" if "4 \<le> ?m"
    using that by (simp_all add: slice_def min_def drop_take add.commute)
  have walk: "walk_answers bs i n rc \<noteq> None \<longleftrightarrow> iterate record_end n bs i \<noteq> None" for i n rc
    using walk_answers_loop_iterate [of n bs i None] by (simp add: walk_answers_def)
  show ?thesis
  proof (cases "4 \<le> ?m \<and> 12 + ?m \<le> length bs")
    case True
    then show ?thesis
      using assms walk parts
      by (auto simp: valid_answer_def validate_response_def same_question_def usize_checked_add_def
          get_range_def eq_ignore_ascii_case_u8_def flag_bit Let_def)
  next
    case False
    then show ?thesis
      by (auto simp: valid_answer_def validate_response_def same_question_def usize_checked_add_def
          get_range_def Let_def split: option.splits bind_splits if_splits)
  qed
qed

lemma same_question_local:
  "same_question bs question \<Longrightarrow> agree (length question) bs 12 cs 12 \<Longrightarrow> same_question cs question"
proof -
  assume q: "same_question bs question" and ag: "agree (length question) bs 12 cs 12"
  have "agree (length question - 4) bs 12 cs 12" by (rule agree_mono [OF ag]) simp
  moreover have "agree 4 bs (8 + length question) cs (8 + length question)"
    using agree_shift [of "length question - 4" 4 bs 12 cs 12] ag q
    by (simp add: same_question_def add.commute)
  ultimately show ?thesis
    using q ag by (auto simp: same_question_def agree_slice algebra_simps)
qed

text \<open>Packets with the same counts and the same bytes through the answers are both valid or neither.\<close>

lemma valid_answer_local:
  assumes valid: "valid_answer bs xid question" and q: "length question < 2 ^ 63"
    and walk: "iterate record_end (unat (be16 (bs ! 6) (bs ! 7))) bs (12 + length question) = Some e"
    and header: "\<And>k. 4 \<le> k \<Longrightarrow> k < 8 \<Longrightarrow> cs ! k = bs ! k"
    and flag: "bit (be16 (cs ! 2) (cs ! 3)) 15"
    and ag: "agree (e - 12) bs 12 cs 12" and len: "length cs < 2 ^ 64"
  shows "valid_answer cs (be16 (cs ! 0) (cs ! 1)) question"
proof -
  have v: "be16 (bs ! 4) (bs ! 5) = 1" "same_question bs question"
    using valid unfolding valid_answer_iff [OF q] by auto
  have le: "12 + length question \<le> e" "12 + length question \<le> length bs"
    using record_walk.iterate_advance [OF walk] v(2) by (auto simp: same_question_def)
  have "agree (length question) bs 12 cs 12"
    using le(1) by (intro agree_mono [OF ag]) simp
  then have "same_question cs question" by (rule same_question_local [OF v(2)])
  moreover have "agree (e - (12 + length question)) bs (12 + length question) cs (12 + length question)"
    using agree_tail [OF ag, of "length question"] le(1) by simp
  then have "iterate record_end (unat (be16 (bs ! 6) (bs ! 7))) cs (12 + length question) \<noteq> None"
    using record_walk.iterate_local [OF walk _ le(2) len] by simp
  ultimately show ?thesis
    using v(1) flag header unfolding valid_answer_iff [OF q] by simp
qed

lemma valid_answer_walk:
  assumes "valid_answer bs xid question" "length question < 2 ^ 63"
  obtains e where
    "iterate record_end (unat (be16 (bs ! 6) (bs ! 7))) bs (12 + length question) = Some e"
    "12 + length question \<le> e" "e \<le> length bs" "4 \<le> length question"
proof -
  have v: "same_question bs question"
    "iterate record_end (unat (be16 (bs ! 6) (bs ! 7))) bs (12 + length question) \<noteq> None"
    using assms(1) unfolding valid_answer_iff [OF assms(2)] by auto
  then obtain e where e:
      "iterate record_end (unat (be16 (bs ! 6) (bs ! 7))) bs (12 + length question) = Some e"
    by blast
  have "12 + length question \<le> length bs" "4 \<le> length question"
    using v(1) by (auto simp: same_question_def)
  then show thesis using record_walk.iterate_advance [OF e] that [OF e] by simp
qed

section \<open>Header rewriting\<close>

lemma rewrite_flags_shape:
  assumes "12 \<le> length resp"
  obtains fl where "rewrite_response_flags_for_client resp rd cd = take 2 resp @ to_be16 fl @ drop 4 resp"
    "bit fl 15 = bit (be16 (resp ! 2) (resp ! 3)) 15" "\<not> bit fl 5"
proof -
  let ?f = "be16 (resp ! 2) (resp ! 3)"
  define fl where "fl = (let f1 = ?f AND NOT (FLAG_AD OR FLAG_RD OR FLAG_CD);
      f2 = (if rd then f1 OR FLAG_RD else f1) in if cd then f2 OR FLAG_CD else f2)"
  have "bit fl 15 = bit ?f 15" "\<not> bit fl 5"
    by (simp_all add: fl_def Let_def bit_simps)
  moreover have "rewrite_response_flags_for_client resp rd cd = take 2 resp @ to_be16 fl @ drop 4 resp"
    using assms by (simp add: rewrite_response_flags_for_client_def Let_def fl_def)
  ultimately show thesis using that by blast
qed

lemma valid_answer_header:
  assumes valid: "valid_answer bs xid question" and q: "length question < 2 ^ 63"
    and shape: "cs = a # b # c # d # drop 4 bs" and flag: "bit (be16 c d) 15"
    and len: "length bs < 2 ^ 64"
  shows "valid_answer cs (be16 a b) question"
proof -
  obtain e where e: "iterate record_end (unat (be16 (bs ! 6) (bs ! 7))) bs (12 + length question) = Some e"
      "12 + length question \<le> e" "e \<le> length bs" "4 \<le> length question"
    using valid_answer_walk [OF valid q] by blast
  have at: "cs ! k = bs ! k" if "4 \<le> k" "k < length bs" for k
  proof -
    have "cs = [a, b, c, d] @ drop 4 bs" by (simp add: shape)
    then have "cs ! k = drop 4 bs ! (k - 4)" using that(1) by (simp only: nth_append) (simp add: eval_nat_numeral)
    then show ?thesis using that by simp
  qed
  have "length cs = length bs" using e by (simp add: shape)
  moreover have "agree (e - 12) bs 12 cs 12"
    using e at calculation by (auto simp: agree_def)
  ultimately have "valid_answer cs (be16 (cs ! 0) (cs ! 1)) question"
    using at e(2-4) flag len
    by (intro valid_answer_local [OF valid q e(1)]) (auto simp: shape)
  then show ?thesis by (simp add: shape)
qed

section \<open>OPT records\<close>

text \<open>The question of a valid answer to a well-formed question is as long as the question itself.\<close>

lemma same_question_step:
  assumes q: "same_question bs (question_of ls t c)" and ok: "name_ok ls"
  shows "question_step bs 12 = Some (12 + length (question_of ls t c))"
proof -
  let ?m = "length (question_of ls t c)"
  have m: "?m = length (encode_name ls) + 4" "length (encode_name ls) \<le> 255"
    using ok by (simp_all add: length_question_of name_ok_def)
  have "take (?m - 4) (question_of ls t c) = encode_name ls"
    using m by (simp add: question_of_def)
  then have "map lower_u8 (slice 12 (8 + ?m) bs) = map lower_u8 (encode_name ls)"
    using q by (simp add: same_question_def)
  then obtain ks where ks: "slice 12 (8 + ?m) bs = encode_name ks" "list_all label_ok ks"
    using lower_encode_name ok by (auto simp: name_ok_def)
  have len: "12 + ?m \<le> length bs" using q by (simp add: same_question_def)
  have "drop 12 bs = slice 12 (8 + ?m) bs @ drop (?m - 4) (drop 12 bs)"
    using m(1) unfolding slice_def by (simp del: drop_drop)
  then have "drop 12 bs = encode_name ks @ drop (?m - 4) (drop 12 bs)"
    unfolding ks(1) .
  then have "skip_name bs 12 = Some (12 + length (encode_name ks))"
    by (rule skip_name_encode [OF ks(2)])
  moreover have "length (encode_name ks) = ?m - 4"
    using arg_cong [OF ks(1), of length] len m(1) by simp
  ultimately show ?thesis
    using len m by (simp add: question_step_Some)
qed

lemma valid_answer_section:
  assumes valid: "valid_answer bs xid (question_of ls t c)" and ok: "name_ok ls"
    and walk: "iterate record_end (unat (be16 (bs ! 6) (bs ! 7))) bs
      (12 + length (question_of ls t c)) = Some e"
    and start: "additional_section_start bs = Some (s, n)"
  shows "e \<le> s"
proof -
  have small: "length (question_of ls t c) < 2 ^ 63"
    using ok by (simp add: length_question_of name_ok_def)
  have v: "be16 (bs ! 4) (bs ! 5) = 1" "same_question bs (question_of ls t c)"
    using valid unfolding valid_answer_iff [OF small] by auto
  have "iterate question_step 1 bs 12 = Some (12 + length (question_of ls t c))"
    using same_question_step [OF v(2) ok] by simp
  then have "iterate record_end (unat (be16 (bs ! 6) (bs ! 7)) + unat (be16 (bs ! 8) (bs ! 9))) bs
      (12 + length (question_of ls t c)) = Some s"
    using start v(1) by (auto simp: additional_section_start_Some)
  then have "iterate record_end (unat (be16 (bs ! 8) (bs ! 9))) bs e = Some s"
    by (simp add: record_walk.iterate_add walk)
  moreover have "12 + length (question_of ls t c) \<le> length bs"
    using v(2) by (simp add: same_question_def)
  then have "e \<le> length bs" using record_walk.iterate_advance [OF walk] by simp
  ultimately show ?thesis using record_walk.iterate_advance by fastforce
qed

lemma strip_opt_records_cases:
  assumes "length bs < 2 ^ 64"
  shows "strip_opt_records bs = bs \<or>
    (\<exists>s ar e m ks. additional_section_start bs = Some (s, ar) \<and>
       strip_opt_records bs = take 10 bs @ to_be16 (word_of_nat m) @ slice 12 s bs @ ks @ drop e bs \<and>
       s + length ks \<le> e \<and> e \<le> length bs)"
proof (cases "additional_section_start bs")
  case None
  then show ?thesis by (simp add: strip_opt_records_def)
next
  case (Some p)
  obtain s ar where p: "p = (s, ar)" by (cases p)
  show ?thesis
  proof (cases "iterate record_end (unat ar) bs s")
    case None
    then have "strip_loop (unat ar) bs s (take s bs) 0 = None"
      using strip_loop_iterate by (cases "strip_loop (unat ar) bs s (take s bs) 0") auto
    then show ?thesis using Some p by (simp add: strip_opt_records_def)
  next
    case (Some e)
    from strip_opt_records_shape [OF \<open>additional_section_start bs = Some p\<close> [unfolded p] Some assms]
    obtain ks m where "strip_opt_records bs
        = take 10 bs @ to_be16 (word_of_nat m) @ slice 12 s bs @ ks @ drop e bs"
      "s + length ks \<le> e" "e \<le> length bs" by metis
    then show ?thesis using \<open>additional_section_start bs = Some p\<close> p by blast
  qed
qed

lemma length_strip_opt_records: "length bs < 2 ^ 64 \<Longrightarrow> length (strip_opt_records bs) \<le> length bs"
  using strip_opt_records_cases [of bs] additional_section_start_bounds [of bs]
  by fastforce

lemma valid_answer_strip:
  assumes valid: "valid_answer bs xid (question_of ls t c)" and ok: "name_ok ls"
    and len: "length bs < 2 ^ 64"
  shows "valid_answer (strip_opt_records bs) xid (question_of ls t c)"
proof (cases "strip_opt_records bs = bs")
  case False
  then obtain s ar e2 m ks where start: "additional_section_start bs = Some (s, ar)"
    and r: "strip_opt_records bs = take 10 bs @ to_be16 (word_of_nat m) @ slice 12 s bs @ ks @ drop e2 bs"
    and b2: "s + length ks \<le> e2" "e2 \<le> length bs"
    using strip_opt_records_cases [OF len] by blast
  let ?cs = "take 10 bs @ to_be16 (word_of_nat m) @ slice 12 s bs @ ks @ drop e2 bs"
  have small: "length (question_of ls t c) < 2 ^ 63"
    using ok by (simp add: length_question_of name_ok_def)
  obtain e where e: "iterate record_end (unat (be16 (bs ! 6) (bs ! 7))) bs
      (12 + length (question_of ls t c)) = Some e" "12 + length (question_of ls t c) \<le> e" "e \<le> length bs"
    using valid_answer_walk [OF valid small] by blast
  have es: "e \<le> s" by (rule valid_answer_section [OF valid ok e(1) start])
  have s: "12 \<le> s" "s \<le> length bs" using additional_section_start_bounds [OF start] by auto
  have h: "?cs ! k = bs ! k" if "k < 10" for k
    using that s by (simp add: nth_append)
  have v: "be16 (bs ! 0) (bs ! 1) = xid" "bit (be16 (bs ! 2) (bs ! 3)) 15"
    using valid unfolding valid_answer_iff [OF small] by auto
  have lc: "length ?cs \<le> length bs" using s b2 by simp
  have "slice 12 (12 + length (slice 12 s bs)) ?cs = slice 12 s bs"
    using slice_middle [of "take 10 bs @ to_be16 (word_of_nat m)" "slice 12 s bs" "ks @ drop e2 bs"] s
    by simp
  then have "agree (s - 12) bs 12 ?cs 12" using s by (simp add: agree_slice)
  then have "agree (e - 12) bs 12 ?cs 12" using es by (elim agree_mono) simp
  then have "valid_answer ?cs (be16 (?cs ! 0) (?cs ! 1)) (question_of ls t c)"
    using h v(2) lc len by (intro valid_answer_local [OF valid small e(1)]) simp_all
  then show ?thesis using v(1) h [of 0] h [of 1] by (simp only: r)
qed (use valid in simp)

lemma valid_answer_append_opt:
  assumes valid: "valid_answer bs xid (question_of ls t c)" and ok: "name_ok ls"
    and len: "length bs + 11 < 2 ^ 64"
  shows "valid_answer (append_client_opt bs sz d) xid (question_of ls t c)"
proof -
  have small: "length (question_of ls t c) < 2 ^ 63"
    using ok by (simp add: length_question_of name_ok_def)
  obtain e where e: "iterate record_end (unat (be16 (bs ! 6) (bs ! 7))) bs
      (12 + length (question_of ls t c)) = Some e" "12 + length (question_of ls t c) \<le> e" "e \<le> length bs"
    using valid_answer_walk [OF valid small] by blast
  define opt where "opt = [0x00] @ to_be16 TYPE_OPT @ to_be16 sz
      @ [0, 0, if d then 0x80 else 0, 0, 0, 0 :: u8]"
  let ?cs = "take 10 bs @ to_be16 (be16 (bs ! 10) (bs ! 11) + 1) @ drop 12 bs @ opt"
  show ?thesis
  proof (cases "unat (be16 (bs ! 10) (bs ! 11)) + 1 \<ge> 65536")
    case True
    then show ?thesis using valid e(3) by (simp add: append_client_opt_def read_u16_eq)
  next
    case False
    then have r: "append_client_opt bs sz d = ?cs"
      using e by (simp add: append_client_opt_def read_u16_eq Let_def opt_def)
    have h: "?cs ! k = bs ! k" if "k < 10" for k
      using that e by (simp add: nth_append)
    have v: "be16 (bs ! 0) (bs ! 1) = xid" "bit (be16 (bs ! 2) (bs ! 3)) 15"
      using valid unfolding valid_answer_iff [OF small] by auto
    have "slice 12 (length bs) ?cs = slice 12 (length bs) bs"
      using e by (simp add: slice_def)
    then have "agree (length bs - 12) bs 12 ?cs 12" using e by (simp add: agree_slice opt_def)
    then have "agree (e - 12) bs 12 ?cs 12" using e(3) by (elim agree_mono) simp
    then have "valid_answer ?cs (be16 (?cs ! 0) (?cs ! 1)) (question_of ls t c)"
      using h v(2) len e by (intro valid_answer_local [OF valid small e(1)]) (simp_all add: opt_def)
    then show ?thesis using v(1) h [of 0] h [of 1] by (simp only: r)
  qed
qed

end
