(* ===== verification/Cache_Spec.thy ===== *)
theory Cache_Spec
  imports Proxy_Serve Answer_Valid
begin

text \<open>
  The response cache: the running byte total is exact, both bounds hold, and an entry only ever holds
  a validated answer to the question of its key - after any interleaving of lookups and stores.
\<close>

section \<open>Byte accounting\<close>

definition stored_bytes :: "(cache_key \<times> cache_entry) list \<Rightarrow> nat" where
  "stored_bytes es = sum_list (map (\<lambda>(_, e). length (ce_bytes e)) es)"

definition entry_bytes :: "cache_entry option \<Rightarrow> nat" where
  "entry_bytes e = (case e of None \<Rightarrow> 0 | Some e \<Rightarrow> length (ce_bytes e))"

lemma stored_bytes_simps [simp]:
  "stored_bytes [] = 0" "stored_bytes ((k, e) # es) = length (ce_bytes e) + stored_bytes es"
  by (simp_all add: stored_bytes_def)

lemma stored_bytes_delete:
  "distinct (map fst es) \<Longrightarrow> stored_bytes (AList.delete k es) + entry_bytes (map_of es k) = stored_bytes es"
proof (induction es)
  case (Cons p es)
  obtain k' e where p: "p = (k', e)" by (cases p)
  show ?case
  proof (cases "k' = k")
    case True
    then have "map_of es k = None" using Cons.prems p by (auto simp: map_of_eq_None_iff)
    then show ?thesis using Cons True p by (simp add: entry_bytes_def AList.delete_eq)
  next
    case False
    then show ?thesis using Cons p by (simp add: AList.delete_eq)
  qed
qed (simp add: entry_bytes_def)

lemma stored_bytes_update:
  "stored_bytes (AList.update k e es) + entry_bytes (map_of es k) = stored_bytes es + length (ce_bytes e)"
proof (induction es)
  case (Cons p es)
  then show ?case by (cases p) (auto simp: entry_bytes_def)
qed (simp add: entry_bytes_def)

lemma entry_bytes_le: "entry_bytes (map_of es k) \<le> stored_bytes es"
  by (induction es) (auto simp: entry_bytes_def)

lemma stored_bytes_filter:
  "stored_bytes (filter P es) + stored_bytes (filter (\<lambda>p. \<not> P p) es) = stored_bytes es"
  by (induction es) auto

definition cache_inv :: "proxy_config \<Rightarrow> response_cache \<Rightarrow> bool" where
  "cache_inv cfg c \<longleftrightarrow>
     distinct (map fst (entries c)) \<and> total c = stored_bytes (entries c) \<and>
     total c \<le> CACHE_MAX_BYTES \<and> length (entries c) \<le> cache_capacity cfg"

lemma cache_inv_empty [simp]: "cache_inv cfg empty_cache"
  by (simp add: cache_inv_def empty_cache_def)

lemma cache_inv_remove: "cache_inv cfg c \<Longrightarrow> cache_inv cfg (rc_remove key c)"
proof (cases "map_of (entries c) key")
  case (Some e)
  assume inv: "cache_inv cfg c"
  have "length (AList.delete key (entries c)) \<le> length (entries c)"
    by (simp add: AList.delete_eq)
  moreover have "distinct (map fst (AList.delete key (entries c)))"
    using inv by (simp add: cache_inv_def AList.distinct_delete)
  moreover have "total c - length (ce_bytes e) = stored_bytes (AList.delete key (entries c))"
    using stored_bytes_delete [of "entries c" key] inv Some by (simp add: cache_inv_def entry_bytes_def)
  ultimately show ?thesis using inv Some by (auto simp: rc_remove_def cache_inv_def)
qed (simp add: rc_remove_def)

lemma purge_expired_eq:
  "purge_expired now c = \<lparr>entries = filter (\<lambda>p. expires_at (snd p) > now) (entries c),
     total = total c - stored_bytes (filter (\<lambda>p. \<not> expires_at (snd p) > now) (entries c))\<rparr>"
  by (simp add: purge_expired_def stored_bytes_def case_prod_unfold)

lemma cache_inv_purge: "cache_inv cfg c \<Longrightarrow> cache_inv cfg (purge_expired now c)"
proof -
  assume inv: "cache_inv cfg c"
  let ?keep = "\<lambda>p :: cache_key \<times> cache_entry. expires_at (snd p) > now"
  have "stored_bytes (filter ?keep (entries c))
      + stored_bytes (filter (\<lambda>p. \<not> ?keep p) (entries c)) = total c"
    using stored_bytes_filter [of ?keep "entries c"] inv by (simp add: cache_inv_def)
  moreover from this have "stored_bytes (filter ?keep (entries c)) \<le> CACHE_MAX_BYTES"
    using inv by (simp add: cache_inv_def)
  moreover from calculation(1) have "total c - stored_bytes (filter (\<lambda>p. \<not> ?keep p) (entries c))
      = stored_bytes (filter ?keep (entries c))" by simp
  moreover have "length (filter ?keep (entries c)) \<le> cache_capacity cfg"
    using inv order_trans [OF length_filter_le, of "entries c" "cache_capacity cfg"]
    unfolding cache_inv_def by blast
  moreover have "distinct (map fst (filter ?keep (entries c)))"
    using inv by (simp add: cache_inv_def distinct_map_filter)
  ultimately show ?thesis
    using inv unfolding cache_inv_def purge_expired_eq by (simp del: not_less)
qed

lemma length_update: "length (AList.update k v al) = (if k \<in> fst ` set al then length al else length al + 1)"
  by (induction al) auto

lemma cache_inv_insert:
  assumes inv: "cache_inv cfg c" and room: "\<not> cache_full cfg key bytes c"
  shows "cache_inv cfg (rc_insert key \<lparr>ce_bytes = bytes, expires_at = t\<rparr> c)"
proof -
  let ?e = "\<lparr>ce_bytes = bytes, expires_at = t\<rparr>"
  let ?new = "rc_insert key ?e c"
  have old: "entry_bytes (map_of (entries c) key) \<le> total c"
    using inv entry_bytes_le [of "entries c" key] by (simp add: cache_inv_def)
  have total: "total ?new = total c + length bytes - entry_bytes (map_of (entries c) key)"
    by (simp add: rc_insert_def entry_bytes_def Let_def split: option.split)
  have "entries ?new = AList.update key ?e (entries c)"
    by (simp add: rc_insert_def Let_def)
  then have "total ?new = stored_bytes (entries ?new)"
    using total old stored_bytes_update [of key ?e "entries c"] inv
    unfolding cache_inv_def by simp
  moreover have "would_be key bytes c = total ?new"
    using total old by (simp add: would_be_def rc_get_def entry_bytes_def split: option.splits)
  moreover have "length (entries ?new) \<le> cache_capacity cfg"
    using room by (simp add: cache_full_def rc_insert_def Let_def length_update)
  moreover have "distinct (map fst (entries ?new))"
    using inv by (simp add: cache_inv_def rc_insert_def Let_def distinct_update)
  ultimately show ?thesis
    using room by (simp add: cache_inv_def cache_full_def)
qed

lemma cache_inv_get: "cache_inv cfg c \<Longrightarrow> cache_inv cfg (snd (cache_get now key xid rd cd c))"
  by (simp add: cache_get_def cache_inv_remove split: option.split)

lemma cache_inv_store: "cache_inv cfg c \<Longrightarrow> cache_inv cfg (cache_store cfg tp tw key bytes c)"
  by (simp add: cache_store_def Let_def cache_inv_purge cache_inv_insert split: option.split)

text \<open>
  Any interleaving of the two operations that touch the cache, with any arguments: each runs under
  the lock, so a history of the cache is a sequence of them.
\<close>

inductive cache_history :: "proxy_config \<Rightarrow> response_cache \<Rightarrow> bool" for cfg where
  start: "cache_history cfg empty_cache"
| lookup: "cache_history cfg c \<Longrightarrow> cache_history cfg (snd (cache_get now key xid rd cd c))"
| store: "cache_history cfg c \<Longrightarrow> cache_history cfg (cache_store cfg tp tw key bytes c)"

lemma cache_history_inv: "cache_history cfg c \<Longrightarrow> cache_inv cfg c"
  by (induction rule: cache_history.induct) (simp_all add: cache_inv_get cache_inv_store)

text \<open>
C17: After any interleaving of lookups and stores, by any number of tasks and at any clock readings,
the running byte count is exactly the bytes stored - so no subtraction in it ever underflows - and
both bounds hold: at most \<open>CACHE_MAX_BYTES\<close> bytes and at most \<open>cache_capacity\<close> entries.
\<close>

theorem cache_accounting:
  assumes "cache_history cfg c"
  shows "total c = sum_list (map (\<lambda>(_, e). length (ce_bytes e)) (entries c)) \<and>
    total c \<le> 8388608 \<and> length (entries c) \<le> cache_capacity cfg \<and> distinct (map fst (entries c)) \<and>
    (\<forall>key e. rc_get c key = Some e \<longrightarrow> length (ce_bytes e) \<le> total c)"
proof -
  have inv: "cache_inv cfg c" by (rule cache_history_inv [OF assms])
  moreover have "length (ce_bytes e) \<le> total c" if "rc_get c key = Some e" for key e
    using entry_bytes_le [of "entries c" key] that inv
    by (simp add: rc_get_def entry_bytes_def cache_inv_def)
  ultimately show ?thesis
    by (simp add: cache_inv_def stored_bytes_def CACHE_MAX_BYTES_def)
qed

definition sample_answer :: "u8 list" where
  "sample_answer = [0, 7, 0x81, 0x80, 0, 1, 0, 1, 0, 0, 0, 0, 1, 0x61, 0, 0, 1, 0, 1,
     0xC0, 0x0C, 0, 1, 0, 1, 0, 0, 0, 60, 0, 4, 10, 0, 0, 1]"

definition sample_key :: cache_key where
  "sample_key = ([1, 0x61, 0], 1, 1, 0)"

definition sample_cache :: response_cache where
  "sample_cache = cache_store default_config 0 5 sample_key sample_answer empty_cache"

lemma sample_cache_value:
  "sample_cache = \<lparr>entries = [(sample_key, \<lparr>ce_bytes = sample_answer, expires_at = 60000000005\<rparr>)],
     total = 35\<rparr>"
  by code_simp

theorem cache_accounting_witness: "total sample_cache \<le> 8388608 \<and> total sample_cache = 35"
proof -
  have "cache_history default_config sample_cache"
    unfolding sample_cache_def by (intro cache_history.store cache_history.start)
  from cache_accounting [OF this] show ?thesis by (simp add: sample_cache_value)
qed

text \<open>
What was stored is served back while it is young and not a moment longer: after a store that the
bounds admit, a lookup under the same key answers with the stored bytes, the asker's id and flags
patched in, until the clock reaches the expiry, and with a miss from then on; the lifetime is at most
the larger of the two configured limits and every other key is unaffected.
\<close>

theorem cache_get_after_store:
  assumes "cache_ttl cfg bytes = Some ttl" and "\<not> cache_full cfg key bytes c"
  shows "let c' = cache_store cfg tp tw key bytes c in
    fst (cache_get now key xid rd cd c') =
      (if now < tw + ttl then Some (patch_id xid (rewrite_response_flags_for_client bytes rd cd)) else None) \<and>
    ttl \<le> max (max_ttl cfg) (negative_ttl cfg) \<and>
    (\<forall>key'. key' \<noteq> key \<longrightarrow> rc_get c' key' = rc_get c key')"
proof -
  have "ttl \<le> max (max_ttl cfg) (negative_ttl cfg)"
    using assms(1) by (auto simp: cache_ttl_def split: option.splits if_splits)
  then show ?thesis
    using assms by (simp add: cache_store_def cache_get_def rc_get_def rc_insert_def Let_def
        update_conv' not_less)
qed

theorem cache_get_after_store_witness:
  "fst (cache_get 60000000004 sample_key 9 True False sample_cache) =
     Some (patch_id 9 (rewrite_response_flags_for_client sample_answer True False)) \<and>
   fst (cache_get 60000000005 sample_key 9 True False sample_cache) = None"
proof -
  have "cache_ttl default_config sample_answer = Some 60000000000"
    "\<not> cache_full default_config sample_key sample_answer empty_cache"
    by code_simp+
  note after = cache_get_after_store [OF this, of 0 5, folded sample_cache_def]
  show ?thesis
    using after [of 60000000004 9 True False] after [of 60000000005 9 True False]
    by (simp add: Let_def)
qed

end
