(* ===== verification/Proxy_Spec.thy ===== *)
theory Proxy_Spec
  imports Cache_Spec Load_Spec
begin

text \<open>
  What the proxy promises of the answers it gives: every answer to an accepted query is a valid
  response to that query, whichever stage made it and whatever the network sent; blocked names and
  the canary never reach the upstream; upstream lists never point back at the listener.
\<close>

section \<open>The question of an accepted query\<close>

lemma parse_query_question:
  assumes "parse_query bytes = Inr q"
  obtains ls where "name_ok ls" "q_qname_wire q = encode_name ls" "q_qname q = present ls"
    "slice 12 (q_question_end q) bytes = question_of ls (q_qtype q) (q_qclass q)"
    "12 + length (question_of ls (q_qtype q) (q_qclass q)) = q_question_end q"
proof -
  obtain ls where ls: "query_packet bytes ls (q_qtype q) (q_qclass q)"
      "q = query_of_packet bytes ls (q_qtype q) (q_qclass q)"
    using assms by (rule parse_query_sound)
  have f: "q_question_end q = 12 + length (question_of ls (q_qtype q) (q_qclass q))"
    "q_qname_wire q = encode_name ls" "q_qname q = present ls"
    by (subst ls(2); simp add: query_of_packet_def Let_def)+
  show thesis
    using query_packet_bounds [OF ls(1)] ls(1) f by (intro that [of ls]) (simp_all add: query_packet_def)
qed

definition client_question :: "u8 list \<Rightarrow> query \<Rightarrow> u8 list" where
  "client_question bytes q = slice 12 (q_question_end q) bytes"

section \<open>Forwarding\<close>

lemma udp_receive_ok:
  "udp_receive xid evs = Inr buf \<Longrightarrow> length buf \<le> 4096 \<and> 12 \<le> length buf \<and> be16 (buf ! 0) (buf ! 1) = xid"
  by (induction xid evs rule: udp_receive.induct)
    (auto simp: MAX_DATAGRAM_def Let_def split: if_splits)

lemma udp_exchange_ok: "udp_exchange ev up pkt xid = Inr buf \<Longrightarrow> length buf \<le> 4096"
  using udp_receive_ok by (auto simp: udp_exchange_def split: if_splits)

text \<open>Only validated answers come out of an exchange, whatever was received.\<close>

definition sound_answer :: "u16 \<Rightarrow> u8 list \<Rightarrow> u8 list \<Rightarrow> bool" where
  "sound_answer uid question bs \<longleftrightarrow> valid_answer bs uid question \<and> length bs \<le> 65535"

lemma checked_tcp_ok:
  "checked_tcp ev up pkt xid question = Inr resp \<Longrightarrow> sound_answer xid question resp"
  by (auto simp: checked_tcp_def tcp_exchange_def valid_answer_def sound_answer_def
      split: sum.splits if_splits)

lemma sound_udp:
  "udp_exchange ev up pkt uid = Inr resp \<Longrightarrow> validate_response resp uid question \<noteq> None \<Longrightarrow>
   sound_answer uid question resp"
  using udp_exchange_ok [of ev up pkt uid resp] by (simp add: sound_answer_def valid_answer_def)

lemma forward_tcp_ok:
  "forward_tcp ev up pkt plain has_edns uid question = Inr fw \<Longrightarrow> sound_answer uid question (fw_bytes fw)"
  using checked_tcp_ok unfolding forward_tcp_def
  by (fastforce split: sum.splits if_splits)

lemma forward_plain_udp_ok:
  "forward_plain_udp ev up plain uid question = Inr fw \<Longrightarrow> sound_answer uid question (fw_bytes fw)"
  using checked_tcp_ok sound_udp unfolding forward_plain_udp_def
  by (fastforce split: sum.splits if_splits)

lemma forward_via_ok:
  assumes "forward_via ev bytes q tcp up st = (Inr fw, st')"
  shows "\<exists>uid. sound_answer uid (client_question bytes q) (fw_bytes fw)"
  using assms forward_tcp_ok forward_plain_udp_ok sound_udp
  unfolding forward_via_def next_txid_def client_question_def
  by (fastforce simp: Let_def split: sum.splits if_splits)

lemma forward_ok:
  assumes "forward ev bytes q tcp st = (Inr fw, st')"
  shows "\<exists>uid. sound_answer uid (client_question bytes q) (fw_bytes fw)"
  using assms forward_via_ok by (auto simp: forward_def split: prod.splits option.splits)

definition same_shared :: "proxy_state \<Rightarrow> proxy_state \<Rightarrow> bool" where
  "same_shared st st' \<longleftrightarrow>
     config st' = config st \<and> upstreams st' = upstreams st \<and> cache st' = cache st"

lemma forward_shared: "forward ev bytes q tcp st = (r, st') \<Longrightarrow> same_shared st st'"
  by (auto simp: forward_def forward_via_def pick_upstream_def next_txid_def same_shared_def Let_def
      split: if_splits)

section \<open>Header restoration\<close>

lemma valid_answer_length: "valid_answer bs xid question \<Longrightarrow> 12 \<le> length bs"
  by (auto simp: valid_answer_def validate_response_def split: if_splits)

lemma take2: "2 \<le> length bs \<Longrightarrow> \<exists>a b. take 2 bs = [a, b] \<and> bs ! 0 = a \<and> bs ! 1 = b"
  by (cases bs; cases "tl bs") auto

lemma valid_answer_rewrite:
  assumes valid: "valid_answer bs xid question" and q: "length question < 2 ^ 63"
    and len: "length bs < 2 ^ 64"
  shows "valid_answer (rewrite_response_flags_for_client bs rd cd) xid question"
proof -
  have l: "12 \<le> length bs" by (rule valid_answer_length [OF valid])
  obtain fl where fl: "rewrite_response_flags_for_client bs rd cd = take 2 bs @ to_be16 fl @ drop 4 bs"
      "bit fl 15 = bit (be16 (bs ! 2) (bs ! 3)) 15"
    using rewrite_flags_shape [OF l] by metis
  obtain a b where ab: "take 2 bs = [a, b]" "bs ! 0 = a" "bs ! 1 = b" using take2 [of bs] l by auto
  have v: "be16 (bs ! 0) (bs ! 1) = xid" "bit (be16 (bs ! 2) (bs ! 3)) 15"
    using valid unfolding valid_answer_iff [OF q] by auto
  have "valid_answer (a # b # word_of_nat (unat fl div 256) # word_of_nat (unat fl mod 256) # drop 4 bs)
      (be16 a b) question"
    using fl(2) v(2) by (intro valid_answer_header [OF valid q refl _ len]) simp
  then show ?thesis using fl(1) ab v(1) by (simp add: to_be16_def)
qed

lemma valid_answer_patch_id:
  assumes valid: "valid_answer bs xid question" and q: "length question < 2 ^ 63"
    and len: "length bs < 2 ^ 64"
  shows "valid_answer (patch_id new bs) new question"
proof -
  have l: "12 \<le> length bs" by (rule valid_answer_length [OF valid])
  have v: "bit (be16 (bs ! 2) (bs ! 3)) 15"
    using valid unfolding valid_answer_iff [OF q] by auto
  have d: "drop 2 bs = bs ! 2 # bs ! 3 # drop 4 bs"
    using l by (simp add: Cons_nth_drop_Suc numeral_eq_Suc)
  have "valid_answer (word_of_nat (unat new div 256) # word_of_nat (unat new mod 256)
      # bs ! 2 # bs ! 3 # drop 4 bs)
      (be16 (word_of_nat (unat new div 256)) (word_of_nat (unat new mod 256))) question"
    by (rule valid_answer_header [OF valid q refl v len])
  then show ?thesis using l d by (simp add: patch_id_def to_be16_def)
qed

lemma length_patch_id: "length (patch_id new bs) = length bs"
  by (auto simp: patch_id_def)

lemma length_rewrite: "length (rewrite_response_flags_for_client bs rd cd) = length bs"
  by (auto simp: rewrite_response_flags_for_client_def Let_def)

section \<open>The state invariant\<close>

definition entry_ok :: "cache_key \<times> cache_entry \<Rightarrow> bool" where
  "entry_ok p \<longleftrightarrow>
     (case p of ((w, t, c, slot), e) \<Rightarrow>
        \<exists>ls xid. name_ok ls \<and> w = encode_name ls \<and> sound_answer xid (question_of ls t c) (ce_bytes e))"

definition upstreams_ok :: "socket_addr \<Rightarrow> socket_addr list \<Rightarrow> bool" where
  "upstreams_ok la ups \<longleftrightarrow> ups \<noteq> [] \<and> (\<forall>u \<in> set ups. \<not> self_referential u la)"

definition state_ok :: "socket_addr \<Rightarrow> proxy_state \<Rightarrow> bool" where
  "state_ok la st \<longleftrightarrow>
     upstreams_ok la (upstreams st) \<and> cache_inv (config st) (cache st) \<and>
     list_all entry_ok (entries (cache st))"

lemma validate_upstreams_ok: "validate_upstreams ups la = None \<longleftrightarrow> upstreams_ok la ups"
  by (auto simp: validate_upstreams_def upstreams_ok_def find_None_iff)

text \<open>
  The atomic operations on the shared state, as the tasks of the proxy issue them: a task that only
  touches the counters, the hook, the filter, the round-robin index or the id counter (\<open>quiet\<close>), a
  cache lookup, the store of an answer that came out of an exchange, and a change of the upstreams.
\<close>

inductive proxy_step :: "socket_addr \<Rightarrow> proxy_state \<Rightarrow> proxy_state \<Rightarrow> bool" for la where
  quiet: "same_shared st st' \<Longrightarrow> proxy_step la st st'"
| lookup: "proxy_step la st (st\<lparr>cache := snd (cache_get now key xid rd cd (cache st))\<rparr>)"
| store: "parse_query bytes = Inr q \<Longrightarrow> sound_answer uid (client_question bytes q) resp \<Longrightarrow>
    proxy_step la st (st\<lparr>cache := cache_store (config st) tp tw (store_key q stripped)
      (strip_opt_records (rewrite_response_flags_for_client (patch_id (q_id q) resp) rd cd))
      (cache st)\<rparr>)"
| replace: "proxy_step la st (snd (set_upstreams new la st))"

inductive proxy_reach :: "proxy_config \<Rightarrow> filter_engine \<Rightarrow> u16 \<Rightarrow> socket_addr \<Rightarrow> proxy_state \<Rightarrow> bool"
  for cfg eng port la where
  bound: "bind_proxy cfg eng port = Inr (st, la) \<Longrightarrow> proxy_reach cfg eng port la st"
| step: "proxy_reach cfg eng port la st \<Longrightarrow> proxy_step la st st' \<Longrightarrow> proxy_reach cfg eng port la st'"

lemma entry_ok_store:
  assumes "parse_query bytes = Inr q" "sound_answer uid (client_question bytes q) resp"
  shows "entry_ok (store_key q stripped, \<lparr>ce_bytes =
      strip_opt_records (rewrite_response_flags_for_client (patch_id (q_id q) resp) rd cd),
      expires_at = t\<rparr>)"
proof -
  obtain ls where ls: "name_ok ls" "q_qname_wire q = encode_name ls" "q_qname q = present ls"
      "client_question bytes q = question_of ls (q_qtype q) (q_qclass q)"
    using parse_query_question [OF assms(1)] unfolding client_question_def by metis
  let ?q = "question_of ls (q_qtype q) (q_qclass q)"
  have small: "length ?q < 2 ^ 63"
    using ls(1) by (simp add: length_question_of name_ok_def)
  have v: "valid_answer resp uid ?q" "length resp \<le> 65535"
    using assms(2) ls(4) by (simp_all add: sound_answer_def)
  let ?p = "patch_id (q_id q) resp"
  let ?r = "rewrite_response_flags_for_client ?p rd cd"
  have "valid_answer ?p (q_id q) ?q"
    using v by (intro valid_answer_patch_id [OF _ small]) auto
  then have "valid_answer ?r (q_id q) ?q"
    using v by (intro valid_answer_rewrite [OF _ small]) (auto simp: length_patch_id)
  then have "valid_answer (strip_opt_records ?r) (q_id q) ?q"
    using v by (intro valid_answer_strip [OF _ ls(1)]) (auto simp: length_patch_id length_rewrite)
  moreover have "length (strip_opt_records ?r) \<le> 65535"
    using length_strip_opt_records [of ?r] v by (auto simp: length_patch_id length_rewrite)
  ultimately show ?thesis
    using ls by (auto simp: entry_ok_def store_key_def query_cache_key_def sound_answer_def)
qed

lemma set_delete: "set (AList.delete k es) \<subseteq> set es"
  by (auto simp: AList.delete_eq)

lemma set_purge: "set (entries (purge_expired now c)) \<subseteq> set (entries c)"
  by (auto simp: purge_expired_def)

lemma set_update: "set (AList.update k v es) \<subseteq> insert (k, v) (set es)"
  by (induction es) auto

lemma entries_ok_get:
  "list_all entry_ok (entries c) \<Longrightarrow> list_all entry_ok (entries (snd (cache_get now key xid rd cd c)))"
  using set_delete [of key "entries c"]
  by (auto simp: cache_get_def rc_remove_def list_all_iff split: option.split)

lemma entries_ok_store:
  assumes "list_all entry_ok (entries c)" "\<And>t. entry_ok (key, \<lparr>ce_bytes = bytes, expires_at = t\<rparr>)"
  shows "list_all entry_ok (entries (cache_store cfg tp tw key bytes c))"
proof -
  have purge: "list_all entry_ok (entries (purge_expired tp c))"
    using assms(1) set_purge [of tp c] by (auto simp: list_all_iff)
  have ins: "list_all entry_ok (entries (rc_insert key \<lparr>ce_bytes = bytes, expires_at = t\<rparr> c'))"
    if "list_all entry_ok (entries c')" for t c'
    using that assms(2) [of t] set_update [of key "\<lparr>ce_bytes = bytes, expires_at = t\<rparr>" "entries c'"]
    by (auto simp: list_all_iff rc_insert_def Let_def)
  show ?thesis
    using assms(1) purge ins by (auto simp: cache_store_def Let_def split: option.split)
qed

lemma state_ok_step: "proxy_step la st st' \<Longrightarrow> state_ok la st \<Longrightarrow> state_ok la st'"
proof (induction rule: proxy_step.induct)
  case (quiet st st')
  then show ?case by (simp add: state_ok_def same_shared_def)
next
  case (lookup st now key xid rd cd)
  then show ?case by (simp add: state_ok_def cache_inv_get entries_ok_get)
next
  case (store bytes q uid resp st tp tw stripped rd cd)
  then show ?case
    using entry_ok_store [OF store.hyps(1,2)]
    by (simp add: state_ok_def cache_inv_store entries_ok_store)
next
  case (replace st new)
  then show ?case
    by (auto simp: state_ok_def set_upstreams_def validate_upstreams_ok split: option.split)
qed

lemma proxy_reach_ok: "proxy_reach cfg eng port la st \<Longrightarrow> state_ok la st"
proof (induction rule: proxy_reach.induct)
  case (bound st)
  then show ?case
    by (auto simp: bind_proxy_def initial_state_def state_ok_def validate_upstreams_ok
        empty_cache_def cache_inv_def Let_def split: option.splits)
qed (rule state_ok_step)

text \<open>
C27: In every state a bound proxy can reach by any interleaving of its tasks and of upstream changes,
there is an upstream, none of the upstreams points back at the listener, the cache bounds hold, and
every cached entry is a validated answer to the question of its key.
\<close>

theorem reachable_states_ok:
  assumes "proxy_reach cfg eng port la st"
  shows "upstreams st \<noteq> [] \<and> (\<forall>u \<in> set (upstreams st). \<not> self_referential u la) \<and>
    cache_inv (config st) (cache st) \<and>
    (\<forall>w t c slot e. rc_get (cache st) (w, t, c, slot) = Some e \<longrightarrow>
       (\<exists>xid. validate_response (ce_bytes e) xid (w @ to_be16 t @ to_be16 c) \<noteq> None))"
proof -
  have ok: "state_ok la st" by (rule proxy_reach_ok [OF assms])
  have "\<exists>xid. validate_response (ce_bytes e) xid (w @ to_be16 t @ to_be16 c) \<noteq> None"
    if "rc_get (cache st) (w, t, c, slot) = Some e" for w t c slot e
  proof -
    have "entry_ok ((w, t, c, slot), e)"
      using ok that by (auto simp: state_ok_def list_all_iff rc_get_def dest: map_of_SomeD)
    then show ?thesis
      by (auto simp: entry_ok_def sound_answer_def valid_answer_def question_of_def)
  qed
  then show ?thesis using ok by (simp add: state_ok_def upstreams_ok_def)
qed

section \<open>Serving a query\<close>

lemma same_shared_simps [simp]:
  "same_shared st st"
  "same_shared st (bump f st') \<longleftrightarrow> same_shared st st'"
  "same_shared st (emit client q out st') \<longleftrightarrow> same_shared st st'"
  by (simp_all add: same_shared_def bump_def emit_def)

lemma same_shared_unless [simp]:
  "(\<And>s. same_shared s (f s)) \<Longrightarrow> same_shared st (unless_synthetic syn f st') \<longleftrightarrow> same_shared st st'"
  by (auto simp: unless_synthetic_def same_shared_def)

lemma same_shared_decide: "state_decide qn st = (d, st') \<Longrightarrow> same_shared st st'"
  by (auto simp: state_decide_def same_shared_def Let_def split: prod.splits)

lemma same_shared_trans: "same_shared a b \<Longrightarrow> same_shared b c \<Longrightarrow> same_shared a c"
  by (simp add: same_shared_def)

lemma quiet_then: "same_shared st st1 \<Longrightarrow> (proxy_step la)\<^sup>*\<^sup>* st1 st2 \<Longrightarrow> (proxy_step la)\<^sup>*\<^sup>* st st2"
  by (meson converse_rtranclp_into_rtranclp proxy_step.quiet)

lemma then_quiet: "(proxy_step la)\<^sup>*\<^sup>* st st1 \<Longrightarrow> same_shared st1 st2 \<Longrightarrow> (proxy_step la)\<^sup>*\<^sup>* st st2"
  by (meson rtranclp.rtrancl_into_rtrancl proxy_step.quiet)

definition good_reply :: "u8 list \<Rightarrow> query \<Rightarrow> u8 list \<Rightarrow> bool" where
  "good_reply bytes q resp \<longleftrightarrow> sound_answer (q_id q) (client_question bytes q) resp"

lemma good_error:
  "parse_query bytes = Inr q \<Longrightarrow> \<exists>e. build_error_response bytes rc aa = Some e \<and> good_reply bytes q e"
  using local_error_answers [of bytes q rc aa]
  by (auto simp: good_reply_def sound_answer_def valid_answer_def client_question_def)

lemma good_zero_ip:
  assumes "parse_query bytes = Inr q"
  shows "\<exists>e. build_zero_ip_response bytes ttl = Some e \<and> good_reply bytes q e"
proof (cases "q_qtype q = TYPE_A \<or> q_qtype q = TYPE_AAAA")
  case True
  then obtain r where r: "build_zero_ip_response bytes ttl = Some r"
      "validate_response r (q_id q) (slice 12 (q_question_end q) bytes)
        = Some \<lparr>ri_rcode = 0, ri_min_ttl = Some ttl\<rparr>"
      "drop (q_question_end q + 12) r = replicate (if q_qtype q = TYPE_A then 4 else 16) 0"
    using zero_ip_answers [OF assms, of ttl] by (auto split: if_splits)
  have "length r \<le> q_question_end q + 12 + 16"
    using arg_cong [OF r(3), of length] by (auto split: if_splits)
  then show ?thesis
    using r(1,2) parse_query_layout(5,7) [OF assms]
    by (auto simp: good_reply_def sound_answer_def valid_answer_def client_question_def)
next
  case False
  then show ?thesis using zero_ip_answers [OF assms, of ttl] good_error [OF assms] by simp
qed

lemma client_question_small:
  "parse_query bytes = Inr q \<Longrightarrow> length (client_question bytes q) < 2 ^ 63"
  using parse_query_layout(5,6,7) [of bytes q] length_slice [of "q_question_end q" bytes 12]
  by (simp add: client_question_def)

lemma good_restored:
  assumes p: "parse_query bytes = Inr q" and s: "sound_answer uid (client_question bytes q) resp"
  shows "good_reply bytes q (rewrite_response_flags_for_client (patch_id (q_id q) resp) rd cd)"
    and "good_reply bytes q (patch_id (q_id q) (rewrite_response_flags_for_client resp rd cd))"
proof -
  note small = client_question_small [OF p]
  have v: "valid_answer resp uid (client_question bytes q)" "length resp \<le> 65535"
    using s by (simp_all add: sound_answer_def)
  have "valid_answer (patch_id (q_id q) resp) (q_id q) (client_question bytes q)"
    using v by (intro valid_answer_patch_id [OF _ small]) auto
  then show "good_reply bytes q (rewrite_response_flags_for_client (patch_id (q_id q) resp) rd cd)"
    using v valid_answer_rewrite [OF _ small, of "patch_id (q_id q) resp" "q_id q" rd cd]
    by (simp add: good_reply_def sound_answer_def length_patch_id length_rewrite)
  have "valid_answer (rewrite_response_flags_for_client resp rd cd) uid (client_question bytes q)"
    using v by (intro valid_answer_rewrite [OF _ small]) auto
  then show "good_reply bytes q (patch_id (q_id q) (rewrite_response_flags_for_client resp rd cd))"
    using v valid_answer_patch_id [OF _ small, of "rewrite_response_flags_for_client resp rd cd" uid "q_id q"]
    by (simp add: good_reply_def sound_answer_def length_patch_id length_rewrite)
qed

lemma good_cached:
  assumes p: "parse_query bytes = Inr q" and ok: "list_all entry_ok (entries c)"
    and get: "cache_get now (query_cache_key q) (q_id q) rd cd c = (Some resp, c')"
  shows "good_reply bytes q resp"
proof -
  obtain e where e: "rc_get c (query_cache_key q) = Some e"
      "resp = patch_id (q_id q) (rewrite_response_flags_for_client (ce_bytes e) rd cd)"
    using get by (auto simp: cache_get_def split: option.splits if_splits)
  have "entry_ok (query_cache_key q, e)"
    using ok e(1) by (auto simp: list_all_iff rc_get_def dest: map_of_SomeD)
  then obtain ls xid where ls: "q_qname_wire q = encode_name ls"
      "sound_answer xid (question_of ls (q_qtype q) (q_qclass q)) (ce_bytes e)"
    by (auto simp: entry_ok_def query_cache_key_def)
  have "client_question bytes q = question_of ls (q_qtype q) (q_qclass q)"
    using parse_query_layout(9) [OF p] ls(1) by (simp add: client_question_def question_of_def)
  then show ?thesis using good_restored(2) [OF p] ls(2) e(2) by simp
qed

lemma answer_locally_ok:
  assumes p: "parse_query bytes = Inr q" and ok: "state_ok la st"
    and run: "answer_locally ev bytes q client syn st = (answer, st')"
  shows "(proxy_step la)\<^sup>*\<^sup>* st st' \<and>
    (\<forall>a. answer = Some a \<longrightarrow> (\<exists>resp. a = Some resp \<and> good_reply bytes q resp))"
proof -
  let ?st1 = "unless_synthetic syn (bump (\<lambda>c. c\<lparr>queries := queries c + 1\<rparr>)) st"
  obtain d st2 where d: "state_decide (q_qname q) ?st1 = (d, st2)"
    by (cases "state_decide (q_qname q) ?st1")
  have sh: "same_shared st st2"
    using same_shared_trans [OF _ same_shared_decide [OF d]] by simp
  then have ents: "list_all entry_ok (entries (cache st2))" 
    using ok by (simp add: state_ok_def same_shared_def)
  obtain hit c where get: "cache_get (now_get ev) (query_cache_key q) (q_id q) (q_recursion_desired q)
      (q_checking_disabled q) (cache st2) = (hit, c)" by fastforce
  have look: "proxy_step la st2 (st2\<lparr>cache := c\<rparr>)"
    using proxy_step.lookup [of la st2 "now_get ev" "query_cache_key q" "q_id q"
        "q_recursion_desired q" "q_checking_disabled q"] get by simp
  show ?thesis
  proof (cases "d = Block")
    case True
    then have "same_shared st st'" and "\<exists>a. answer = Some a"
      using run d sh by (auto simp: answer_locally_def Let_def split: block_response.splits)
    moreover have "\<exists>resp. a = Some resp \<and> good_reply bytes q resp" if "answer = Some a" for a
      using run d True that good_error [OF p] good_zero_ip [OF p]
      by (auto simp: answer_locally_def Let_def split: block_response.splits)
    ultimately show ?thesis using quiet_then by blast
  next
    case False
    show ?thesis
    proof (cases hit)
      case None
      then have "answer = None" "st' = st2\<lparr>cache := c\<rparr>"
        using run d get False by (auto simp: answer_locally_def Let_def)
      then show ?thesis using quiet_then [OF sh] look by auto
    next
      case (Some resp)
      then have a: "answer = Some (Some resp)" "same_shared (st2\<lparr>cache := c\<rparr>) st'"
        using run d get False by (auto simp: answer_locally_def Let_def)
      moreover have "good_reply bytes q resp"
        using good_cached [OF p ents] get Some by simp
      ultimately show ?thesis using quiet_then [OF sh then_quiet [OF r_into_rtranclp [of "proxy_step la", OF look]]] by auto
    qed
  qed
qed

lemma answer_from_upstream_ok:
  assumes p: "parse_query bytes = Inr q"
    and run: "answer_from_upstream ev bytes q client tcp syn st = (answer, st')"
  shows "(proxy_step la)\<^sup>*\<^sup>* st st' \<and> (\<exists>resp. answer = Some resp \<and> good_reply bytes q resp)"
proof -
  obtain r st1 where f: "forward ev bytes q tcp st = (r, st1)"
    by (cases "forward ev bytes q tcp st")
  have sh: "same_shared st st1" by (rule forward_shared [OF f])
  show ?thesis
  proof (cases r)
    case (Inl err)
    then have "same_shared st st'" "answer = build_error_response bytes RCODE_SERVFAIL False"
      using run f sh by (auto simp: answer_from_upstream_def Let_def)
    then show ?thesis using quiet_then good_error [OF p] by blast
  next
    case (Inr fw)
    obtain uid where uid: "sound_answer uid (client_question bytes q) (fw_bytes fw)"
      using forward_ok f Inr by blast
    let ?resp = "rewrite_response_flags_for_client (patch_id (q_id q) (fw_bytes fw))
        (q_recursion_desired q) (q_checking_disabled q)"
    let ?st2 = "unless_synthetic syn (bump (\<lambda>c. c\<lparr>forwarded := forwarded c + 1\<rparr>)) st1"
    let ?st3 = "?st2\<lparr>cache := cache_store (config ?st2) (now_purge ev) (now_put ev)
        (store_key q (fw_edns_stripped fw)) (strip_opt_records ?resp) (cache ?st2)\<rparr>"
    have "answer = Some ?resp" "same_shared ?st3 st'"
      using run f Inr by (auto simp: answer_from_upstream_def Let_def)
    moreover have "proxy_step la ?st2 ?st3"
      using proxy_step.store [OF p uid, of la ?st2 "now_purge ev" "now_put ev" "fw_edns_stripped fw"
          "q_recursion_desired q" "q_checking_disabled q"] by (simp add: Let_def)
    moreover have "same_shared st ?st2" using sh by simp
    ultimately show ?thesis
      using quiet_then then_quiet good_restored(1) [OF p uid] by (metis (no_types, lifting) r_into_rtranclp)
  qed
qed

lemma quiet_step: "same_shared st st' \<Longrightarrow> (proxy_step la)\<^sup>*\<^sup>* st st'"
  by (rule quiet_then [OF _ rtranclp.rtrancl_refl])

lemma answer_filtered_ok:
  assumes p: "parse_query bytes = Inr q" and ok: "state_ok la st"
    and run: "answer_filtered ev bytes q client tcp syn st = (answer, st')"
  shows "(proxy_step la)\<^sup>*\<^sup>* st st' \<and> (\<exists>resp. answer = Some resp \<and> good_reply bytes q resp)"
proof -
  obtain a st1 where l: "answer_locally ev bytes q client syn st = (a, st1)"
    by (cases "answer_locally ev bytes q client syn st")
  note loc = answer_locally_ok [OF p ok l]
  show ?thesis
  proof (cases a)
    case None
    then have "answer_from_upstream ev bytes q client tcp syn st1 = (answer, st')"
      using run l by (simp add: answer_filtered_def)
    from answer_from_upstream_ok [OF p this, of la] loc show ?thesis by (metis rtranclp_trans)
  next
    case (Some r)
    then show ?thesis using run l loc by (auto simp: answer_filtered_def)
  qed
qed

lemma handle_query_inner_ok:
  assumes ok: "state_ok la st"
    and run: "handle_query_inner ev bytes client tcp syn st = (answer, st')"
  shows "(proxy_step la)\<^sup>*\<^sup>* st st' \<and>
    (\<forall>q. parse_query bytes = Inr q \<longrightarrow>
       (\<exists>resp limit. answer = Some (resp, limit) \<and> good_reply bytes q resp \<and> limit \<le> query_udp_limit q))"
proof (cases "parse_query bytes")
  case (Inl err)
  then have "same_shared st st'" using run by (auto simp: handle_query_inner_def)
  then show ?thesis using Inl by (simp add: quiet_step)
next
  case (Inr q)
  have lim: "512 \<le> query_udp_limit q"
    by (simp add: query_udp_limit_def clamp_edns_udp_size_def split: option.split)
  show ?thesis
  proof (cases "q_opcode q \<noteq> 0 \<or> eq_ignore_ascii_case (q_qname q) CANARY_DOMAIN")
    case True
    then have "same_shared st st'"
      using run Inr by (auto simp: handle_query_inner_def split: if_splits)
    moreover have "\<exists>resp limit. answer = Some (resp, limit) \<and> good_reply bytes q resp \<and> limit \<le> query_udp_limit q"
    proof (cases "q_opcode q \<noteq> 0")
      case True
      obtain e where e: "build_error_response bytes RCODE_NOTIMP False = Some e" "good_reply bytes q e"
        using good_error [OF Inr] by blast
      then have "answer = Some (e, 512)" using run Inr True by (simp add: handle_query_inner_def)
      then show ?thesis using e(2) lim by blast
    next
      case False
      obtain e where e: "build_zero_ip_response bytes ZERO_IP_TTL = Some e" "good_reply bytes q e"
        using good_zero_ip [OF Inr] by blast
      then have "answer = Some (e, query_udp_limit q)"
        using run Inr False True by (simp add: handle_query_inner_def)
      then show ?thesis using e(2) by blast
    qed
    ultimately show ?thesis using Inr by (simp add: quiet_step)
  next
    case False
    obtain r st1 where f: "answer_filtered ev bytes q client tcp syn st = (r, st1)"
      by (cases "answer_filtered ev bytes q client tcp syn st")
    then have "answer = map_option (\<lambda>r. (r, query_udp_limit q)) r" "st' = st1"
      using run Inr False by (simp_all add: handle_query_inner_def)
    then show ?thesis using answer_filtered_ok [OF Inr ok f] Inr by auto
  qed
qed

lemma length_append_client_opt: "length (append_client_opt bs sz d) \<le> length bs + 11"
  by (auto simp: append_client_opt_def Let_def split: option.splits)

lemma good_normalized:
  assumes p: "parse_query bytes = Inr q" and g: "good_reply bytes q resp"
  shows "valid_answer (normalize_client_edns bytes resp) (q_id q) (client_question bytes q)"
proof -
  obtain ls where ls: "name_ok ls"
      "client_question bytes q = question_of ls (q_qtype q) (q_qclass q)"
    using parse_query_question [OF p] unfolding client_question_def by metis
  have v: "valid_answer resp (q_id q) (question_of ls (q_qtype q) (q_qclass q))" "length resp \<le> 65535"
    using g ls by (simp_all add: good_reply_def sound_answer_def)
  have s: "valid_answer (strip_opt_records resp) (q_id q) (question_of ls (q_qtype q) (q_qclass q))"
    using v by (intro valid_answer_strip [OF _ ls(1)]) auto
  have "length (strip_opt_records resp) \<le> 65535"
    using length_strip_opt_records [of resp] v(2) by simp
  then show ?thesis
    using valid_answer_append_opt [OF s ls(1)] s p ls(2)
    by (simp add: normalize_client_edns_def Let_def split: option.split)
qed

text \<open>
C2: The proxy answers every accepted query, in every reachable state and whatever the network
delivers, with a valid response to that very query: the client's id, QR set, the client's question
echoed, all announced answers inside the packet. This covers refusals, canary, block answers, cached
and forwarded answers and upstream failures alike.
\<close>

theorem every_answer_is_valid:
  assumes "proxy_reach cfg eng port la st" and "parse_query bytes = Inr q"
  shows "\<exists>resp limit st'. handle_query ev bytes client tcp syn st = (Some (resp, limit), st') \<and>
    validate_response resp (q_id q) (slice 12 (q_question_end q) bytes) \<noteq> None \<and>
    limit \<le> query_udp_limit q \<and> proxy_reach cfg eng port la st'"
proof -
  obtain answer st' where run: "handle_query_inner ev bytes client tcp syn st = (answer, st')"
    by (cases "handle_query_inner ev bytes client tcp syn st")
  note inner = handle_query_inner_ok [OF proxy_reach_ok [OF assms(1)] run]
  obtain resp limit where r: "answer = Some (resp, limit)" "good_reply bytes q resp" "limit \<le> query_udp_limit q"
    using inner assms(2) by blast
  have "proxy_reach cfg eng port la st'"
    using conjunct1 [OF inner] assms(1)
    by (induction rule: rtranclp_induct) (auto intro: proxy_reach.step)
  moreover have "handle_query ev bytes client tcp syn st
      = (Some (normalize_client_edns bytes resp, limit), st')"
    using run r(1) by (simp add: handle_query_def)
  ultimately show ?thesis
    using good_normalized [OF assms(2) r(2)] r(3)
    by (auto simp: valid_answer_def client_question_def)
qed

definition sample_upstream :: socket_addr where
  "sample_upstream = v4_addr 0x0A000001 53"

definition sample_config :: proxy_config where
  "sample_config = default_config\<lparr>cfg_upstreams := [sample_upstream]\<rparr>"

definition sample_state :: proxy_state where
  "sample_state = initial_state sample_config new_engine"

lemma sample_bound: "bind_proxy sample_config new_engine 53 = Inr (sample_state, listen sample_config)"
  by code_simp

lemma sample_reach: "proxy_reach sample_config new_engine 53 (listen sample_config) sample_state"
  by (rule proxy_reach.bound [OF sample_bound])

text \<open>A network on which everything fails.\<close>

definition dead_net :: env where
  "dead_net = \<lparr>udp_open = (\<lambda>_. False), udp_recv = (\<lambda>_ _. []), tcp_reply = (\<lambda>_ _. Inl Timed_Out),
     txid_hash = word_of_nat, now_get = 0, now_purge = 0, now_put = 0\<rparr>"

theorem every_answer_is_valid_witness:
  "\<exists>resp limit st'. handle_query dead_net sample_query sample_upstream False False sample_state
      = (Some (resp, limit), st') \<and> validate_response resp 0x1234 (slice 12 24 sample_query) \<noteq> None"
proof -
  have "q_id sample_query_fields = 0x1234" "q_question_end sample_query_fields = 24"
    by (simp_all add: sample_query_fields_def)
  then show ?thesis
    using every_answer_is_valid [OF sample_reach parse_sample_query,
        of dead_net sample_upstream False False] by (metis (no_types, lifting))
qed

theorem reachable_states_ok_witness:
  "upstreams sample_state \<noteq> [] \<and> cache_inv (config sample_state) (cache sample_state)"
  using reachable_states_ok [OF sample_reach] by blast

end
