(* ===== verification/Proxy_Egress.thy ===== *)
theory Proxy_Egress
  imports Proxy_Spec
begin

text \<open>
  What may leave the proxy: the canary and block answers never depend on the network or the cache, what
  is truncated for a client fits its limit, a TCP frame announces its own length and a connection ends in
  its lifetime, health probes move no user-facing counter, and an answer without signatures never
  enters a DNSSEC cache slot.
\<close>

section \<open>The canary\<close>

lemma zero_ip_header:
  assumes p: "parse_query req = Inr q" and a: "q_qtype q = TYPE_A"
    and r: "build_zero_ip_response req ttl = Some r"
  shows "be16 (r ! 0) (r ! 1) = q_id q" "be16 (r ! 6) (r ! 7) = 1" "be16 (r ! 10) (r ! 11) = 0"
    "be16 (r ! 2) (r ! 3) AND 0x000F = 0" "bit (be16 (r ! 2) (r ! 3)) 10"
    "length r = q_question_end q + 16" "drop (length r - 4) r = [0, 0, 0, 0]"
proof -
  note b = parse_query_layout [OF p]
  let ?f = "response_flags (be16 (req ! 2) (req ! 3)) 0x0400 0"
  let ?qs = "slice 12 (q_question_end q) req"
  have t2: "take 2 req = [req ! 0, req ! 1]"
    using slice_two [of 0 req] b(1) by (simp add: slice_def numeral_2_eq_2)
  define hdr where "hdr = [req ! 0, req ! 1] @ to_be16 ?f @ to_be16 1 @ to_be16 1 @ [0, 0, 0, 0]"
  define an where "an = [0xC0, 0x0C] @ to_be16 (q_qtype q) @ to_be16 (q_qclass q) @ to_be32 ttl
      @ to_be16 4 @ [0, 0, 0, 0 :: u8]"
  have rr: "r = hdr @ ?qs @ an"
    using r p a t2 by (simp add: build_zero_ip_response_def Let_def hdr_def an_def response_flags_def
        or.assoc eval_nat_numeral)
  have hl: "length hdr = 12" "length an = 16" by (simp_all add: hdr_def an_def)
  have at: "r ! k = hdr ! k" if "k < 12" for k
    using that hl by (simp add: rr nth_append)
  show "be16 (r ! 0) (r ! 1) = q_id q" using at [of 0] at [of 1] b(4) by (simp add: hdr_def)
  show "be16 (r ! 6) (r ! 7) = 1"
    using at [of 6] at [of 7] by (simp add: hdr_def to_be16_def be16_def)
  show "be16 (r ! 10) (r ! 11) = 0"
    using at [of 10] at [of 11] by (simp add: hdr_def to_be16_def be16_def)
  have f: "be16 (r ! 2) (r ! 3) = ?f"
    using at [of 2] at [of 3] by (simp add: hdr_def to_be16_def)
  show "be16 (r ! 2) (r ! 3) AND 0x000F = 0"
    by (simp add: f response_flags_def bit.conj_disj_distrib2 and.assoc)
  show "bit (be16 (r ! 2) (r ! 3)) 10"
    by (simp add: f response_flags_def bit_simps)
  show len: "length r = q_question_end q + 16"
    using hl length_slice [OF b(6), of 12] b(5) by (simp add: rr)
  have "drop (length r - 4) r = drop 12 an"
    using hl by (simp add: rr)
  then show "drop (length r - 4) r = [0, 0, 0, 0]"
    by (simp add: an_def to_be16_def to_be32_def)
qed

lemma strip_no_additional: "be16 (bs ! 10) (bs ! 11) = 0 \<Longrightarrow> strip_opt_records bs = bs"
  by (auto simp: strip_opt_records_def additional_section_start_Some split: option.splits)

lemma canary_answer:
  assumes "build_query pid CANARY_DOMAIN TYPE_A CLASS_IN = Some probe"
  shows "\<exists>resp. handle_query ev probe client tcp syn st
      = (Some (resp, 512), bump (\<lambda>c. c\<lparr>canary_probes := canary_probes c + 1\<rparr>) st) \<and>
    is_canary_signature resp pid \<and> length resp \<le> 287"
proof -
  have "list_all plain_char CANARY_DOMAIN" "trim_end_matches CHR 0x2E CANARY_DOMAIN = CANARY_DOMAIN"
    by code_simp+
  then obtain q where q: "parse_query probe = Inr q" "q_id q = pid" "q_opcode q = 0"
      "q_qtype q = TYPE_A" "q_edns_udp_size q = None" "q_qname q = CANARY_DOMAIN"
    using build_query_reads [OF assms] by auto
  obtain r where r: "build_zero_ip_response probe ZERO_IP_TTL = Some r"
    using good_zero_ip [OF q(1)] by blast
  note h = zero_ip_header [OF q(1,4) r]
  have "normalize_client_edns probe r = r"
    using q(1,5) strip_no_additional [OF h(3)] by (simp add: normalize_client_edns_def)
  then have "handle_query ev probe client tcp syn st
      = (Some (r, 512), bump (\<lambda>c. c\<lparr>canary_probes := canary_probes c + 1\<rparr>) st)"
    using q r by (simp add: handle_query_def handle_query_inner_def eq_ignore_ascii_case_def
        query_udp_limit_def)
  moreover have "is_canary_signature r pid"
    using h q(2) parse_query_layout(5) [OF q(1)] by (simp add: is_canary_signature_def flag_bit)
  moreover have "length r \<le> 287" using h(6) parse_query_layout(5,7) [OF q(1)] by simp
  ultimately show ?thesis by blast
qed

text \<open>
The canary is answered locally, always: for the health check's own probe the proxy returns, in
any state and whatever the network or the cache holds, the signature the health check looks for,
and moves nothing but the canary counter.
\<close>

theorem canary_is_local:
  assumes "build_query pid CANARY_DOMAIN TYPE_A CLASS_IN = Some probe"
  shows "\<exists>resp. handle_query ev probe client tcp syn st
      = (Some (resp, 512), bump (\<lambda>c. c\<lparr>canary_probes := canary_probes c + 1\<rparr>) st) \<and>
    is_canary_signature resp pid"
  using canary_answer [OF assms] by blast

theorem canary_is_local_witness:
  "\<exists>probe resp. build_query 77 CANARY_DOMAIN TYPE_A CLASS_IN = Some probe \<and>
    fst (handle_query dead_net probe sample_upstream True False sample_state) = Some (resp, 512) \<and>
    is_canary_signature resp 77"
proof -
  have "build_query 77 CANARY_DOMAIN TYPE_A CLASS_IN \<noteq> None" by code_simp
  then obtain probe where probe: "build_query 77 CANARY_DOMAIN TYPE_A CLASS_IN = Some probe" by blast
  from canary_is_local [OF this, of dead_net sample_upstream True False sample_state] probe
  show ?thesis by auto
qed

text \<open>
C13: A blocked name is answered from the block policy alone: the answer and the state after it are the
same for every network, nothing is sent upstream (no transaction id and no
upstream is taken), and the cache is not touched.
\<close>

theorem blocked_never_leaves:
  assumes "parse_query bytes = Inr q" and "q_opcode q = 0"
    and "\<not> eq_ignore_ascii_case (q_qname q) CANARY_DOMAIN"
    and "fst (decide (engine st) (q_qname q)) = Block"
  shows "\<exists>resp st'. handle_query ev bytes client tcp syn st
        = (Some (normalize_client_edns bytes resp, query_udp_limit q), st') \<and>
    Some resp = (case cfg_block_response (config st) of
        Nxdomain \<Rightarrow> build_error_response bytes RCODE_NXDOMAIN True
      | Zero_Ip \<Rightarrow> build_zero_ip_response bytes ZERO_IP_TTL) \<and>
    cache st' = cache st \<and> txid_counter st' = txid_counter st \<and> upstream_rr st' = upstream_rr st \<and>
    handle_query ev' bytes client tcp' syn st = handle_query ev bytes client tcp syn st"
proof -
  obtain e2 where d: "decide (engine st) (q_qname q) = (Block, e2)"
    using assms(4) by (metis prod.collapse)
  obtain e z where ez: "build_error_response bytes RCODE_NXDOMAIN True = Some e"
      "build_zero_ip_response bytes ZERO_IP_TTL = Some z"
    using good_error [OF assms(1)] good_zero_ip [OF assms(1)] by blast
  show ?thesis
    using assms(1-3) d ez
    by (cases syn; cases "cfg_block_response (config st)")
      (simp_all add: handle_query_def handle_query_inner_def answer_filtered_def answer_locally_def
        state_decide_def unless_synthetic_def bump_def emit_def)
qed

theorem blocked_never_leaves_witness:
  "\<exists>resp st'. handle_query dead_net sample_query sample_upstream False False
      (sample_state\<lparr>engine := snd (add_block_rule ''.co'' new_engine)\<rparr>)
    = (Some (normalize_client_edns sample_query resp, query_udp_limit sample_query_fields), st') \<and>
    txid_counter st' = 0"
proof -
  have n: "\<not> eq_ignore_ascii_case (q_qname sample_query_fields) CANARY_DOMAIN"
    "fst (decide (engine (sample_state\<lparr>engine := snd (add_block_rule ''.co'' new_engine)\<rparr>))
       (q_qname sample_query_fields)) = Block"
    "txid_counter (sample_state\<lparr>engine := snd (add_block_rule ''.co'' new_engine)\<rparr>) = 0"
    "q_opcode sample_query_fields = 0"
    by code_simp+
  from blocked_never_leaves [OF parse_sample_query n(4,1,2), of dead_net sample_upstream False False]
  show ?thesis using n(3) by metis
qed

section \<open>Datagrams\<close>

definition client_limit :: "u8 list \<Rightarrow> nat" where
  "client_limit bytes = (case parse_query bytes of Inr q \<Rightarrow> query_udp_limit q | Inl _ \<Rightarrow> MAX_UDP_PAYLOAD)"

lemma query_udp_limit_ge: "512 \<le> query_udp_limit q"
  by (simp add: query_udp_limit_def clamp_edns_udp_size_def MAX_UDP_PAYLOAD_def split: option.split)

lemma client_limit_ge: "512 \<le> client_limit bytes"
  using query_udp_limit_ge by (simp add: client_limit_def split: sum.split)

lemma handle_query_limit:
  assumes "handle_query ev bytes client tcp syn st = (Some (resp, limit), st')"
  shows "limit \<le> client_limit bytes"
  using assms query_udp_limit_ge
  by (auto simp: handle_query_def handle_query_inner_def client_limit_def
      split: prod.splits sum.splits if_splits option.splits)

lemma length_normalized:
  assumes "length bs < 2 ^ 64"
  shows "length (normalize_client_edns req bs) \<le> length bs + 11"
proof -
  have "length (append_client_opt (strip_opt_records bs) sz d) \<le> length bs + 11" for sz d
    using length_strip_opt_records [OF assms] length_append_client_opt [of "strip_opt_records bs" sz d]
    by simp
  then show ?thesis
    using length_strip_opt_records [OF assms]
    by (simp add: normalize_client_edns_def Let_def split: sum.split option.split)
qed

lemma length_echo: "length (echo_response req fl) \<le> 271"
proof (cases "parse_query req")
  case (Inl e)
  then show ?thesis by (simp add: echo_response_def request_question_def Let_def)
next
  case (Inr q)
  then show ?thesis
    using parse_query_layout(5,6,7) [OF Inr] length_slice [of "q_question_end q" req 12]
    by (simp add: echo_response_def request_question_def Let_def)
qed

lemma length_local_answer:
  "build_error_response req rc aa = Some e \<Longrightarrow> length e \<le> 271"
  "build_truncated_response req rc = Some e \<Longrightarrow> length e \<le> 271"
  using length_echo
  by (auto simp: build_error_response_def build_truncated_response_def Let_def split: if_splits)

lemma length_truncated: "truncate_for_client req big = Some out \<Longrightarrow> length out \<le> 282"
proof -
  assume out: "truncate_for_client req big = Some out"
  have le: "length (normalize_client_edns req e) \<le> 282" if "length e \<le> 271" for e
    using length_normalized [of e req] that by simp
  from out obtain e where "out = normalize_client_edns req e" "length e \<le> 271"
    using length_local_answer
    by (fastforce simp: truncate_for_client_def Let_def split: option.splits)
  then show ?thesis using le by simp
qed

text \<open>What a client can take: the EDNS size it advertises, clamped to the supported range, and 512 bytes for a
  client without EDNS or a packet that does not parse.\<close>

definition client_size :: "u8 list \<Rightarrow> nat" where
  "client_size bytes =
     (case parse_query bytes of
        Inr q \<Rightarrow> (case q_edns_udp_size q of None \<Rightarrow> 512 | Some sz \<Rightarrow> max 512 (min 4096 (unat sz)))
      | Inl _ \<Rightarrow> 512)"

lemma client_size_limit: "client_limit bytes = client_size bytes"
  by (auto simp: client_limit_def client_size_def query_udp_limit_def clamp_edns_udp_size_def MAX_UDP_PAYLOAD_def
      split: sum.splits option.splits)

lemma udp_task_fits:
  assumes "udp_task ev bytes peer syn st = (Some out, st')"
  shows "length out \<le> client_size bytes"
proof -
  obtain resp limit where h: "handle_query ev bytes peer False syn st = (Some (resp, limit), st')"
    using assms by (auto simp: udp_task_def split: prod.splits option.splits)
  have "length out \<le> client_limit bytes"
    using assms h handle_query_limit [OF h] length_truncated [of bytes resp out] client_limit_ge [of bytes]
    by (auto simp: udp_task_def split: if_splits)
  then show ?thesis
    by (simp add: client_size_limit)
qed

text \<open>The overload answer is small by itself: it echoes the question at most.\<close>

lemma shed_fits:
  assumes "shed bytes peer syn st = (Some out, st')"
  shows "length out \<le> client_size bytes"
proof -
  obtain e where e: "build_error_response bytes RCODE_SERVFAIL False = Some e" "out = normalize_client_edns bytes e"
    using assms by (auto simp: shed_def Let_def)
  then have "length out \<le> 282"
    using length_normalized [of e bytes] length_local_answer(1) [OF e(1)] by simp
  then show ?thesis
    using client_limit_ge [of bytes] by (simp add: client_size_limit [symmetric])
qed

section \<open>TCP frames and the connection clock\<close>

definition well_framed :: "u8 list \<Rightarrow> bool" where
  "well_framed f \<longleftrightarrow> 2 \<le> length f \<and> unat (be16 (f ! 0) (f ! 1)) = length f - 2"

lemma framed: "length resp < 65536 \<Longrightarrow> well_framed (to_be16 (word_of_nat (length resp)) @ resp)"
  by (simp add: well_framed_def nth_append unat_of_nat take_bit_nat_eq_self)

lemma tcp_frame_well_framed: "tcp_frame req resp = Some f \<Longrightarrow> well_framed f"
  using framed by (auto simp: tcp_frame_def split: if_splits option.splits)

lemma run_wait_le: "run_wait b w = (ok, d) \<Longrightarrow> d \<le> b"
  by (auto simp: run_wait_def split: option.splits if_splits)

lemma time_left_Some: "time_left deadline now = Some b \<longleftrightarrow> now < deadline \<and> b = deadline - now"
  by (auto simp: time_left_def)

lemma time_left_run:
  "time_left deadline now = Some b \<Longrightarrow> run_wait c w = (ok, d) \<Longrightarrow> c \<le> b \<Longrightarrow> now + d \<le> deadline"
  using run_wait_le [of c w ok d] by (auto simp: time_left_Some)

lemma tcp_turn_ok:
  assumes "tcp_turn deadline idle msg peer syn now st = (now', go, frame, st')" "now \<le> deadline"
  shows "now' \<le> deadline \<and> (\<forall>f. frame = Some f \<longrightarrow> well_framed f)"
  using assms tcp_frame_well_framed time_left_run
  unfolding tcp_turn_def
  by (auto simp: Let_def split: prod.splits option.splits if_splits)

lemma tcp_turns_ok:
  "tcp_turns deadline idle msgs peer syn now st = (end, frames, st') \<Longrightarrow> now \<le> deadline \<Longrightarrow>
   end \<le> deadline \<and> list_all well_framed frames"
proof (induction msgs arbitrary: now st "end" frames st')
  case (Cons msg msgs)
  obtain n1 go fr st1 where t: "tcp_turn deadline idle msg peer syn now st = (n1, go, fr, st1)"
    by (metis prod_cases4)
  note ok = tcp_turn_ok [OF t Cons.prems(2)]
  obtain e2 f2 st2 where r: "tcp_turns deadline idle msgs peer syn n1 st1 = (e2, f2, st2)"
    by (metis prod_cases3)
  from Cons.IH [OF r] ok have "e2 \<le> deadline" "list_all well_framed f2" by auto
  then show ?case using Cons.prems t r ok by (auto simp: Let_def split: if_splits option.splits)
qed simp

text \<open>
C40: A client connection over TCP that has won its permit from the pool, however slowly or badly it
behaves and however long the answers take, is over when the maximal lifetime has passed since it won
it, and every frame written on it is preceded by its exact length. The clock starts at the permit: the
time a connection waits for one, which the queue timeout bounds, comes before and is not counted.
\<close>

theorem tcp_conn_bounded:
  assumes "tcp_conn msgs peer syn start st = (end, frames, st')"
  shows "end \<le> start + tcp_max_lifetime (config st) \<and>
    (\<forall>f \<in> set frames. 2 \<le> length f \<and> unat (be16 (f ! 0) (f ! 1)) = length f - 2)"
proof -
  obtain e fr st2 where t: "tcp_turns (start + tcp_max_lifetime (config st)) (tcp_idle_timeout (config st))
      msgs peer syn start st = (e, fr, st2)"
    by (metis prod_cases3)
  have "e = end" "fr = frames" using assms t by (simp_all add: tcp_conn_def Let_def)
  then show ?thesis
    using tcp_turns_ok [OF t] by (auto simp: list_all_iff well_framed_def)
qed

definition sample_message :: tcp_message where
  "sample_message =
    \<lparr>prefix_wait = \<lparr>takes = Some 5, fine = True\<rparr>, body_wait = \<lparr>takes = Some 5, fine = True\<rparr>,
     answer_wait = \<lparr>takes = Some 5, fine = True\<rparr>, write_wait = \<lparr>takes = Some 5, fine = True\<rparr>,
     msg_body = sample_query, msg_env = dead_net\<rparr>"

definition stalled_message :: tcp_message where
  "stalled_message = sample_message\<lparr>body_wait := \<lparr>takes = None, fine = True\<rparr>\<rparr>"

theorem tcp_conn_bounded_witness:
  "\<exists>f st'. tcp_conn [sample_message, stalled_message] sample_upstream False 7 sample_state
      = (10000000032, [f], st') \<and> unat (be16 (f ! 0) (f ! 1)) = length f - 2"
proof -
  let ?run = "tcp_conn [sample_message, stalled_message] sample_upstream False 7 sample_state"
  have e: "fst ?run = 10000000032" "length (fst (snd ?run)) = 1" by code_simp+
  obtain en fs st' where run: "?run = (en, fs, st')" by (metis prod_cases3)
  then show ?thesis
    using tcp_conn_bounded [OF run] e by (cases fs) auto
qed

section \<open>A response whose additional section does not parse\<close>

text \<open>An upstream response that passes validation, with one OPT record and a broken one behind it.\<close>

definition broken_tail :: "u8 list" where
  "broken_tail = [0x12, 0x34, 0x81, 0x80, 0, 1, 0, 0, 0, 0, 0, 2,
     3, 0x61, 0x2E, 0x42, 2, 0x63, 0x6F, 0, 0, 1, 0, 1,
     0, 0, 41, 0x10, 0, 0, 0, 0, 0, 0, 0, 0xC0]"

definition plain_query :: "u8 list" where
  "plain_query = take 11 sample_query @ [0] @ slice 12 24 sample_query"

text \<open>A client that sent no OPT is handed one: stripping gives up at the broken record and keeps every OPT.\<close>

lemma stripping_gives_up:
  "validate_response broken_tail 0x1234 (slice 12 24 plain_query) \<noteq> None"
  "q_edns_udp_size (case parse_query plain_query of Inr q \<Rightarrow> q) = None"
  "normalize_client_edns plain_query broken_tail = broken_tail"
  by code_simp+

end
