(* ===== verification/Proxy_Health.thy ===== *)
theory Proxy_Health
  imports Proxy_Egress
begin

text \<open>
  The self-test of \<open>crates/dnsguard/src/proxy.rs\<close> (\<open>Proxy::self_test\<close> and its report). Its replies
  come from whatever answers at the listener's address, the record \<open>probe_env\<close>; the theorems say when
  the report is green, that a working listener is never blamed and that an impostor never passes.
\<close>

section \<open>The self-test\<close>

datatype self_test_note =
  Canary_Not_Blocked
| Upstream_Not_Noerror socket_addr
| Upstream_Failed socket_addr net_error
| Name_Unencodable
| No_Local_Signature
| Name_Blocked
| Name_Unresolved
| No_Tcp_Signature
| Canary_Count_Low nat nat
| Probes_Leaked

record self_test_report =
  engine_ok :: bool
  upstream_ok :: bool
  filter_ok :: bool
  tcp_ok :: bool
  upstreams_healthy :: nat
  upstreams_total :: nat
  detail :: "self_test_note list"

definition report_ok :: "self_test_report \<Rightarrow> bool" where
  "report_ok r \<longleftrightarrow> engine_ok r \<and> upstream_ok r \<and> filter_ok r \<and> tcp_ok r"

text \<open>
  What the test meets outside its own code: whether the probe socket binds, and what a probe sent to
  the listener's address brings back over UDP and TCP, with the state the proxy is in afterwards
  (other tasks run meanwhile).
\<close>

record probe_env =
  sock_bound :: bool
  udp_probe :: "u8 list \<Rightarrow> proxy_state \<Rightarrow> u8 list option \<times> proxy_state"
  tcp_probe :: "u8 list \<Rightarrow> proxy_state \<Rightarrow> u8 list option \<times> proxy_state"

definition probe_exchange ::
    "probe_env \<Rightarrow> u8 list \<Rightarrow> proxy_state \<Rightarrow> u8 list option \<times> proxy_state" where
  "probe_exchange pe probe st =
     (let (r, st') = udp_probe pe probe st in (map_option (take MAX_DATAGRAM) r, st'))"

definition tcp_probe_exchange ::
    "probe_env \<Rightarrow> u8 list \<Rightarrow> proxy_state \<Rightarrow> u8 list option \<times> proxy_state" where
  "tcp_probe_exchange pe probe st =
     (let (r, st') = tcp_probe pe probe st in (map_option (take 65535) r, st'))"

text \<open>Step (ii): every configured upstream is asked once.\<close>

fun probe_upstreams ::
    "env \<Rightarrow> u8 list \<Rightarrow> query \<Rightarrow> socket_addr list \<Rightarrow> proxy_state
     \<Rightarrow> nat \<times> self_test_note list \<times> proxy_state" where
  "probe_upstreams ev bytes q [] st = (0, [], st)"
| "probe_upstreams ev bytes q (up # ups) st =
     (case forward_via ev bytes q False up st of
        (r, st1) \<Rightarrow>
          (case probe_upstreams ev bytes q ups st1 of
             (healthy, notes, st2) \<Rightarrow>
               (case r of
                  Inr fw \<Rightarrow>
                    (if (case response_info (fw_bytes fw) of
                           Some info \<Rightarrow> ri_rcode info = RCODE_NOERROR | None \<Rightarrow> False)
                     then (healthy + 1, notes, st2)
                     else (healthy, Upstream_Not_Noerror up # notes, st2))
                | Inl e \<Rightarrow> (healthy, Upstream_Failed up e # notes, st2))))"

definition upstream_step ::
    "env \<Rightarrow> proxy_state \<Rightarrow> bool \<times> nat \<times> nat \<times> self_test_note list \<times> proxy_state" where
  "upstream_step ev st0 =
     (let (xid, st) = next_txid ev st0;
          ups = upstreams st in
      case build_query xid (health_check_name (config st)) TYPE_A CLASS_IN of
        None \<Rightarrow> (False, 0, length ups, [Name_Unencodable], st)
      | Some bytes \<Rightarrow>
          (case parse_query bytes of
             Inl _ \<Rightarrow> (False, 0, length ups, [Name_Unencodable], st)
           | Inr q \<Rightarrow>
               (let (healthy, notes, st') = probe_upstreams ev bytes q ups st in
                (0 < length ups \<and> healthy = length ups, healthy, length ups, notes, st'))))"

text \<open>Step (iii a): the canary over UDP.\<close>

definition canary_udp_step :: "env \<Rightarrow> probe_env \<Rightarrow> proxy_state \<Rightarrow> bool \<times> proxy_state" where
  "canary_udp_step ev pe st0 =
     (let (xid, st) = next_txid ev st0 in
      case build_query xid CANARY_DOMAIN TYPE_A CLASS_IN of
        None \<Rightarrow> (False, st)
      | Some probe \<Rightarrow>
          if \<not> sock_bound pe then (False, st)
          else
            (case probe_exchange pe probe st of
               (None, st') \<Rightarrow> (False, st')
             | (Some resp, st') \<Rightarrow> (is_canary_signature resp (be16 (probe ! 0) (probe ! 1)), st')))"

text \<open>Step (iii c): the health-check name through the listener.\<close>

definition name_udp_step :: "env \<Rightarrow> probe_env \<Rightarrow> proxy_state \<Rightarrow> bool \<times> proxy_state" where
  "name_udp_step ev pe st0 =
     (let (xid, st) = next_txid ev st0 in
      case build_query xid (health_check_name (config st)) TYPE_A CLASS_IN of
        None \<Rightarrow> (False, st)
      | Some probe \<Rightarrow>
          if \<not> sock_bound pe then (False, st)
          else
            (case probe_exchange pe probe st of
               (None, st') \<Rightarrow> (False, st')
             | (Some resp, st') \<Rightarrow>
                 (case response_info resp of
                    Some info \<Rightarrow> ri_rcode info = RCODE_NOERROR \<and> ri_min_ttl info \<noteq> None
                  | None \<Rightarrow> False, st')))"

text \<open>Step (iv): the canary over TCP.\<close>

definition canary_tcp_step :: "env \<Rightarrow> probe_env \<Rightarrow> proxy_state \<Rightarrow> bool \<times> proxy_state" where
  "canary_tcp_step ev pe st0 =
     (let (xid, st) = next_txid ev st0 in
      case build_query xid CANARY_DOMAIN TYPE_A CLASS_IN of
        None \<Rightarrow> (False, st)
      | Some probe \<Rightarrow>
          (case tcp_probe_exchange pe probe st of
             (None, st') \<Rightarrow> (False, st')
           | (Some resp, st') \<Rightarrow> (is_canary_signature resp (be16 (probe ! 0) (probe ! 1)), st')))"

definition wrapping_sub :: "nat \<Rightarrow> nat \<Rightarrow> nat" where
  "wrapping_sub a b = nat ((int a - int b) mod 2 ^ 64)"

definition self_test :: "env \<Rightarrow> probe_env \<Rightarrow> proxy_state \<Rightarrow> self_test_report \<times> proxy_state" where
  "self_test ev pe st0 =
     (let (d1, st1) = state_decide CANARY_DOMAIN st0;
          (up_ok, healthy, n, up_notes, st2) = upstream_step ev st1;
          prior = counts st2;
          (canary_ok, st3) = canary_udp_step ev pe st2;
          (d2, st4) = state_decide (health_check_name (config st3)) st3;
          (positive, st5) = name_udp_step ev pe st4;
          (tcp, st6) = canary_tcp_step ev pe st5;
          after = counts st6;
          expected = of_bool canary_ok + of_bool tcp;
          actual = wrapping_sub (canary_probes after) (canary_probes prior);
          unmoved = (queries after = queries prior \<and> blocked after = blocked prior) in
      (\<lparr>engine_ok = (d1 = Block), upstream_ok = up_ok,
        filter_ok = (canary_ok \<and> d2 = Allow \<and> positive \<and> actual \<ge> expected \<and> unmoved),
        tcp_ok = tcp, upstreams_healthy = healthy, upstreams_total = n,
        detail = (if d1 = Block then [] else [Canary_Not_Blocked]) @ up_notes
          @ (if canary_ok then [] else [No_Local_Signature])
          @ (if d2 = Allow then [] else [Name_Blocked])
          @ (if positive then [] else [Name_Unresolved])
          @ (if tcp then [] else [No_Tcp_Signature])
          @ (if actual < expected then [Canary_Count_Low actual expected] else [])
          @ (if unmoved then [] else [Probes_Leaked])\<rparr>, st6))"

section \<open>Probes and counters\<close>

lemma decide_counts [simp]: "state_decide n st = (d, st') \<Longrightarrow> counts st' = counts st"
  by (auto simp: state_decide_def split: prod.splits)

lemma forward_counts: "forward ev bytes q tcp st = (r, st') \<Longrightarrow> counts st' = counts st"
  by (auto simp: forward_def forward_via_def pick_upstream_def next_txid_def Let_def split: if_splits)

lemma unless_synthetic_True [simp]: "unless_synthetic True f st = st"
  by (simp add: unless_synthetic_def)

lemma answer_locally_synthetic:
  "answer_locally ev bytes q client True st = (a, st') \<Longrightarrow> counts st' = counts st"
  by (auto simp: answer_locally_def Let_def split: prod.splits option.splits if_splits block_response.splits)

lemma answer_from_upstream_synthetic:
  "answer_from_upstream ev bytes q client tcp True st = (a, st') \<Longrightarrow> counts st' = counts st"
  by (auto simp: answer_from_upstream_def Let_def split: prod.splits sum.splits dest: forward_counts)

text \<open>A probe moves at most the canary's own counter.\<close>

lemma handle_query_synthetic:
  assumes "handle_query ev bytes client tcp True st = (a, st')"
  shows "counts st' = counts st \<or>
    counts st' = (counts st)\<lparr>canary_probes := canary_probes (counts st) + 1\<rparr>"
proof -
  have "counts s' = counts s" if "answer_filtered ev bytes q client tcp True s = (x, s')" for q s s' x
    using that by (auto simp: answer_filtered_def split: prod.splits option.splits
        dest!: answer_locally_synthetic answer_from_upstream_synthetic)
  then show ?thesis
    using assms
    by (auto simp: handle_query_def handle_query_inner_def bump_def
        split: prod.splits sum.splits if_splits)
qed

lemma udp_task_synthetic:
  "udp_task ev bytes peer True st = (a, st') \<Longrightarrow> counts st' = counts st \<or>
    counts st' = (counts st)\<lparr>canary_probes := canary_probes (counts st) + 1\<rparr>"
  using handle_query_synthetic [of ev bytes peer False st] by (auto simp: udp_task_def split: prod.splits)

section \<open>Green means no complaint\<close>

lemma forward_via_upstreams: "forward_via ev bytes q tcp up st = (r, st') \<Longrightarrow> upstreams st' = upstreams st"
  by (auto simp: forward_via_def next_txid_def Let_def)

lemma probe_upstreams_count:
  "probe_upstreams ev bytes q ups st = (healthy, ns, st') \<Longrightarrow> healthy + length ns = length ups"
  by (induction ups arbitrary: st healthy ns st')
    (fastforce split: prod.splits sum.splits if_splits option.splits)+

lemma upstream_step_notes:
  "upstream_step ev st = (ok, healthy, n, ns, st') \<Longrightarrow> upstreams st \<noteq> [] \<Longrightarrow> ok \<longleftrightarrow> ns = []"
  by (auto simp: upstream_step_def next_txid_def Let_def split: prod.splits option.splits sum.splits
      dest!: probe_upstreams_count)

definition upstream_note :: "self_test_note \<Rightarrow> bool" where
  "upstream_note n \<longleftrightarrow>
     (case n of Upstream_Not_Noerror _ \<Rightarrow> True | Upstream_Failed _ _ \<Rightarrow> True | Name_Unencodable \<Rightarrow> True
      | _ \<Rightarrow> False)"

lemma probe_upstreams_kinds:
  "probe_upstreams ev bytes q ups st = (healthy, ns, st') \<Longrightarrow> list_all upstream_note ns"
  by (induction ups arbitrary: st healthy ns st')
    (fastforce simp: upstream_note_def split: prod.splits sum.splits if_splits option.splits)+

lemma upstream_step_kinds:
  assumes "upstream_step ev st = (ok, healthy, n, ns, st')"
  shows "No_Local_Signature \<notin> set ns" "Probes_Leaked \<notin> set ns" "Canary_Count_Low i j \<notin> set ns"
    "Name_Blocked \<notin> set ns" "Name_Unresolved \<notin> set ns"
proof -
  have "list_all upstream_note ns"
    using assms
    by (auto simp: upstream_step_def next_txid_def Let_def upstream_note_def
        split: prod.splits option.splits sum.splits dest!: probe_upstreams_kinds)
  then show "No_Local_Signature \<notin> set ns" "Probes_Leaked \<notin> set ns" "Canary_Count_Low i j \<notin> set ns"
    "Name_Blocked \<notin> set ns" "Name_Unresolved \<notin> set ns"
    by (auto simp: list_all_iff upstream_note_def)
qed

lemma self_test_detail:
  assumes "upstreams st \<noteq> []"
  shows "report_ok (fst (self_test ev pe st)) \<longleftrightarrow> detail (fst (self_test ev pe st)) = []"
proof -
  obtain d1 st1 where d1: "state_decide CANARY_DOMAIN st = (d1, st1)" by fastforce
  obtain ok h n ns st2 where u: "upstream_step ev st1 = (ok, h, n, ns, st2)" by (metis prod_cases5)
  have "upstreams st1 \<noteq> []"
    using assms d1 by (auto simp: state_decide_def split: prod.splits)
  note ok = upstream_step_notes [OF u this]
  obtain c st3 where c: "canary_udp_step ev pe st2 = (c, st3)" by fastforce
  obtain d2 st4 where d2: "state_decide (health_check_name (config st3)) st3 = (d2, st4)" by fastforce
  obtain p st5 where p: "name_udp_step ev pe st4 = (p, st5)" by fastforce
  obtain tc st6 where tc: "canary_tcp_step ev pe st5 = (tc, st6)" by fastforce
  show ?thesis
    using ok by (cases c; cases p; cases tc)
      (simp_all add: self_test_def report_ok_def Let_def d1 u c d2 p tc not_less)
qed

text \<open>
The report's detail is empty exactly when all four steps passed: in every state a bound proxy can
reach, and whatever the network, the probes and the other tasks do meanwhile, a failed step leaves a
note and a passed one none.
\<close>

theorem self_test_green_iff_no_detail:
  assumes "proxy_reach cfg eng port la st"
  shows "report_ok (fst (self_test ev pe st)) \<longleftrightarrow> detail (fst (self_test ev pe st)) = []"
  using proxy_reach_ok [OF assms] self_test_detail by (simp add: state_ok_def upstreams_ok_def)

text \<open>No probe is answered: nothing listens.\<close>

definition deaf_probes :: probe_env where
  "deaf_probes = \<lparr>sock_bound = True, udp_probe = (\<lambda>_ st. (None, st)), tcp_probe = (\<lambda>_ st. (None, st))\<rparr>"

theorem self_test_green_iff_no_detail_witness:
  "\<not> report_ok (fst (self_test dead_net deaf_probes sample_state)) \<and>
   detail (fst (self_test dead_net deaf_probes sample_state)) =
     [Upstream_Failed sample_upstream Io_Failed, No_Local_Signature, Name_Unresolved, No_Tcp_Signature]"
proof -
  have d: "detail (fst (self_test dead_net deaf_probes sample_state)) =
     [Upstream_Failed sample_upstream Io_Failed, No_Local_Signature, Name_Unresolved, No_Tcp_Signature]"
    by code_simp
  then show ?thesis
    using self_test_green_iff_no_detail [OF sample_reach, of dead_net deaf_probes] by simp
qed

section \<open>Only our own listener is green\<close>

text \<open>The probes reach this proxy's own private loops and nothing else runs meanwhile.\<close>

definition own_probes :: "env \<Rightarrow> socket_addr \<Rightarrow> probe_env" where
  "own_probes ev peer =
    \<lparr>sock_bound = True, udp_probe = (\<lambda>probe st. udp_task ev probe peer True st),
     tcp_probe = (\<lambda>probe st.
       (case handle_query ev probe peer True True st of
          (None, st') \<Rightarrow> (None, st')
        | (Some (resp, _), st') \<Rightarrow> (map_option (drop 2) (tcp_frame probe resp), st')))\<rparr>"

lemma canary_probe:
  obtains probe where "build_query xid CANARY_DOMAIN TYPE_A CLASS_IN = Some probe"
    "be16 (probe ! 0) (probe ! 1) = xid"
proof -
  have c: "list_all plain_char CANARY_DOMAIN" "trim_end_matches CHR 0x2E CANARY_DOMAIN = CANARY_DOMAIN"
    "build_query 0 CANARY_DOMAIN TYPE_A CLASS_IN \<noteq> None"
    by code_simp+
  then obtain probe where p: "build_query xid CANARY_DOMAIN TYPE_A CLASS_IN = Some probe"
    by (auto simp: build_query_def Let_def split: if_splits option.splits)
  obtain q where q: "parse_query probe = Inr q" "q_id q = xid"
    using build_query_reads [OF p] by auto
  then show ?thesis using that [OF p] parse_query_layout(4) [OF q(1)] by simp
qed

lemma canary_udp_own:
  "\<exists>st'. canary_udp_step ev (own_probes ev' peer) st = (True, st') \<and> counts st' =
     (counts st)\<lparr>canary_probes := canary_probes (counts st) + 1\<rparr> \<and> config st' = config st \<and> engine st' = engine st"
proof -
  obtain probe where p: "build_query (txid_hash ev (txid_counter st)) CANARY_DOMAIN TYPE_A CLASS_IN = Some probe"
    "be16 (probe ! 0) (probe ! 1) = txid_hash ev (txid_counter st)" by (rule canary_probe)
  from canary_answer [OF p(1), of ev' peer False True "snd (next_txid ev st)"] p
  show ?thesis
    by (auto simp: canary_udp_step_def next_txid_def Let_def own_probes_def probe_exchange_def
        udp_task_def bump_def MAX_DATAGRAM_def)
qed

lemma canary_tcp_own:
  "\<exists>st'. canary_tcp_step ev (own_probes ev' peer) st = (True, st') \<and> counts st' =
     (counts st)\<lparr>canary_probes := canary_probes (counts st) + 1\<rparr>"
proof -
  obtain probe where p: "build_query (txid_hash ev (txid_counter st)) CANARY_DOMAIN TYPE_A CLASS_IN = Some probe"
    "be16 (probe ! 0) (probe ! 1) = txid_hash ev (txid_counter st)" by (rule canary_probe)
  from canary_answer [OF p(1), of ev' peer True True "snd (next_txid ev st)"] p
  show ?thesis
    by (auto simp: canary_tcp_step_def next_txid_def Let_def own_probes_def tcp_probe_exchange_def
        tcp_frame_def bump_def)
qed

lemma name_step_own:
  assumes "name_udp_step ev (own_probes ev' peer) st = (ok, st')"
  shows "counts st' = counts st \<or> counts st' = (counts st)\<lparr>canary_probes := canary_probes (counts st) + 1\<rparr>"
  using assms udp_task_synthetic
  by (fastforce simp: name_udp_step_def next_txid_def own_probes_def probe_exchange_def Let_def
      split: option.splits prod.splits)

lemma wrapping_sub_small: "d < 2 ^ 64 \<Longrightarrow> wrapping_sub (a + d) a = d"
  by (simp add: wrapping_sub_def nat_mod_as_int)

text \<open>
The self-test never blames a working listener: when the probes are served by this proxy, the
canary comes back with the local signature over UDP and over TCP, the canary counter accounts for
every probe, no user-facing counter moves, and the listener step is green exactly when the filter
allows the health-check name and the name resolves, in every state and on every network.
\<close>

theorem self_test_own_listener:
  "let r = fst (self_test ev (own_probes ev' peer) st) in
   tcp_ok r \<and> No_Local_Signature \<notin> set (detail r) \<and> Probes_Leaked \<notin> set (detail r) \<and>
   (\<forall>m n. Canary_Count_Low m n \<notin> set (detail r)) \<and>
   (filter_ok r \<longleftrightarrow> Name_Blocked \<notin> set (detail r) \<and> Name_Unresolved \<notin> set (detail r))"
proof -
  let ?pe = "own_probes ev' peer"
  obtain d1 st1 where d1: "state_decide CANARY_DOMAIN st = (d1, st1)" by fastforce
  obtain ok h n ns st2 where u: "upstream_step ev st1 = (ok, h, n, ns, st2)" by (metis prod_cases5)
  obtain st3 where c: "canary_udp_step ev ?pe st2 = (True, st3)"
      "counts st3 = (counts st2)\<lparr>canary_probes := canary_probes (counts st2) + 1\<rparr>"
    using canary_udp_own [of ev ev' peer st2] by auto
  obtain d2 st4 where d2: "state_decide (health_check_name (config st3)) st3 = (d2, st4)" by fastforce
  obtain pos st5 where p: "name_udp_step ev ?pe st4 = (pos, st5)" by fastforce
  obtain st6 where t: "canary_tcp_step ev ?pe st5 = (True, st6)"
      "counts st6 = (counts st5)\<lparr>canary_probes := canary_probes (counts st5) + 1\<rparr>"
    using canary_tcp_own [of ev ev' peer st5] by auto
  have c4: "counts st4 = counts st3" by (rule decide_counts [OF d2])
  have unmoved: "queries (counts st6) = queries (counts st2)" "blocked (counts st6) = blocked (counts st2)"
    using name_step_own [OF p] c(2) t(2) c4 by auto
  have "canary_probes (counts st6) = canary_probes (counts st2) + 2
      \<or> canary_probes (counts st6) = canary_probes (counts st2) + 3"
    using name_step_own [OF p] c(2) t(2) c4 by auto
  then have moved: "\<not> wrapping_sub (canary_probes (counts st6)) (canary_probes (counts st2)) < 2"
    using wrapping_sub_small [of 2 "canary_probes (counts st2)"]
      wrapping_sub_small [of 3 "canary_probes (counts st2)"] by auto
  show ?thesis
    using upstream_step_kinds [OF u] d1 u c(1) d2 p t(1) unmoved moved
    by (simp add: self_test_def Let_def)
qed

text \<open>
No impostor is green: when the probes are answered, however convincingly, by anything that leaves
this proxy's canary counter where it was, the listener step fails.
\<close>

theorem self_test_impostor:
  assumes "\<And>probe s. counts (snd (udp_probe pe probe s)) = counts s"
    and "\<And>probe s. counts (snd (tcp_probe pe probe s)) = counts s"
  shows "\<not> filter_ok (fst (self_test ev pe st))"
proof -
  have keep: "counts s' = counts s" if "udp_probe pe b s = (r, s') \<or> tcp_probe pe b s = (r, s')" for b s r s'
    using that assms(1) [of b s] assms(2) [of b s] by auto
  have u: "counts s' = counts s" if "canary_udp_step ev pe s = (ok, s')" for s ok s'
    using that by (auto simp: canary_udp_step_def next_txid_def probe_exchange_def Let_def
        split: option.splits prod.splits if_splits dest: keep [OF disjI1])
  have n: "counts s' = counts s" if "name_udp_step ev pe s = (ok, s')" for s ok s'
    using that by (auto simp: name_udp_step_def next_txid_def probe_exchange_def Let_def
        split: option.splits prod.splits if_splits dest: keep [OF disjI1])
  have t: "counts s' = counts s" if "canary_tcp_step ev pe s = (ok, s')" for s ok s'
    using that by (auto simp: canary_tcp_step_def next_txid_def tcp_probe_exchange_def Let_def
        split: option.splits prod.splits if_splits dest: keep [OF disjI2])
  have w: "wrapping_sub a a = 0" for a by (simp add: wrapping_sub_def)
  obtain d1 st1 where d1: "state_decide CANARY_DOMAIN st = (d1, st1)" by fastforce
  obtain ok h m ns st2 where us: "upstream_step ev st1 = (ok, h, m, ns, st2)" by (metis prod_cases5)
  obtain c st3 where c: "canary_udp_step ev pe st2 = (c, st3)" by fastforce
  obtain d2 st4 where d2: "state_decide (health_check_name (config st3)) st3 = (d2, st4)" by fastforce
  obtain p st5 where p: "name_udp_step ev pe st4 = (p, st5)" by fastforce
  obtain tc st6 where tc: "canary_tcp_step ev pe st5 = (tc, st6)" by fastforce
  have "counts st6 = counts st2"
    using u [OF c] decide_counts [OF d2] n [OF p] t [OF tc] by simp
  then show ?thesis
    using d1 us c d2 p tc w by (simp add: self_test_def Let_def)
qed

text \<open>An impostor that forges the signature perfectly.\<close>

definition forging_probes :: probe_env where
  "forging_probes = \<lparr>sock_bound = True, udp_probe = (\<lambda>probe st. (build_zero_ip_response probe 60, st)),
     tcp_probe = (\<lambda>probe st. (build_zero_ip_response probe 60, st))\<rparr>"

theorem self_test_impostor_witness:
  "tcp_ok (fst (self_test dead_net forging_probes sample_state)) \<and>
   Canary_Count_Low 0 2 \<in> set (detail (fst (self_test dead_net forging_probes sample_state))) \<and>
   \<not> filter_ok (fst (self_test dead_net forging_probes sample_state))"
proof -
  have "tcp_ok (fst (self_test dead_net forging_probes sample_state))"
    "Canary_Count_Low 0 2 \<in> set (detail (fst (self_test dead_net forging_probes sample_state)))"
    by code_simp+
  moreover have "\<not> filter_ok (fst (self_test dead_net forging_probes sample_state))"
    by (rule self_test_impostor) (simp_all add: forging_probes_def)
  ultimately show ?thesis by blast
qed

end
