(* ===== verification/Proxy_Listen.thy ===== *)
theory Proxy_Listen
  imports Proxy_Health
begin

text \<open>
  The two listeners of \<open>crates/dnsguard/src/proxy.rs\<close>, \<open>udp_loop\<close> and \<open>tcp_loop\<close>, as a machine that
  takes one event at a time: a datagram or a connection arrives, a task ends, a waiting connection is
  admitted to the pool or waits out its queue time. Three permit pools bound what is in memory at once.
\<close>

section \<open>Permit pools\<close>

text \<open>
  A pool is what a semaphore makes of a resource: a step takes a permit only below the capacity, and
  no step takes more than one.
\<close>

locale permit_pool =
  fixes step :: "'s \<Rightarrow> 's \<Rightarrow> bool" and held :: "'s \<Rightarrow> nat" and cap :: "'s \<Rightarrow> nat"
  assumes cap_fixed: "step s t \<Longrightarrow> cap t = cap s"
    and one_at_a_time: "step s t \<Longrightarrow> held t \<le> held s + 1"
    and guarded: "step s t \<Longrightarrow> held s < held t \<Longrightarrow> held s < cap s"
begin

lemma pool_step: "step s t \<Longrightarrow> held s \<le> cap s \<Longrightarrow> held t \<le> cap t"
  using cap_fixed one_at_a_time guarded by fastforce

lemma pool_bounded: "step\<^sup>*\<^sup>* s t \<Longrightarrow> held s \<le> cap s \<Longrightarrow> held t \<le> cap t \<and> cap t = cap s"
proof (induction rule: rtranclp_induct)
  case (step y z)
  then show ?case using pool_step [OF step.hyps(2)] cap_fixed [OF step.hyps(2)] by simp
qed simp

end

section \<open>The listeners\<close>

text \<open>
  The tasks alive: queries in flight over UDP, TCP connections waiting for a pool permit in arrival
  order, and TCP connections being served. Each remembers its peer and whether the loop that took it
  is a private one of the self-test.
\<close>

record listener =
  prx :: proxy_state
  in_flight :: "(u8 list \<times> socket_addr \<times> bool) list"
  waiting :: "(socket_addr \<times> bool) list"
  serving :: "(socket_addr \<times> bool) list"

datatype listen_event =
  Udp_Arrives "u8 list" socket_addr bool
| Udp_Finishes nat env
| Udp_Failed
| Tcp_Arrives socket_addr bool
| Tcp_Admitted
| Tcp_Waits_Out nat "u8 list option"
| Tcp_Finishes nat "tcp_message list" nat
| Tcp_Failed

datatype listen_action =
  Nothing
| Spawned
| Answered "u8 list option" socket_addr
| Shed_Reply "u8 list option" socket_addr
| Queued
| Dropped socket_addr
| Admitted socket_addr
| Overflow_Reply "u8 list option" socket_addr
| Closed "u8 list list"

definition remove_nth :: "nat \<Rightarrow> 'a list \<Rightarrow> 'a list" where
  "remove_nth i xs = take i xs @ drop (Suc i) xs"

definition pool_full :: "listener \<Rightarrow> listener" where
  "pool_full l = l\<lparr>prx := bump (\<lambda>c. c\<lparr>tcp_pool_full := tcp_pool_full c + 1\<rparr>) (prx l)\<rparr>"

text \<open>One event; \<open>None\<close> when it cannot happen in this state (no such task, no free permit).\<close>

fun listen_step :: "listener \<Rightarrow> listen_event \<Rightarrow> (listen_action \<times> listener) option" where
  "listen_step l (Udp_Arrives d peer syn) =
     (let bytes = take MAX_DATAGRAM d in
      if length (in_flight l) < max_in_flight (config (prx l)) then
        Some (Spawned, l\<lparr>in_flight := in_flight l @ [(bytes, peer, syn)]\<rparr>)
      else
        (let (reply, st) = shed bytes peer syn (prx l) in
         Some (Shed_Reply reply peer, l\<lparr>prx := st\<rparr>)))"
| "listen_step l (Udp_Finishes i ev) =
     (if i < length (in_flight l) then
        (let (bytes, peer, syn) = in_flight l ! i;
             (out, st) = udp_task ev bytes peer syn (prx l) in
         Some (Answered out peer,
               l\<lparr>prx := st, in_flight := remove_nth i (in_flight l)\<rparr>))
      else None)"
| "listen_step l Udp_Failed = Some (Nothing, l)"
| "listen_step l (Tcp_Arrives peer syn) =
     (if length (waiting l) < tcp_max_queued (config (prx l)) then
        Some (Queued, l\<lparr>waiting := waiting l @ [(peer, syn)]\<rparr>)
      else Some (Dropped peer, pool_full l))"
| "listen_step l Tcp_Admitted =
     (case waiting l of
        [] \<Rightarrow> None
      | (peer, syn) # rest \<Rightarrow>
          if length (serving l) < tcp_max_connections (config (prx l)) then
            Some (Admitted peer, l\<lparr>waiting := rest, serving := serving l @ [(peer, syn)]\<rparr>)
          else None)"
| "listen_step l (Tcp_Waits_Out i body) =
     (if i < length (waiting l) then
        Some (Overflow_Reply (case body of None \<Rightarrow> None | Some buf \<Rightarrow> serve_overflow_servfail buf)
                (fst (waiting l ! i)),
              pool_full (l\<lparr>waiting := remove_nth i (waiting l)\<rparr>))
      else None)"
| "listen_step l (Tcp_Finishes i msgs start) =
     (if i < length (serving l) then
        (let (peer, syn) = serving l ! i;
             (end, frames, st) = tcp_conn msgs peer syn start (prx l) in
         Some (Closed frames, l\<lparr>prx := st, serving := remove_nth i (serving l)\<rparr>))
      else None)"
| "listen_step l Tcp_Failed = Some (Nothing, l)"

text \<open>What the two loops emit over a sequence of events.\<close>

fun listen_run :: "listener \<Rightarrow> listen_event list \<Rightarrow> (listen_action list \<times> listener) option" where
  "listen_run l [] = Some ([], l)"
| "listen_run l (e # es) =
     (case listen_step l e of
        None \<Rightarrow> None
      | Some (a, l') \<Rightarrow> map_option (\<lambda>(as, l''). (a # as, l'')) (listen_run l' es))"

definition start_listening :: "proxy_state \<Rightarrow> listener" where
  "start_listening st = \<lparr>prx = st, in_flight = [], waiting = [], serving = []\<rparr>"

section \<open>Bounds\<close>

definition lsteps :: "listener \<Rightarrow> listener \<Rightarrow> bool" where
  "lsteps l l' \<longleftrightarrow> (\<exists>e a. listen_step l e = Some (a, l'))"


lemma unless_synthetic_config [simp]:
  "(\<And>s. config (f s) = config s) \<Longrightarrow> config (unless_synthetic syn f st) = config st"
  by (simp add: unless_synthetic_def)

lemma bump_emit_simps [simp]:
  "config (bump f st) = config st" "config (emit c q out st) = config st"
  "counts (bump f st) = f (counts st)" "counts (emit c q out st) = counts st"
  by (simp_all add: bump_def emit_def)

text \<open>What serving a query leaves alone: the configuration and the counters of the admission paths.\<close>

definition admission :: "proxy_state \<Rightarrow> proxy_config \<times> nat \<times> nat" where
  "admission st = (config st, shed_count (counts st), tcp_pool_full (counts st))"

lemma admission_unless [simp]:
  "(\<And>s. admission (f s) = admission s) \<Longrightarrow> admission (unless_synthetic syn f st) = admission st"
  by (simp add: unless_synthetic_def)

lemma admission_simps [simp]:
  "admission (emit c q out st) = admission st"
  "admission (st\<lparr>cache := x\<rparr>) = admission st"
  by (simp_all add: admission_def emit_def)

lemma admission_bump [simp]:
  "(\<And>c. shed_count (f c) = shed_count c) \<Longrightarrow> (\<And>c. tcp_pool_full (f c) = tcp_pool_full c) \<Longrightarrow>
   admission (bump f st) = admission st"
  by (simp add: admission_def)

lemma admission_decide: "state_decide n st = (d, st') \<Longrightarrow> admission st' = admission st"
  by (auto simp: state_decide_def admission_def split: prod.splits)

lemma admission_forward: "forward ev bytes q tcp st = (r, st') \<Longrightarrow> admission st' = admission st"
  by (auto simp: forward_def forward_via_def pick_upstream_def next_txid_def admission_def Let_def
      split: if_splits)

lemma admission_locally: "answer_locally ev bytes q client syn st = (a, st') \<Longrightarrow> admission st' = admission st"
  by (auto simp: answer_locally_def Let_def dest!: admission_decide
      split: prod.splits option.splits if_splits block_response.splits)

lemma admission_upstream:
  "answer_from_upstream ev bytes q client tcp syn st = (a, st') \<Longrightarrow> admission st' = admission st"
  by (auto simp: answer_from_upstream_def Let_def split: prod.splits sum.splits dest!: admission_forward)

lemma admission_filtered:
  "answer_filtered ev bytes q client tcp syn st = (a, st') \<Longrightarrow> admission st' = admission st"
  by (auto simp: answer_filtered_def split: prod.splits option.splits
      dest!: admission_locally admission_upstream)

lemma admission_handle_query:
  "handle_query ev bytes client tcp syn st = (a, st') \<Longrightarrow> admission st' = admission st"
  by (auto simp: handle_query_def handle_query_inner_def
      split: prod.splits sum.splits if_splits dest!: admission_filtered)

lemma admission_udp_task: "udp_task ev bytes peer syn st = (a, st') \<Longrightarrow> admission st' = admission st"
  by (auto simp: udp_task_def split: prod.splits dest!: admission_handle_query)

lemma admission_dropped: "admission (handle_query_dropped ev bytes client syn st) = admission st"
proof -
  have h: "admission (snd (handle_query ev bytes client True syn st)) = admission st"
    using admission_handle_query [of ev bytes client True syn st] by (cases "handle_query ev bytes client True syn st") auto
  show ?thesis
    using h unfolding handle_query_dropped_def
    by (auto simp: pick_upstream_def next_txid_def split: sum.splits prod.splits option.splits if_splits
        dest!: admission_locally) (simp_all add: admission_def)
qed

lemma admission_turn:
  "tcp_turn deadline idle msg peer syn now st = (n, go, fr, st') \<Longrightarrow> admission st' = admission st"
  unfolding tcp_turn_def
  by (auto simp: Let_def admission_dropped split: prod.splits option.splits if_splits
      dest!: admission_handle_query)

lemma admission_turns:
  "tcp_turns deadline idle msgs peer syn now st = (e, frs, st') \<Longrightarrow> admission st' = admission st"
proof (induction msgs arbitrary: now st e frs st')
  case (Cons msg msgs)
  obtain n1 go fr st1 where t: "tcp_turn deadline idle msg peer syn now st = (n1, go, fr, st1)"
    by (metis prod_cases4)
  obtain e2 f2 st2 where r: "tcp_turns deadline idle msgs peer syn n1 st1 = (e2, f2, st2)"
    by (metis prod_cases3)
  show ?case
    using Cons.prems t r Cons.IH [OF r] admission_turn [OF t]
    by (auto simp: Let_def split: if_splits)
qed simp

lemma admission_conn: "tcp_conn msgs peer syn start st = (e, frs, st') \<Longrightarrow> admission st' = admission st"
  by (auto simp: tcp_conn_def Let_def split: prod.splits if_splits dest!: admission_turns)

lemma admission_shed:
  "shed bytes peer syn st = (r, st') \<Longrightarrow> admission st' =
     (config st, shed_count (counts st) + 1, tcp_pool_full (counts st))"
  by (auto simp: shed_def Let_def admission_def unless_synthetic_def split: sum.splits)

lemma length_remove_nth [simp]: "i < length xs \<Longrightarrow> length (remove_nth i xs) = length xs - 1"
  by (simp add: remove_nth_def)

lemma admission_pool_full [simp]:
  "admission (prx (pool_full l)) =
     (config (prx l), shed_count (counts (prx l)), tcp_pool_full (counts (prx l)) + 1)"
  "in_flight (pool_full l) = in_flight l" "waiting (pool_full l) = waiting l"
  "serving (pool_full l) = serving l" "config (prx (pool_full l)) = config (prx l)"
  by (simp_all add: pool_full_def admission_def)

lemma admissionD: "admission st' = (c, m, n) \<Longrightarrow> config st' = c \<and> shed_count (counts st') = m \<and> tcp_pool_full (counts st') = n"
  by (simp add: admission_def)

lemma admission_eqD:
  "admission st' = admission st \<Longrightarrow> config st' = config st \<and> shed_count (counts st') = shed_count (counts st)
     \<and> tcp_pool_full (counts st') = tcp_pool_full (counts st)"
  by (simp add: admission_def)

lemmas admission_results =
  admission_udp_task [THEN admission_eqD] admission_conn [THEN admission_eqD] admission_shed [THEN admissionD]

text \<open>What one event does to the pools and to the configuration.\<close>

lemma listen_step_config: "listen_step l e = Some (a, l') \<Longrightarrow> config (prx l') = config (prx l)"
  by (cases e)
    (auto simp: Let_def split: prod.splits if_splits list.splits option.splits
      dest!: admission_results)

lemma listen_step_in_flight:
  "listen_step l e = Some (a, l') \<Longrightarrow> length (in_flight l') \<le> length (in_flight l) \<or>
     length (in_flight l') = length (in_flight l) + 1 \<and> length (in_flight l) < max_in_flight (config (prx l))"
  by (cases e) (auto simp: Let_def split: prod.splits if_splits list.splits option.splits)

lemma listen_step_waiting:
  "listen_step l e = Some (a, l') \<Longrightarrow> length (waiting l') \<le> length (waiting l) \<or>
     length (waiting l') = length (waiting l) + 1 \<and> length (waiting l) < tcp_max_queued (config (prx l))"
  by (cases e) (auto simp: Let_def split: prod.splits if_splits list.splits option.splits)

lemma listen_step_serving:
  "listen_step l e = Some (a, l') \<Longrightarrow> length (serving l') \<le> length (serving l) \<or>
     length (serving l') = length (serving l) + 1 \<and> length (serving l) < tcp_max_connections (config (prx l))"
  by (cases e) (auto simp: Let_def split: prod.splits if_splits list.splits option.splits)

interpretation udp_pool: permit_pool lsteps "\<lambda>l. length (in_flight l)" "\<lambda>l. max_in_flight (config (prx l))"
  by unfold_locales (auto simp: lsteps_def listen_step_config dest: listen_step_in_flight)

interpretation queue_pool: permit_pool lsteps "\<lambda>l. length (waiting l)" "\<lambda>l. tcp_max_queued (config (prx l))"
  by unfold_locales (auto simp: lsteps_def listen_step_config dest: listen_step_waiting)

interpretation conn_pool: permit_pool lsteps "\<lambda>l. length (serving l)" "\<lambda>l. tcp_max_connections (config (prx l))"
  by unfold_locales (auto simp: lsteps_def listen_step_config dest: listen_step_serving)

lemma listen_run_steps: "listen_run l es = Some (as, l') \<Longrightarrow> lsteps\<^sup>*\<^sup>* l l'"
proof (induction es arbitrary: l as)
  case (Cons e es)
  then obtain a l1 as' where "listen_step l e = Some (a, l1)" "listen_run l1 es = Some (as', l')"
    by (auto split: option.splits)
  then show ?case using Cons.IH by (metis converse_rtranclp_into_rtranclp lsteps_def)
qed simp

text \<open>
C36: However datagrams, connections, admissions and endings interleave, the queries in flight never
exceed \<open>max_in_flight\<close>, the waiting connections never exceed \<open>tcp_max_queued\<close> and the served ones
never exceed \<open>tcp_max_connections\<close>, each bound by itself.
\<close>

theorem listeners_bounded:
  assumes "listen_run (start_listening st) es = Some (as, l)"
  shows "length (in_flight l) \<le> max_in_flight (config st) \<and>
    length (waiting l) \<le> tcp_max_queued (config st) \<and>
    length (serving l) \<le> tcp_max_connections (config st)"
proof -
  note r = listen_run_steps [OF assms]
  have "in_flight (start_listening st) = []" "waiting (start_listening st) = []"
    "serving (start_listening st) = []" "config (prx (start_listening st)) = config st"
    by (simp_all add: start_listening_def)
  then show ?thesis
    using udp_pool.pool_bounded [OF r] queue_pool.pool_bounded [OF r] conn_pool.pool_bounded [OF r]
    by simp
qed

section \<open>Every datagram fits\<close>

text \<open>
C26: No datagram the UDP listener sends to a client exceeds what the client that asked can take: its
advertised EDNS size clamped to the supported range, and 512 bytes for a client without EDNS or a packet
that does not parse. In every state, that holds of the answer to a query in flight and of the overload
answer to a datagram that is turned away, and the listener's other events send no datagram.
\<close>

theorem udp_datagram_fits:
  assumes "listen_step l e = Some (a, l')"
  shows "case (e, a) of
      (Udp_Finishes i ev, Answered (Some out) peer) \<Rightarrow> length out \<le> client_size (fst (in_flight l ! i))
    | (Udp_Arrives d peer syn, Shed_Reply (Some out) peer') \<Rightarrow> length out \<le> client_size (take MAX_DATAGRAM d)
    | (_, Answered (Some out) peer) \<Rightarrow> False
    | (_, Shed_Reply (Some out) peer) \<Rightarrow> False
    | _ \<Rightarrow> True"
proof (cases e)
  case (Udp_Arrives d peer syn)
  obtain r st where s: "shed (take MAX_DATAGRAM d) peer syn (prx l) = (r, st)"
    by fastforce
  have "a = Spawned \<or> a = Shed_Reply r peer"
    using assms s by (auto simp: Udp_Arrives Let_def split: if_splits)
  then show ?thesis
    using shed_fits [of "take MAX_DATAGRAM d" peer syn "prx l"] s
    by (cases r) (auto simp: Udp_Arrives)
next
  case (Udp_Finishes i ev)
  obtain bytes peer syn where t: "in_flight l ! i = (bytes, peer, syn)"
    by (metis prod_cases3)
  obtain out st where u: "udp_task ev bytes peer syn (prx l) = (out, st)"
    by fastforce
  have "a = Answered out peer"
    using assms t u by (auto simp: Udp_Finishes split: if_splits)
  then show ?thesis
    using udp_task_fits [of ev bytes peer syn "prx l"] t u by (cases out) (auto simp: Udp_Finishes)
qed (use assms in \<open>auto simp: Let_def split: if_splits list.splits prod.splits\<close>)

section \<open>Nothing is lost\<close>

definition is_Queued :: "listen_action \<Rightarrow> bool" where "is_Queued a \<longleftrightarrow> (case a of Queued \<Rightarrow> True | _ \<Rightarrow> False)"
definition is_Admitted :: "listen_action \<Rightarrow> bool" where "is_Admitted a \<longleftrightarrow> (case a of Admitted _ \<Rightarrow> True | _ \<Rightarrow> False)"
definition is_Overflow :: "listen_action \<Rightarrow> bool" where
  "is_Overflow a \<longleftrightarrow> (case a of Overflow_Reply _ _ \<Rightarrow> True | _ \<Rightarrow> False)"
definition is_Dropped :: "listen_action \<Rightarrow> bool" where "is_Dropped a \<longleftrightarrow> (case a of Dropped _ \<Rightarrow> True | _ \<Rightarrow> False)"
definition is_Closed :: "listen_action \<Rightarrow> bool" where "is_Closed a \<longleftrightarrow> (case a of Closed _ \<Rightarrow> True | _ \<Rightarrow> False)"
definition is_Spawned :: "listen_action \<Rightarrow> bool" where "is_Spawned a \<longleftrightarrow> (case a of Spawned \<Rightarrow> True | _ \<Rightarrow> False)"
definition is_Answered :: "listen_action \<Rightarrow> bool" where
  "is_Answered a \<longleftrightarrow> (case a of Answered _ _ \<Rightarrow> True | _ \<Rightarrow> False)"
definition is_Shed :: "listen_action \<Rightarrow> bool" where "is_Shed a \<longleftrightarrow> (case a of Shed_Reply _ _ \<Rightarrow> True | _ \<Rightarrow> False)"

lemmas action_defs = is_Queued_def is_Admitted_def is_Overflow_def is_Dropped_def is_Closed_def
  is_Spawned_def is_Answered_def is_Shed_def

definition balanced :: "listener \<Rightarrow> listen_action list \<Rightarrow> listener \<Rightarrow> bool" where
  "balanced l as l' \<longleftrightarrow>
     length (in_flight l) + length (filter is_Spawned as) = length (in_flight l') + length (filter is_Answered as) \<and>
     length (waiting l) + length (filter is_Queued as)
       = length (waiting l') + length (filter is_Admitted as) + length (filter is_Overflow as) \<and>
     length (serving l) + length (filter is_Admitted as) = length (serving l') + length (filter is_Closed as) \<and>
     shed_count (counts (prx l')) = shed_count (counts (prx l)) + length (filter is_Shed as) \<and>
     tcp_pool_full (counts (prx l')) = tcp_pool_full (counts (prx l))
       + length (filter is_Dropped as) + length (filter is_Overflow as)"

lemma filter_step: "length (filter P (a # as)) = of_bool (P a) + length (filter P as)"
  by simp

lemma balanced_step:
  assumes "listen_step l e = Some (a, l')"
  shows "balanced l [a] l'"
proof (cases e)
  case (Udp_Arrives d peer syn)
  show ?thesis
  proof (cases "length (in_flight l) < max_in_flight (config (prx l))")
    case True
    then show ?thesis using assms Udp_Arrives by (auto simp: balanced_def Let_def action_defs)
  next
    case False
    obtain r st where s: "shed (take MAX_DATAGRAM d) peer syn (prx l) = (r, st)" by fastforce
    have "a = Shed_Reply r peer" "l' = l\<lparr>prx := st\<rparr>"
      using assms False by (simp_all add: Udp_Arrives s)
    then show ?thesis
      using admissionD [OF admission_shed [OF s]] by (simp add: balanced_def action_defs)
  qed
next
  case (Udp_Finishes i ev)
  obtain bytes peer syn where t: "in_flight l ! i = (bytes, peer, syn)" by (metis prod_cases3)
  obtain out st where u: "udp_task ev bytes peer syn (prx l) = (out, st)" by fastforce
  have "i < length (in_flight l)" using assms Udp_Finishes by (simp split: if_splits)
  moreover from this have "a = Answered out peer" "l' = l\<lparr>prx := st, in_flight := remove_nth i (in_flight l)\<rparr>"
    using assms by (simp_all add: Udp_Finishes t u)
  ultimately show ?thesis
    using admission_eqD [OF admission_udp_task [OF u]] by (simp add: balanced_def action_defs)
next
  case (Tcp_Arrives peer syn)
  then have "a = Queued \<and> l' = l\<lparr>waiting := waiting l @ [(peer, syn)]\<rparr> \<or> a = Dropped peer \<and> l' = pool_full l"
    using assms by (simp split: if_splits)
  then show ?thesis by (elim disjE conjE) (simp_all add: balanced_def action_defs pool_full_def)
next
  case Tcp_Admitted
  then obtain peer syn rest where "waiting l = (peer, syn) # rest" "a = Admitted peer"
      "l' = l\<lparr>waiting := rest, serving := serving l @ [(peer, syn)]\<rparr>"
    using assms by (auto split: list.splits if_splits)
  then show ?thesis by (simp add: balanced_def action_defs)
next
  case (Tcp_Waits_Out i body)
  then obtain r where "i < length (waiting l)" "a = Overflow_Reply r (fst (waiting l ! i))"
      "l' = pool_full (l\<lparr>waiting := remove_nth i (waiting l)\<rparr>)"
    using assms by (auto split: if_splits)
  then show ?thesis by (simp add: balanced_def action_defs pool_full_def)
next
  case (Tcp_Finishes i msgs start)
  obtain peer syn where t: "serving l ! i = (peer, syn)" by fastforce
  obtain en frames st where c: "tcp_conn msgs peer syn start (prx l) = (en, frames, st)" by (metis prod_cases3)
  have "i < length (serving l)" using assms Tcp_Finishes by (simp split: if_splits)
  moreover from this have "a = Closed frames" "l' = l\<lparr>prx := st, serving := remove_nth i (serving l)\<rparr>"
    using assms by (simp_all add: Tcp_Finishes t c)
  ultimately show ?thesis
    using admission_eqD [OF admission_conn [OF c]] by (simp add: balanced_def action_defs)
qed (use assms in \<open>auto simp: balanced_def action_defs\<close>)

lemma balanced_Cons: "balanced l [a] l1 \<Longrightarrow> balanced l1 as l2 \<Longrightarrow> balanced l (a # as) l2"
  unfolding balanced_def filter_step by simp

lemma listen_run_balanced: "listen_run l es = Some (as, l') \<Longrightarrow> balanced l as l'"
proof (induction es arbitrary: l as)
  case Nil
  then show ?case by (simp add: balanced_def)
next
  case (Cons e es)
  then obtain a l1 as' where s: "listen_step l e = Some (a, l1)" "listen_run l1 es = Some (as', l')"
      "as = a # as'"
    by (auto split: option.splits)
  show ?case
    using balanced_Cons [OF balanced_step [OF s(1)] Cons.IH [OF s(2)]] s(3) by simp
qed

text \<open>
Nothing is lost: every datagram taken on is answered or still in flight, every queued connection
is waiting, was admitted or got the overflow answer, every admitted one is served or closed, and the
\<open>shed\<close> and \<open>tcp_pool_full\<close> counters say exactly how many were turned away.
\<close>

theorem listeners_account_for_all:
  assumes "listen_run (start_listening st) es = Some (as, l)"
  shows "length (filter is_Spawned as) = length (filter is_Answered as) + length (in_flight l) \<and>
    length (filter is_Queued as)
      = length (filter is_Admitted as) + length (filter is_Overflow as) + length (waiting l) \<and>
    length (filter is_Admitted as) = length (filter is_Closed as) + length (serving l) \<and>
    shed_count (counts (prx l)) = shed_count (counts st) + length (filter is_Shed as) \<and>
    tcp_pool_full (counts (prx l)) = tcp_pool_full (counts st)
      + length (filter is_Dropped as) + length (filter is_Overflow as)"
proof -
  have "in_flight (start_listening st) = []" "waiting (start_listening st) = []"
    "serving (start_listening st) = []" "prx (start_listening st) = st"
    by (simp_all add: start_listening_def)
  then show ?thesis using listen_run_balanced [OF assms] unfolding balanced_def by simp
qed

text \<open>One query in flight, one queue slot, one pool slot.\<close>

definition tight_state :: proxy_state where
  "tight_state = sample_state\<lparr>config := sample_config\<lparr>max_in_flight := 1, tcp_max_queued := 1,
     tcp_max_connections := 1\<rparr>\<rparr>"

definition sample_events :: "listen_event list" where
  "sample_events =
    [Udp_Arrives sample_query sample_upstream False, Udp_Arrives sample_query sample_upstream False,
     Tcp_Arrives sample_upstream False, Tcp_Arrives sample_upstream False, Tcp_Admitted,
     Tcp_Arrives sample_upstream False, Tcp_Waits_Out 0 (Some sample_query)]"

lemma sample_run:
  "\<exists>as l. listen_run (start_listening tight_state) sample_events = Some (as, l) \<and>
     map is_Shed as = [False, True, False, False, False, False, False] \<and>
     map is_Dropped as = [False, False, False, True, False, False, False] \<and>
     map is_Overflow as = [False, False, False, False, False, False, True] \<and>
     length (in_flight l) = 1 \<and> length (serving l) = 1 \<and> waiting l = []"
proof -
  have "map_option (\<lambda>(as, l). (map is_Shed as, map is_Dropped as, map is_Overflow as,
      length (in_flight l), length (serving l), length (waiting l)))
      (listen_run (start_listening tight_state) sample_events)
    = Some ([False, True, False, False, False, False, False], [False, False, False, True, False, False, False],
        [False, False, False, False, False, False, True], 1, 1, 0)"
    by code_simp
  then show ?thesis by (auto split: prod.splits)
qed

theorem listeners_bounded_witness:
  "\<exists>as l. listen_run (start_listening tight_state) sample_events = Some (as, l) \<and>
     length (in_flight l) \<le> 1 \<and> length (serving l) \<le> 1"
proof -
  obtain as l where r: "listen_run (start_listening tight_state) sample_events = Some (as, l)"
    using sample_run by blast
  have "max_in_flight (config tight_state) = 1" "tcp_max_connections (config tight_state) = 1"
    by (simp_all add: tight_state_def)
  then show ?thesis using listeners_bounded [OF r] r by simp
qed

text \<open>A listener with no room in flight: the datagram is answered at once, and fits.\<close>

definition full_listener :: listener where
  "full_listener = start_listening (tight_state\<lparr>config := (config tight_state)\<lparr>max_in_flight := 0\<rparr>\<rparr>)"

theorem udp_datagram_fits_witness:
  "\<exists>out l'. listen_step full_listener (Udp_Arrives sample_query sample_upstream False)
      = Some (Shed_Reply (Some out) sample_upstream, l') \<and> length out \<le> 1232"
proof -
  let ?step = "listen_step full_listener (Udp_Arrives sample_query sample_upstream False)"
  have r: "map_option fst ?step \<noteq> None \<and> (case ?step of Some (Shed_Reply (Some out) p, _) \<Rightarrow> p = sample_upstream | _ \<Rightarrow> False)"
    by code_simp
  then obtain out l' where s: "?step = Some (Shed_Reply (Some out) sample_upstream, l')"
    by (auto split: option.splits prod.splits listen_action.splits)
  have "client_size (take MAX_DATAGRAM sample_query) = 1232"
    by code_simp
  then show ?thesis
    using udp_datagram_fits [OF s] s by simp
qed

theorem listeners_account_for_all_witness:
  "\<exists>as l. listen_run (start_listening tight_state) sample_events = Some (as, l) \<and>
     tcp_pool_full (counts (prx l)) = tcp_pool_full (counts tight_state)
       + length (filter is_Dropped as) + length (filter is_Overflow as)"
proof -
  obtain as l where r: "listen_run (start_listening tight_state) sample_events = Some (as, l)"
    using sample_run by blast
  then show ?thesis using listeners_account_for_all [OF r] by blast
qed

end
