(* ===== verification/Argus_Verdict.thy ===== *)
theory Argus_Verdict
  imports Prelude
begin

text \<open>
  The vocabulary of the file analyser, \<open>crates/argus/src/verdict.rs\<close>: which files are analysed how
  deeply, what a finding is and which behaviour it shows, attack stages and their progression, process
  lineage, and the three labels a score is turned into: verdict, confidence label and threat maturity.
  Scores and weights are natural numbers; they stay far below \<open>2 ^ 32\<close>. Text that the code only
  displays is left out, text that it searches is modelled byte by byte.
\<close>

section \<open>Scan strategy\<close>

definition MAX_SCORE :: nat where "MAX_SCORE = 100"

datatype scan_strategy = Full_Analysis | Light_Analysis | Signature_Only | Skip_Safe | Too_Large

definition skip_safe_exts :: "string list" where
  "skip_safe_exts =
    [''log'', ''tmp'', ''bak'', ''lock'', ''cache'', ''rlib'', ''rmeta'', ''pdb'', ''ilk'', ''d'', ''o'', ''obj'',
     ''map'', ''fingerprint'', ''incremental'', ''csv'', ''tsv'', ''yaml'', ''yml'', ''toml'', ''json'', ''xml'',
     ''md'', ''txt'', ''rst'', ''ini'', ''cfg'', ''conf'', ''vault'']"

definition media_exts :: "string list" where
  "media_exts =
    [''jpg'', ''jpeg'', ''png'', ''gif'', ''bmp'', ''webp'', ''svg'', ''ico'', ''tiff'', ''mp3'', ''mp4'', ''mkv'',
     ''avi'', ''wav'', ''flac'', ''ogg'', ''webm'', ''m4a'', ''woff'', ''woff2'', ''ttf'', ''otf'', ''eot'', ''dat'',
     ''bin'', ''rom'', ''fw'', ''img'']"

definition large_exec_exts :: "string list" where
  "large_exec_exts = [''exe'', ''dll'', ''scr'', ''com'', ''sys'', ''drv'', ''msi'', ''msix'', ''appx'']"

definition full_exts :: "string list" where
  "full_exts =
    [''exe'', ''dll'', ''scr'', ''com'', ''pif'', ''sys'', ''drv'', ''bat'', ''cmd'', ''ps1'', ''vbs'', ''js'',
     ''wsh'', ''wsf'', ''reg'', ''msi'', ''msix'', ''appx'', ''zip'', ''rar'', ''7z'', ''tar'', ''gz'', ''iso'',
     ''cab'', ''doc'', ''docx'', ''docm'', ''xls'', ''xlsx'', ''xlsm'', ''ppt'', ''pptx'', ''pptm'', ''pdf'', ''lnk'',
     ''url'', ''hta'', ''inf'']"

text \<open>\<open>path.rsplit('.').next()\<close>: what follows the last dot, or the whole path.\<close>

definition dot_ext :: "string \<Rightarrow> string" where
  "dot_ext path = last (split_on CHR ''.'' path)"

definition classify :: "string \<Rightarrow> nat \<Rightarrow> scan_strategy" where
  "classify path file_size =
     (if file_size > 100 * 1024 * 1024 then Too_Large
      else
        let ext = to_lowercase (dot_ext path) in
        if ext \<in> set skip_safe_exts then Skip_Safe
        else if ext \<in> set media_exts then Signature_Only
        else if file_size > 50 * 1024 * 1024 \<and> ext \<notin> set large_exec_exts then Signature_Only
        else if ext \<in> set full_exts then Full_Analysis
        else Light_Analysis)"

section \<open>Ordered scales\<close>

datatype chain_strength = Chain_None | Chain_Weak | Chain_Moderate | Chain_Strong

datatype severity = Info | Low | Medium | High | Critical

datatype threat_maturity = Benign | Suspicious_Utility | Loader | Active_Malware | Destructive_Malware

primrec chain_rank :: "chain_strength \<Rightarrow> nat" where
  "chain_rank Chain_None = 0"
| "chain_rank Chain_Weak = 1"
| "chain_rank Chain_Moderate = 2"
| "chain_rank Chain_Strong = 3"

primrec severity_rank :: "severity \<Rightarrow> nat" where
  "severity_rank Info = 0"
| "severity_rank Low = 1"
| "severity_rank Medium = 2"
| "severity_rank High = 3"
| "severity_rank Critical = 4"

primrec maturity_rank :: "threat_maturity \<Rightarrow> nat" where
  "maturity_rank Benign = 0"
| "maturity_rank Suspicious_Utility = 1"
| "maturity_rank Loader = 2"
| "maturity_rank Active_Malware = 3"
| "maturity_rank Destructive_Malware = 4"

lemma chain_rank_inject: "chain_rank a = chain_rank b \<Longrightarrow> a = b"
  by (cases a; cases b) simp_all

lemma severity_rank_inject: "severity_rank a = severity_rank b \<Longrightarrow> a = b"
  by (cases a; cases b) simp_all

lemma maturity_rank_inject: "maturity_rank a = maturity_rank b \<Longrightarrow> a = b"
  by (cases a; cases b) simp_all

text \<open>The derived \<open>Ord\<close> instances: declaration order.\<close>

instantiation chain_strength :: linorder
begin

definition less_eq_chain_strength :: "chain_strength \<Rightarrow> chain_strength \<Rightarrow> bool" where
  "less_eq_chain_strength a b \<longleftrightarrow> chain_rank a \<le> chain_rank b"

definition less_chain_strength :: "chain_strength \<Rightarrow> chain_strength \<Rightarrow> bool" where
  "less_chain_strength a b \<longleftrightarrow> chain_rank a < chain_rank b"

instance
  by standard (auto simp: less_eq_chain_strength_def less_chain_strength_def intro: chain_rank_inject)

end

instantiation severity :: linorder
begin

definition less_eq_severity :: "severity \<Rightarrow> severity \<Rightarrow> bool" where
  "less_eq_severity a b \<longleftrightarrow> severity_rank a \<le> severity_rank b"

definition less_severity :: "severity \<Rightarrow> severity \<Rightarrow> bool" where
  "less_severity a b \<longleftrightarrow> severity_rank a < severity_rank b"

instance
  by standard (auto simp: less_eq_severity_def less_severity_def intro: severity_rank_inject)

end

instantiation threat_maturity :: linorder
begin

definition less_eq_threat_maturity :: "threat_maturity \<Rightarrow> threat_maturity \<Rightarrow> bool" where
  "less_eq_threat_maturity a b \<longleftrightarrow> maturity_rank a \<le> maturity_rank b"

definition less_threat_maturity :: "threat_maturity \<Rightarrow> threat_maturity \<Rightarrow> bool" where
  "less_threat_maturity a b \<longleftrightarrow> maturity_rank a < maturity_rank b"

instance
  by standard (auto simp: less_eq_threat_maturity_def less_threat_maturity_def intro: maturity_rank_inject)

end

section \<open>Verdicts\<close>

datatype verdict = Clean | Low_Suspicion | Potentially_Unwanted | Suspicious | High_Suspicion | Malicious

definition from_score :: "nat \<Rightarrow> verdict" where
  "from_score score =
     (if score = 0 then Clean
      else if score \<le> 25 then Low_Suspicion
      else if score \<le> 50 then Suspicious
      else if score \<le> 75 then High_Suspicion
      else Malicious)"

section \<open>Findings and the behaviour they show\<close>

datatype layer =
  Signatures | Yara_Rules | Mime_Validation | Structural_Analysis | Packer_Detection | Script_Analysis
| Ioc_Correlation | Pattern_Detection | File_Deception | Reputation | Context_Layer | Behavioral_Runtime
| Alternate_Data_Stream | Persistence_Layer

datatype behavior_tag =
  Downloader_Capability | Download_Origin_Context | Known_Malware | Packing | Entropy | Persistence
| Credential_Theft | Exfiltration | Ransomware | Injection | Evasion | Script_Abuse | C2_Communication
| Wallet_Theft | Archive_Staging | Fake_Installer | Pua

record finding =
  layer :: layer
  severity :: severity
  weight :: nat
  description :: string
  technical_detail :: "string option"

text \<open>The first needle list that hits decides.\<close>

fun first_tag :: "(string list \<times> behavior_tag) list \<Rightarrow> string \<Rightarrow> behavior_tag option" where
  "first_tag [] s = None"
| "first_tag ((needles, tag) # rest) s =
     (if list_ex (contains s) needles then Some tag else first_tag rest s)"

definition yara_categories :: "(string list \<times> behavior_tag) list" where
  "yara_categories =
    [([''exfil''], Exfiltration),
     ([''stealer'', ''credential'', ''spyware'', ''browser_hijack''], Credential_Theft),
     ([''ransomware''], Ransomware),
     ([''c2'', ''beacon'', ''backdoor''], C2_Communication),
     ([''updater'', ''fake''], Fake_Installer),
     ([''persistence''], Persistence),
     ([''evasion'', ''anti''], Evasion),
     ([''script'', ''powershell'', ''lolbin''], Script_Abuse),
     ([''crypto'', ''wallet''], Wallet_Theft),
     ([''pua'', ''adware'', ''bundleware'', ''miner''], Pua),
     ([''dropper'', ''archive''], Archive_Staging),
     ([''packed'', ''obfuscated'', ''packer''], Packing)]"

text \<open>The description searches that follow the two structural ones and the downloader.\<close>

definition description_categories :: "(string list \<times> behavior_tag) list" where
  "description_categories =
    [([''injection'', ''hollowing'', ''remote thread'', ''code injection''], Injection),
     ([''persistence'', ''currentversion'' @ [CHR 0x5C] @ ''run'', ''scheduled task'', ''autorun''], Persistence),
     ([''credential'', ''login data'', ''dpapi'', ''mimikatz'', ''lsass''], Credential_Theft),
     ([''exfiltrat'', ''webhook'', ''telegram bot''], Exfiltration),
     ([''ransom'', ''shadow cop'', ''vssadmin''], Ransomware),
     ([''anti-debug'', ''anti-analysis'', ''sandbox'', ''virtual machine detect''], Evasion),
     ([''adware'', ''bundleware'', ''browser hijack'', ''toolbar'', ''potentially unwanted'', ''pua'',
       ''crypto miner''], Pua)]"

definition is_downloader :: "string \<Rightarrow> bool" where
  "is_downloader desc \<longleftrightarrow>
     (list_ex (contains desc) [''urldownload'', ''internetopen'', ''winhttp'']
      \<or> contains desc ''download'' \<and> contains desc ''remote'')
     \<and> \<not> contains desc ''downloaded from'' \<and> \<not> contains desc ''download origin''"

definition description_tag :: "layer \<Rightarrow> string \<Rightarrow> behavior_tag option" where
  "description_tag ly desc =
     (if ly = Structural_Analysis \<and> list_ex (contains desc) [''entropy'', ''encrypted'', ''near-random'']
      then Some Entropy
      else if ly = Structural_Analysis \<and> list_ex (contains desc) [''packed'', ''packer''] then Some Packing
      else if is_downloader desc then Some Downloader_Capability
      else first_tag description_categories desc)"

definition behavior_tag_of :: "finding \<Rightarrow> behavior_tag option" where
  "behavior_tag_of f =
     (if layer f = Context_Layer then Some Download_Origin_Context
      else if layer f = Packer_Detection then Some Packing
      else if layer f = Ioc_Correlation then Some Known_Malware
      else
        (case (if layer f = Yara_Rules
               then Option.bind (technical_detail f) (\<lambda>d. first_tag yara_categories (to_lowercase d))
               else None) of
           Some tag \<Rightarrow> Some tag
         | None \<Rightarrow> description_tag (layer f) (to_lowercase (description f))))"

section \<open>Attack stages\<close>

datatype attack_stage =
  Initial_Access | Execution | Stage_Persistence | Defense_Evasion | Credential_Access | Collection
| Stage_Exfiltration | Command_And_Control | Impact

primrec ordinal :: "attack_stage \<Rightarrow> nat" where
  "ordinal Initial_Access = 0"
| "ordinal Execution = 1"
| "ordinal Stage_Persistence = 2"
| "ordinal Defense_Evasion = 3"
| "ordinal Credential_Access = 4"
| "ordinal Collection = 5"
| "ordinal Stage_Exfiltration = 6"
| "ordinal Command_And_Control = 7"
| "ordinal Impact = 8"

primrec attack_stage_of :: "behavior_tag \<Rightarrow> attack_stage" where
  "attack_stage_of Downloader_Capability = Initial_Access"
| "attack_stage_of Download_Origin_Context = Initial_Access"
| "attack_stage_of Known_Malware = Initial_Access"
| "attack_stage_of Fake_Installer = Initial_Access"
| "attack_stage_of Archive_Staging = Initial_Access"
| "attack_stage_of Script_Abuse = Execution"
| "attack_stage_of Persistence = Stage_Persistence"
| "attack_stage_of Evasion = Defense_Evasion"
| "attack_stage_of Packing = Defense_Evasion"
| "attack_stage_of Entropy = Defense_Evasion"
| "attack_stage_of Credential_Theft = Credential_Access"
| "attack_stage_of Wallet_Theft = Credential_Access"
| "attack_stage_of Injection = Collection"
| "attack_stage_of Exfiltration = Stage_Exfiltration"
| "attack_stage_of C2_Communication = Command_And_Control"
| "attack_stage_of Ransomware = Impact"
| "attack_stage_of Pua = Execution"

text \<open>The loop over \<open>stages.windows(2)\<close>.\<close>

fun count_transitions :: "nat list \<Rightarrow> nat" where
  "count_transitions (a # b # rest) =
     (if 1 \<le> b - a \<and> b - a \<le> 4 then 1 else 0) + count_transitions (b # rest)"
| "count_transitions _ = 0"

definition attack_progression_score :: "behavior_tag list \<Rightarrow> nat" where
  "attack_progression_score tags =
     (let stages = remdups_adj (sort (map (\<lambda>t. ordinal (attack_stage_of t))
                     (filter (\<lambda>t. t \<noteq> Download_Origin_Context) tags))) in
      if length stages \<le> 1 then 0 else min (count_transitions stages) 3)"

section \<open>Process lineage\<close>

record process_lineage_hint =
  parent :: "string option"
  process :: "string option"

definition any_in :: "string list \<Rightarrow> string \<Rightarrow> bool" where
  "any_in needles s \<longleftrightarrow> list_ex (contains s) needles"

definition suspicion_score :: "process_lineage_hint \<Rightarrow> nat" where
  "suspicion_score h =
     (let parent = (case parent h of Some s \<Rightarrow> to_lowercase s | None \<Rightarrow> []);
          child = (case process h of Some s \<Rightarrow> to_lowercase s | None \<Rightarrow> []) in
      if parent = [] then 0
      else if any_in [''winword.exe'', ''excel.exe'', ''powerpnt.exe'', ''outlook.exe'', ''msaccess.exe''] parent then
        (if any_in [''cmd'', ''powershell'', ''wscript'', ''cscript'', ''mshta'', ''certutil''] child then 15 else 8)
      else if any_in [''chrome.exe'', ''firefox.exe'', ''msedge.exe'', ''brave.exe'', ''opera.exe''] parent
           \<and> any_in [''temp'', ''appdata''] child then 10
      else if contains parent ''explorer.exe'' then 0
      else if any_in [''steam.exe'', ''epicgameslauncher'', ''riotclient''] parent then 0
      else if any_in [''python.exe'', ''pythonw.exe'', ''node.exe'', ''java.exe''] parent
           \<and> any_in [''cmd'', ''powershell''] child then 5
      else 0)"

section \<open>Convergence and the labels drawn from it\<close>

record convergence_info =
  distinct_behaviors :: nat
  distinct_layers :: nat
  chain_strength :: chain_strength
  chain_names :: "string list"
  progression_score :: nat

definition no_convergence :: convergence_info where
  "no_convergence = \<lparr>distinct_behaviors = 0, distinct_layers = 0, chain_strength = Chain_None,
     chain_names = [], progression_score = 0\<rparr>"

datatype confidence_label = Trusted | Normal | Unusual | Label_Suspicious | High_Risk | Label_Malicious

definition strong_convergence :: "convergence_info \<Rightarrow> bool" where
  "strong_convergence c \<longleftrightarrow>
     chain_strength c \<ge> Chain_Strong
     \<or> (chain_strength c \<ge> Chain_Moderate \<and> distinct_behaviors c \<ge> 3)
     \<or> (chain_strength c \<ge> Chain_Moderate \<and> progression_score c \<ge> 2)"

definition label_from_convergence ::
    "nat \<Rightarrow> bool \<Rightarrow> bool \<Rightarrow> bool \<Rightarrow> convergence_info \<Rightarrow> confidence_label" where
  "label_from_convergence score has_signer has_reputation installer c =
     (let has_trust = (has_signer \<or> has_reputation);
          has_strong_trust = (has_signer \<and> has_reputation);
          chain = chain_strength c;
          strong = strong_convergence c in
      if score = 0 then (if has_trust then Trusted else Normal)
      else if score \<le> 25 \<and> has_strong_trust \<and> installer then Trusted
      else if score \<le> 15 then (if has_trust then Trusted else Unusual)
      else if score \<le> 40 then (if has_trust then Normal else Unusual)
      else if score \<le> 60 \<and> installer \<and> chain = Chain_None then Unusual
      else if score \<le> 60 \<and> has_trust \<and> chain = Chain_None then Unusual
      else if score \<le> 75 then (if strong then High_Risk else Label_Suspicious)
      else if score \<le> 90 then
        (if chain \<le> Chain_Weak \<and> distinct_behaviors c \<le> 1 then Label_Suspicious else High_Risk)
      else if strong then Label_Malicious
      else if distinct_layers c \<ge> 3 \<and> chain \<ge> Chain_Moderate then Label_Malicious
      else High_Risk)"

definition label_from_context :: "nat \<Rightarrow> bool \<Rightarrow> bool \<Rightarrow> bool \<Rightarrow> confidence_label" where
  "label_from_context score has_signer has_reputation installer =
     label_from_convergence score has_signer has_reputation installer no_convergence"

definition maturity_from_convergence :: "convergence_info \<Rightarrow> nat \<Rightarrow> threat_maturity" where
  "maturity_from_convergence c score =
     (if score = 0 then Benign
      else if ''ransomware'' \<in> set (chain_names c) then Destructive_Malware
      else if chain_strength c \<ge> Chain_Strong then Active_Malware
      else if chain_strength c \<ge> Chain_Moderate then Loader
      else if score \<ge> 20 then Suspicious_Utility
      else Benign)"

end
