(* ===== verification/Argus_Framework.thy ===== *)
theory Argus_Framework
  imports Argus_Verdict
begin

text \<open>
  Installer frameworks, \<open>crates/argus/src/layers/framework/mod.rs\<close>: the evidence model, its one
  constructor \<open>build\<close>, the dispatcher \<open>detect\<close> and the legacy substring hints. What the three detectors
  for NSIS, Inno Setup and WiX find in a parsed PE file is an argument of the dispatcher: each detector
  hands its claim to \<open>build\<close>, and the theorems hold for every claim.
\<close>

section \<open>Evidence\<close>

datatype framework_kind =
  Nsis | Inno_Setup | Wix_Burn | Msi_Ole2 | Install_Shield | Advanced_Installer | Electron_Bundle
| Go_Static | Rust_Static | Generic_Framework | Unknown_Framework

datatype evidence_source =
  Pe_Headers | Section_Table | Resource | Overlay | Imports | Version_Info | Embedded_Archive
| Text_Hint | Filename

definition is_structural :: "evidence_source \<Rightarrow> bool" where
  "is_structural s \<longleftrightarrow> \<not> (s = Text_Hint \<or> s = Filename)"

datatype confidence = Unknown_Confidence | Weak_Hint | Corroborated | Structural

primrec confidence_rank :: "confidence \<Rightarrow> nat" where
  "confidence_rank Unknown_Confidence = 0"
| "confidence_rank Weak_Hint = 1"
| "confidence_rank Corroborated = 2"
| "confidence_rank Structural = 3"

lemma confidence_rank_inject: "confidence_rank a = confidence_rank b \<Longrightarrow> a = b"
  by (cases a; cases b) simp_all

instantiation confidence :: linorder
begin

definition less_eq_confidence :: "confidence \<Rightarrow> confidence \<Rightarrow> bool" where
  "less_eq_confidence a b \<longleftrightarrow> confidence_rank a \<le> confidence_rank b"

definition less_confidence :: "confidence \<Rightarrow> confidence \<Rightarrow> bool" where
  "less_confidence a b \<longleftrightarrow> confidence_rank a < confidence_rank b"

instance
  by standard (auto simp: less_eq_confidence_def less_confidence_def intro: confidence_rank_inject)

end

record evidence_item =
  source :: evidence_source
  offset :: "nat option"
  ev_detail :: string

text \<open>A detector's own warning, or the one \<open>build\<close> adds when it downgrades a claim.\<close>

datatype framework_warning = Detector_Warning string | Downgraded confidence framework_kind

record framework_detection =
  kind :: framework_kind
  fd_confidence :: confidence
  evidence :: "evidence_item list"
  warnings :: "framework_warning list"
  mitigation_safe :: bool

definition build ::
    "framework_kind \<Rightarrow> confidence \<Rightarrow> evidence_item list \<Rightarrow> framework_warning list \<Rightarrow> framework_detection" where
  "build k claimed ev ws =
     (let has_structural = list_ex (\<lambda>e. is_structural (source e)) ev;
          downgrade = (k \<noteq> Unknown_Framework \<and> claimed \<ge> Corroborated \<and> \<not> has_structural);
          conf = (if k = Unknown_Framework then Unknown_Confidence
                  else if downgrade then Weak_Hint else claimed) in
      \<lparr>kind = k, fd_confidence = conf, evidence = ev,
       warnings = (if downgrade then ws @ [Downgraded claimed k] else ws),
       mitigation_safe = (conf \<ge> Corroborated \<and> has_structural)\<rparr>)"

definition unknown_detection :: framework_detection where
  "unknown_detection =
    \<lparr>kind = Unknown_Framework, fd_confidence = Unknown_Confidence, evidence = [], warnings = [],
     mitigation_safe = False\<rparr>"

definition append_warnings :: "framework_warning list \<Rightarrow> framework_detection \<Rightarrow> framework_detection" where
  "append_warnings extra d = d\<lparr>warnings := warnings d @ extra\<rparr>"

section \<open>Hints\<close>

definition bytes :: "string \<Rightarrow> u8 list" where
  "bytes s = map (\<lambda>c. of_char c) s"

definition is_pe :: "u8 list \<Rightarrow> bool" where
  "is_pe data \<longleftrightarrow> length data \<ge> 2 \<and> data ! 0 = 0x4D \<and> data ! 1 = 0x5A"

definition is_ole2 :: "u8 list \<Rightarrow> bool" where
  "is_ole2 data \<longleftrightarrow>
     length data \<ge> 8 \<and> slice 0 8 data = [0xD0, 0xCF, 0x11, 0xE0, 0xA1, 0xB1, 0x1A, 0xE1]"

definition detect_msi :: "string \<Rightarrow> framework_detection" where
  "detect_msi path =
     (let lower = to_lowercase path in
      if suffix ''.msi'' lower \<or> suffix ''.msp'' lower then
        build Msi_Ole2 Weak_Hint
          [\<lparr>source = Filename, offset = None,
            ev_detail = ''MSI/MSP extension on an OLE2 compound file''\<rparr>] []
      else unknown_detection)"

definition legacy_framework_hint :: "u8 list \<Rightarrow> string \<Rightarrow> framework_kind option" where
  "legacy_framework_hint data path =
     (let has = (\<lambda>needle. contains data (bytes needle)) in
      if \<not> is_pe data then None
      else if has ''InstallShiel'' then Some Install_Shield
      else if has ''Advanced Installer'' then Some Advanced_Installer
      else if has ''ASAR'' \<or> has ''electron.asar'' \<or> has ''Electron Framework'' \<or> has ''electron.exe''
        then Some Electron_Bundle
      else if has ''nw.exe'' \<or> has ''nwjs'' \<or> (has ''tauri'' \<and> has ''webview'')
          \<or> (has ''Squirrel'' \<and> has ''Update.exe'')
          \<or> has ''Qt Installer Framework'' \<or> has ''QtInstallerFramework''
          \<or> has ''flutter_engine'' \<or> has ''FlutterDesktop''
          \<or> has ''UnityPlayer'' \<or> has ''Unity Technologies''
          \<or> has ''UnrealEngine'' \<or> has ''EpicGames''
        then Some Generic_Framework
      else if (has ''Go build ID:'' \<or> has ''runtime.main'') \<and> length data > 3000000 then Some Go_Static
      else if (has ''rust_begin_unwind'' \<or> has ''rust_panic'') \<and> length data > 2000000 then Some Rust_Static
      else if any_in [''setup'', ''install'', ''installer'', ''update'', ''updater'', ''_setup'', ''-setup'']
             (to_lowercase path)
          \<and> length data > 2000000
          \<and> (has ''uninstall'' \<or> has ''Uninstall'' \<or> has ''.cab'' \<or> has ''Cabinet'' \<or> has ''SFX''
             \<or> has ''7-Zip'' \<or> has ''setup.ico'')
        then Some Generic_Framework
      else None)"

definition legacy_or_unknown :: "u8 list \<Rightarrow> string \<Rightarrow> framework_warning list \<Rightarrow> framework_detection" where
  "legacy_or_unknown data path ws =
     (case legacy_framework_hint data path of
        Some k \<Rightarrow>
          build k Weak_Hint
            [\<lparr>source = Text_Hint, offset = None, ev_detail = ''legacy unanchored substring marker matched''\<rparr>] ws
      | None \<Rightarrow> append_warnings ws unknown_detection)"

section \<open>The dispatcher\<close>

text \<open>What a detector passes to \<open>build\<close>.\<close>

record framework_claim =
  claim_kind :: framework_kind
  claim_confidence :: confidence
  claim_evidence :: "evidence_item list"
  claim_warnings :: "framework_warning list"

definition detected :: "framework_claim \<Rightarrow> framework_detection" where
  "detected c = build (claim_kind c) (claim_confidence c) (claim_evidence c) (claim_warnings c)"

text \<open>\<open>claims\<close> are the claims of the detectors, in their order, for a file whose headers parse, and
  \<open>None\<close> when they do not.\<close>

definition detect :: "framework_claim list option \<Rightarrow> u8 list \<Rightarrow> string \<Rightarrow> framework_detection" where
  "detect claims data path =
     (if is_ole2 data \<and> \<not> is_pe data then detect_msi path
      else if \<not> is_pe data then unknown_detection
      else
        (case claims of
           None \<Rightarrow> legacy_or_unknown data path []
         | Some cs \<Rightarrow>
             let results = map detected cs;
                 all_warnings = concat (map warnings results) in
             (case find (\<lambda>r. fd_confidence r \<ge> Corroborated) results of
                Some winner \<Rightarrow> append_warnings all_warnings winner
              | None \<Rightarrow>
                  (case find (\<lambda>r. fd_confidence r = Weak_Hint) results of
                     Some hint \<Rightarrow> append_warnings all_warnings hint
                   | None \<Rightarrow> legacy_or_unknown data path all_warnings))))"

section \<open>The centralized invariant\<close>

text \<open>A detection that may reduce suspicion rests on structural evidence, and its confidence is one
  the evidence carries.\<close>

definition detection_ok :: "framework_detection \<Rightarrow> bool" where
  "detection_ok d \<longleftrightarrow>
     mitigation_safe d =
       (fd_confidence d \<ge> Corroborated \<and> list_ex (\<lambda>e. is_structural (source e)) (evidence d)) \<and>
     (fd_confidence d \<ge> Corroborated \<longrightarrow>
        kind d \<noteq> Unknown_Framework \<and> list_ex (\<lambda>e. is_structural (source e)) (evidence d))"

lemma detection_ok_build [simp]: "detection_ok (build k c ev ws)"
  by (auto simp: detection_ok_def build_def Let_def less_eq_confidence_def)

lemma detection_ok_unknown [simp]: "detection_ok unknown_detection"
  by (simp add: detection_ok_def unknown_detection_def less_eq_confidence_def)

lemma detection_ok_append [simp]: "detection_ok (append_warnings ws d) = detection_ok d"
  by (simp add: detection_ok_def append_warnings_def)

lemma detection_ok_legacy [simp]: "detection_ok (legacy_or_unknown data path ws)"
  by (simp add: legacy_or_unknown_def split: option.split)

lemma detect_ok: "detection_ok (detect claims data path)"
proof -
  have "detection_ok r" if "find P (map detected cs) = Some r" for P r cs
    using that by (auto simp: find_Some_iff detected_def)
  then show ?thesis
    by (simp add: detect_def detect_msi_def Let_def split: option.split)
qed

lemma weak_build [simp]: "\<not> fd_confidence (build k Weak_Hint ev ws) \<ge> Corroborated"
  by (simp add: build_def Let_def less_eq_confidence_def)

lemma weak_legacy: "\<not> fd_confidence (legacy_or_unknown data path ws) \<ge> Corroborated"
  by (auto simp: legacy_or_unknown_def append_warnings_def unknown_detection_def less_eq_confidence_def
      build_def Let_def split: option.split)

text \<open>
Text markers and file names never authorize leniency: whatever the detectors claim, a detection is
mitigation-safe only with structural evidence at corroborated confidence, and a file all of whose
evidence is textual or taken from its name, or whose headers do not parse, stays below corroborated.
\<close>

theorem detect_needs_structure:
  "let d = detect claims data path in
   (mitigation_safe d \<longrightarrow> is_pe data \<and> fd_confidence d \<ge> Corroborated \<and> kind d \<noteq> Unknown_Framework \<and>
      (\<exists>e \<in> set (evidence d). source e \<noteq> Text_Hint \<and> source e \<noteq> Filename)) \<and>
   (fd_confidence d \<ge> Corroborated \<longrightarrow> mitigation_safe d) \<and>
   (claims = None \<longrightarrow> \<not> mitigation_safe d)"
proof -
  let ?d = "detect claims data path"
  note ok = detect_ok [of claims data path]
  have pe: "is_pe data" if "fd_confidence ?d \<ge> Corroborated"
    using that by (auto simp: detect_def detect_msi_def unknown_detection_def less_eq_confidence_def
        build_def Let_def split: if_splits)
  have none: "\<not> fd_confidence ?d \<ge> Corroborated" if "claims = None"
    using that weak_legacy by (auto simp: detect_def detect_msi_def unknown_detection_def
        less_eq_confidence_def build_def Let_def split: if_splits)
  show ?thesis
    using ok pe none by (auto simp: detection_ok_def list_ex_iff is_structural_def Let_def)
qed

definition marker_claim :: framework_claim where
  "marker_claim =
    \<lparr>claim_kind = Nsis, claim_confidence = Structural,
     claim_evidence = [\<lparr>source = Text_Hint, offset = Some 64, ev_detail = ''Nullsoft Inst''\<rparr>],
     claim_warnings = []\<rparr>"

definition overlay_claim :: framework_claim where
  "overlay_claim = marker_claim\<lparr>claim_evidence :=
     [\<lparr>source = Overlay, offset = Some 512, ev_detail = ''NSIS first header''\<rparr>]\<rparr>"

theorem detect_needs_structure_witness:
  "\<not> mitigation_safe (detect (Some [marker_claim]) [0x4D, 0x5A, 0x90] ''x.exe'') \<and>
   mitigation_safe (detect (Some [marker_claim, overlay_claim]) [0x4D, 0x5A, 0x90] ''x.exe'')"
proof -
  have e: "\<not> list_ex (\<lambda>e. source e \<noteq> Text_Hint \<and> source e \<noteq> Filename)
      (evidence (detect (Some [marker_claim]) [0x4D, 0x5A, 0x90] ''x.exe''))"
    "fd_confidence (detect (Some [marker_claim, overlay_claim]) [0x4D, 0x5A, 0x90] ''x.exe'') \<ge> Corroborated"
    by code_simp+
  from detect_needs_structure [of "Some [marker_claim]" "[0x4D, 0x5A, 0x90]" "''x.exe''"]
    detect_needs_structure [of "Some [marker_claim, overlay_claim]" "[0x4D, 0x5A, 0x90]" "''x.exe''"] e
  show ?thesis by (auto simp: Let_def list_ex_iff)
qed

end
