(* ===== verification/Argus_Float.thy ===== *)
theory Argus_Float
  imports Prelude
begin

text \<open>
  The binary64 arithmetic the category caps of \<open>crates/argus/src/engine.rs\<close> use: a quotient of two
  integers in (0, 1), its product with an integer and the floor of the product, each operation rounded
  to the nearest 53-bit significand, ties to even. A value is a significand and the number of
  fraction bits.
\<close>

definition round_div :: "nat \<Rightarrow> nat \<Rightarrow> nat" where
  "round_div a b =
     (let q = a div b; r = a mod b in if 2 * r > b \<or> 2 * r = b \<and> odd q then q + 1 else q)"

text \<open>The number of fraction bits that gives \<open>p / q\<close> a 53-bit significand.\<close>

function fraction_bits :: "nat \<Rightarrow> nat \<Rightarrow> nat \<Rightarrow> nat" where
  "fraction_bits k p q =
     (if p = 0 \<or> 4503599627370496 * q \<le> p * 2 ^ k then k else fraction_bits (k + 1) p q)"
  by auto
termination
proof (relation "measure (\<lambda>(k, p, q). 4503599627370496 * q - p * 2 ^ k)")
  fix k p q :: nat
  assume "\<not> (p = 0 \<or> 4503599627370496 * q \<le> p * 2 ^ k)"
  then have "p * 2 ^ k < 4503599627370496 * q" "p * 2 ^ k < p * 2 ^ (k + 1)" by auto
  then show "((k + 1, p, q), k, p, q) \<in> measure (\<lambda>(k, p, q). 4503599627370496 * q - p * 2 ^ k)"
    by (simp add: diff_less_mono2)
qed simp

text \<open>The number of low bits to drop so that the rest has 53 bits.\<close>

function excess_bits :: "nat \<Rightarrow> nat \<Rightarrow> nat" where
  "excess_bits s n = (if n < 9007199254740992 * 2 ^ s then s else excess_bits (s + 1) n)"
  by auto
termination
proof (relation "measure (\<lambda>(s, n). Suc n - 2 ^ s)")
  fix s n :: nat
  assume "\<not> n < 9007199254740992 * 2 ^ s"
  then have "(2 :: nat) ^ s < Suc n" "(2 :: nat) ^ s < 2 ^ (s + 1)" by auto
  then show "((s + 1, n), s, n) \<in> measure (\<lambda>(s, n). Suc n - 2 ^ s)"
    by (simp add: diff_less_mono2)
qed simp

declare fraction_bits.simps [simp del] excess_bits.simps [simp del]

definition f64_ratio :: "nat \<Rightarrow> nat \<Rightarrow> nat \<times> nat" where
  "f64_ratio p q = (let k = fraction_bits 53 p q in (round_div (p * 2 ^ k) q, k))"

definition f64_scale :: "nat \<Rightarrow> nat \<times> nat \<Rightarrow> nat \<times> nat" where
  "f64_scale w r = (let n = w * fst r; s = excess_bits 0 n in (round_div n (2 ^ s), snd r - s))"

definition f64_floor :: "nat \<times> nat \<Rightarrow> nat" where
  "f64_floor v = fst v div 2 ^ snd v"

text \<open>\<open>(w as f64 * (cap as f64 / tot as f64)).floor() as u32\<close>.\<close>

definition scaled_weight :: "nat \<Rightarrow> nat \<Rightarrow> nat \<Rightarrow> nat" where
  "scaled_weight cap tot w = f64_floor (f64_scale w (f64_ratio cap tot))"

section \<open>Rounding errors\<close>

lemma round_div_le:
  assumes "0 < b"
  shows "2 * (round_div a b * b) \<le> 2 * a + b"
proof -
  define q r where "q = a div b" and "r = a mod b"
  have a: "a = q * b + r" by (simp add: q_def r_def)
  have "2 * ((q + 1) * b) \<le> 2 * a + b" if "b \<le> 2 * r" using that by (simp add: a)
  moreover have "2 * (q * b) \<le> 2 * a + b" by (simp add: a)
  ultimately show ?thesis unfolding round_div_def Let_def q_def [symmetric] r_def [symmetric] by auto
qed

lemma fraction_bits_ge: "0 < p \<Longrightarrow> 4503599627370496 * q \<le> p * 2 ^ fraction_bits k p q"
  by (induction k p q rule: fraction_bits.induct) (subst fraction_bits.simps; auto)

lemma excess_bits_ge:
  "excess_bits s n = s \<or> 4503599627370496 * 2 ^ excess_bits s n \<le> n"
proof (induction s n rule: excess_bits.induct)
  case (1 s n)
  show ?case
  proof (cases "n < 9007199254740992 * 2 ^ s")
    case True
    then show ?thesis by (subst excess_bits.simps) simp
  next
    case False
    then have e: "excess_bits s n = excess_bits (Suc s) n" by (subst excess_bits.simps) simp
    have "4503599627370496 * 2 ^ Suc s \<le> n" using False by simp
    then show ?thesis using 1 False by (auto simp: e)
  qed
qed

lemma f64_ratio_le:
  assumes "0 < p" "0 < q"
  shows "9007199254740992 * (fst (f64_ratio p q) * q) \<le> 9007199254740993 * (p * 2 ^ snd (f64_ratio p q))"
proof -
  let ?k = "fraction_bits 53 p q"
  have "2 * (round_div (p * 2 ^ ?k) q * q) \<le> 2 * (p * 2 ^ ?k) + q"
    by (rule round_div_le [OF assms(2)])
  then show ?thesis
    using fraction_bits_ge [OF assms(1), of q 53] by (simp add: f64_ratio_def Let_def)
qed

lemma f64_scale_le:
  "9007199254740992 * (fst (f64_scale w r) * 2 ^ snd r) \<le> 9007199254740993 * (w * fst r * 2 ^ snd (f64_scale w r))"
proof -
  let ?n = "w * fst r" let ?s = "excess_bits 0 ?n" let ?m = "round_div ?n (2 ^ ?s)"
  have le: "9007199254740992 * (?m * 2 ^ ?s) \<le> 9007199254740993 * ?n"
  proof (cases "?s = 0")
    case True
    then show ?thesis by (simp add: round_div_def)
  next
    case False
    have "4503599627370496 * 2 ^ ?s \<le> ?n" using excess_bits_ge [of 0 ?n] False by simp
    moreover have "2 * (?m * 2 ^ ?s) \<le> 2 * ?n + 2 ^ ?s" by (rule round_div_le) simp
    ultimately show ?thesis by linarith
  qed
  have "(2 :: nat) ^ snd r \<le> 2 ^ (?s + (snd r - ?s))" by (rule power_increasing) simp_all
  then have "9007199254740992 * (?m * 2 ^ snd r) \<le> 9007199254740992 * (?m * 2 ^ ?s) * 2 ^ (snd r - ?s)"
    by (simp add: power_add)
  also have "\<dots> \<le> 9007199254740993 * ?n * 2 ^ (snd r - ?s)"
    using le by (rule mult_right_mono) simp
  finally show ?thesis by (simp add: f64_scale_def Let_def mult.assoc)
qed

text \<open>The rounded product exceeds the exact one by less than a relative \<open>2 ^ -51\<close>.\<close>

lemma scaled_weight_le:
  assumes "0 < cap" "0 < tot"
  shows "81129638414606681695789005144064 * (scaled_weight cap tot w * tot)
    \<le> 81129638414606699710187514626049 * (w * cap)"
proof -
  define r where "r = f64_ratio cap tot"
  define v where "v = f64_scale w r"
  let ?A = "9007199254740992 :: nat" and ?B = "9007199254740993 :: nat"
  let ?f = "f64_floor v"
  have fl: "?f * 2 ^ snd v \<le> fst v" by (simp add: f64_floor_def)
  have v: "?A * (fst v * 2 ^ snd r) \<le> ?B * (w * fst r * 2 ^ snd v)"
    unfolding v_def by (rule f64_scale_le)
  have q: "?A * (fst r * tot) \<le> ?B * (cap * 2 ^ snd r)"
    unfolding r_def by (rule f64_ratio_le [OF assms])
  have "?A * ?A * (?f * tot) * (2 ^ snd v * 2 ^ snd r) = ?A * (?A * (?f * 2 ^ snd v * 2 ^ snd r) * tot)"
    by (simp add: ac_simps)
  also have "\<dots> \<le> ?A * (?A * (fst v * 2 ^ snd r) * tot)"
    using fl by (intro mult_left_mono mult_right_mono) simp_all
  also have "\<dots> \<le> ?A * (?B * (w * fst r * 2 ^ snd v) * tot)"
    using v by (intro mult_left_mono mult_right_mono) simp_all
  also have "\<dots> = ?B * (w * 2 ^ snd v) * (?A * (fst r * tot))"
    by (simp add: ac_simps)
  also have "\<dots> \<le> ?B * (w * 2 ^ snd v) * (?B * (cap * 2 ^ snd r))"
    using q by (rule mult_left_mono) simp
  also have "\<dots> = ?B * ?B * (w * cap) * (2 ^ snd v * 2 ^ snd r)"
    by (simp add: ac_simps)
  finally have "?A * ?A * (?f * tot) * (2 ^ snd v * 2 ^ snd r) \<le> ?B * ?B * (w * cap) * (2 ^ snd v * 2 ^ snd r)" .
  then have "?A * ?A * (?f * tot) \<le> ?B * ?B * (w * cap)"
    by (simp only: mult_le_cancel2) simp
  then show ?thesis by (simp add: scaled_weight_def r_def v_def)
qed

text \<open>The sum of the scaled weights keeps the cap, and no weight rises.\<close>

lemma scaled_weights_sum:
  assumes "0 < cap" "cap < 2 ^ 50" "sum_list ws = tot" "0 < tot"
  shows "sum_list (map (scaled_weight cap tot) ws) \<le> cap"
proof -
  let ?C = "81129638414606681695789005144064 :: nat" and ?D = "81129638414606699710187514626049 :: nat"
  have "?C * (sum_list (map (scaled_weight cap tot) us) * tot) \<le> ?D * (sum_list us * cap)" for us
  proof (induction us)
    case (Cons u us)
    then show ?case
      using scaled_weight_le [OF assms(1,4), of u] by (simp add: algebra_simps)
  qed simp
  from this [of ws] have "(?C * sum_list (map (scaled_weight cap tot) ws)) * tot \<le> (?D * cap) * tot"
    using assms(3) by (simp add: ac_simps)
  then have "?C * sum_list (map (scaled_weight cap tot) ws) \<le> ?D * cap"
    using assms(4) by (simp only: mult_le_cancel2)
  moreover have "?D * cap < ?C * (cap + 1)" using assms(2) by simp
  ultimately have "?C * sum_list (map (scaled_weight cap tot) ws) < ?C * (cap + 1)" by linarith
  then show ?thesis by simp
qed

lemma scaled_weight_mono:
  assumes "0 < cap" "cap < tot" "tot < 2 ^ 50"
  shows "scaled_weight cap tot w \<le> w"
proof -
  let ?C = "81129638414606681695789005144064 :: nat" and ?D = "81129638414606699710187514626049 :: nat"
  obtain d where d: "tot = Suc d" using assms(2) by (cases tot) auto
  have "?D * d \<le> ?C * Suc d" using assms(3) d by simp
  then have "w * (?D * d) \<le> w * (?C * Suc d)" by (rule mult_left_mono) simp
  have "?C * (scaled_weight cap tot w * tot) \<le> ?D * (w * cap)"
    using scaled_weight_le [of cap tot w] assms by simp
  also have "\<dots> \<le> ?D * (w * d)" using assms(2) d by (intro mult_left_mono) simp_all
  also have "\<dots> \<le> ?C * (w * tot)"
    using \<open>w * (?D * d) \<le> w * (?C * Suc d)\<close> d by (simp add: ac_simps)
  finally have "?C * (scaled_weight cap tot w * tot) \<le> ?C * (w * tot)" .
  then have "scaled_weight cap tot w * tot \<le> w * tot" by (simp only: nat_mult_le_cancel1)
  then show ?thesis using assms(2) by (simp only: mult_le_cancel2)
qed

end
