(* ===== verification/Argus_Score.thy ===== *)
theory Argus_Score
  imports Argus_Framework Argus_Float Std_Text
begin

text \<open>
  Scoring, \<open>crates/argus/src/engine.rs\<close>: the chains behind a confidence label, deduplication, the
  installer-framework mitigation, the category caps and \<open>aggregate_score\<close>. \<open>HashSet\<close>s are duplicate-free
  lists, used only for membership, size and order-free scores. Sums of weights are exact: they stay
  below \<open>2 ^ 32\<close>.
\<close>

definition total_weight :: "finding list \<Rightarrow> nat" where
  "total_weight fs = sum_list (map weight fs)"

text \<open>\<open>sort_by(|a, b| b.weight.cmp(&a.weight))\<close>: stable, heaviest first.\<close>

definition sort_by_weight :: "finding list \<Rightarrow> finding list" where
  "sort_by_weight fs = sort_key (\<lambda>f. - int (weight f)) fs"

section \<open>Convergence\<close>

definition active_tags :: "finding list \<Rightarrow> behavior_tag list" where
  "active_tags fs =
     remdups (filter (\<lambda>t. t \<noteq> Download_Origin_Context)
       (List.map_filter behavior_tag_of (filter (\<lambda>f. weight f > 0) fs)))"

definition chains_of :: "behavior_tag list \<Rightarrow> (string \<times> chain_strength) list" where
  "chains_of tags =
     (let has = (\<lambda>t. t \<in> set tags); chain = (\<lambda>b n s. if b then [(n, s)] else []) in
      chain (has Known_Malware) ''known_malware_ioc'' Chain_Strong
      @ chain (has Credential_Theft \<and> has Exfiltration) ''stealer'' Chain_Strong
      @ chain (has Ransomware \<and> (has Injection \<or> has Persistence)) ''ransomware'' Chain_Strong
      @ chain (has Persistence \<and> has C2_Communication) ''backdoor'' Chain_Strong
      @ chain (has Wallet_Theft \<and> (has Exfiltration \<or> has Credential_Theft)) ''crypto_stealer'' Chain_Strong
      @ chain (has Fake_Installer \<and> (has Persistence \<or> has Downloader_Capability))
          ''fake_installer'' Chain_Moderate
      @ chain (has Script_Abuse \<and> (has Downloader_Capability \<or> has C2_Communication))
          ''script_malware'' Chain_Moderate
      @ chain (has Downloader_Capability \<and> has Archive_Staging \<and> has Evasion) ''loader'' Chain_Moderate
      @ chain (has Persistence \<and> has Downloader_Capability) ''persistent_downloader'' Chain_Moderate
      @ chain (has Downloader_Capability \<and> length tags = 1) ''downloader_only'' Chain_Weak
      @ chain (has Packing \<and> has Entropy \<and> length tags \<le> 2) ''packed_only'' Chain_Weak)"

definition compute_convergence :: "finding list \<Rightarrow> convergence_info" where
  "compute_convergence fs =
     (let tags = active_tags fs;
          chains = chains_of tags in
      \<lparr>distinct_behaviors = length tags,
       distinct_layers = length (remdups (map layer (filter (\<lambda>f. weight f > 0) fs))),
       chain_strength = fold max (map snd chains) Chain_None,
       chain_names = map fst (filter (\<lambda>(_, s). s \<ge> Chain_Moderate) chains),
       progression_score = attack_progression_score tags\<rparr>)"

section \<open>Deduplication\<close>

definition zeroed :: "finding \<Rightarrow> finding" where
  "zeroed f = f\<lparr>weight := 0, severity := if severity f > Info then Info else severity f\<rparr>"

fun dedup_pass :: "(behavior_tag \<times> layer) set \<Rightarrow> finding list \<Rightarrow> finding list" where
  "dedup_pass seen [] = []"
| "dedup_pass seen (f # fs) =
     (case behavior_tag_of f of
        None \<Rightarrow> f # dedup_pass seen fs
      | Some tag \<Rightarrow>
          if tag = Download_Origin_Context then f # dedup_pass seen fs
          else if (tag, layer f) \<in> seen then zeroed f # dedup_pass seen fs
          else f # dedup_pass (insert (tag, layer f) seen) fs)"

definition deduplicate_findings :: "finding list \<Rightarrow> finding list" where
  "deduplicate_findings fs = dedup_pass {} (sort_by_weight fs)"

section \<open>Installer-framework mitigation\<close>

definition HIGH_CONFIDENCE_VETO_WEIGHT :: nat where "HIGH_CONFIDENCE_VETO_WEIGHT = 40"

record mitigation_op =
  op_layer :: layer
  weight_before :: nat
  weight_after :: nat

text \<open>The veto reason names a finding: its layer, weight and description.\<close>

record framework_mitigation =
  detection :: framework_detection
  applied :: bool
  veto_reason :: "(layer \<times> nat \<times> string) option"
  ops :: "mitigation_op list"
  score_before :: nat
  score_after :: nat

definition no_mitigation :: framework_mitigation where
  "no_mitigation =
    \<lparr>detection = unknown_detection, applied = False, veto_reason = None, ops = [],
     score_before = 0, score_after = 0\<rparr>"

definition reduced_weight :: "finding \<Rightarrow> nat" where
  "reduced_weight f =
     (if layer f = Structural_Analysis \<or> layer f = Packer_Detection then weight f div 3
      else if layer f = Yara_Rules then
        (case technical_detail f of
           None \<Rightarrow> weight f
         | Some detail \<Rightarrow>
             if any_in [''dropper'', ''updater'', ''installer'', ''persistence'', ''temp_extraction'', ''fake_updater'']
                  (to_lowercase detail)
             then weight f div 2 else weight f)
      else weight f)"

definition mitigate :: "finding \<Rightarrow> finding" where
  "mitigate f =
     f\<lparr>weight := reduced_weight f,
       severity := if reduced_weight f = 0 \<and> severity f > Info then Info else severity f\<rparr>"

definition mitigation_ops :: "finding list \<Rightarrow> mitigation_op list" where
  "mitigation_ops fs =
     map (\<lambda>f. \<lparr>op_layer = layer f, weight_before = weight f, weight_after = reduced_weight f\<rparr>)
       (filter (\<lambda>f. reduced_weight f \<noteq> weight f) fs)"

text \<open>\<open>max_by_key\<close> returns the last of the heaviest.\<close>

definition heaviest :: "finding list \<Rightarrow> finding option" where
  "heaviest fs =
     fold (\<lambda>f best. case best of None \<Rightarrow> Some f | Some b \<Rightarrow> if weight f \<ge> weight b then Some f else best) fs None"

definition evaluate ::
    "framework_detection \<Rightarrow> finding list \<Rightarrow> framework_mitigation \<times> finding list" where
  "evaluate d fs =
     (let before = total_weight fs;
          refused = (\<lambda>veto. \<lparr>detection = d, applied = False, veto_reason = veto, ops = [],
                       score_before = before, score_after = before\<rparr>) in
      if \<not> (fd_confidence d = Structural \<and> mitigation_safe d) then (refused None, fs)
      else
        (case heaviest (filter (\<lambda>f. weight f \<ge> HIGH_CONFIDENCE_VETO_WEIGHT) fs) of
           Some f \<Rightarrow> (refused (Some (layer f, weight f, description f)), fs)
         | None \<Rightarrow>
             let fs' = map mitigate fs in
             (\<lparr>detection = d, applied = True, veto_reason = None, ops = mitigation_ops fs,
               score_before = before, score_after = total_weight fs'\<rparr>, fs')))"

record framework_mitigation_provenance =
  prov_kind :: framework_kind
  prov_confidence :: confidence
  prov_safe :: bool
  prov_applied :: bool
  prov_evidence :: "evidence_item list"
  prov_ops :: "mitigation_op list"
  prov_before :: nat
  prov_after :: nat
  prov_veto :: "(layer \<times> nat \<times> string) option"
  prov_warnings :: "framework_warning list"

definition provenance :: "framework_mitigation \<Rightarrow> framework_mitigation_provenance option" where
  "provenance m =
     (if kind (detection m) = Unknown_Framework \<and> \<not> applied m then None
      else Some
        \<lparr>prov_kind = kind (detection m), prov_confidence = fd_confidence (detection m),
         prov_safe = mitigation_safe (detection m), prov_applied = applied m,
         prov_evidence = evidence (detection m), prov_ops = ops m,
         prov_before = score_before m, prov_after = score_after m,
         prov_veto = veto_reason m, prov_warnings = warnings (detection m)\<rparr>)"

section \<open>Caps\<close>

definition layer_weight :: "layer \<Rightarrow> finding list \<Rightarrow> nat" where
  "layer_weight ly fs = total_weight (filter (\<lambda>f. layer f = ly) fs)"

definition apply_cap :: "layer \<Rightarrow> nat \<Rightarrow> finding list \<Rightarrow> finding list" where
  "apply_cap ly cap fs =
     (let tot = layer_weight ly fs in
      if tot > cap \<and> tot > 0
      then map (\<lambda>f. if layer f = ly then f\<lparr>weight := scaled_weight cap tot (weight f)\<rparr> else f) fs
      else fs)"

definition category_caps :: "(layer \<times> nat) list" where
  "category_caps =
    [(Structural_Analysis, 30), (Yara_Rules, 40), (Context_Layer, 15), (Packer_Detection, 20),
     (Pattern_Detection, 25), (Script_Analysis, 40), (File_Deception, 50)]"

definition apply_caps :: "finding list \<Rightarrow> finding list" where
  "apply_caps fs = fold (\<lambda>(ly, cap). apply_cap ly cap) category_caps fs"

section \<open>The explanation\<close>

text \<open>\<open>d.split("Publisher: ").nth(1)\<close> up to the next \<open>" |"\<close>.\<close>

definition publisher_name :: "string \<Rightarrow> string option" where
  "publisher_name d =
     (case find_sub ''Publisher: '' d of
        None \<Rightarrow> None
      | Some (_, rest) \<Rightarrow>
          let piece = (case find_sub ''Publisher: '' rest of None \<Rightarrow> rest | Some (b, _) \<Rightarrow> b) in
          Some (case find_sub '' |'' piece of None \<Rightarrow> piece | Some (b, _) \<Rightarrow> b))"

datatype trust_reason =
  Recognized_Software nat
| Publisher string
| Valid_Signature nat
| Installer_Framework framework_kind nat nat nat nat
| Trust_Graph_Familiar nat

definition reputation_finding :: "(finding \<Rightarrow> bool) \<Rightarrow> finding list \<Rightarrow> finding option" where
  "reputation_finding P fs = find (\<lambda>f. layer f = Reputation \<and> P f) fs"

definition software_name :: "(finding \<Rightarrow> bool) \<Rightarrow> finding list \<Rightarrow> string option" where
  "software_name P fs =
     Option.bind (Option.bind (reputation_finding P fs) technical_detail) publisher_name"

definition signer_of :: "finding list \<Rightarrow> string option" where
  "signer_of fs =
     map_option (replace_all ''Signer: '' [])
       (Option.bind (reputation_finding (\<lambda>f. contains (description f) ''Digitally signed'') fs) technical_detail)"

definition trust_reasons_of :: "nat \<Rightarrow> nat \<Rightarrow> framework_mitigation \<Rightarrow> finding list \<Rightarrow> trust_reason list" where
  "trust_reasons_of reputation_discount authenticode_discount m fs =
     (if reputation_discount > 0 then
        Recognized_Software reputation_discount #
        (case software_name (\<lambda>_. True) fs of None \<Rightarrow> [] | Some name \<Rightarrow> [Publisher name])
      else [])
     @ (if authenticode_discount > 0 then [Valid_Signature authenticode_discount] else [])
     @ (if applied m then
          [Installer_Framework (kind (detection m)) (length (evidence (detection m))) (length (ops m))
             (score_before m) (score_after m)]
        else [])"

text \<open>The first \<open>n\<close> characters of a string of UTF-8 bytes.\<close>

fun take_chars :: "nat \<Rightarrow> string \<Rightarrow> string" where
  "take_chars n [] = []"
| "take_chars n (c # s) =
     (if in_range 0x80 0xBF c then c # take_chars n s
      else if n = 0 then [] else c # take_chars (n - 1) s)"

text \<open>Findings whose first sixty characters were not seen before, at most eight; a weight of twenty or
  more is shown.\<close>

fun distinct_reasons :: "string set \<Rightarrow> finding list \<Rightarrow> finding list" where
  "distinct_reasons seen [] = []"
| "distinct_reasons seen (f # fs) =
     (let short = take_chars 60 (description f) in
      if short \<in> seen then distinct_reasons seen fs else f # distinct_reasons (insert short seen) fs)"

definition suspicion_reasons_of :: "finding list \<Rightarrow> (nat option \<times> string) list" where
  "suspicion_reasons_of fs =
     map (\<lambda>f. (if weight f \<ge> 20 then Some (weight f) else None, description f))
       (take 8 (distinct_reasons {} (filter (\<lambda>f. weight f > 0 \<and> layer f \<noteq> Reputation) fs)))"

datatype framework_name =
  Detected_Framework framework_kind | Py_Installer | Electron | Node_Sea | Nuitka | Tauri | Nw_Js

fun detect_framework_from_findings :: "finding list \<Rightarrow> framework_name option" where
  "detect_framework_from_findings [] = None"
| "detect_framework_from_findings (f # fs) =
     (let combined = to_lowercase (description f) @ '' '' @
            to_lowercase (case technical_detail f of None \<Rightarrow> [] | Some d \<Rightarrow> d) in
      if contains combined ''pyinstaller'' then Some Py_Installer
      else if contains combined ''electron'' \<or> contains combined ''asar'' then Some Electron
      else if contains combined ''node.js sea'' \<or> contains combined ''node_sea'' then Some Node_Sea
      else if contains combined ''nuitka'' then Some Nuitka
      else if contains combined ''tauri'' then Some Tauri
      else if contains combined ''nw.js'' \<or> contains combined ''nwjs'' then Some Nw_Js
      else detect_framework_from_findings fs)"

record verdict_explanation =
  raw_score :: nat
  ex_reputation_discount :: nat
  ex_authenticode_discount :: nat
  installer_discount_applied :: bool
  final_score :: nat
  signer :: "string option"
  recognized_software :: "string option"
  suspicion_reasons :: "(nat option \<times> string) list"
  trust_reasons :: "trust_reason list"
  ex_confidence_label :: confidence_label
  framework :: "framework_name option"
  ex_threat_maturity :: threat_maturity
  progression_depth :: nat
  ex_framework_mitigation :: "framework_mitigation_provenance option"

definition default_explanation :: verdict_explanation where
  "default_explanation =
    \<lparr>raw_score = 0, ex_reputation_discount = 0, ex_authenticode_discount = 0,
     installer_discount_applied = False, final_score = 0, signer = None, recognized_software = None,
     suspicion_reasons = [], trust_reasons = [], ex_confidence_label = Normal, framework = None,
     ex_threat_maturity = Benign, progression_depth = 0, ex_framework_mitigation = None\<rparr>"

section \<open>Aggregation\<close>

definition verdict_of :: "nat \<Rightarrow> nat \<Rightarrow> finding list \<Rightarrow> verdict" where
  "verdict_of score raw fs =
     (let v = from_score score;
          pua = total_weight (filter (\<lambda>f. behavior_tag_of f = Some Pua) fs) in
      if (v = Suspicious \<or> v = High_Suspicion) \<and> pua > 0 \<and> pua \<ge> raw div 2
      then Potentially_Unwanted else v)"

definition aggregate_score ::
    "finding list \<Rightarrow> nat \<Rightarrow> nat \<Rightarrow> framework_mitigation
     \<Rightarrow> finding list \<times> nat \<times> verdict \<times> verdict_explanation" where
  "aggregate_score fs reputation_discount authenticode_discount m =
     (let capped = apply_caps (deduplicate_findings fs);
          raw = total_weight capped;
          score = min (raw - max reputation_discount authenticode_discount) MAX_SCORE;
          sorted_fs = sort_by_weight capped;
          convergence = compute_convergence sorted_fs in
      (sorted_fs, score, verdict_of score raw sorted_fs,
       \<lparr>raw_score = raw, ex_reputation_discount = reputation_discount,
        ex_authenticode_discount = authenticode_discount, installer_discount_applied = applied m,
        final_score = score, signer = signer_of sorted_fs,
        recognized_software =
          software_name (\<lambda>f. contains (description f) ''Recognized as'') sorted_fs,
        suspicion_reasons = suspicion_reasons_of sorted_fs,
        trust_reasons = trust_reasons_of reputation_discount authenticode_discount m sorted_fs,
        ex_confidence_label =
          label_from_convergence score (authenticode_discount > 0) (reputation_discount > 0) (applied m)
            convergence,
        framework =
          (if kind (detection m) \<noteq> Unknown_Framework then Some (Detected_Framework (kind (detection m)))
           else detect_framework_from_findings sorted_fs),
        ex_threat_maturity = maturity_from_convergence convergence score,
        progression_depth = progression_score convergence,
        ex_framework_mitigation = provenance m\<rparr>))"

end
