(* ===== verification/Argus_Trust.thy ===== *)
theory Argus_Trust
  imports Argus_Score "HOL-Library.AList"
begin

text \<open>
  The cache of files verified as trusted, \<open>crates/argus/src/layers/trusted_cache.rs\<close>. The hash map is an
  association list with unique keys; the lock makes each operation one step.
\<close>

section \<open>The trusted cache\<close>

definition MAX_ENTRIES :: nat where "MAX_ENTRIES = 10000"

record trusted_entry =
  te_signer :: "string option"
  te_reputation :: "string option"
  te_score :: nat
  te_generation :: nat
  te_last_verified :: nat

record trusted_cache =
  tc_entries :: "(string \<times> trusted_entry) list"
  tc_generation :: nat
  tc_counter :: nat

definition new_trusted_cache :: trusted_cache where
  "new_trusted_cache = \<lparr>tc_entries = [], tc_generation = 1, tc_counter = 0\<rparr>"

definition tc_check :: "string \<Rightarrow> trusted_cache \<Rightarrow> nat option \<times> trusted_cache" where
  "tc_check sha c0 =
     (let c = c0\<lparr>tc_counter := tc_counter c0 + 1\<rparr> in
      case map_of (tc_entries c) sha of
        None \<Rightarrow> (None, c)
      | Some e \<Rightarrow>
          if te_generation e = tc_generation c then
            (Some (te_score e),
             c\<lparr>tc_entries := AList.update sha (e\<lparr>te_last_verified := tc_counter c\<rparr>) (tc_entries c)\<rparr>)
          else (None, c))"

definition tc_record ::
    "string \<Rightarrow> nat \<Rightarrow> string option \<Rightarrow> string option \<Rightarrow> trusted_cache \<Rightarrow> trusted_cache" where
  "tc_record sha score sig rep c0 =
     (if sig = None \<and> rep = None then c0
      else if score > 25 then c0
      else
        (let c = c0\<lparr>tc_counter := tc_counter c0 + 1\<rparr>;
             kept = (if length (tc_entries c) \<ge> MAX_ENTRIES
                     then filter (\<lambda>(_, e). te_last_verified e > tc_counter c - MAX_ENTRIES div 2) (tc_entries c)
                     else tc_entries c) in
         c\<lparr>tc_entries := AList.update sha
             \<lparr>te_signer = sig, te_reputation = rep, te_score = score,
              te_generation = tc_generation c, te_last_verified = tc_counter c\<rparr> kept\<rparr>))"

definition tc_invalidate :: "trusted_cache \<Rightarrow> trusted_cache" where
  "tc_invalidate c = c\<lparr>tc_generation := tc_generation c + 1, tc_entries := []\<rparr>"

text \<open>Every cache the engine can have.\<close>

inductive tc_reach :: "trusted_cache \<Rightarrow> bool" where
  start: "tc_reach new_trusted_cache"
| check: "tc_reach c \<Longrightarrow> tc_reach (snd (tc_check sha c))"
| remember: "tc_reach c \<Longrightarrow> tc_reach (tc_record sha score sig rep c)"
| invalidate: "tc_reach c \<Longrightarrow> tc_reach (tc_invalidate c)"

definition entry_trusted :: "nat \<Rightarrow> nat \<Rightarrow> trusted_entry \<Rightarrow> bool" where
  "entry_trusted gen now e \<longleftrightarrow>
     (te_signer e \<noteq> None \<or> te_reputation e \<noteq> None) \<and> te_score e \<le> 25 \<and>
     te_generation e = gen \<and> te_last_verified e \<le> now"

definition tc_inv :: "trusted_cache \<Rightarrow> bool" where
  "tc_inv c \<longleftrightarrow>
     distinct (map fst (tc_entries c)) \<and>
     distinct (map (\<lambda>p. te_last_verified (snd p)) (tc_entries c)) \<and>
     length (tc_entries c) \<le> MAX_ENTRIES \<and>
     (\<forall>p \<in> set (tc_entries c). entry_trusted (tc_generation c) (tc_counter c) (snd p))"

lemma set_update_subset: "set (AList.update k v es) \<subseteq> insert (k, v) (set es)"
  by (induction es) auto

text \<open>Replacing an entry by one verified just now keeps the verification times distinct.\<close>

lemma update_fresh:
  fixes es :: "(string \<times> trusted_entry) list"
  assumes "distinct (map (\<lambda>p. te_last_verified (snd p)) es)" "\<forall>p \<in> set es. te_last_verified (snd p) < te_last_verified v"
  shows "distinct (map (\<lambda>p. te_last_verified (snd p)) (AList.update k v es))"
  using assms
proof (induction es)
  case (Cons p es)
  have "\<forall>q \<in> set (AList.update k v es). q = (k, v) \<or> q \<in> set es"
    using set_update_subset [of k v es] by auto
  then show ?case using Cons by (cases p) (fastforce simp: image_iff)
qed simp

lemma length_update_le: "length (AList.update k v es) \<le> length es + 1"
  by (induction es) auto

lemma length_update_known: "map_of es k \<noteq> None \<Longrightarrow> length (AList.update k v es) = length es"
  by (induction es) (auto split: if_splits)

lemma recent_entries:
  assumes "distinct (map (\<lambda>p. te_last_verified (snd p)) es)"
    and "\<forall>p \<in> set es. lo < te_last_verified (snd p) \<and> te_last_verified (snd p) \<le> hi"
  shows "length es \<le> hi - lo"
proof -
  have "set (map (\<lambda>p. te_last_verified (snd p)) es) \<subseteq> {lo<..hi}" using assms(2) by auto
  then have "card (set (map (\<lambda>p. te_last_verified (snd p)) es)) \<le> card {lo<..hi}"
    by (intro card_mono) auto
  then show ?thesis using distinct_card [OF assms(1)] by simp
qed

lemma tc_inv_check: "tc_inv c \<Longrightarrow> tc_inv (snd (tc_check sha c))"
proof -
  assume inv: "tc_inv c"
  have older: "\<forall>p \<in> set (tc_entries c). entry_trusted (tc_generation c) (tc_counter c + 1) (snd p)"
    using inv by (auto simp: tc_inv_def entry_trusted_def)
  show ?thesis
  proof (cases "map_of (tc_entries c) sha")
    case None
    then show ?thesis using inv older by (simp add: tc_check_def tc_inv_def Let_def)
  next
    case (Some e)
    let ?e = "e\<lparr>te_last_verified := tc_counter c + 1\<rparr>"
    have mem: "(sha, e) \<in> set (tc_entries c)" using Some by (rule map_of_SomeD)
    have "distinct (map (\<lambda>p. te_last_verified (snd p)) (AList.update sha ?e (tc_entries c)))"
      using inv by (intro update_fresh) (auto simp: tc_inv_def entry_trusted_def)
    moreover have "entry_trusted (tc_generation c) (tc_counter c + 1) ?e"
      using inv mem by (auto simp: tc_inv_def entry_trusted_def)
    then have "\<forall>p \<in> set (AList.update sha ?e (tc_entries c)).
        entry_trusted (tc_generation c) (tc_counter c + 1) (snd p)"
      using older set_update_subset [of sha ?e "tc_entries c"] by auto
    moreover have "length (AList.update sha ?e (tc_entries c)) \<le> MAX_ENTRIES"
      using inv Some by (simp add: length_update_known tc_inv_def)
    moreover have "distinct (map fst (AList.update sha ?e (tc_entries c)))"
      using inv by (simp add: distinct_update tc_inv_def)
    ultimately show ?thesis using Some inv older by (simp add: tc_check_def tc_inv_def Let_def)
  qed
qed

lemma tc_inv_record: "tc_inv c \<Longrightarrow> tc_inv (tc_record sha score sig rep c)"
proof -
  assume inv: "tc_inv c"
  define now where "now = tc_counter c + 1"
  define kept where "kept = (if length (tc_entries c) \<ge> MAX_ENTRIES
      then filter (\<lambda>(_, e). te_last_verified e > now - MAX_ENTRIES div 2) (tc_entries c) else tc_entries c)"
  define v where "v = \<lparr>te_signer = sig, te_reputation = rep, te_score = score,
      te_generation = tc_generation c, te_last_verified = now\<rparr>"
  have sub: "set kept \<subseteq> set (tc_entries c)" by (auto simp: kept_def)
  have ok: "\<forall>p \<in> set kept. entry_trusted (tc_generation c) (tc_counter c) (snd p)"
    using inv sub by (auto simp: tc_inv_def)
  have dist: "distinct (map (\<lambda>p. te_last_verified (snd p)) kept)" "distinct (map fst kept)"
    using inv by (auto simp: tc_inv_def kept_def distinct_map_filter)
  have len: "length kept < MAX_ENTRIES"
  proof (cases "length (tc_entries c) \<ge> MAX_ENTRIES")
    case True
    have "length kept \<le> tc_counter c - (now - MAX_ENTRIES div 2)"
      using ok True by (intro recent_entries dist(1)) (auto simp: kept_def entry_trusted_def)
    then show ?thesis by (simp add: now_def MAX_ENTRIES_def)
  next
    case False
    then show ?thesis by (simp add: kept_def)
  qed
  show ?thesis
  proof (cases "(sig = None \<and> rep = None) \<or> score > 25")
    case True
    then show ?thesis using inv by (auto simp: tc_record_def)
  next
    case False
    have r: "tc_record sha score sig rep c = c\<lparr>tc_counter := now, tc_entries := AList.update sha v kept\<rparr>"
      using False by (auto simp: tc_record_def Let_def now_def kept_def v_def)
    have "distinct (map (\<lambda>p. te_last_verified (snd p)) (AList.update sha v kept))"
      using ok dist(1) by (intro update_fresh) (auto simp: v_def now_def entry_trusted_def)
    moreover have "entry_trusted (tc_generation c) now v"
      using False by (auto simp: v_def entry_trusted_def)
    moreover have "\<forall>p \<in> set kept. entry_trusted (tc_generation c) now (snd p)"
      using ok by (auto simp: entry_trusted_def now_def)
    moreover have "length (AList.update sha v kept) \<le> MAX_ENTRIES"
      using len length_update_le [of sha v kept] by simp
    ultimately show ?thesis
      using dist(2) set_update_subset [of sha v kept] by (auto simp: r tc_inv_def distinct_update)
  qed
qed

lemma tc_reach_inv: "tc_reach c \<Longrightarrow> tc_inv c"
  by (induction rule: tc_reach.induct)
    (simp_all add: tc_inv_check tc_inv_record, simp_all add: tc_inv_def new_trusted_cache_def tc_invalidate_def)

text \<open>
C39: The trusted cache stays bounded and trustworthy: in every cache the engine can have there are at
most ten thousand entries, whatever the sequence of scans, each with evidence of trust, a score of at
most 25 and the current signature generation; so a hit is never older than the last invalidation.
\<close>

theorem trusted_cache_sound:
  assumes "tc_reach c"
  shows "length (tc_entries c) \<le> 10000 \<and>
    (\<forall>sha e. map_of (tc_entries c) sha = Some e \<longrightarrow>
       (te_signer e \<noteq> None \<or> te_reputation e \<noteq> None) \<and> te_score e \<le> 25 \<and> te_generation e = tc_generation c \<and>
       fst (tc_check sha c) = Some (te_score e)) \<and>
    (\<forall>sha. fst (tc_check sha (tc_invalidate c)) = None)"
  using tc_reach_inv [OF assms]
  by (auto simp: tc_inv_def MAX_ENTRIES_def entry_trusted_def tc_check_def tc_invalidate_def Let_def
      dest!: map_of_SomeD)

theorem trusted_cache_sound_witness:
  "fst (tc_check ''ab'' (tc_record ''ab'' 3 (Some ''Acme'') None new_trusted_cache)) = Some 3 \<and>
   fst (tc_check ''ab'' (tc_invalidate (tc_record ''ab'' 3 (Some ''Acme'') None new_trusted_cache))) = None"
proof -
  have r: "tc_reach (tc_record ''ab'' 3 (Some ''Acme'') None new_trusted_cache)"
    by (intro tc_reach.remember tc_reach.start)
  have "map_of (tc_entries (tc_record ''ab'' 3 (Some ''Acme'') None new_trusted_cache)) ''ab''
      = Some \<lparr>te_signer = Some ''Acme'', te_reputation = None, te_score = 3, te_generation = 1,
          te_last_verified = 1\<rparr>"
    by code_simp
  with trusted_cache_sound [OF r] show ?thesis by auto
qed

end
