(* ===== verification/Argus_Ioc.thy ===== *)
theory Argus_Ioc
  imports Argus_Verdict Std_Text
begin

text \<open>
  The blocklist of known-malicious SHA-256 hashes, \<open>crates/argus/src/layers/ioc.rs\<close>: loading it from a
  text file, adding a hash and looking one up. The hash set is a list without duplicates; \<open>ioc_count\<close> is
  the counter the code keeps beside it.
\<close>

record ioc_database =
  blocklist :: "string list"
  ioc_count :: nat

definition new_ioc :: ioc_database where
  "new_ioc = \<lparr>blocklist = [], ioc_count = 0\<rparr>"

section \<open>Text of the hash file\<close>

text \<open>\<open>str::lines\<close>: a newline, with a carriage return before it, ends a line; the last line may lack it.\<close>

definition drop_cr :: "string \<Rightarrow> string" where
  "drop_cr s = (if s \<noteq> [] \<and> last s = CHR 0x0D then butlast s else s)"

definition str_lines :: "string \<Rightarrow> string list" where
  "str_lines s =
     (let pieces = split_on (CHR 0x0A) s in
      map drop_cr (butlast pieces) @ (if last pieces = [] then [] else [last pieces]))"

text \<open>The longest prefix of at most \<open>cap\<close> bytes that ends on a character boundary.\<close>

definition cut_at :: "nat \<Rightarrow> string \<Rightarrow> string" where
  "cut_at cap s =
     (if length s \<le> cap then s
      else (let back = takeWhile (\<lambda>n. in_range 0x80 0xBF (s ! n)) (rev [1..<cap + 1]) in
            take (cap - length back) s))"

section \<open>Operations\<close>

definition is_sha256 :: "string \<Rightarrow> bool" where
  "is_sha256 s \<longleftrightarrow> length s = 64 \<and> list_all is_hex_digit s"

definition add_hash :: "string \<Rightarrow> ioc_database \<Rightarrow> ioc_database" where
  "add_hash sha db =
     (let lower = to_lowercase sha in
      if is_sha256 lower \<and> lower \<notin> set (blocklist db)
      then \<lparr>blocklist = lower # blocklist db, ioc_count = ioc_count db + 1\<rparr> else db)"

text \<open>What the file system answers: \<open>symlink_metadata\<close> and \<open>read_to_string\<close>, each of which may fail.\<close>

record ioc_file =
  file_meta :: "(bool \<times> nat) option"
  file_text :: "string option"

datatype ioc_error = Cannot_Stat | Refused_Symlink | Refused_Size nat | Failed_To_Read

definition MAX_IOC_FILE_BYTES :: nat where "MAX_IOC_FILE_BYTES = 16 * 1024 * 1024"

definition MAX_IOC_CONTENT_BYTES :: nat where "MAX_IOC_CONTENT_BYTES = 8 * 1024 * 1024"

definition hash_of_line :: "string \<Rightarrow> string option" where
  "hash_of_line line =
     (let trimmed = trim line; lower = to_lowercase trimmed in
      if trimmed = [] \<or> hd trimmed = CHR 0x23 then None
      else if is_sha256 lower then Some lower else None)"

definition load_from_file :: "ioc_file \<Rightarrow> ioc_database \<Rightarrow> (ioc_error + nat) \<times> ioc_database" where
  "load_from_file file db =
     (case file_meta file of
        None \<Rightarrow> (Inl Cannot_Stat, db)
      | Some (symlink, len) \<Rightarrow>
          if symlink then (Inl Refused_Symlink, db)
          else if len > MAX_IOC_FILE_BYTES then (Inl (Refused_Size len), db)
          else
            (case file_text file of
               None \<Rightarrow> (Inl Failed_To_Read, db)
             | Some content \<Rightarrow>
                 let hashes = remdups (List.map_filter hash_of_line
                       (str_lines (cut_at MAX_IOC_CONTENT_BYTES content))) in
                 (Inr (length hashes), \<lparr>blocklist = hashes, ioc_count = length hashes\<rparr>)))"

definition ioc_check :: "string \<Rightarrow> ioc_database \<Rightarrow> finding list" where
  "ioc_check sha db =
     (let lower = to_lowercase sha in
      if lower \<in> set (blocklist db)
      then [\<lparr>layer = Ioc_Correlation, severity = Critical, weight = 90,
             description = ''File hash matches a known-malicious indicator of compromise (IOC).'',
             technical_detail = Some (''SHA-256 '' @ take 16 lower @ '' found in IOC blocklist (''
               @ show_nat (length (blocklist db)) @ '' entries)'')\<rparr>]
      else [])"

section \<open>The counter is the size of the set\<close>

inductive ioc_reach :: "ioc_database \<Rightarrow> bool" where
  empty: "ioc_reach new_ioc"
| add: "ioc_reach db \<Longrightarrow> ioc_reach (add_hash sha db)"
| load: "ioc_reach db \<Longrightarrow> ioc_reach (snd (load_from_file file db))"

definition ioc_inv :: "ioc_database \<Rightarrow> bool" where
  "ioc_inv db \<longleftrightarrow>
     distinct (blocklist db) \<and> ioc_count db = length (blocklist db) \<and> list_all is_sha256 (blocklist db)"

lemma hash_of_line_sha256: "hash_of_line line = Some h \<Longrightarrow> is_sha256 h"
  by (auto simp: hash_of_line_def Let_def split: if_splits)

lemma ioc_inv_load: "ioc_inv db \<Longrightarrow> ioc_inv (snd (load_from_file file db))"
  by (auto simp: ioc_inv_def load_from_file_def Let_def list_all_iff map_filter_def
      intro: hash_of_line_sha256 split: option.split)

lemma ioc_reach_inv: "ioc_reach db \<Longrightarrow> ioc_inv db"
  by (induction rule: ioc_reach.induct)
    (simp add: ioc_inv_def new_ioc_def, simp add: ioc_inv_def add_hash_def Let_def, rule ioc_inv_load)

lemma set_map_filter: "set (List.map_filter f xs) = {y. \<exists>x \<in> set xs. f x = Some y}"
  by (force simp: map_filter_def)

text \<open>A load that succeeds makes exactly the hashes of its lines known; one that fails changes nothing.\<close>

lemma load_known:
  assumes "load_from_file file db = (Inr n, db')" and "file_text file = Some content"
  shows "set (blocklist db') = {h. \<exists>line \<in> set (str_lines (cut_at MAX_IOC_CONTENT_BYTES content)). hash_of_line line = Some h}"
    and "n = card (set (blocklist db'))"
  using assms by (simp_all add: load_from_file_def Let_def length_remdups_card_conv
      split: option.splits prod.splits if_splits) (auto simp: set_map_filter)

lemma load_failed: "load_from_file file db = (Inl err, db') \<Longrightarrow> db' = db"
  by (auto simp: load_from_file_def Let_def split: option.splits prod.splits if_splits)

lemma ioc_check_iff: "ioc_check sha db \<noteq> [] \<longleftrightarrow> to_lowercase sha \<in> set (blocklist db)"
  by (simp add: ioc_check_def Let_def)

end
