(* ===== verification/Argus_Correlation.thy ===== *)
theory Argus_Correlation
  imports Prelude
begin

text \<open>
  The rolling window of recent events, \<open>crates/argus/src/correlation.rs\<close>. Instants are milliseconds as
  integers, and the confidence of an origin, which no operation reads, is left out. Subtracting a
  duration from an instant panics when the platform cannot represent the result, which is \<open>None\<close> here:
  \<open>earliest\<close> is the first instant it can, the boot of the machine on Windows. The lock makes each
  operation one step.
\<close>

definition MAX_EVENTS :: nat where "MAX_EVENTS = 200"

definition EVENT_TTL :: int where "EVENT_TTL = 300000"

record context_hints =
  source_hint :: "string option"
  process_hint :: "string option"
  parent_process_hint :: "string option"
  domain_hint :: "string option"

definition no_hints :: context_hints where
  "no_hints = \<lparr>source_hint = None, process_hint = None, parent_process_hint = None, domain_hint = None\<rparr>"

datatype event_type =
  File_Created | Scanned_Clean | Scanned_Suspicious | Quarantined | Process_Started | Dns_Query

record event_record =
  timestamp :: int
  ev_path :: string
  ev_type :: event_type
  ev_hints :: context_hints

text \<open>The two readings of the clock while recording: for the cutoff and for the event.\<close>

record clock =
  earliest :: int
  now_cutoff :: int
  now_event :: int

definition instant_sub :: "int \<Rightarrow> int \<Rightarrow> int \<Rightarrow> int option" where
  "instant_sub first t d = (if t - d < first then None else Some (t - d))"

definition record_with_hints ::
    "clock \<Rightarrow> string \<Rightarrow> event_type \<Rightarrow> context_hints \<Rightarrow> event_record list \<Rightarrow> event_record list option" where
  "record_with_hints ck path ty hints events =
     map_option
       (\<lambda>cutoff.
          let kept = dropWhile (\<lambda>e. timestamp e < cutoff) events;
              grown = kept @ [\<lparr>timestamp = now_event ck, ev_path = path, ev_type = ty, ev_hints = hints\<rparr>] in
          drop (length grown - MAX_EVENTS) grown)
       (instant_sub (earliest ck) (now_cutoff ck) EVENT_TTL)"

definition record_event ::
    "clock \<Rightarrow> string \<Rightarrow> event_type \<Rightarrow> string option \<Rightarrow> event_record list \<Rightarrow> event_record list option" where
  "record_event ck path ty hint = record_with_hints ck path ty (no_hints\<lparr>source_hint := hint\<rparr>)"

definition recent :: "int \<Rightarrow> int \<Rightarrow> nat \<Rightarrow> event_record list \<Rightarrow> event_record list option" where
  "recent first t window_secs events =
     map_option (\<lambda>cutoff. filter (\<lambda>e. timestamp e \<ge> cutoff) events)
       (instant_sub first t (int window_secs * 1000))"

definition recent_suspicious_count :: "int \<Rightarrow> int \<Rightarrow> nat \<Rightarrow> event_record list \<Rightarrow> nat option" where
  "recent_suspicious_count first t window_secs events =
     map_option (\<lambda>es. length (filter (\<lambda>e. ev_type e = Scanned_Suspicious) es)) (recent first t window_secs events)"

definition domain_hints_for :: "int \<Rightarrow> int \<Rightarrow> nat \<Rightarrow> event_record list \<Rightarrow> string list option" where
  "domain_hints_for first t window_secs events =
     map_option (\<lambda>es. List.map_filter (\<lambda>e. domain_hint (ev_hints e)) (filter (\<lambda>e. ev_type e = Dns_Query) es))
       (recent first t window_secs events)"

section \<open>The window\<close>

text \<open>Every window that recording with a clock that does not run backwards can leave, with the time of
  its last event.\<close>

inductive window_reach :: "int \<Rightarrow> event_record list \<Rightarrow> bool" where
  start: "window_reach t []"
| step: "\<lbrakk>window_reach t events; t \<le> now_cutoff ck; now_cutoff ck \<le> now_event ck;
    record_with_hints ck path ty hints events = Some events'\<rbrakk> \<Longrightarrow> window_reach (now_event ck) events'"

definition window_ok :: "int \<Rightarrow> event_record list \<Rightarrow> bool" where
  "window_ok t events \<longleftrightarrow>
     length events \<le> MAX_EVENTS \<and> sorted (map timestamp events) \<and> (\<forall>e \<in> set events. timestamp e \<le> t)"

lemma sorted_dropWhile_old:
  fixes events :: "event_record list"
  assumes "sorted (map timestamp events)"
  shows "dropWhile (\<lambda>e. timestamp e < c) events = filter (\<lambda>e. c \<le> timestamp e) events"
  using assms
proof (induction events)
  case (Cons e es)
  show ?case
  proof (cases "timestamp e < c")
    case False
    then have "filter (\<lambda>e. c \<le> timestamp e) es = es"
      using Cons.prems by (auto simp: filter_id_conv)
    with False show ?thesis by simp
  qed (use Cons in auto)
qed simp

lemma record_window:
  assumes "record_with_hints ck path ty hints events = Some events'"
    and "window_ok t events" and "t \<le> now_cutoff ck" and "now_cutoff ck \<le> now_event ck"
  shows "window_ok (now_event ck) events'" and "\<forall>e \<in> set events'. now_cutoff ck - EVENT_TTL \<le> timestamp e"
    and "events' \<noteq> []"
    and "last events' = \<lparr>timestamp = now_event ck, ev_path = path, ev_type = ty, ev_hints = hints\<rparr>"
proof -
  let ?c = "now_cutoff ck - EVENT_TTL"
  let ?new = "\<lparr>timestamp = now_event ck, ev_path = path, ev_type = ty, ev_hints = hints\<rparr>"
  let ?g = "filter (\<lambda>e. ?c \<le> timestamp e) events @ [?new]"
  have sorted: "sorted (map timestamp events)" using assms(2) by (simp add: window_ok_def)
  have r: "events' = drop (length ?g - MAX_EVENTS) ?g"
    using assms(1) by (auto simp: record_with_hints_def instant_sub_def Let_def
        sorted_dropWhile_old [OF sorted] split: if_splits)
  have g: "sorted (map timestamp ?g)" "\<forall>e \<in> set ?g. timestamp e \<le> now_event ck \<and> ?c \<le> timestamp e"
    using assms(2-4) sorted by (auto simp: window_ok_def sorted_append sorted_filter EVENT_TTL_def)
  have sub: "set events' \<subseteq> set ?g" by (simp only: r) (rule set_drop_subset)
  have "sorted (map timestamp events')" using g(1) by (simp only: r drop_map [symmetric]) (rule sorted_wrt_drop)
  moreover have "length events' \<le> MAX_EVENTS" by (simp add: r)
  ultimately show "window_ok (now_event ck) events'" using g(2) sub by (auto simp: window_ok_def)
  show "\<forall>e \<in> set events'. ?c \<le> timestamp e" using g(2) sub by auto
  have short: "length ?g - MAX_EVENTS < length ?g" by (simp add: MAX_EVENTS_def)
  show "events' \<noteq> []" using short by (simp only: r) (simp add: drop_eq_Nil)
  have "last events' = last ?g" using short by (simp only: r) (rule last_drop)
  then show "last events' = ?new" by simp
qed

lemma window_reach_ok: "window_reach t events \<Longrightarrow> window_ok t events"
  by (induction rule: window_reach.induct) (simp add: window_ok_def, blast intro: record_window(1))

lemma record_panics_iff:
  "record_event ck path ty hint events = None \<longleftrightarrow> now_cutoff ck - EVENT_TTL < earliest ck"
  by (simp add: record_event_def record_with_hints_def instant_sub_def)

end
