(* ===== verification/Argus_Engine.thy ===== *)
theory Argus_Engine
  imports Argus_Score Argus_Trust Argus_Ioc Argus_Correlation
begin

text \<open>
  One analysis from end to end, \<open>crates/argus/src/engine.rs\<close> with \<open>crates/argus/src/budget.rs\<close>:
  \<open>analyze_file_with_tracker\<close> with its budget gates, the trusted-cache fast path, suppression for
  trusted binaries, context amplification, statistics and the cache update, and \<open>analyze_buffer\<close>. The
  content layers, the hash, the clock and the file system are the records \<open>layer_set\<close> and \<open>scan_env\<close>.
\<close>

section \<open>Budgets\<close>

text \<open>Durations are milliseconds, as in the clock readings of \<open>scan_env\<close>.\<close>

record scan_execution_budget =
  max_duration :: nat
  max_clamav_duration :: nat
  max_yara_duration :: nat
  max_structural_duration :: nat
  max_archive_depth :: nat
  max_extracted_bytes :: nat
  max_yara_matches :: nat

definition MB :: nat where "MB = 1024 * 1024"

definition realtime_budget :: scan_execution_budget where
  "realtime_budget =
    \<lparr>max_duration = 10000, max_clamav_duration = 5000, max_yara_duration = 3000,
     max_structural_duration = 2000, max_archive_depth = 5, max_extracted_bytes = 100 * MB,
     max_yara_matches = 50\<rparr>"

definition manual_budget :: scan_execution_budget where
  "manual_budget =
    \<lparr>max_duration = 60000, max_clamav_duration = 30000, max_yara_duration = 15000,
     max_structural_duration = 10000, max_archive_depth = 10, max_extracted_bytes = 500 * MB,
     max_yara_matches = 200\<rparr>"

definition idle_budget :: scan_execution_budget where
  "idle_budget =
    \<lparr>max_duration = 120000, max_clamav_duration = 60000, max_yara_duration = 30000,
     max_structural_duration = 20000, max_archive_depth = 10, max_extracted_bytes = 500 * MB,
     max_yara_matches = 200\<rparr>"

definition startup_budget :: scan_execution_budget where
  "startup_budget =
    \<lparr>max_duration = 15000, max_clamav_duration = 8000, max_yara_duration = 5000,
     max_structural_duration = 3000, max_archive_depth = 3, max_extracted_bytes = 50 * MB,
     max_yara_matches = 50\<rparr>"

datatype timeout_reason =
  Clam_Av_Timeout | Yara_Timeout | Structural_Timeout | Total_Timeout | Archive_Explosion
| Extraction_Overflow | Yara_Flood | Sandbox_Overrun

primrec suspicion_weight :: "timeout_reason \<Rightarrow> nat" where
  "suspicion_weight Clam_Av_Timeout = 3"
| "suspicion_weight Yara_Timeout = 5"
| "suspicion_weight Structural_Timeout = 8"
| "suspicion_weight Total_Timeout = 5"
| "suspicion_weight Archive_Explosion = 12"
| "suspicion_weight Extraction_Overflow = 10"
| "suspicion_weight Yara_Flood = 8"
| "suspicion_weight Sandbox_Overrun = 6"

datatype budget_outcome =
  Outcome_Clean | Outcome_Suspicious | Exhausted | Aborted | Partial

text \<open>\<open>BudgetTracker::outcome\<close> on the readings it takes.\<close>

definition outcome :: "bool \<Rightarrow> bool \<Rightarrow> timeout_reason list \<Rightarrow> budget_outcome" where
  "outcome cancelled expired timeouts =
     (if cancelled then Aborted
      else if timeouts = [] then Outcome_Clean
      else if expired then Exhausted
      else if list_ex (\<lambda>t. suspicion_weight t \<ge> 8) timeouts then Outcome_Suspicious
      else Partial)"

definition timeout_suspicion :: "timeout_reason list \<Rightarrow> nat" where
  "timeout_suspicion timeouts = sum_list (map suspicion_weight timeouts)"

definition remaining :: "scan_execution_budget \<Rightarrow> nat \<Rightarrow> nat" where
  "remaining b now = max_duration b - now"

section \<open>The engine\<close>

record argus_config =
  max_file_size :: nat
  pe_heuristics :: bool
  packer_detection :: bool
  script_analysis :: bool
  pattern_detection :: bool
  mime_validation :: bool
  file_deception :: bool
  jar_analysis :: bool
  pdf_analysis :: bool

definition default_argus_config :: argus_config where
  "default_argus_config =
    \<lparr>max_file_size = 100 * 1024 * 1024, pe_heuristics = True, packer_detection = True,
     script_analysis = True, pattern_detection = True, mime_validation = True, file_deception = True,
     jar_analysis = True, pdf_analysis = True\<rparr>"

text \<open>The engine's state: the configuration, the two hash stores, the correlator's window and the counters.\<close>

record argus_engine =
  ac_config :: argus_config
  ioc :: ioc_database
  trusted :: trusted_cache
  correlator :: "event_record list"
  files_analyzed :: nat
  total_findings :: nat
  threats_detected :: nat
  clean_files :: nat

definition new_argus :: "argus_config \<Rightarrow> argus_engine" where
  "new_argus cfg =
    \<lparr>ac_config = cfg, ioc = new_ioc, trusted = new_trusted_cache, correlator = [],
     files_analyzed = 0, total_findings = 0, threats_detected = 0, clean_files = 0\<rparr>"

text \<open>\<open>stats\<close>, less the timing figures; the number of YARA rules is an argument.\<close>

record argus_stats =
  st_files_analyzed :: nat
  st_total_findings :: nat
  st_threats_detected :: nat
  st_clean_files :: nat
  active_layers :: nat
  ioc_hashes_loaded :: nat
  yara_rules_loaded :: nat

definition argus_stats_of :: "nat \<Rightarrow> argus_engine \<Rightarrow> argus_stats" where
  "argus_stats_of yara_count e =
     (let cfg = ac_config e in
      \<lparr>st_files_analyzed = files_analyzed e, st_total_findings = total_findings e,
       st_threats_detected = threats_detected e, st_clean_files = clean_files e,
       active_layers = length (filter id
         [mime_validation cfg, pe_heuristics cfg, packer_detection cfg, script_analysis cfg,
          pattern_detection cfg, file_deception cfg, jar_analysis cfg, pdf_analysis cfg, True, yara_count > 0]),
       ioc_hashes_loaded = ioc_count (ioc e), yara_rules_loaded = yara_count\<rparr>)"

text \<open>The content layers: each maps what it is given to findings. \<open>run_pe\<close> is \<open>None\<close> when the PE parse
  fails, and the findings of the two PE layers otherwise; \<open>run_yara\<close> gives the matching rules, translated,
  of a YARA scan that is let finish.\<close>

record layer_set =
  sha256_of :: "u8 list \<Rightarrow> string"
  mime_of :: "u8 list \<Rightarrow> string option"
  run_deception :: "string \<Rightarrow> finding list"
  run_mime :: "string \<Rightarrow> u8 list \<Rightarrow> finding list"
  run_pe :: "u8 list \<Rightarrow> (finding list \<times> finding list) option"
  run_script :: "string \<Rightarrow> u8 list \<Rightarrow> finding list"
  run_jar :: "string \<Rightarrow> u8 list \<Rightarrow> finding list"
  run_pdf :: "string \<Rightarrow> u8 list \<Rightarrow> finding list"
  run_patterns :: "string \<Rightarrow> u8 list \<Rightarrow> finding list"
  run_yara :: "u8 list \<Rightarrow> finding list"
  run_authenticode :: "string \<Rightarrow> finding list \<times> nat"
  run_reputation :: "string \<Rightarrow> u8 list \<Rightarrow> finding list \<times> nat"
  framework_claims :: "u8 list \<Rightarrow> framework_claim list option"
  run_context :: "string \<Rightarrow> nat \<Rightarrow> finding list"

text \<open>What one scan meets: the size \<open>metadata\<close> reports, what reading yields, the timeouts a caller has put
  on the tracker before, the time elapsed and the cancellation flag at each gate, the time the YARA phase
  took and whether its scanner gave up, and the clock when the event is recorded. A failed call is its
  message.\<close>

record scan_env =
  meta_len :: "string + nat"
  read_data :: "string + u8 list"
  prior_timeouts :: "timeout_reason list"
  elapsed_at :: "nat \<Rightarrow> nat"
  cancelled_at :: "nat \<Rightarrow> bool"
  yara_elapsed :: nat
  yara_fails :: bool
  scan_clock :: clock

record scan_timing =
  strategy :: scan_strategy
  timeout_reasons :: "timeout_reason list"
  completed_within_budget :: bool

record argus_verdict =
  av_path :: string
  av_file_size :: nat
  av_sha256 :: string
  av_mime_type :: "string option"
  av_score :: nat
  av_verdict :: verdict
  av_findings :: "finding list"
  av_explanation :: verdict_explanation
  av_timing :: "scan_timing option"

definition is_threat :: "argus_verdict \<Rightarrow> bool" where
  "is_threat v \<longleftrightarrow> av_verdict v = Malicious"

definition empty_verdict :: "string \<Rightarrow> argus_verdict" where
  "empty_verdict path =
    \<lparr>av_path = path, av_file_size = 0, av_sha256 = [], av_mime_type = None, av_score = 0,
     av_verdict = Clean, av_findings = [], av_explanation = default_explanation, av_timing = None\<rparr>"

definition error_verdict :: "string \<Rightarrow> string \<Rightarrow> argus_verdict" where
  "error_verdict path err = (empty_verdict path)\<lparr>av_findings :=
     [\<lparr>layer = Structural_Analysis, severity = Info, weight = 0,
       description = ''Analysis incomplete: '' @ err, technical_detail = None\<rparr>]\<rparr>"

section \<open>Layers of the engine itself\<close>

text \<open>The UTF-8 bytes of an em dash.\<close>

definition em_dash :: string where
  "em_dash = [CHR 0xE2, CHR 0x80, CHR 0x94]"

definition check_non_pe_packers :: "u8 list \<Rightarrow> finding list" where
  "check_non_pe_packers data =
     (if length data > 64
         \<and> contains (drop (length data - 4096) data) [0x4D, 0x45, 0x49, 0x0C, 0x0B, 0x0A, 0x0B, 0x0E]
      then [\<lparr>layer = Packer_Detection, severity = Low, weight = 5,
             description = ''File contains PyInstaller archive markers '' @ em_dash
               @ '' legitimate Python packaging tool, also commonly used by Python-based malware.'',
             technical_detail = Some ''PyInstaller CArchive magic found''\<rparr>] else [])
     @ (if contains data (bytes ''NODE_SEA_FUSE_fce680ab2cc467b6e072b8b5df1996b2'')
        then [\<lparr>layer = Packer_Detection, severity = Low, weight = 5,
               description = ''File is a Node.js Single Executable Application '' @ em_dash
                 @ '' legitimate packaging format, also used to conceal Node.js malware.'',
               technical_detail = Some ''NODE_SEA_FUSE sentinel found''\<rparr>] else [])"

text \<open>\<open>Path::extension\<close> of the last component of a path.\<close>

definition is_separator :: "char \<Rightarrow> bool" where
  "is_separator c \<longleftrightarrow> c = CHR ''/'' \<or> c = CHR 0x5C"

definition file_name :: "string \<Rightarrow> string" where
  "file_name path = rev (takeWhile (\<lambda>c. \<not> is_separator c) (dropWhile is_separator (rev path)))"

definition path_extension :: "string \<Rightarrow> string option" where
  "path_extension path =
     (let name = file_name path; tail = rev (takeWhile (\<lambda>c. c \<noteq> CHR ''.'') (rev name)) in
      if name = ''..'' \<or> length tail + 1 \<ge> length name then None else Some tail)"

definition script_exts :: "string list" where
  "script_exts = [''ps1'', ''psm1'', ''psd1'', ''js'', ''jse'', ''vbs'', ''vbe'', ''bat'', ''cmd'', ''reg'']"

definition is_script :: "string \<Rightarrow> bool" where
  "is_script path \<longleftrightarrow>
     to_lowercase (case path_extension path of None \<Rightarrow> [] | Some e \<Rightarrow> e) \<in> set script_exts"

text \<open>\<open>YaraEngine::scan\<close>, \<open>layers/yara.rs\<close>: large data is skipped, and any error of the scanner, its own
  time limit of ten seconds among them, is no finding.\<close>

definition YARA_MAX_SCAN_SIZE :: nat where "YARA_MAX_SCAN_SIZE = 50 * 1024 * 1024"

definition MAX_FINDINGS_PER_FILE :: nat where "MAX_FINDINGS_PER_FILE = 20"

definition yara_scan :: "layer_set \<Rightarrow> scan_env \<Rightarrow> u8 list \<Rightarrow> finding list" where
  "yara_scan ls ev data =
     (if length data > YARA_MAX_SCAN_SIZE then []
      else if yara_fails ev then []
      else take MAX_FINDINGS_PER_FILE (run_yara ls data))"

section \<open>Gates\<close>

text \<open>Each phase looks at the clock, then at the cancellation flag.\<close>

datatype gate = Run | Timed_Out_Gate | Cancelled_Gate

definition gate_at :: "scan_execution_budget \<Rightarrow> scan_env \<Rightarrow> nat \<Rightarrow> gate" where
  "gate_at b ev i =
     (if elapsed_at ev i \<ge> max_duration b then Timed_Out_Gate
      else if cancelled_at ev i then Cancelled_Gate else Run)"

definition gated :: "gate \<Rightarrow> finding list \<Rightarrow> finding list \<times> timeout_reason list" where
  "gated g fs = (case g of Run \<Rightarrow> (fs, []) | Timed_Out_Gate \<Rightarrow> ([], [Total_Timeout]) | Cancelled_Gate \<Rightarrow> ([], []))"

definition unless_off :: "bool \<Rightarrow> finding list \<times> timeout_reason list \<Rightarrow> finding list \<times> timeout_reason list" where
  "unless_off enabled r = (if enabled then r else ([], []))"

definition structural_findings :: "layer_set \<Rightarrow> argus_config \<Rightarrow> u8 list \<Rightarrow> finding list" where
  "structural_findings ls cfg data =
     (if is_pe data then
        (case run_pe ls data of
           Some (heuristics, packers) \<Rightarrow>
             (if pe_heuristics cfg then heuristics else []) @ (if packer_detection cfg then packers else [])
         | None \<Rightarrow> [])
      else if packer_detection cfg then check_non_pe_packers data else [])"

text \<open>The gated content phases in order: structural, script, JAR, PDF, patterns and YARA, with the
  timeouts they record.\<close>

definition content_phases ::
    "layer_set \<Rightarrow> argus_config \<Rightarrow> scan_execution_budget \<Rightarrow> scan_env \<Rightarrow> string \<Rightarrow> u8 list \<Rightarrow> scan_strategy
     \<Rightarrow> (finding list \<times> timeout_reason list) list" where
  "content_phases ls cfg b ev path data strat =
    [gated (gate_at b ev 0) (structural_findings ls cfg data),
     unless_off (script_analysis cfg)
       (gated (gate_at b ev 1) (if is_script path then run_script ls path data else [])),
     unless_off (jar_analysis cfg) (gated (gate_at b ev 2) (run_jar ls path data)),
     unless_off (pdf_analysis cfg) (gated (gate_at b ev 3) (run_pdf ls path data)),
     unless_off (pattern_detection cfg) (gated (gate_at b ev 4) (run_patterns ls path data)),
     (case gate_at b ev 5 of
        Timed_Out_Gate \<Rightarrow> ([], [Total_Timeout])
      | Cancelled_Gate \<Rightarrow> ([], [])
      | Run \<Rightarrow>
          if strat = Full_Analysis \<or> strat = Light_Analysis
          then (yara_scan ls ev data, if yara_elapsed ev \<ge> max_yara_duration b then [Yara_Timeout] else [])
          else ([], []))]"

definition authenticode_phase ::
    "layer_set \<Rightarrow> scan_execution_budget \<Rightarrow> scan_env \<Rightarrow> string \<Rightarrow> u8 list
     \<Rightarrow> finding list \<times> nat \<times> timeout_reason list" where
  "authenticode_phase ls b ev path data =
     (if \<not> is_pe data then ([], 0, [])
      else
        (case gate_at b ev 6 of
           Run \<Rightarrow> (let (fs, discount) = run_authenticode ls path in (fs, discount, []))
         | Timed_Out_Gate \<Rightarrow> ([], 0, [Total_Timeout])
         | Cancelled_Gate \<Rightarrow> ([], 0, [])))"

definition suppress_noise :: "nat \<Rightarrow> nat \<Rightarrow> finding list \<Rightarrow> finding list" where
  "suppress_noise authenticode_discount reputation_discount fs =
     (if authenticode_discount \<ge> 15 \<and> reputation_discount \<ge> 15
      then filter (\<lambda>f. \<not> (weight f \<le> 3 \<and> (layer f = Structural_Analysis \<or> layer f = Packer_Detection))) fs
      else fs)"

definition with_context ::
    "layer_set \<Rightarrow> string \<Rightarrow> nat \<Rightarrow> nat \<Rightarrow> finding list \<Rightarrow> finding list" where
  "with_context ls path authenticode_discount reputation_discount fs =
     (let pre = total_weight fs in
      if pre > 0 \<and> \<not> (reputation_discount \<ge> 15 \<or> authenticode_discount \<ge> 15)
      then fs @ run_context ls path pre else fs)"

section \<open>Analysis\<close>

definition count_verdict :: "verdict \<Rightarrow> argus_engine \<Rightarrow> argus_engine" where
  "count_verdict v e =
     (case v of
        Clean \<Rightarrow> e\<lparr>clean_files := clean_files e + 1\<rparr>
      | Malicious \<Rightarrow> e\<lparr>threats_detected := threats_detected e + 1\<rparr>
      | High_Suspicion \<Rightarrow> e\<lparr>threats_detected := threats_detected e + 1\<rparr>
      | _ \<Rightarrow> e)"

text \<open>What the layers found, in order, before mitigation, and the timeouts recorded on the way.\<close>

definition found_by ::
    "layer_set \<Rightarrow> scan_execution_budget \<Rightarrow> scan_env \<Rightarrow> string \<Rightarrow> u8 list \<Rightarrow> scan_strategy \<Rightarrow> argus_engine \<Rightarrow> finding list" where
  "found_by ls b ev path data strat e =
     (ioc_check (sha256_of ls data) (ioc e)
       @ (if file_deception (ac_config e) then run_deception ls path else [])
       @ (if mime_validation (ac_config e) then run_mime ls path data else []))
     @ concat (map fst (content_phases ls (ac_config e) b ev path data strat))
     @ fst (authenticode_phase ls b ev path data) @ fst (run_reputation ls path data)"

definition timeouts_of ::
    "layer_set \<Rightarrow> scan_execution_budget \<Rightarrow> scan_env \<Rightarrow> string \<Rightarrow> u8 list \<Rightarrow> scan_strategy \<Rightarrow> argus_engine \<Rightarrow> timeout_reason list" where
  "timeouts_of ls b ev path data strat e =
     concat (map snd (content_phases ls (ac_config e) b ev path data strat))
     @ snd (snd (authenticode_phase ls b ev path data))"

text \<open>Framework detection and mitigation; then noise suppression, context and the score.\<close>

definition mitigated_by ::
    "layer_set \<Rightarrow> scan_execution_budget \<Rightarrow> scan_env \<Rightarrow> string \<Rightarrow> u8 list \<Rightarrow> scan_strategy \<Rightarrow> argus_engine
     \<Rightarrow> framework_mitigation \<times> finding list" where
  "mitigated_by ls b ev path data strat e =
     evaluate (if gate_at b ev 7 = Run then detect (framework_claims ls data) data path else unknown_detection)
       (found_by ls b ev path data strat e)"

definition score_mitigated ::
    "layer_set \<Rightarrow> string \<Rightarrow> nat \<Rightarrow> nat \<Rightarrow> framework_mitigation \<times> finding list
     \<Rightarrow> finding list \<times> nat \<times> verdict \<times> verdict_explanation" where
  "score_mitigated ls path ad rd r =
     aggregate_score (with_context ls path ad rd (suppress_noise ad rd (snd r))) rd ad (fst r)"

definition scored_by ::
    "layer_set \<Rightarrow> scan_execution_budget \<Rightarrow> scan_env \<Rightarrow> string \<Rightarrow> u8 list \<Rightarrow> scan_strategy \<Rightarrow> argus_engine
     \<Rightarrow> finding list \<times> nat \<times> verdict \<times> verdict_explanation" where
  "scored_by ls b ev path data strat e =
     score_mitigated ls path (fst (snd (authenticode_phase ls b ev path data))) (snd (run_reputation ls path data))
       (mitigated_by ls b ev path data strat e)"

text \<open>The statistics and the trusted cache after a score, its event already recorded.\<close>

definition engine_after ::
    "string \<Rightarrow> finding list \<times> nat \<times> verdict \<times> verdict_explanation \<Rightarrow> event_record list \<Rightarrow> argus_engine \<Rightarrow> argus_engine" where
  "engine_after sha r events e =
     (case r of (fs, score, v, ex) \<Rightarrow>
      case count_verdict v
             (e\<lparr>correlator := events, files_analyzed := files_analyzed e + 1,
                total_findings := total_findings e + length fs\<rparr>) of e2 \<Rightarrow>
        if score = 0
        then e2\<lparr>trusted := tc_record sha score (signer ex) (recognized_software ex) (trusted e2)\<rparr>
        else e2)"

text \<open>The analysis of bytes that were read, behind the trusted-cache check. No verdict means that recording
  the event panicked; the engine is then as it was left before.\<close>

definition analyze_data ::
    "layer_set \<Rightarrow> scan_execution_budget \<Rightarrow> scan_env \<Rightarrow> string \<Rightarrow> nat \<Rightarrow> u8 list \<Rightarrow> scan_strategy \<Rightarrow> argus_engine
     \<Rightarrow> argus_verdict option \<times> argus_engine" where
  "analyze_data ls b ev path len data strat e =
     (case scored_by ls b ev path data strat e of (fs, score, v, ex) \<Rightarrow>
      case record_event (scan_clock ev) path (if score \<ge> 26 then Scanned_Suspicious else Scanned_Clean) None
             (correlator e) of
        None \<Rightarrow> (None, e)
      | Some events \<Rightarrow>
          (Some \<lparr>av_path = path, av_file_size = len, av_sha256 = sha256_of ls data, av_mime_type = mime_of ls data,
             av_score = score, av_verdict = v, av_findings = fs, av_explanation = ex,
             av_timing = Some \<lparr>strategy = strat,
               timeout_reasons = prior_timeouts ev @ timeouts_of ls b ev path data strat e,
               completed_within_budget =
                 (\<not> elapsed_at ev 8 \<ge> max_duration b
                  \<and> prior_timeouts ev @ timeouts_of ls b ev path data strat e = [])\<rparr>\<rparr>,
           engine_after (sha256_of ls data) (fs, score, v, ex) events e))"

text \<open>The verdict of a trusted-cache hit.\<close>

definition cached_verdict :: "layer_set \<Rightarrow> string \<Rightarrow> nat \<Rightarrow> u8 list \<Rightarrow> nat \<Rightarrow> argus_verdict" where
  "cached_verdict ls path len data cached =
     \<lparr>av_path = path, av_file_size = len, av_sha256 = sha256_of ls data, av_mime_type = mime_of ls data,
      av_score = cached, av_verdict = from_score cached, av_findings = [],
      av_explanation = default_explanation\<lparr>ex_confidence_label := Trusted\<rparr>, av_timing = None\<rparr>"

definition analyze_file_with_tracker ::
    "layer_set \<Rightarrow> scan_execution_budget \<Rightarrow> scan_env \<Rightarrow> string \<Rightarrow> argus_engine
     \<Rightarrow> argus_verdict option \<times> argus_engine" where
  "analyze_file_with_tracker ls b ev path e =
     (case meta_len ev of
        Inl err \<Rightarrow> (Some (error_verdict path (''Cannot read file: '' @ err)), e)
      | Inr len \<Rightarrow>
          if len = 0 then (Some (empty_verdict path), e)
          else
            let strat = classify path len in
            if strat = Too_Large then (Some (empty_verdict path), e)
            else if strat = Skip_Safe then (Some (empty_verdict path), e)
            else if len > max_file_size (ac_config e) then (Some (empty_verdict path), e)
            else
              (case read_data ev of
                 Inl err \<Rightarrow> (Some (error_verdict path (''Read error: '' @ err)), e)
               | Inr data \<Rightarrow>
                   if length data > max_file_size (ac_config e) then (Some (empty_verdict path), e)
                   else
                     (case tc_check (sha256_of ls data) (trusted e) of
                        (Some cached, tc) \<Rightarrow>
                          (Some (cached_verdict ls path len data cached),
                           e\<lparr>trusted := tc, files_analyzed := files_analyzed e + 1,
                             clean_files := clean_files e + 1\<rparr>)
                      | (None, tc) \<Rightarrow>
                          analyze_data ls b ev path len data strat (e\<lparr>trusted := tc\<rparr>))))"

text \<open>The two entry points that make their own tracker: it starts empty and nobody holds its cancellation flag.\<close>

definition analyze_file_with_budget ::
    "layer_set \<Rightarrow> scan_execution_budget \<Rightarrow> scan_env \<Rightarrow> string \<Rightarrow> argus_engine
     \<Rightarrow> argus_verdict option \<times> argus_engine" where
  "analyze_file_with_budget ls b ev =
     analyze_file_with_tracker ls b (ev\<lparr>prior_timeouts := [], cancelled_at := \<lambda>_. False\<rparr>)"

definition analyze_file ::
    "layer_set \<Rightarrow> scan_env \<Rightarrow> string \<Rightarrow> argus_engine \<Rightarrow> argus_verdict option \<times> argus_engine" where
  "analyze_file ls = analyze_file_with_budget ls manual_budget"

definition analyze_buffer ::
    "layer_set \<Rightarrow> string \<Rightarrow> u8 list \<Rightarrow> argus_engine \<Rightarrow> argus_verdict \<times> argus_engine" where
  "analyze_buffer ls name data e =
     (let cfg = ac_config e;
          sha = sha256_of ls data;
          found = ioc_check sha (ioc e)
            @ (if mime_validation cfg then run_mime ls name data else [])
            @ (if is_pe data then structural_findings ls cfg data else [])
            @ (if script_analysis cfg then run_script ls name data else [])
            @ (if jar_analysis cfg then run_jar ls name data else [])
            @ (if pdf_analysis cfg then run_pdf ls name data else [])
            @ (if pattern_detection cfg then run_patterns ls name data else []);
          (fs, score, v, ex) = aggregate_score found 0 0 no_mitigation in
      (\<lparr>av_path = name, av_file_size = length data, av_sha256 = sha, av_mime_type = mime_of ls data,
        av_score = score, av_verdict = v, av_findings = fs, av_explanation = ex, av_timing = None\<rparr>,
       count_verdict v (e\<lparr>files_analyzed := files_analyzed e + 1, total_findings := total_findings e + length fs\<rparr>)))"

section \<open>Signature updates\<close>

text \<open>Hashes are read from the first existing file that loads.\<close>

fun reload_ioc :: "ioc_file list \<Rightarrow> argus_engine \<Rightarrow> argus_engine" where
  "reload_ioc [] e = e"
| "reload_ioc (file # files) e =
     (case load_from_file file (ioc e) of
        (Inr _, db) \<Rightarrow> e\<lparr>ioc := db\<rparr>
      | (Inl _, db) \<Rightarrow> reload_ioc files (e\<lparr>ioc := db\<rparr>))"

text \<open>The \<open>argus.reload\<close> request: the hashes are loaded, then what was trusted under the old ones is
  forgotten.\<close>

definition argus_reload :: "ioc_file list \<Rightarrow> argus_engine \<Rightarrow> argus_engine" where
  "argus_reload files e = (let e1 = reload_ioc files e in e1\<lparr>trusted := tc_invalidate (trusted e1)\<rparr>)"

text \<open>A signature update: reloading the ClamAV engine forgets, and the hashes are loaded after it. Scans of
  other threads run between the two steps; they are the argument \<open>between\<close>. A failed engine reload
  forgets nothing.\<close>

definition update_reload :: "bool \<Rightarrow> (argus_engine \<Rightarrow> argus_engine) \<Rightarrow> ioc_file list \<Rightarrow> argus_engine \<Rightarrow> argus_engine" where
  "update_reload engine_ok between files e =
     (let e1 = (if engine_ok then e\<lparr>trusted := tc_invalidate (trusted e)\<rparr> else e) in
      reload_ioc files (between e1))"

end
