(* ===== verification/Argus_Score_Spec.thy ===== *)
theory Argus_Score_Spec
  imports Argus_Score "HOL-Library.Multiset"
begin

text \<open>
  What scoring promises: passes only ever take weight away, duplicates count once, capped layers stay
  within their caps in spite of rounding, mitigation follows its policy, and the result does not depend
  on the order in which the layers reported.
\<close>

section \<open>Passes that reduce weights\<close>

definition same_evidence :: "finding \<Rightarrow> finding \<Rightarrow> bool" where
  "same_evidence f g \<longleftrightarrow>
     layer g = layer f \<and> description g = description f \<and> technical_detail g = technical_detail f"

definition lighter :: "finding \<Rightarrow> finding \<Rightarrow> bool" where
  "lighter f g \<longleftrightarrow> same_evidence f g \<and> weight g \<le> weight f"

lemma lighter_refl [simp]: "lighter f f"
  by (simp add: lighter_def same_evidence_def)

lemma lighter_trans: "lighter f g \<Longrightarrow> lighter g h \<Longrightarrow> lighter f h"
  by (auto simp: lighter_def same_evidence_def)

lemma same_evidence_tag: "same_evidence f g \<Longrightarrow> behavior_tag_of g = behavior_tag_of f"
  by (auto simp: same_evidence_def behavior_tag_of_def split: option.split)

lemma total_weight_simps [simp]:
  "total_weight [] = 0" "total_weight (f # fs) = weight f + total_weight fs"
  "total_weight (fs @ gs) = total_weight fs + total_weight gs"
  by (simp_all add: total_weight_def)

lemma lighter_total: "list_all2 lighter fs gs \<Longrightarrow> total_weight gs \<le> total_weight fs"
  by (induction rule: list_all2_induct) (auto simp: lighter_def)

lemma lighter_filter:
  assumes "\<And>f g. same_evidence f g \<Longrightarrow> P g = P f"
  shows "list_all2 lighter fs gs \<Longrightarrow> list_all2 lighter (filter P fs) (filter P gs)"
  by (induction rule: list_all2_induct) (use assms in \<open>auto simp: lighter_def\<close>)

lemma lighter_layer: "list_all2 lighter fs gs \<Longrightarrow> layer_weight ly gs \<le> layer_weight ly fs"
  unfolding layer_weight_def
  by (intro lighter_total lighter_filter) (simp_all add: same_evidence_def)

lemma lighter_list_refl [simp]: "list_all2 lighter fs fs"
  by (simp add: list_all2_refl)

text \<open>The contract of every pass of the aggregation: it keeps the findings, their order and their
  evidence, and raises no weight, as long as the \<open>u32\<close> sums are exact.\<close>

locale weight_reducer =
  fixes pass :: "finding list \<Rightarrow> finding list"
  assumes reduces: "total_weight fs < 4294967296 \<Longrightarrow> list_all2 lighter fs (pass fs)"
begin

lemma pass_total: "total_weight fs < 4294967296 \<Longrightarrow> total_weight (pass fs) \<le> total_weight fs"
  by (rule lighter_total [OF reduces])

lemma pass_layer: "total_weight fs < 4294967296 \<Longrightarrow> layer_weight ly (pass fs) \<le> layer_weight ly fs"
  by (rule lighter_layer [OF reduces])

lemma pass_length: "total_weight fs < 4294967296 \<Longrightarrow> length (pass fs) = length fs"
  using list_all2_lengthD [OF reduces] by simp

lemma pass_after:
  "list_all2 lighter fs gs \<Longrightarrow> total_weight fs < 4294967296 \<Longrightarrow> list_all2 lighter fs (pass gs)"
  using reduces [of gs] lighter_total [of fs gs] lighter_trans
  by (auto intro: list_all2_trans [of lighter lighter lighter])

end

lemma layer_weight_le: "layer_weight ly fs \<le> total_weight fs"
  by (induction fs) (auto simp: layer_weight_def)

lemma zeroed_lighter [simp]: "lighter f (zeroed f)"
  by (simp add: lighter_def same_evidence_def zeroed_def)

lemma mitigate_lighter [simp]: "lighter f (mitigate f)"
  by (auto simp: lighter_def same_evidence_def mitigate_def reduced_weight_def split: option.split)

lemma dedup_lighter: "list_all2 lighter fs (dedup_pass seen fs)"
  by (induction seen fs rule: dedup_pass.induct) (auto split: option.split)

lemma cap_lighter:
  assumes "0 < cap" "total_weight fs < 4294967296"
  shows "list_all2 lighter fs (apply_cap ly cap fs)"
proof (cases "layer_weight ly fs > cap")
  case True
  have "layer_weight ly fs < 2 ^ 50" using layer_weight_le [of ly fs] assms(2) by simp
  then show ?thesis
    using scaled_weight_mono [OF assms(1) True] True
    by (auto simp: apply_cap_def Let_def list_all2_conv_all_nth lighter_def same_evidence_def)
next
  case False
  then show ?thesis by (simp add: apply_cap_def)
qed

interpretation dedup: weight_reducer "dedup_pass seen" for seen
  by unfold_locales (rule dedup_lighter)

interpretation mitigation: weight_reducer "map mitigate"
  by unfold_locales (simp add: list_all2_conv_all_nth)

interpretation structural_cap: weight_reducer "apply_cap Structural_Analysis 30"
  by unfold_locales (simp add: cap_lighter)

interpretation yara_cap: weight_reducer "apply_cap Yara_Rules 40"
  by unfold_locales (simp add: cap_lighter)

interpretation context_cap: weight_reducer "apply_cap Context_Layer 15"
  by unfold_locales (simp add: cap_lighter)

interpretation packer_cap: weight_reducer "apply_cap Packer_Detection 20"
  by unfold_locales (simp add: cap_lighter)

interpretation pattern_cap: weight_reducer "apply_cap Pattern_Detection 25"
  by unfold_locales (simp add: cap_lighter)

interpretation script_cap: weight_reducer "apply_cap Script_Analysis 40"
  by unfold_locales (simp add: cap_lighter)

interpretation deception_cap: weight_reducer "apply_cap File_Deception 50"
  by unfold_locales (simp add: cap_lighter)

lemma caps_lighter: "total_weight fs < 4294967296 \<Longrightarrow> list_all2 lighter fs (apply_caps fs)"
  by (simp add: apply_caps_def category_caps_def)
    (intro deception_cap.pass_after script_cap.pass_after pattern_cap.pass_after packer_cap.pass_after
      context_cap.pass_after yara_cap.pass_after structural_cap.reduces; assumption)

interpretation caps: weight_reducer apply_caps
  by unfold_locales (rule caps_lighter)

section \<open>Caps\<close>

lemma layer_weight_alt: "layer_weight ly fs = sum_list (map (\<lambda>f. if layer f = ly then weight f else 0) fs)"
  by (induction fs) (auto simp: layer_weight_def)

lemma apply_cap_other: "ly' \<noteq> ly \<Longrightarrow> layer_weight ly' (apply_cap ly cap fs) = layer_weight ly' fs"
  by (auto simp: layer_weight_alt apply_cap_def Let_def comp_def intro!: arg_cong [where f = sum_list])

lemma apply_cap_bound:
  assumes "0 < cap" "cap < 2 ^ 50"
  shows "layer_weight ly (apply_cap ly cap fs) \<le> cap"
proof (cases "layer_weight ly fs > cap")
  case True
  let ?tot = "layer_weight ly fs"
  have "layer_weight ly (map (\<lambda>f. if layer f = ly then f\<lparr>weight := scaled_weight cap t (weight f)\<rparr> else f) gs)
      = sum_list (map (scaled_weight cap t) (map weight (filter (\<lambda>f. layer f = ly) gs)))" for t gs
    by (induction gs) (auto simp: layer_weight_def)
  moreover have "sum_list (map (scaled_weight cap ?tot) (map weight (filter (\<lambda>f. layer f = ly) fs))) \<le> cap"
    using True assms by (intro scaled_weights_sum) (auto simp: layer_weight_def total_weight_def)
  ultimately show ?thesis using True by (simp add: apply_cap_def Let_def)
next
  case False
  then show ?thesis by (simp add: apply_cap_def)
qed

lemma apply_caps_bound: "(ly, cap) \<in> set category_caps \<Longrightarrow> layer_weight ly (apply_caps fs) \<le> cap"
  by (auto simp: apply_caps_def category_caps_def apply_cap_other apply_cap_bound)

lemma apply_caps_other: "ly \<notin> fst ` set category_caps \<Longrightarrow> layer_weight ly (apply_caps fs) = layer_weight ly fs"
  by (simp add: apply_caps_def category_caps_def apply_cap_other)

section \<open>Mitigation\<close>

lemma heaviest_None: "heaviest fs = None \<longleftrightarrow> fs = []"
proof -
  have "fold (\<lambda>f best. case best of None \<Rightarrow> Some f | Some b \<Rightarrow> if weight f \<ge> weight b then Some f else best) fs a = None
      \<longleftrightarrow> fs = [] \<and> a = None" for a
    by (induction fs arbitrary: a) (auto split: option.splits)
  then show ?thesis by (simp add: heaviest_def)
qed

lemma no_veto: "heaviest (filter (\<lambda>f. weight f \<ge> HIGH_CONFIDENCE_VETO_WEIGHT) fs) = None \<longleftrightarrow> (\<forall>f \<in> set fs. weight f < 40)"
  by (auto simp: heaviest_None filter_empty_conv HIGH_CONFIDENCE_VETO_WEIGHT_def not_le)

lemma reduced_le: "reduced_weight f \<le> weight f"
  by (auto simp: reduced_weight_def split: option.split)

lemma reduced_ge: "weight f div 3 \<le> reduced_weight f"
  by (auto simp: reduced_weight_def split: option.split)

lemma mitigation_ops_total:
  "total_weight fs = total_weight (map mitigate fs) +
     sum_list (map (\<lambda>p. weight_before p - weight_after p) (mitigation_ops fs))"
proof (induction fs)
  case (Cons f fs)
  then show ?case using reduced_le [of f] by (simp add: mitigation_ops_def mitigate_def)
qed (simp add: mitigation_ops_def)

text \<open>
C23: Installer leniency follows its policy: it is applied exactly when the detection is structural and
mitigation-safe and no finding is heavy enough to veto; otherwise the findings come out unchanged. When
applied, only structural, packer and YARA findings lose weight, never more than two thirds, and the
recorded operations and totals account for every point.
\<close>

theorem mitigation_follows_policy:
  "\<exists>m fs'. evaluate d fs = (m, fs') \<and>
   (applied m \<longleftrightarrow> fd_confidence d = Structural \<and> mitigation_safe d \<and> (\<forall>f \<in> set fs. weight f < 40)) \<and>
   (\<not> applied m \<longrightarrow> fs' = fs \<and> ops m = []) \<and>
   (veto_reason m \<noteq> None \<longrightarrow> (\<exists>f \<in> set fs. 40 \<le> weight f)) \<and>
   score_before m = total_weight fs \<and> score_after m = total_weight fs' \<and>
   score_before m = score_after m + sum_list (map (\<lambda>p. weight_before p - weight_after p) (ops m)) \<and>
   list_all2 (\<lambda>f g. layer g = layer f \<and> description g = description f \<and>
     technical_detail g = technical_detail f \<and> weight g \<le> weight f \<and> weight f div 3 \<le> weight g \<and>
     (layer f \<notin> {Structural_Analysis, Packer_Detection, Yara_Rules} \<longrightarrow> weight g = weight f)) fs fs'"
proof -
  let ?ok = "\<lambda>f g. layer g = layer f \<and> description g = description f \<and>
     technical_detail g = technical_detail f \<and> weight g \<le> weight f \<and> weight f div 3 \<le> weight g \<and>
     (layer f \<notin> {Structural_Analysis, Packer_Detection, Yara_Rules} \<longrightarrow> weight g = weight f)"
  have kept: "list_all2 ?ok fs fs" by (simp add: list_all2_refl)
  have cut: "list_all2 ?ok fs (map mitigate fs)"
    using reduced_le reduced_ge by (auto simp: list_all2_conv_all_nth mitigate_def reduced_weight_def)
  show ?thesis
  proof (cases "fd_confidence d = Structural \<and> mitigation_safe d")
    case False
    then show ?thesis using kept by (auto simp: evaluate_def Let_def)
  next
    case True
    show ?thesis
    proof (cases "heaviest (filter (\<lambda>f. weight f \<ge> HIGH_CONFIDENCE_VETO_WEIGHT) fs)")
      case None
      then show ?thesis
        using True cut mitigation_ops_total [of fs] no_veto [of fs] by (simp add: evaluate_def Let_def)
    next
      case (Some f)
      then show ?thesis
        using True kept no_veto [of fs] by (force simp: evaluate_def Let_def not_less)
    qed
  qed
qed

section \<open>Aggregation\<close>

lemma lighter_sort:
  "total_weight (sort_by_weight fs) = total_weight fs" "layer_weight ly (sort_by_weight fs) = layer_weight ly fs"
proof -
  have m: "mset (sort_by_weight fs) = mset fs" by (simp add: sort_by_weight_def)
  have t: "total_weight gs = sum_mset (image_mset weight (mset gs))" for gs
    by (simp add: total_weight_def flip: sum_mset_sum_list)
  show "total_weight (sort_by_weight fs) = total_weight fs" by (simp add: t m)
  show "layer_weight ly (sort_by_weight fs) = layer_weight ly fs"
    by (simp add: layer_weight_def t m)
qed

lemma aggregate_fields:
  assumes "aggregate_score fs rd ad m = (fs', score, v, ex)"
  shows "fs' = sort_by_weight (apply_caps (deduplicate_findings fs))"
    "score = min (total_weight fs' - max rd ad) 100" "v = verdict_of score (total_weight fs') fs'"
    "raw_score ex = total_weight fs'" "final_score ex = score"
    "ex_confidence_label ex = label_from_convergence score (ad > 0) (rd > 0) (applied m) (compute_convergence fs')"
    "ex_threat_maturity ex = maturity_from_convergence (compute_convergence fs') score"
    "installer_discount_applied ex = applied m"
  using assms by (auto simp: aggregate_score_def Let_def lighter_sort MAX_SCORE_def)

lemma dedup_total: "total_weight (deduplicate_findings fs) \<le> total_weight fs"
  using lighter_total [OF dedup_lighter, of "{}" "sort_by_weight fs"]
  by (simp add: deduplicate_findings_def lighter_sort)

text \<open>
C11: The score is bounded and explained: it is the sum of the reported weights less the larger discount,
at most 100; no capped layer contributes more than its cap, although the weights are scaled in floating
point; nothing weighs more than what the layers reported; the verdict is the band of the score, except
that a dominantly unwanted application is called one.
\<close>

theorem aggregate_bounds:
  assumes "aggregate_score fs rd ad m = (fs', score, v, ex)" and "total_weight fs < 4294967296"
  shows "score = min 100 (total_weight fs' - max rd ad) \<and> raw_score ex = total_weight fs' \<and>
    total_weight fs' \<le> total_weight fs \<and>
    (\<forall>(ly, cap) \<in> set category_caps. layer_weight ly fs' \<le> cap) \<and>
    (v = from_score score \<or> v = Potentially_Unwanted \<and> 26 \<le> score \<and> score \<le> 75)"
proof -
  note a = aggregate_fields [OF assms(1)]
  have "total_weight (deduplicate_findings fs) < 4294967296"
    using dedup_total [of fs] assms(2) by simp
  from caps.pass_total [OF this] dedup_total [of fs]
  have le: "total_weight fs' \<le> total_weight fs" by (simp add: a(1) lighter_sort)
  have caps: "layer_weight ly fs' \<le> cap" if "(ly, cap) \<in> set category_caps" for ly cap
    using apply_caps_bound [OF that] by (simp add: a(1) lighter_sort)
  have "v = from_score score \<or> v = Potentially_Unwanted \<and> 26 \<le> score \<and> score \<le> 75"
    by (auto simp: a(3) verdict_of_def Let_def from_score_def)
  then show ?thesis using a(2,4) le caps by (auto simp: min.commute)
qed

lemma single_layer_total: "\<forall>f \<in> set fs. layer f = ly \<Longrightarrow> total_weight fs = layer_weight ly fs"
  by (induction fs) (auto simp: layer_weight_def)

lemma lighter_layers: "list_all2 lighter fs gs \<Longrightarrow> map layer gs = map layer fs"
  by (induction rule: list_all2_induct) (auto simp: lighter_def same_evidence_def)

lemma aggregate_layers:
  assumes "total_weight fs < 4294967296"
  shows "layer ` set (sort_by_weight (apply_caps (deduplicate_findings fs))) = layer ` set fs"
proof -
  have "total_weight (deduplicate_findings fs) < 4294967296"
    using dedup_total [of fs] assms by simp
  from lighter_layers [OF caps.reduces [OF this]]
  have "layer ` set (apply_caps (deduplicate_findings fs)) = layer ` set (deduplicate_findings fs)"
    by (metis list.set_map)
  also have "\<dots> = layer ` set (sort_by_weight fs)"
    using lighter_layers [OF dedup_lighter, of "{}" "sort_by_weight fs"]
    by (metis deduplicate_findings_def list.set_map)
  finally show ?thesis by (simp add: sort_by_weight_def)
qed

text \<open>
No single capped layer convicts: when all findings come from one layer with a cap, the score is at
most the cap and the verdict is not malicious; context alone is never more than a low suspicion.
\<close>

theorem single_layer_never_convicts:
  assumes "aggregate_score fs rd ad m = (fs', score, v, ex)" and "total_weight fs < 4294967296"
    and "(ly, cap) \<in> set category_caps" and "\<forall>f \<in> set fs. layer f = ly"
  shows "score \<le> cap \<and> v \<noteq> Malicious \<and> v \<noteq> High_Suspicion \<and>
    (ly = Context_Layer \<or> ly = Packer_Detection \<or> ly = Pattern_Detection \<longrightarrow> v = Clean \<or> v = Low_Suspicion)"
proof -
  note a = aggregate_fields [OF assms(1)]
  have "\<forall>f \<in> set fs'. layer f = ly"
    using aggregate_layers [OF assms(2)] assms(4) a(1) by (metis (no_types, lifting) image_iff)
  then have "total_weight fs' = layer_weight ly fs'" by (rule single_layer_total)
  also have "\<dots> \<le> cap" using apply_caps_bound [OF assms(3)] by (simp add: a(1) lighter_sort)
  finally have s: "score \<le> cap" by (simp add: a(2))
  have "cap \<le> 50" "ly = Context_Layer \<or> ly = Packer_Detection \<or> ly = Pattern_Detection \<Longrightarrow> cap \<le> 25"
    using assms(3) by (auto simp: category_caps_def)
  then show ?thesis using s by (auto simp: a(3) verdict_of_def Let_def from_score_def)
qed

lemma chain_le_max: "(n, s) \<in> set cs \<Longrightarrow> s \<le> fold max (map snd cs) Chain_None"
proof -
  assume "(n, s) \<in> set cs"
  then have "s \<in> set (Chain_None # map snd cs)" by force
  then have "s \<le> Max (set (Chain_None # map snd cs))" by simp
  then show ?thesis by (simp only: Max.set_eq_fold)
qed

lemma chain_strong_top: "Chain_Strong \<le> c \<longleftrightarrow> c = Chain_Strong"
  by (cases c) (simp_all add: less_eq_chain_strength_def)

lemma ransomware_only_strong: "(''ransomware'', s) \<in> set (chains_of tags) \<Longrightarrow> s = Chain_Strong"
  by (auto simp: chains_of_def Let_def split: if_splits)

lemma ransomware_chain:
  "''ransomware'' \<in> set (chain_names (compute_convergence fs)) \<Longrightarrow>
   chain_strength (compute_convergence fs) \<ge> Chain_Strong"
  using chain_le_max [of "''ransomware''" _ "chains_of (active_tags fs)"] ransomware_only_strong
  by (fastforce simp: compute_convergence_def Let_def)

text \<open>
The labels never contradict the score: \<open>Trusted\<close> needs trust and a score of at most 25, so it never
stands beside a suspicious verdict; the label \<open>Malicious\<close> needs a score above 90 and a chain of at least
moderate strength; active or destructive malware is only reported for a positive score with a chain to
show for it, and a clean verdict is exactly a zero score and reported as benign.
\<close>

theorem labels_agree:
  assumes "aggregate_score fs rd ad m = (fs', score, v, ex)"
  shows "(ex_confidence_label ex = Trusted \<longrightarrow> score \<le> 25 \<and> (rd > 0 \<or> ad > 0) \<and> (v = Clean \<or> v = Low_Suspicion)) \<and>
    (ex_confidence_label ex = Label_Malicious \<longrightarrow>
       90 < score \<and> v = Malicious \<and> chain_strength (compute_convergence fs') \<ge> Chain_Moderate) \<and>
    (ex_threat_maturity ex \<ge> Active_Malware \<longrightarrow>
       0 < score \<and> chain_strength (compute_convergence fs') = Chain_Strong) \<and>
    (v = Clean \<longleftrightarrow> score = 0) \<and> (score = 0 \<longrightarrow> ex_threat_maturity ex = Benign)"
proof -
  note a = aggregate_fields [OF assms]
  let ?c = "compute_convergence fs'"
  have trusted: "score \<le> 25 \<and> (rd > 0 \<or> ad > 0)" if "ex_confidence_label ex = Trusted"
    using that by (auto simp: a(6) label_from_convergence_def Let_def split: if_splits)
  have mal: "90 < score \<and> chain_strength ?c \<ge> Chain_Moderate" if "ex_confidence_label ex = Label_Malicious"
    using that by (auto simp: a(6) label_from_convergence_def Let_def strong_convergence_def
        less_eq_chain_strength_def split: if_splits)
  have mat: "0 < score \<and> chain_strength ?c = Chain_Strong" if "ex_threat_maturity ex \<ge> Active_Malware"
  proof -
    have "0 < score \<and> (''ransomware'' \<in> set (chain_names ?c) \<or> chain_strength ?c \<ge> Chain_Strong)"
      using that by (auto simp: a(7) maturity_from_convergence_def less_eq_threat_maturity_def split: if_splits)
    then show ?thesis using ransomware_chain [of fs'] chain_strong_top by blast
  qed
  have v: "score \<le> 25 \<Longrightarrow> v = Clean \<or> v = Low_Suspicion" "90 < score \<Longrightarrow> v = Malicious"
    "v = Clean \<longleftrightarrow> score = 0"
    by (simp_all add: a(3) verdict_of_def Let_def from_score_def)
  have benign: "score = 0 \<Longrightarrow> ex_threat_maturity ex = Benign"
    by (simp add: a(7) maturity_from_convergence_def)
  show ?thesis using trusted mal mat v benign by blast
qed

section \<open>A sample\<close>

definition mk :: "layer \<Rightarrow> nat \<Rightarrow> string \<Rightarrow> string \<Rightarrow> finding" where
  "mk ly w desc detail =
    \<lparr>layer = ly, severity = Medium, weight = w, description = desc, technical_detail = Some detail\<rparr>"

definition sample_findings :: "finding list" where
  "sample_findings =
    [mk Structural_Analysis 20 ''High entropy section'' ''.text'', mk Structural_Analysis 25 ''Remote thread'' ''x'',
     mk Structural_Analysis 15 ''Near-random resource'' ''y'',
     mk Yara_Rules 35 ''Rule'' ''pack: stealer'', mk Pattern_Detection 20 ''Discord webhook'' ''z'']"

definition sample_detection :: framework_detection where
  "sample_detection = detect (Some [overlay_claim]) [0x4D, 0x5A, 0x90] ''x.exe''"

theorem aggregate_bounds_witness:
  "\<exists>fs' score v ex. aggregate_score sample_findings 10 0 no_mitigation = (fs', score, v, ex) \<and>
    score = 74 \<and> layer_weight Structural_Analysis fs' \<le> 30"
proof -
  obtain fs' score v ex where a: "aggregate_score sample_findings 10 0 no_mitigation = (fs', score, v, ex)"
    by (metis prod_cases4)
  have s: "fst (snd (aggregate_score sample_findings 10 0 no_mitigation)) = 74"
    "total_weight sample_findings < 4294967296" by code_simp+
  from aggregate_bounds [OF a s(2)] s(1) a
  show ?thesis by (auto simp: category_caps_def)
qed

theorem single_layer_never_convicts_witness:
  "\<exists>fs' score v ex. aggregate_score (take 3 sample_findings) 0 0 no_mitigation = (fs', score, v, ex) \<and>
    score \<le> 30 \<and> v \<noteq> Malicious"
proof -
  obtain fs' score v ex where
    a: "aggregate_score (take 3 sample_findings) 0 0 no_mitigation = (fs', score, v, ex)"
    by (metis prod_cases4)
  have s: "total_weight (take 3 sample_findings) < 4294967296"
    "list_all (\<lambda>f. layer f = Structural_Analysis) (take 3 sample_findings)" by code_simp+
  have "(Structural_Analysis, 30) \<in> set category_caps" by (simp add: category_caps_def)
  from single_layer_never_convicts [OF a s(1) this] s(2) a
  show ?thesis by (auto simp: list_all_iff)
qed

theorem labels_agree_witness:
  "\<exists>fs' v ex. aggregate_score sample_findings 0 0 no_mitigation = (fs', 84, v, ex) \<and>
    ex_threat_maturity ex = Active_Malware \<and> chain_strength (compute_convergence fs') = Chain_Strong"
proof -
  obtain fs' score v ex where a: "aggregate_score sample_findings 0 0 no_mitigation = (fs', score, v, ex)"
    by (metis prod_cases4)
  have "fst (snd (aggregate_score sample_findings 0 0 no_mitigation)) = 84"
    "ex_threat_maturity (snd (snd (snd (aggregate_score sample_findings 0 0 no_mitigation)))) = Active_Malware"
    by code_simp+
  then show ?thesis using labels_agree [OF a] a by auto
qed

theorem mitigation_follows_policy_witness:
  "\<exists>m fs'. evaluate sample_detection sample_findings = (m, fs') \<and> applied m \<and>
    score_before m = 115 \<and> score_after m = total_weight fs'"
proof -
  have e: "fd_confidence sample_detection = Structural \<and> mitigation_safe sample_detection"
    "list_all (\<lambda>f. weight f < 40) sample_findings" "total_weight sample_findings = 115" by code_simp+
  from mitigation_follows_policy [of sample_detection sample_findings] e
  show ?thesis by (auto simp: list_all_iff)
qed

end
