(* ===== verification/Argus_Order.thy ===== *)
theory Argus_Order
  imports Argus_Score_Spec
begin

text \<open>
  Deduplication counts every behaviour of a layer once, and the whole result of the aggregation is a
  function of what the findings are, not of the order in which the layers reported them.
\<close>

section \<open>Groups\<close>

text \<open>The findings of one layer that show one behaviour.\<close>

definition in_group :: "behavior_tag \<Rightarrow> layer \<Rightarrow> finding \<Rightarrow> bool" where
  "in_group t ly f \<longleftrightarrow> behavior_tag_of f = Some t \<and> layer f = ly"

definition group_weights :: "behavior_tag \<Rightarrow> layer \<Rightarrow> finding list \<Rightarrow> nat multiset" where
  "group_weights t ly fs = mset (map weight (filter (in_group t ly) fs))"

definition ungrouped :: "finding \<Rightarrow> bool" where
  "ungrouped f \<longleftrightarrow> behavior_tag_of f = None \<or> behavior_tag_of f = Some Download_Origin_Context"

text \<open>What deduplication leaves of the weights of a group: the largest, and a zero for each other.\<close>

definition keep_max :: "nat multiset \<Rightarrow> nat multiset" where
  "keep_max M = (if M = {#} then {#} else add_mset (Max_mset M) (replicate_mset (size M - 1) 0))"

lemma zeroed_simps [simp]:
  "behavior_tag_of (zeroed f) = behavior_tag_of f" "layer (zeroed f) = layer f" "weight (zeroed f) = 0"
  using zeroed_lighter [of f] same_evidence_tag [of f "zeroed f"]
  by (simp_all add: lighter_def same_evidence_def zeroed_def)

lemma group_weights_seen:
  "(t, ly) \<in> seen \<Longrightarrow> t \<noteq> Download_Origin_Context \<Longrightarrow>
   group_weights t ly (dedup_pass seen fs) = replicate_mset (length (filter (in_group t ly) fs)) 0"
  by (induction seen fs rule: dedup_pass.induct)
    (auto simp: group_weights_def in_group_def split: option.split)

lemma group_weights_fresh:
  "(t, ly) \<notin> seen \<Longrightarrow> t \<noteq> Download_Origin_Context \<Longrightarrow>
   group_weights t ly (dedup_pass seen fs) =
     (case filter (in_group t ly) fs of
        [] \<Rightarrow> {#}
      | f # rest \<Rightarrow> add_mset (weight f) (replicate_mset (length rest) 0))"
proof (induction seen fs rule: dedup_pass.induct)
  case (2 seen f fs)
  show ?case
  proof (cases "in_group t ly f")
    case True
    then show ?thesis
      using 2 group_weights_seen [of t ly "insert (t, ly) seen" fs]
      by (simp add: group_weights_def in_group_def [abs_def])
  next
    case False
    then show ?thesis
      using 2 by (auto simp: group_weights_def in_group_def split: option.split)
  qed
qed (simp add: group_weights_def)

lemma ungrouped_dedup: "filter ungrouped (dedup_pass seen fs) = filter ungrouped fs"
  by (induction seen fs rule: dedup_pass.induct) (auto simp: ungrouped_def split: option.split)

lemma mset_sort [simp]: "mset (sort_by_weight fs) = mset fs"
  by (simp add: sort_by_weight_def)

lemma heaviest_first:
  assumes "filter P (sort_by_weight fs) = f # rest"
  shows "weight f = Max_mset (mset (map weight (filter P fs)))"
proof -
  have "sorted (map (\<lambda>f. - int (weight f)) (sort_by_weight fs))"
    by (simp add: sort_by_weight_def)
  then have s: "sorted (map (\<lambda>f. - int (weight f)) (f # rest))"
    using assms sorted_filter [of "\<lambda>f. - int (weight f)" "sort_by_weight fs" P] by simp
  have m: "set (filter P fs) = set (f # rest)"
    using arg_cong [OF assms, of set] by (metis mset_sort set_filter set_mset_mset)
  have "\<forall>g \<in> set (f # rest). weight g \<le> weight f" using s by auto
  then have "Max (weight ` set (f # rest)) = weight f" by (intro Max_eqI) auto
  then show ?thesis by (simp only: m [symmetric] set_mset_mset list.set_map)
qed

lemma dedup_group:
  assumes "t \<noteq> Download_Origin_Context"
  shows "group_weights t ly (deduplicate_findings fs) = keep_max (group_weights t ly fs)"
proof (cases "filter (in_group t ly) (sort_by_weight fs)")
  case Nil
  then have "filter (in_group t ly) fs = []"
    by (metis mset_filter mset_sort mset_zero_iff)
  then show ?thesis
    using Nil group_weights_fresh [of t ly "{}" "sort_by_weight fs"] assms
    by (simp add: deduplicate_findings_def keep_max_def group_weights_def)
next
  case (Cons f rest)
  have len: "length (filter (in_group t ly) fs) = length rest + 1"
    using arg_cong [OF Cons, of length] by (metis add.right_neutral add_Suc_right length_Cons mset_filter mset_sort One_nat_def size_mset)
  have M: "size (group_weights t ly fs) = Suc (length rest)"
    unfolding group_weights_def by (simp only: size_mset length_map len)
  then have "group_weights t ly fs \<noteq> {#}" by auto
  moreover have "weight f = Max_mset (group_weights t ly fs)"
    using heaviest_first [OF Cons] by (simp only: group_weights_def)
  ultimately have "keep_max (group_weights t ly fs) = add_mset (weight f) (replicate_mset (length rest) 0)"
    using M by (simp add: keep_max_def)
  then show ?thesis
    using Cons group_weights_fresh [of t ly "{}" "sort_by_weight fs"] assms
    by (simp add: deduplicate_findings_def)
qed

text \<open>
Deduplication counts each behaviour of each layer exactly once, with its heaviest finding: of the
findings of one layer with one behaviour the largest weight stays and every other becomes zero; findings
without a behaviour and origin context keep their weights; nothing is dropped.
\<close>

theorem dedup_keeps_heaviest:
  "(t \<noteq> Download_Origin_Context \<longrightarrow>
     total_weight (filter (\<lambda>f. behavior_tag_of f = Some t \<and> layer f = ly) (deduplicate_findings fs))
       = Max (insert 0 (weight ` {f \<in> set fs. behavior_tag_of f = Some t \<and> layer f = ly}))) \<and>
   mset (filter (\<lambda>f. behavior_tag_of f = None \<or> behavior_tag_of f = Some Download_Origin_Context)
     (deduplicate_findings fs))
     = mset (filter (\<lambda>f. behavior_tag_of f = None \<or> behavior_tag_of f = Some Download_Origin_Context) fs) \<and>
   length (deduplicate_findings fs) = length fs"
proof -
  have sum: "sum_mset (keep_max M) = Max (insert 0 (set_mset M))" for M
    by (cases "M = {#}") (simp_all add: keep_max_def)
  have "total_weight (filter (in_group t ly) (deduplicate_findings fs))
      = Max (insert 0 (weight ` {f \<in> set fs. in_group t ly f}))" if "t \<noteq> Download_Origin_Context"
  proof -
    have "total_weight (filter (in_group t ly) (deduplicate_findings fs))
        = sum_mset (group_weights t ly (deduplicate_findings fs))"
      by (simp add: group_weights_def total_weight_def flip: sum_mset_sum_list)
    also have "\<dots> = Max (insert 0 (set_mset (group_weights t ly fs)))"
      by (simp add: dedup_group [OF that] sum)
    also have "set_mset (group_weights t ly fs) = weight ` {f \<in> set fs. in_group t ly f}"
      by (auto simp: group_weights_def)
    finally show ?thesis .
  qed
  moreover have "mset (filter ungrouped (deduplicate_findings fs)) = mset (filter ungrouped fs)"
    by (simp add: deduplicate_findings_def ungrouped_dedup)
  moreover have "length (deduplicate_findings fs) = length fs"
    using list_all2_lengthD [OF dedup_lighter [of "sort_by_weight fs" "{}"]]
    by (simp add: deduplicate_findings_def sort_by_weight_def)
  ultimately show ?thesis unfolding in_group_def ungrouped_def by blast
qed

theorem dedup_keeps_heaviest_witness:
  "total_weight (filter (\<lambda>f. behavior_tag_of f = Some Entropy \<and> layer f = Structural_Analysis)
     (deduplicate_findings sample_findings)) = 20"
proof -
  have e: "Max (insert 0 (weight ` {f \<in> set sample_findings. behavior_tag_of f = Some Entropy \<and>
      layer f = Structural_Analysis})) = 20" by code_simp
  show ?thesis
    using dedup_keeps_heaviest [of Entropy Structural_Analysis sample_findings] e by simp
qed

section \<open>Profiles\<close>

text \<open>All the aggregation sees of the findings: how often each behaviour, layer and weight occurs.\<close>

definition profile :: "finding list \<Rightarrow> (behavior_tag option \<times> layer \<times> nat) multiset" where
  "profile fs = image_mset (\<lambda>f. (behavior_tag_of f, layer f, weight f)) (mset fs)"

definition cell :: "behavior_tag option \<Rightarrow> layer \<Rightarrow> finding list \<Rightarrow> nat multiset" where
  "cell bt ly fs = image_mset weight (filter_mset (\<lambda>f. behavior_tag_of f = bt \<and> layer f = ly) (mset fs))"

lemma profile_Cons [simp]:
  "profile [] = {#}" "profile (f # fs) = add_mset (behavior_tag_of f, layer f, weight f) (profile fs)"
  by (simp_all add: profile_def)

lemma count_profile: "count (profile fs) (bt, ly, w) = count (cell bt ly fs) w"
  by (induction fs) (auto simp: cell_def)

lemma profile_eqI: "(\<And>bt ly. cell bt ly fs = cell bt ly gs) \<Longrightarrow> profile fs = profile gs"
  by (rule multiset_eqI) (auto simp: count_profile)

lemma cell_group: "cell (Some t) ly fs = group_weights t ly fs"
  by (simp add: cell_def group_weights_def in_group_def [abs_def])

lemma cell_ungrouped:
  assumes "bt = None \<or> bt = Some Download_Origin_Context"
  shows "cell bt ly (deduplicate_findings fs) = cell bt ly fs"
proof -
  have c: "cell bt ly gs = cell bt ly (filter ungrouped gs)" for gs
    using assms by (auto simp: cell_def ungrouped_def filter_filter_mset intro!: arg_cong [where f = "image_mset weight"]
        filter_mset_cong)
  have "mset (filter ungrouped (deduplicate_findings fs)) = mset (filter ungrouped fs)"
    by (simp add: deduplicate_findings_def ungrouped_dedup)
  then have "cell bt ly (filter ungrouped (deduplicate_findings fs)) = cell bt ly (filter ungrouped fs)"
    by (simp only: cell_def)
  then show ?thesis by (simp only: c [symmetric])
qed

lemma profile_dedup: "mset fs = mset gs \<Longrightarrow> profile (deduplicate_findings fs) = profile (deduplicate_findings gs)"
proof (rule profile_eqI)
  fix bt ly
  assume "mset fs = mset gs"
  then have c: "cell b ly fs = cell b ly gs" for b by (simp add: cell_def)
  show "cell bt ly (deduplicate_findings fs) = cell bt ly (deduplicate_findings gs)"
  proof (cases "bt = None \<or> bt = Some Download_Origin_Context")
    case True
    then show ?thesis using c cell_ungrouped by simp
  next
    case False
    then obtain t where t: "bt = Some t" "t \<noteq> Download_Origin_Context" by auto
    then show ?thesis using dedup_group [OF t(2)] c by (simp flip: cell_group)
  qed
qed

lemma layer_weight_profile:
  "layer_weight ly fs = sum_mset (image_mset (\<lambda>(t, l, w). if l = ly then w else 0) (profile fs))"
  by (induction fs) (auto simp: layer_weight_alt)

lemma total_profile: "total_weight fs = sum_mset (image_mset (\<lambda>(t, l, w). w) (profile fs))"
  by (induction fs) auto

lemma pua_profile:
  "total_weight (filter (\<lambda>f. behavior_tag_of f = Some Pua) fs)
    = sum_mset (image_mset (\<lambda>(t, l, w). if t = Some Pua then w else 0) (profile fs))"
  by (induction fs) auto

lemma tag_weight_update [simp]: "behavior_tag_of (f\<lparr>weight := w\<rparr>) = behavior_tag_of f"
  by (rule same_evidence_tag) (simp add: same_evidence_def)

lemma profile_map_weight:
  "profile (map (\<lambda>f. if layer f = ly then f\<lparr>weight := g (weight f)\<rparr> else f) fs)
    = image_mset (\<lambda>(t, l, w). (t, l, if l = ly then g w else w)) (profile fs)"
  by (induction fs) auto

lemma profile_apply_cap:
  "profile fs = profile gs \<Longrightarrow> profile (apply_cap ly cap fs) = profile (apply_cap ly cap gs)"
proof -
  assume p: "profile fs = profile gs"
  then have "layer_weight ly fs = layer_weight ly gs" by (simp only: layer_weight_profile)
  then show ?thesis by (simp only: apply_cap_def Let_def if_distrib [of profile] profile_map_weight p)
qed

lemma profile_fold_caps:
  "profile fs = profile gs \<Longrightarrow>
   profile (fold (\<lambda>(ly, cap). apply_cap ly cap) cs fs) = profile (fold (\<lambda>(ly, cap). apply_cap ly cap) cs gs)"
proof (induction cs arbitrary: fs gs)
  case (Cons c cs)
  show ?case using Cons.IH [OF profile_apply_cap [OF Cons.prems]] by (cases c) simp
qed simp

lemma profile_apply_caps: "profile fs = profile gs \<Longrightarrow> profile (apply_caps fs) = profile (apply_caps gs)"
  unfolding apply_caps_def by (rule profile_fold_caps)

lemma profile_sort [simp]: "profile (sort_by_weight fs) = profile fs"
  by (simp add: profile_def)

section \<open>Convergence is a function of the profile\<close>

lemma set_active_tags:
  "set (active_tags fs) = {t. t \<noteq> Download_Origin_Context \<and> (\<exists>l w. (Some t, l, w) \<in># profile fs \<and> 0 < w)}"
proof -
  have "t \<in> set (List.map_filter behavior_tag_of gs) \<longleftrightarrow> (\<exists>g \<in> set gs. behavior_tag_of g = Some t)" for t gs
    by (induction gs) (auto simp: List.map_filter_simps split: option.split)
  moreover have "(bt, l, w) \<in># profile fs \<longleftrightarrow> (\<exists>g \<in> set fs. bt = behavior_tag_of g \<and> l = layer g \<and> w = weight g)"
    for bt l w by (auto simp: profile_def)
  ultimately show ?thesis by (auto simp: active_tags_def; metis)
qed

lemma distinct_active_tags: "distinct (active_tags fs)"
  by (simp add: active_tags_def)

lemma active_layers:
  "layer ` {f \<in> set fs. 0 < weight f} = {l. \<exists>t w. (t, l, w) \<in># profile fs \<and> 0 < w}"
  by (force simp: profile_def)

lemma chains_of_cong: "set ts = set us \<Longrightarrow> distinct ts \<Longrightarrow> distinct us \<Longrightarrow> chains_of ts = chains_of us"
  using distinct_card [of ts] distinct_card [of us] by (simp add: chains_of_def)

lemma distinct_remdups_adj_sorted: "sorted xs \<Longrightarrow> distinct (remdups_adj xs)" for xs :: "nat list"
  by (induction xs rule: remdups_adj.induct) fastforce+

lemma remdups_adj_sort: "remdups_adj (sort xs) = sorted_list_of_set (set xs)" for xs :: "nat list"
  by (intro sorted_distinct_set_unique) (simp_all add: sorted_remdups_adj distinct_remdups_adj_sorted)

lemma progression_cong:
  assumes "set ts = set us"
  shows "attack_progression_score ts = attack_progression_score us"
proof -
  have "set (map (\<lambda>t. ordinal (attack_stage_of t)) (filter (\<lambda>t. t \<noteq> Download_Origin_Context) ts))
      = set (map (\<lambda>t. ordinal (attack_stage_of t)) (filter (\<lambda>t. t \<noteq> Download_Origin_Context) us))"
    using assms by auto
  then show ?thesis by (simp add: attack_progression_score_def remdups_adj_sort)
qed

lemma convergence_profile:
  assumes "profile fs = profile gs"
  shows "compute_convergence fs = compute_convergence gs"
proof -
  have t: "set (active_tags fs) = set (active_tags gs)" by (simp add: set_active_tags assms)
  have n: "length (active_tags fs) = length (active_tags gs)"
    using t distinct_card [OF distinct_active_tags] by metis
  have l: "length (remdups (map layer (filter (\<lambda>f. 0 < weight f) fs)))
      = length (remdups (map layer (filter (\<lambda>f. 0 < weight f) gs)))"
    using active_layers [of fs] active_layers [of gs] assms by (simp add: length_remdups_card_conv)
  show ?thesis
    using chains_of_cong [OF t distinct_active_tags distinct_active_tags] progression_cong [OF t] n l
    by (simp add: compute_convergence_def Let_def)
qed

text \<open>
C38: The order in which the layers report does not matter: two scans that find the same things get the
same score, the same verdict, the same confidence label, threat maturity and progression depth.
\<close>

theorem aggregate_order_free:
  assumes "mset fs = mset gs"
    and "aggregate_score fs rd ad m = (fs', score, v, ex)"
    and "aggregate_score gs rd ad m = (gs', score', v', ex')"
  shows "score' = score \<and> v' = v \<and> raw_score ex' = raw_score ex \<and>
    ex_confidence_label ex' = ex_confidence_label ex \<and> ex_threat_maturity ex' = ex_threat_maturity ex \<and>
    progression_depth ex' = progression_depth ex"
proof -
  note a = aggregate_fields [OF assms(2)] and b = aggregate_fields [OF assms(3)]
  have p: "profile fs' = profile gs'"
    unfolding a(1) b(1) by (simp add: profile_apply_caps [OF profile_dedup [OF assms(1)]])
  have t: "total_weight fs' = total_weight gs'" by (simp add: total_profile p)
  have s: "score = score'" by (simp add: a(2) b(2) t)
  have v: "verdict_of n r fs' = verdict_of n r gs'" for n r
    by (simp add: verdict_of_def pua_profile p)
  have "progression_depth ex = progression_score (compute_convergence fs')"
    "progression_depth ex' = progression_score (compute_convergence gs')"
    using assms(2,3) by (auto simp: aggregate_score_def Let_def)
  moreover note convergence_profile [OF p]
  moreover have "v = v'" by (simp only: a(3) b(3) t s v)
  moreover have "raw_score ex = raw_score ex'" by (simp only: a(4) b(4) t)
  ultimately show ?thesis using s by (simp only: a(6,7) b(6,7))
qed

theorem aggregate_order_free_witness:
  "\<exists>gs' v ex. aggregate_score (rev sample_findings) 0 0 no_mitigation = (gs', 84, v, ex)"
proof -
  obtain fs' score v ex where a: "aggregate_score sample_findings 0 0 no_mitigation = (fs', score, v, ex)"
    by (metis prod_cases4)
  obtain gs' score' v' ex' where
    b: "aggregate_score (rev sample_findings) 0 0 no_mitigation = (gs', score', v', ex')"
    by (metis prod_cases4)
  have "fst (snd (aggregate_score sample_findings 0 0 no_mitigation)) = 84" by code_simp
  then have "score = 84" using a by simp
  moreover have "score' = score" using aggregate_order_free [OF _ a b] by simp
  ultimately show ?thesis using b by simp
qed

end
