(* ===== verification/Argus_Engine_Spec.thy ===== *)
theory Argus_Engine_Spec
  imports Argus_Engine Argus_Order
begin

text \<open>
  What one scan promises: which files are analysed and when the analysis panics, that a scan reported as
  complete found what an unhurried one finds with a scanner that behaves the same, and when a
  known-malicious hash is convicted.
\<close>

section \<open>Which scans are analyses\<close>

text \<open>The bytes a scan gets to look at: none for an unreadable, empty, skipped or oversized file.\<close>

definition scan_bytes :: "scan_env \<Rightarrow> string \<Rightarrow> argus_engine \<Rightarrow> u8 list option" where
  "scan_bytes ev path e =
     (case meta_len ev of
        Inl _ \<Rightarrow> None
      | Inr len \<Rightarrow>
          if len = 0 \<or> classify path len \<in> {Too_Large, Skip_Safe} \<or> len > max_file_size (ac_config e) then None
          else (case read_data ev of
                  Inl _ \<Rightarrow> None
                | Inr data \<Rightarrow> if length data > max_file_size (ac_config e) then None else Some data))"

definition file_len :: "scan_env \<Rightarrow> nat" where
  "file_len ev = (case meta_len ev of Inl _ \<Rightarrow> 0 | Inr len \<Rightarrow> len)"

lemma scan_skipped:
  assumes "scan_bytes ev path e = None"
  shows "\<exists>v. analyze_file_with_tracker ls b ev path e = (Some v, e) \<and> av_score v = 0 \<and> av_verdict v = Clean \<and>
    av_timing v = None"
  using assms
  by (auto simp: scan_bytes_def analyze_file_with_tracker_def Let_def empty_verdict_def error_verdict_def
      split: sum.splits if_splits)

lemma scan_analysed:
  assumes "scan_bytes ev path e = Some data"
  shows "analyze_file_with_tracker ls b ev path e =
    (case tc_check (sha256_of ls data) (trusted e) of
       (Some cached, tc) \<Rightarrow>
         (Some (cached_verdict ls path (file_len ev) data cached),
          e\<lparr>trusted := tc, files_analyzed := files_analyzed e + 1, clean_files := clean_files e + 1\<rparr>)
     | (None, tc) \<Rightarrow> analyze_data ls b ev path (file_len ev) data (classify path (file_len ev)) (e\<lparr>trusted := tc\<rparr>))"
proof -
  obtain len where len: "meta_len ev = Inr len" "file_len ev = len"
    using assms by (auto simp: scan_bytes_def file_len_def split: sum.splits)
  then have "read_data ev = Inr data"
    using assms by (auto simp: scan_bytes_def split: sum.splits if_splits)
  then show ?thesis
    using assms len by (auto simp: scan_bytes_def analyze_file_with_tracker_def split: if_splits)
qed

lemma scan_bytes_cong:
  "meta_len ev' = meta_len ev \<Longrightarrow> read_data ev' = read_data ev \<Longrightarrow> scan_bytes ev' = scan_bytes ev"
  unfolding scan_bytes_def by presburger

section \<open>When a scan panics\<close>

definition too_early :: "scan_env \<Rightarrow> bool" where
  "too_early ev \<longleftrightarrow> now_cutoff (scan_clock ev) - EVENT_TTL < earliest (scan_clock ev)"

lemma analyze_data_cases:
  obtains (panics) "too_early ev" "analyze_data ls b ev path len data strat e = (None, e)"
  | (returns) fs score v ex events w where "\<not> too_early ev"
    "scored_by ls b ev path data strat e = (fs, score, v, ex)"
    "analyze_data ls b ev path len data strat e = (Some w, engine_after (sha256_of ls data) (fs, score, v, ex) events e)"
    "av_score w = score" "av_verdict w = v" "av_explanation w = ex"
    "av_timing w = Some \<lparr>strategy = strat,
       timeout_reasons = prior_timeouts ev @ timeouts_of ls b ev path data strat e,
       completed_within_budget =
         (\<not> elapsed_at ev 8 \<ge> max_duration b \<and> prior_timeouts ev @ timeouts_of ls b ev path data strat e = [])\<rparr>"
proof -
  obtain fs score v ex where sc: "scored_by ls b ev path data strat e = (fs, score, v, ex)" by (metis prod_cases4)
  let ?ty = "if score \<ge> 26 then Scanned_Suspicious else Scanned_Clean"
  show thesis
  proof (cases "record_event (scan_clock ev) path ?ty None (correlator e)")
    case None
    then have "too_early ev"
      using record_panics_iff [of "scan_clock ev" path ?ty None "correlator e"] by (simp add: too_early_def)
    then show thesis using None sc by (intro panics) (simp_all add: analyze_data_def)
  next
    case (Some events)
    then have "\<not> too_early ev"
      using record_panics_iff [of "scan_clock ev" path ?ty None "correlator e"] by (simp add: too_early_def)
    then show thesis
      using Some sc by (intro returns [OF _ sc]) (assumption, simp add: analyze_data_def, simp_all)
  qed
qed

lemma engine_after_counts:
  "files_analyzed (engine_after sha (fs, score, v, ex) events e) = files_analyzed e + 1"
  by (simp add: engine_after_def count_verdict_def split: verdict.split)

text \<open>
C34: A scan that is not an analysis leaves the engine as it was and reports a clean file with no timing;
a scan panics exactly when it analyses a file that no cache entry answers within five minutes of the
earliest instant of the clock, and then counts nothing and records no event; otherwise it returns a
verdict and counts one file.
\<close>

theorem scan_outcome:
  assumes "analyze_file_with_tracker ls b ev path e = (r, e')"
  shows "(scan_bytes ev path e = None \<longrightarrow>
      e' = e \<and> (\<exists>v. r = Some v \<and> av_score v = 0 \<and> av_verdict v = Clean \<and> av_timing v = None)) \<and>
    (r = None \<longleftrightarrow>
      (\<exists>data. scan_bytes ev path e = Some data \<and> fst (tc_check (sha256_of ls data) (trusted e)) = None) \<and>
      now_cutoff (scan_clock ev) - 300000 < earliest (scan_clock ev)) \<and>
    (r = None \<longrightarrow> files_analyzed e' = files_analyzed e \<and> total_findings e' = total_findings e \<and>
      correlator e' = correlator e) \<and>
    (scan_bytes ev path e \<noteq> None \<and> r \<noteq> None \<longrightarrow> files_analyzed e' = files_analyzed e + 1)"
proof (cases "scan_bytes ev path e")
  case None
  then show ?thesis using scan_skipped [OF None, of ls b] assms by auto
next
  case (Some data)
  obtain hit tc where c: "tc_check (sha256_of ls data) (trusted e) = (hit, tc)" by fastforce
  show ?thesis
  proof (cases hit)
    case None
    let ?a = "analyze_data ls b ev path (file_len ev) data (classify path (file_len ev)) (e\<lparr>trusted := tc\<rparr>)"
    have a: "?a = (r, e')" using assms by (simp add: scan_analysed [OF Some] c None)
    have "(r = None \<longleftrightarrow> too_early ev) \<and>
      (r = None \<longrightarrow> files_analyzed e' = files_analyzed e \<and> total_findings e' = total_findings e \<and>
        correlator e' = correlator e) \<and>
      (r \<noteq> None \<longrightarrow> files_analyzed e' = files_analyzed e + 1)"
      using analyze_data_cases [of ev ls b path "file_len ev" data "classify path (file_len ev)" "e\<lparr>trusted := tc\<rparr>"]
      by cases (use a in \<open>auto simp: engine_after_counts\<close>)
    then show ?thesis using Some c None by (auto simp: too_early_def EVENT_TTL_def)
  qed (use assms Some c in \<open>auto simp: scan_analysed [OF Some]\<close>)
qed

section \<open>A complete scan left nothing out\<close>

text \<open>The same scan with all the time it needs; what came of the YARA scanner is kept.\<close>

definition unhurried :: "scan_env \<Rightarrow> scan_env" where
  "unhurried ev = ev\<lparr>elapsed_at := \<lambda>_. 0, cancelled_at := \<lambda>_. False, yara_elapsed := 0\<rparr>"

text \<open>Gates that all let the phases run, and a YARA phase in time, make any two scans the same whose
  YARA scanners both fail or both do not.\<close>

definition runs_yara :: "scan_strategy \<Rightarrow> bool" where
  "runs_yara strat \<longleftrightarrow> strat = Full_Analysis \<or> strat = Light_Analysis"

definition in_time :: "scan_execution_budget \<Rightarrow> scan_env \<Rightarrow> scan_strategy \<Rightarrow> bool" where
  "in_time b ev strat \<longleftrightarrow>
     (\<forall>i \<le> 8. gate_at b ev i = Run) \<and> (runs_yara strat \<longrightarrow> yara_elapsed ev < max_yara_duration b)"

lemma in_time_phases:
  assumes "in_time b ev strat"
  shows "content_phases ls cfg b ev path data strat =
    [(structural_findings ls cfg data, []),
     unless_off (script_analysis cfg) (if is_script path then run_script ls path data else [], []),
     unless_off (jar_analysis cfg) (run_jar ls path data, []),
     unless_off (pdf_analysis cfg) (run_pdf ls path data, []),
     unless_off (pattern_detection cfg) (run_patterns ls path data, []),
     (if runs_yara strat then yara_scan ls ev data else [], [])]"
    and "authenticode_phase ls b ev path data =
      (if is_pe data then (fst (run_authenticode ls path), snd (run_authenticode ls path), []) else ([], 0, []))"
    and "timeouts_of ls b ev path data strat e = []"
  using assms
  by (auto simp: in_time_def runs_yara_def content_phases_def authenticode_phase_def timeouts_of_def gated_def
      unless_off_def split: prod.split)

lemma in_time_scored:
  assumes "in_time b ev strat" and "in_time b' ev' strat"
    and "runs_yara strat \<Longrightarrow> yara_fails ev' = yara_fails ev"
  shows "scored_by ls b ev path data strat e = scored_by ls b' ev' path data strat e"
proof -
  have "(if runs_yara strat then yara_scan ls ev data else []) = (if runs_yara strat then yara_scan ls ev' data else [])"
    using assms(3) by (simp add: yara_scan_def)
  moreover have "gate_at b ev 7 = Run" "gate_at b' ev' 7 = Run"
    using assms(1,2) by (simp_all add: in_time_def)
  ultimately show ?thesis
    by (simp only: scored_by_def mitigated_by_def found_by_def in_time_phases [OF assms(1)] in_time_phases [OF assms(2)])
qed

lemma in_time_analysis:
  assumes "in_time b ev strat" and "in_time b' ev' strat" and "scan_clock ev' = scan_clock ev"
    and "prior_timeouts ev' = prior_timeouts ev" and "runs_yara strat \<Longrightarrow> yara_fails ev' = yara_fails ev"
  shows "analyze_data ls b ev path len data strat e = analyze_data ls b' ev' path len data strat e"
proof -
  have "gate_at b ev 8 = Run" "gate_at b' ev' 8 = Run" using assms(1,2) by (simp_all add: in_time_def)
  then have "(elapsed_at ev 8 \<ge> max_duration b) = False" "(elapsed_at ev' 8 \<ge> max_duration b') = False"
    by (auto simp: gate_at_def)
  then show ?thesis
    by (simp only: analyze_data_def in_time_scored [OF assms(1,2,5)] in_time_phases(3) [OF assms(1)]
        in_time_phases(3) [OF assms(2)] assms(3,4))
qed

lemma completed_in_time:
  assumes "mono (elapsed_at ev)" and "\<forall>i. \<not> cancelled_at ev i"
    and "\<not> elapsed_at ev 8 \<ge> max_duration b" and "timeouts_of ls b ev path data strat e = []"
  shows "in_time b ev strat"
proof -
  have g: "gate_at b ev i = Run" if "i \<le> 8" for i
    using monoD [OF assms(1) that] assms(2,3) by (simp add: gate_at_def)
  then have "yara_elapsed ev < max_yara_duration b" if "runs_yara strat"
    using assms(4) that by (auto simp: runs_yara_def timeouts_of_def content_phases_def split: if_splits)
  with g show ?thesis by (auto simp: in_time_def)
qed

text \<open>
C9: A scan under a budget of its own that is reported as completed left out nothing the budget governs:
it is the verdict, and leaves the engine, that any other positive budget gives when no time passes at
all and the YARA scanner ends as it did. A failure of that scanner is not among what the report shows;
but where its own time limit of ten seconds is the only failure, and the budget allows the YARA phase no
more than that, as those of real-time and startup scans do, the completed scan is also the one in which
YARA did not fail.
\<close>

theorem completed_scan_is_whole:
  assumes "mono (elapsed_at ev)"
    and "analyze_file_with_budget ls b ev path e = (Some v, e')"
    and "av_timing v = Some t" and "completed_within_budget t"
    and "0 < max_duration b'" and "0 < max_yara_duration b'"
  shows "analyze_file_with_budget ls b' (unhurried ev) path e = (Some v, e') \<and>
    ((yara_fails ev \<longrightarrow> 10000 \<le> yara_elapsed ev) \<and> max_yara_duration b \<le> 10000 \<longrightarrow>
      analyze_file_with_budget ls b' ((unhurried ev)\<lparr>yara_fails := False\<rparr>) path e = (Some v, e'))"
proof -
  let ?own = "\<lambda>ev. ev\<lparr>prior_timeouts := [], cancelled_at := \<lambda>_. False\<rparr>"
  let ?ev = "?own ev" and ?u = "\<lambda>x. (unhurried ev)\<lparr>yara_fails := x\<rparr>"
  have sb: "scan_bytes (?own (?u x)) path e = scan_bytes ?ev path e" "file_len (?own (?u x)) = file_len ?ev"
    "scan_clock (?own (?u x)) = scan_clock ?ev" for x
    by (rule fun_cong [OF fun_cong [OF scan_bytes_cong]]) (simp_all add: file_len_def unhurried_def)
  have a: "analyze_file_with_tracker ls b ?ev path e = (Some v, e')"
    using assms(2) by (simp add: analyze_file_with_budget_def)
  show ?thesis
  proof (cases "scan_bytes ?ev path e")
    case None
    then show ?thesis using scan_skipped [OF None, of ls b] a assms(3) by auto
  next
    case (Some data)
    obtain hit tc where c: "tc_check (sha256_of ls data) (trusted e) = (hit, tc)" by fastforce
    let ?st = "classify path (file_len ?ev)" and ?e = "e\<lparr>trusted := tc\<rparr>"
    have hit: "hit = None"
      using a assms(3) by (cases hit) (auto simp: scan_analysed [OF Some] c cached_verdict_def)
    have d: "analyze_data ls b ?ev path (file_len ?ev) data ?st ?e = (Some v, e')"
      using a by (simp add: scan_analysed [OF Some] c hit)
    have "av_timing v = Some \<lparr>strategy = ?st, timeout_reasons = timeouts_of ls b ?ev path data ?st ?e,
        completed_within_budget = (\<not> elapsed_at ?ev 8 \<ge> max_duration b \<and> timeouts_of ls b ?ev path data ?st ?e = [])\<rparr>"
      using analyze_data_cases [of ?ev ls b path "file_len ?ev" data ?st ?e] by cases (use d in auto)
    then have t: "\<not> elapsed_at ?ev 8 \<ge> max_duration b" "timeouts_of ls b ?ev path data ?st ?e = []"
      using assms(3,4) by auto
    have i: "in_time b ?ev ?st" using assms(1) t by (intro completed_in_time) auto
    have i': "in_time b' (?own (?u x)) ?st" for x
      using assms(5,6) by (simp add: in_time_def gate_at_def unhurried_def)
    have same: "analyze_file_with_budget ls b' (?u x) path e = (Some v, e')" if "runs_yara ?st \<Longrightarrow> x = yara_fails ev" for x
    proof -
      have "analyze_data ls b ?ev path (file_len ?ev) data ?st ?e
          = analyze_data ls b' (?own (?u x)) path (file_len ?ev) data ?st ?e"
        by (rule in_time_analysis [OF i i' sb(3)]) (use that in \<open>simp_all add: unhurried_def\<close>)
      then have "analyze_data ls b' (?own (?u x)) path (file_len (?own (?u x))) data ?st ?e = (Some v, e')"
        using d by (simp only: sb(2))
      then show ?thesis
        using Some c hit scan_analysed [of "?own (?u x)" path e data ls b']
        by (simp only: analyze_file_with_budget_def sb prod.case option.case)
    qed
    have "?u (yara_fails ev) = unhurried ev"
      by (simp add: unhurried_def)
    moreover have "\<not> yara_fails ev"
      if "runs_yara ?st" "yara_fails ev \<longrightarrow> 10000 \<le> yara_elapsed ev" "max_yara_duration b \<le> 10000"
      using i that by (auto simp: in_time_def)
    ultimately show ?thesis
      using same [of "yara_fails ev"] same [of False] by auto
  qed
qed

section \<open>Known malware is convicted\<close>

definition ioc_hit :: "finding \<Rightarrow> bool" where
  "ioc_hit f \<longleftrightarrow> layer f = Ioc_Correlation \<and> weight f \<ge> 90"

lemma ioc_check_hit: "to_lowercase sha \<in> set (blocklist db) \<Longrightarrow> \<exists>f \<in> set (ioc_check sha db). ioc_hit f"
  by (simp add: ioc_check_def ioc_hit_def Let_def)

text \<open>The hit vetoes mitigation, is no structural noise, and its layer has no cap.\<close>

lemma hit_vetoes:
  assumes "evaluate det fs = (m, fs')" and "f \<in> set fs" and "ioc_hit f"
  shows "fs' = fs"
proof -
  have "\<not> (\<forall>f \<in> set fs. weight f < 40)" using assms(2,3) by (fastforce simp: ioc_hit_def)
  then have "heaviest (filter (\<lambda>f. weight f \<ge> HIGH_CONFIDENCE_VETO_WEIGHT) fs) \<noteq> None" by (simp add: no_veto)
  then show ?thesis using assms(1) by (auto simp: evaluate_def Let_def split: option.splits if_splits)
qed

lemma hit_ready:
  assumes "f \<in> set fs" and "ioc_hit f"
  shows "f \<in> set (with_context ls path ad rd (suppress_noise ad rd fs))"
  using assms by (auto simp: with_context_def suppress_noise_def ioc_hit_def Let_def)

lemma total_weight_mono: "(\<And>f. P f \<Longrightarrow> Q f) \<Longrightarrow> total_weight (filter P fs) \<le> total_weight (filter Q fs)"
  by (induction fs) (simp_all add: trans_le_add2)

lemma keep_max_ge: "w \<in># M \<Longrightarrow> w \<le> sum_mset (keep_max M)"
  by (auto simp: keep_max_def intro: trans_le_add1)

lemma hit_survives:
  assumes "f \<in> set fs" and "ioc_hit f"
  shows "90 \<le> layer_weight Ioc_Correlation (deduplicate_findings fs)"
proof -
  let ?g = "in_group Known_Malware Ioc_Correlation"
  have "?g f" using assms(2) by (simp add: in_group_def ioc_hit_def behavior_tag_of_def)
  then have "weight f \<in># group_weights Known_Malware Ioc_Correlation fs"
    using assms(1) by (simp add: group_weights_def)
  then have "weight f \<le> sum_mset (group_weights Known_Malware Ioc_Correlation (deduplicate_findings fs))"
    by (simp add: dedup_group keep_max_ge)
  also have "\<dots> = total_weight (filter ?g (deduplicate_findings fs))"
    by (simp only: group_weights_def total_weight_def sum_mset_sum_list)
  also have "\<dots> \<le> layer_weight Ioc_Correlation (deduplicate_findings fs)"
    unfolding layer_weight_def by (rule total_weight_mono) (simp add: in_group_def)
  finally show ?thesis using assms(2) by (simp add: ioc_hit_def)
qed

lemma aggregate_convicts:
  assumes "aggregate_score fs rd ad m = (fs', score, v, ex)" and "f \<in> set fs" and "ioc_hit f"
  shows "90 - max rd ad \<le> score" and "ex_reputation_discount ex = rd" and "ex_authenticode_discount ex = ad"
    and "max rd ad \<le> 14 \<Longrightarrow> v = Malicious"
proof -
  note a = aggregate_fields [OF assms(1)]
  have "90 \<le> layer_weight Ioc_Correlation fs'"
    using hit_survives [OF assms(2,3)]
    by (simp add: a(1) lighter_sort apply_caps_other category_caps_def)
  then have "90 \<le> total_weight fs'" using layer_weight_le [of Ioc_Correlation fs'] by simp
  then show s: "90 - max rd ad \<le> score" by (simp add: a(2) diff_le_mono le_diff_conv)
  show "ex_reputation_discount ex = rd" "ex_authenticode_discount ex = ad"
    using assms(1) by (auto simp: aggregate_score_def Let_def)
  assume "max rd ad \<le> 14"
  with s have "76 \<le> score" by linarith
  then show "v = Malicious" by (auto simp: a(3) verdict_of_def from_score_def Let_def)
qed

lemma tc_check_miss: "tc_check sha c = (None, tc) \<Longrightarrow> tc_entries tc = tc_entries c"
  by (auto simp: tc_check_def Let_def split: option.splits if_splits)

lemma analysis_convicts:
  assumes "to_lowercase (sha256_of ls data) \<in> set (blocklist (ioc e))"
    and "analyze_data ls b ev path len data strat e = (Some v, e')"
  defines "d \<equiv> max (ex_reputation_discount (av_explanation v)) (ex_authenticode_discount (av_explanation v))"
  shows "90 - d \<le> av_score v" and "d \<le> 14 \<Longrightarrow> av_verdict v = Malicious \<and> threats_detected e' = threats_detected e + 1"
    and "d < 90 \<Longrightarrow> trusted e' = trusted e"
proof -
  let ?rd = "snd (run_reputation ls path data)" and ?ad = "fst (snd (authenticode_phase ls b ev path data))"
  let ?found = "found_by ls b ev path data strat e"
  obtain f where f: "f \<in> set ?found" "ioc_hit f"
    using ioc_check_hit [OF assms(1)] by (fastforce simp: found_by_def)
  obtain m fs where ev: "evaluate (if gate_at b ev 7 = Run then detect (framework_claims ls data) data path
      else unknown_detection) ?found = (m, fs)" by fastforce
  have fs: "fs = ?found" by (rule hit_vetoes [OF ev f])
  obtain gs score w ex where ag: "aggregate_score (with_context ls path ?ad ?rd (suppress_noise ?ad ?rd fs)) ?rd ?ad m
      = (gs, score, w, ex)" by (metis prod_cases4)
  have sc: "scored_by ls b ev path data strat e = (gs, score, w, ex)"
    by (simp only: scored_by_def score_mitigated_def mitigated_by_def ev ag fst_conv snd_conv)
  note c = aggregate_convicts [OF ag hit_ready [of f fs, OF _ f(2)], unfolded fs, OF f]
  obtain events where r: "av_score v = score" "av_verdict v = w" "av_explanation v = ex"
      "e' = engine_after (sha256_of ls data) (gs, score, w, ex) events e"
    using analyze_data_cases [of ev ls b path len data strat e] by cases (use assms(2) sc that in auto)
  have d: "d = max ?rd ?ad" by (simp only: d_def r(3) c(2,3))
  show "90 - d \<le> av_score v" using c(1) by (simp only: d r(1))
  show "av_verdict v = Malicious \<and> threats_detected e' = threats_detected e + 1" if "d \<le> 14"
  proof -
    have w: "w = Malicious" and s: "score \<noteq> 0" using that c(1,4) by (auto simp: d)
    show ?thesis by (simp add: r w s engine_after_def count_verdict_def)
  qed
  show "trusted e' = trusted e" if "d < 90"
  proof -
    have "score \<noteq> 0" using that c(1) by (auto simp: d)
    then show ?thesis by (simp add: r(4) engine_after_def count_verdict_def split: verdict.split)
  qed
qed

lemma verdict_split:
  "av_verdict (fst (case r of (fs, score, v, ex) \<Rightarrow>
     (\<lparr>av_path = p, av_file_size = n, av_sha256 = h, av_mime_type = t, av_score = score, av_verdict = v,
       av_findings = fs, av_explanation = ex, av_timing = None\<rparr>, G fs v))) = fst (snd (snd r))"
  by (simp split: prod.split)

lemma buffer_convicts:
  assumes "to_lowercase (sha256_of ls data) \<in> set (blocklist (ioc e))"
  shows "av_verdict (fst (analyze_buffer ls name data e)) = Malicious"
proof -
  obtain f where f: "f \<in> set (ioc_check (sha256_of ls data) (ioc e))" "ioc_hit f"
    using ioc_check_hit [OF assms] by blast
  have "fst (snd (snd (aggregate_score (ioc_check (sha256_of ls data) (ioc e) @ fs) 0 0 m))) = Malicious" for fs m
  proof -
    obtain gs score w ex where ag: "aggregate_score (ioc_check (sha256_of ls data) (ioc e) @ fs) 0 0 m = (gs, score, w, ex)"
      by (metis prod_cases4)
    show ?thesis using aggregate_convicts(4) [OF ag _ f(2)] f(1) by (simp add: ag)
  qed
  then show ?thesis by (simp only: analyze_buffer_def Let_def verdict_split)
qed

text \<open>
C5: A file whose hash is known to be malicious is found out whenever it is analysed, that is when no entry
of the trusted cache answers for it, whatever budget is left and whether or not the scan is cancelled:
its score is at least 90 less the trust discount. The other layers can lower that only through the
discount: with one of at most 14 the file is malicious and counted as a threat, a higher one (a signature
or a recognised publisher) can leave a lesser verdict, and with less than 90 it is not remembered as
trusted. In a buffer, where nothing is discounted, it is always malicious.
\<close>

theorem known_malicious_convicted:
  assumes "to_lowercase (sha256_of ls data) \<in> set (blocklist (ioc e))"
    and "scan_bytes ev path e = Some data" and "fst (tc_check (sha256_of ls data) (trusted e)) = None"
    and "analyze_file_with_tracker ls b ev path e = (Some v, e')"
    and "d = max (ex_reputation_discount (av_explanation v)) (ex_authenticode_discount (av_explanation v))"
  shows "90 - d \<le> av_score v \<and>
    (d \<le> 14 \<longrightarrow> av_verdict v = Malicious \<and> threats_detected e' = threats_detected e + 1) \<and>
    (d < 90 \<longrightarrow> tc_entries (trusted e') = tc_entries (trusted e)) \<and>
    av_verdict (fst (analyze_buffer ls name data e)) = Malicious"
proof -
  obtain tc where tc: "tc_check (sha256_of ls data) (trusted e) = (None, tc)"
    using assms(3) by (metis prod.collapse)
  have a: "analyze_data ls b ev path (file_len ev) data (classify path (file_len ev)) (e\<lparr>trusted := tc\<rparr>) = (Some v, e')"
    using assms(4) by (simp add: scan_analysed [OF assms(2)] tc)
  show ?thesis
    using analysis_convicts [OF _ a] assms(1,5) tc_check_miss [OF tc] buffer_convicts [OF assms(1)] by simp
qed

section \<open>Reloading the hashes\<close>

text \<open>After \<open>argus.reload\<close> no hash is answered from the cache.\<close>

lemma reload_forgets: "fst (tc_check sha (trusted (argus_reload files e))) = None"
  by (simp add: argus_reload_def tc_check_def tc_invalidate_def Let_def)

end
