(* ===== verification/Argus_Runs.thy ===== *)
theory Argus_Runs
  imports Argus_Engine_Spec
begin

text \<open>
  Concrete scans of the file analyser: the properties of one scan at work, and three runs in which the
  trusted cache is filled too early.
\<close>

section \<open>Concrete scans\<close>

text \<open>A file that one YARA rule knows for a stealer, under a name that the reputation list recognises.\<close>

definition sample_layers :: layer_set where
  "sample_layers =
    \<lparr>sha256_of = (\<lambda>_. replicate 64 (CHR ''a'')), mime_of = (\<lambda>_. None), run_deception = (\<lambda>_. []),
     run_mime = (\<lambda>_ _. []), run_pe = (\<lambda>_. None), run_script = (\<lambda>_ _. []), run_jar = (\<lambda>_ _. []),
     run_pdf = (\<lambda>_ _. []), run_patterns = (\<lambda>_ _. []),
     run_yara = (\<lambda>_. [mk Yara_Rules 35 ''Rule'' ''pack: stealer'']),
     run_authenticode = (\<lambda>_. ([], 0)),
     run_reputation = (\<lambda>_ _. ([mk Reputation 0 ''Recognized as known software from Igor Pavlov''
       ''Publisher: Igor Pavlov | Category: Utility''], 12)),
     framework_claims = (\<lambda>_. None), run_context = (\<lambda>_ _. [])\<rparr>"

definition sample_env :: scan_env where
  "sample_env =
    \<lparr>meta_len = Inr 3, read_data = Inr [0x4D, 0x5A, 0x90], prior_timeouts = [], elapsed_at = (\<lambda>i. i),
     cancelled_at = (\<lambda>_. False), yara_elapsed = 1, yara_fails = False, scan_clock = \<lparr>earliest = 0, now_cutoff = 600000, now_event = 600000\<rparr>\<rparr>"

definition sample_scan :: "scan_env \<Rightarrow> argus_engine \<Rightarrow> argus_verdict option \<times> argus_engine" where
  "sample_scan ev = analyze_file_with_tracker sample_layers manual_budget ev ''C:/7z.exe''"

definition fresh_engine :: argus_engine where
  "fresh_engine = new_argus default_argus_config"

text \<open>Score, verdict and, for a scan that was not answered from the cache, whether it says it is complete.\<close>

definition report :: "argus_verdict option \<Rightarrow> (nat \<times> verdict \<times> bool option) option" where
  "report r = map_option (\<lambda>v. (av_score v, av_verdict v, map_option completed_within_budget (av_timing v))) r"

text \<open>A cancelled scan reports itself complete and makes the file trusted: the next scan, with all the time
  it needs, is answered from the cache. Without the cancelled scan it finds the stealer.\<close>

definition cancelled_first :: "argus_verdict option \<times> argus_engine" where
  "cancelled_first = sample_scan (sample_env\<lparr>cancelled_at := \<lambda>_. True\<rparr>) fresh_engine"

lemma sample_full_scan: "report (fst (sample_scan sample_env fresh_engine)) = Some (23, Low_Suspicion, Some True)"
  by code_simp

lemma cancelled_scan_is_trusted:
  "report (fst cancelled_first) = Some (0, Clean, Some True)"
  "report (fst (sample_scan sample_env (snd cancelled_first))) = Some (0, Clean, None)"
  by code_simp+

text \<open>The YARA scanner gives up after its own ten seconds. Under the budget of a manual scan, which allows the
  phase fifteen, nothing of that shows, and the file is trusted from then on.\<close>

definition stalled_first :: "argus_verdict option \<times> argus_engine" where
  "stalled_first = sample_scan (sample_env\<lparr>elapsed_at := (\<lambda>i. if i < 6 then i else 10000 + i),
     yara_elapsed := 10000, yara_fails := True\<rparr>) fresh_engine"

lemma stalled_scan_is_trusted:
  "report (fst stalled_first) = Some (0, Clean, Some True)"
  "report (fst (sample_scan sample_env (snd stalled_first))) = Some (0, Clean, None)"
  by code_simp+

text \<open>An update whose hashes name the file, with a scan between its two steps: the file stays trusted.\<close>

definition bad_hashes :: ioc_file where
  "bad_hashes = \<lparr>file_meta = Some (False, 65), file_text = Some (replicate 64 (CHR ''a'') @ [CHR 0x0A])\<rparr>"

definition quiet_scan :: "argus_engine \<Rightarrow> argus_engine" where
  "quiet_scan e = snd (sample_scan (sample_env\<lparr>cancelled_at := \<lambda>_. True\<rparr>) e)"

lemma update_keeps_stale_trust:
  "report (fst (sample_scan sample_env (update_reload True quiet_scan [bad_hashes] fresh_engine))) = Some (0, Clean, None)"
  "report (fst (sample_scan sample_env (argus_reload [bad_hashes] (quiet_scan fresh_engine)))) = Some (100, Malicious, Some True)"
  by code_simp+

section \<open>The properties of one scan at work\<close>

lemma sample_bytes: "scan_bytes sample_env ''C:/7z.exe'' e = Some [0x4D, 0x5A, 0x90]"
  if "ac_config e = default_argus_config"
proof -
  have "classify ''C:/7z.exe'' 3 = Full_Analysis" by code_simp
  then show ?thesis using that by (simp add: scan_bytes_def sample_env_def default_argus_config_def)
qed

theorem completed_scan_is_whole_witness:
  "\<exists>v e'. analyze_file_with_budget sample_layers realtime_budget sample_env ''C:/7z.exe'' fresh_engine = (Some v, e') \<and>
     av_score v = 23 \<and>
     analyze_file_with_budget sample_layers startup_budget (unhurried sample_env) ''C:/7z.exe'' fresh_engine = (Some v, e')"
proof -
  let ?scan = "analyze_file_with_budget sample_layers realtime_budget sample_env ''C:/7z.exe'' fresh_engine"
  have r: "report (fst ?scan) = Some (23, Low_Suspicion, Some True)"
    by code_simp
  then obtain v e' where v: "?scan = (Some v, e')"
    by (cases ?scan) (auto simp: report_def)
  then have t: "av_score v = 23" "\<exists>t. av_timing v = Some t \<and> completed_within_budget t"
    using r by (auto simp: report_def)
  have "mono (elapsed_at sample_env)" by (simp add: sample_env_def mono_def)
  moreover have "(unhurried sample_env)\<lparr>yara_fails := False\<rparr> = unhurried sample_env"
    by (simp add: sample_env_def unhurried_def)
  ultimately show ?thesis
    using completed_scan_is_whole [OF _ v, of _ startup_budget] t v
    by (fastforce simp: startup_budget_def realtime_budget_def sample_env_def)
qed

theorem scan_outcome_witness:
  "fst (sample_scan (sample_env\<lparr>scan_clock := \<lparr>earliest = 0, now_cutoff = 299999, now_event = 299999\<rparr>\<rparr>) fresh_engine) = None \<and>
   files_analyzed (snd (sample_scan sample_env fresh_engine)) = 1"
proof -
  let ?early = "sample_env\<lparr>scan_clock := \<lparr>earliest = 0, now_cutoff = 299999, now_event = 299999\<rparr>\<rparr>"
  have cfg: "ac_config fresh_engine = default_argus_config" "trusted fresh_engine = new_trusted_cache"
    "files_analyzed fresh_engine = 0" by (simp_all add: fresh_engine_def new_argus_def)
  have b: "scan_bytes sample_env ''C:/7z.exe'' fresh_engine = Some [0x4D, 0x5A, 0x90]" by (rule sample_bytes [OF cfg(1)])
  then have b': "scan_bytes ?early ''C:/7z.exe'' fresh_engine = Some [0x4D, 0x5A, 0x90]"
    by (simp add: scan_bytes_cong [of ?early sample_env])
  have miss: "fst (tc_check sha (trusted fresh_engine)) = None" for sha
    by (simp add: cfg tc_check_def new_trusted_cache_def Let_def)
  have "fst (sample_scan ?early fresh_engine) = None"
    using scan_outcome [of sample_layers manual_budget ?early "''C:/7z.exe''" fresh_engine, OF prod.collapse [symmetric]] b' miss
    by (simp add: sample_scan_def)
  moreover have "files_analyzed (snd (sample_scan sample_env fresh_engine)) = 1"
    using scan_outcome [of sample_layers manual_budget sample_env "''C:/7z.exe''" fresh_engine, OF prod.collapse [symmetric]]
      b miss cfg(3) sample_full_scan by (simp add: sample_scan_def sample_env_def)
  ultimately show ?thesis by simp
qed

text \<open>The file is on the blocklist and the scan is cancelled.\<close>

definition listed_engine :: argus_engine where
  "listed_engine = argus_reload [bad_hashes] fresh_engine"

text \<open>Recognised by its name alone, the same file gets off with less.\<close>

lemma recognised_malware_is_downgraded:
  "report (fst (analyze_file_with_tracker
      (sample_layers\<lparr>run_reputation := \<lambda>_ _. ([], 25)\<rparr>) manual_budget (sample_env\<lparr>cancelled_at := \<lambda>_. True\<rparr>)
      ''C:/7z.exe'' listed_engine)) = Some (65, High_Suspicion, Some True)"
  by code_simp

theorem known_malicious_convicted_witness:
  "\<exists>v e'. sample_scan (sample_env\<lparr>cancelled_at := \<lambda>_. True\<rparr>) listed_engine = (Some v, e') \<and>
     av_verdict v = Malicious \<and> threats_detected e' = 1"
proof -
  let ?ev = "sample_env\<lparr>cancelled_at := \<lambda>_. True\<rparr>" and ?sha = "sha256_of sample_layers [0x4D, 0x5A, 0x90]"
  have listed: "to_lowercase ?sha \<in> set (blocklist (ioc listed_engine))" by code_simp
  have cfg: "ac_config listed_engine = default_argus_config" "threats_detected listed_engine = 0" by code_simp+
  have b: "scan_bytes ?ev ''C:/7z.exe'' listed_engine = Some [0x4D, 0x5A, 0x90]"
    using sample_bytes [OF cfg(1)] by (simp add: scan_bytes_cong [of ?ev sample_env])
  have miss: "fst (tc_check ?sha (trusted listed_engine)) = None"
    unfolding listed_engine_def by (rule reload_forgets)
  have run: "map_option (\<lambda>v. max (ex_reputation_discount (av_explanation v)) (ex_authenticode_discount (av_explanation v)))
      (fst (sample_scan ?ev listed_engine)) = Some 12" by code_simp
  then obtain v e' where v: "sample_scan ?ev listed_engine = (Some v, e')"
    and d: "12 = max (ex_reputation_discount (av_explanation v)) (ex_authenticode_discount (av_explanation v))"
    by (cases "sample_scan ?ev listed_engine") auto
  from known_malicious_convicted [OF listed b miss v [unfolded sample_scan_def] d, of "''amsi''"] v cfg(2)
  show ?thesis by simp
qed

end
