(* ===== verification/Ledger.thy ===== *)
theory Ledger
  imports Argus_Engine_Spec
begin

text \<open>
  The convergence ledger of the daemon, \<open>crates/sentinelld/src/convergence.rs\<close>: what is added to the
  score of an analysed file after ARGUS (alternate data streams, persistence, process lineage, the
  ecosystem) and what the trust graph takes off it. A ledger is made for one file, fed, finalised once
  and then used to patch the explanation. \<open>findings\<close> is a list addressed by index, as in the code, and
  every addition remembers the index of its finding. \<open>u32\<close> sums are saturating and written out.
\<close>

section \<open>The ledger\<close>

definition POST_ARGUS_CAP :: nat where "POST_ARGUS_CAP = 40"

definition MAX_SINGLE_POST_WEIGHT :: nat where "MAX_SINGLE_POST_WEIGHT = POST_ARGUS_CAP"

definition MAX_VALID_SCORE :: nat where "MAX_VALID_SCORE = 100"

definition sat_add :: "nat \<Rightarrow> nat \<Rightarrow> nat" where
  "sat_add a b = min (a + b) 4294967295"

definition sat_sum :: "nat list \<Rightarrow> nat" where
  "sat_sum ws = foldl sat_add 0 ws"

record post_addition =
  source :: string
  original_weight :: nat
  finding_index :: nat

record ledger =
  base_score :: nat
  lg_findings :: "finding list"
  post_additions :: "post_addition list"
  trust_discount :: nat
  clamav_positive :: bool
  finalized :: bool

definition new_ledger :: "argus_verdict \<Rightarrow> bool \<Rightarrow> ledger" where
  "new_ledger verdict clamav =
     \<lparr>base_score = min (av_score verdict) MAX_VALID_SCORE, lg_findings = av_findings verdict,
      post_additions = [], trust_discount = 0, clamav_positive = clamav, finalized = False\<rparr>"

text \<open>A release build: after \<open>finalize\<close> both operations do nothing.\<close>

definition add_evidence :: "string \<Rightarrow> finding \<Rightarrow> ledger \<Rightarrow> ledger" where
  "add_evidence src f l =
     (if finalized l then l
      else
        let f' = (if weight f > MAX_SINGLE_POST_WEIGHT then f\<lparr>weight := MAX_SINGLE_POST_WEIGHT\<rparr> else f);
            idx = length (lg_findings l) in
        l\<lparr>lg_findings := lg_findings l @ [f'],
          post_additions := post_additions l @
            [\<lparr>source = src, original_weight = weight f', finding_index = idx\<rparr>]\<rparr>)"

definition apply_trust_discount :: "nat \<Rightarrow> finding option \<Rightarrow> ledger \<Rightarrow> ledger" where
  "apply_trust_discount discount f l =
     (if finalized l then l
      else if clamav_positive l then l
      else
        let l1 = (if discount > 0
                  then l\<lparr>trust_discount := max (trust_discount l) (min discount MAX_VALID_SCORE)\<rparr> else l) in
        case f of None \<Rightarrow> l1 | Some tf \<Rightarrow> l1\<lparr>lg_findings := lg_findings l1 @ [tf]\<rparr>)"

section \<open>Finalising\<close>

text \<open>The explanation line: its shape and the numbers and findings it shows.\<close>

datatype explanation_line =
  No_Findings nat
| Score_Line nat verdict "(nat \<times> nat) option" "finding list"

definition build_explanation :: "nat \<Rightarrow> verdict \<Rightarrow> ledger \<Rightarrow> explanation_line" where
  "build_explanation score v l =
     (if lg_findings l = [] then No_Findings score
      else Score_Line score v
        (if trust_discount l > 0 then Some (base_score l, trust_discount l) else None)
        (take 5 (sort_by_weight (filter (\<lambda>f. weight f > 0) (lg_findings l)))))"

text \<open>Positions of the additions, heaviest first, ties in the order they were added.\<close>

definition priority_order :: "post_addition list \<Rightarrow> nat list" where
  "priority_order adds = sort_key (\<lambda>i. - int (original_weight (adds ! i))) [0..<length adds]"

text \<open>The truncating loop over the finding indices, with the budget that remains.\<close>

fun truncate_post :: "nat \<Rightarrow> nat list \<Rightarrow> finding list \<Rightarrow> nat \<times> finding list" where
  "truncate_post rest [] fs = (rest, fs)"
| "truncate_post rest (i # idxs) fs =
     (if i < length fs then
        (if rest = 0 then truncate_post rest idxs (fs[i := (fs ! i)\<lparr>weight := 0\<rparr>])
         else if weight (fs ! i) \<le> rest then truncate_post (rest - weight (fs ! i)) idxs fs
         else truncate_post 0 idxs (fs[i := (fs ! i)\<lparr>weight := rest\<rparr>]))
      else truncate_post rest idxs fs)"

definition converged_score :: "ledger \<Rightarrow> nat \<Rightarrow> nat" where
  "converged_score l post = min (sat_add (base_score l) post - trust_discount l) MAX_VALID_SCORE"

definition raw_post :: "ledger \<Rightarrow> nat" where
  "raw_post l = sat_sum (map original_weight (post_additions l))"

definition current_post :: "ledger \<Rightarrow> nat" where
  "current_post l =
     min (sat_sum (map (\<lambda>a. weight (lg_findings l ! finding_index a))
           (filter (\<lambda>a. finding_index a < length (lg_findings l)) (post_additions l)))) POST_ARGUS_CAP"

definition conclude :: "nat \<Rightarrow> ledger \<Rightarrow> (nat \<times> verdict \<times> explanation_line) \<times> ledger" where
  "conclude post l =
     (let score = converged_score l post; v = from_score score in
      ((score, v, build_explanation score v l), l))"

definition finalize :: "ledger \<Rightarrow> (nat \<times> verdict \<times> explanation_line) \<times> ledger" where
  "finalize l =
     (if finalized l then conclude (current_post l) l
      else
        let l1 = l\<lparr>finalized := True\<rparr>;
            raw = raw_post l1;
            capped = min raw POST_ARGUS_CAP in
        if raw > POST_ARGUS_CAP then
          (let order = priority_order (post_additions l1);
               (rest, fs) = truncate_post POST_ARGUS_CAP
                 (map (\<lambda>pos. finding_index (post_additions l1 ! pos)) order) (lg_findings l1) in
           conclude (min (POST_ARGUS_CAP - rest) POST_ARGUS_CAP) (l1\<lparr>lg_findings := fs\<rparr>))
        else conclude capped l1)"

section \<open>Patching the explanation\<close>

text \<open>The marker, a zero-width space and joiner around an ASCII tag, in UTF-8.\<close>

definition LEDGER_PREFIX :: string where
  "LEDGER_PREFIX =
     map char_of [0xE2::nat, 0x80, 0x8B, 0xE2, 0x80, 0x8D] @ ''LDG''
     @ map char_of [0xE2::nat, 0x80, 0x8D, 0xE2, 0x80, 0x8B]"

text \<open>The text of a reason as the explanation holds it.\<close>

definition reason_text :: "nat option \<times> string \<Rightarrow> string" where
  "reason_text r = (case r of (Some w, d) \<Rightarrow> ''[+'' @ show_nat w @ ''] '' @ d | (None, d) \<Rightarrow> d)"

definition is_ledger_reason :: "nat option \<times> string \<Rightarrow> bool" where
  "is_ledger_reason r \<longleftrightarrow> prefix LEDGER_PREFIX (reason_text r)"

definition is_ledger_trust :: "trust_reason \<Rightarrow> bool" where
  "is_ledger_trust r = (case r of Trust_Graph_Familiar _ \<Rightarrow> True | _ \<Rightarrow> False)"

definition ledger_reasons :: "ledger \<Rightarrow> (nat option \<times> string) list" where
  "ledger_reasons l =
     map (\<lambda>(src, w). (None, LEDGER_PREFIX @ src @ '' +'' @ show_nat w))
       (filter (\<lambda>(_, w). w > 0)
         (map (\<lambda>a. (source a,
                if finding_index a < length (lg_findings l)
                then weight (lg_findings l ! finding_index a) else 0)) (post_additions l)))"

definition patch_explanation :: "ledger \<Rightarrow> nat \<Rightarrow> verdict_explanation \<Rightarrow> verdict_explanation" where
  "patch_explanation l score e =
     e\<lparr>raw_score := sat_add (base_score l) (raw_post l),
       final_score := score,
       suspicion_reasons :=
         filter (\<lambda>r. \<not> is_ledger_reason r) (suspicion_reasons e) @ ledger_reasons l,
       trust_reasons :=
         filter (\<lambda>r. \<not> is_ledger_trust r) (trust_reasons e)
         @ (if trust_discount l > 0 then [Trust_Graph_Familiar (trust_discount l)] else []),
       ex_confidence_label :=
         label_from_context score (signer e \<noteq> None) (recognized_software e \<noteq> None)
           (installer_discount_applied e)\<rparr>"

record convergence_attribution =
  base_argus :: nat
  trust_adjustment :: int
  drift_escalation :: nat
  ecosystem_escalation :: nat
  recurrence_bonus :: nat
  final_convergence :: nat

definition attribution :: "nat \<Rightarrow> nat \<Rightarrow> nat \<Rightarrow> nat \<Rightarrow> ledger \<Rightarrow> convergence_attribution" where
  "attribution score drift eco recurrence l =
     \<lparr>base_argus = base_score l,
      trust_adjustment = - min (int (min (trust_discount l) MAX_VALID_SCORE)) 2147483647,
      drift_escalation = drift, ecosystem_escalation = eco, recurrence_bonus = recurrence,
      final_convergence = score\<rparr>"

end
