(* ===== verification/Ledger_Spec.thy ===== *)
theory Ledger_Spec
  imports Ledger
begin

text \<open>
  What the convergence ledger promises. Its contract for the cap is the locale \<open>fair_cut\<close>: a budget is
  handed out along a list of weights, each taking what it needs of what those before it have left. The
  ledger's truncating loop implements it, heaviest weight first, so noise cannot dilute strong evidence:
  what an addition keeps depends on nothing but the heavier ones, or earlier ones as heavy. The score after any sequence of operations is given in
  closed form.
\<close>

section \<open>Saturating sums\<close>

lemma sat_sum_snoc [simp]: "sat_sum (ws @ [w]) = sat_add (sat_sum ws) w"
  by (simp add: sat_sum_def)

lemma sat_sum_eq: "sat_sum ws = min (sum_list ws) 4294967295"
  by (induction ws rule: rev_induct) (auto simp: sat_sum_def sat_add_def)

section \<open>Handing out a budget\<close>

locale fair_cut =
  fixes cut :: "nat \<Rightarrow> nat list \<Rightarrow> nat list"
  assumes cut_length: "length (cut r ws) = length ws"
    and cut_nth: "i < length ws \<Longrightarrow> cut r ws ! i = min (ws ! i) (r - sum_list (take i ws))"
    and cut_sum: "sum_list (cut r ws) = min r (sum_list ws)"
begin

lemma cut_below_budget: "sum_list ws \<le> r \<Longrightarrow> cut r ws = ws"
proof (intro nth_equalityI)
  fix i
  assume "sum_list ws \<le> r" "i < length (cut r ws)"
  then have i: "i < length ws"
    by (simp add: cut_length)
  have "sum_list ws = sum_list (take i ws) + sum_list (drop i ws)"
    by (simp flip: sum_list_append)
  moreover have "ws ! i \<le> sum_list (drop i ws)"
    using i by (simp add: Cons_nth_drop_Suc [symmetric])
  ultimately show "cut r ws ! i = ws ! i"
    using \<open>sum_list ws \<le> r\<close> i by (simp add: cut_nth)
qed (simp add: cut_length)

text \<open>What is cut is cut for those before it: where the budget lasts, a weight is intact.\<close>

lemma cut_intact: "i < length ws \<Longrightarrow> sum_list (take (Suc i) ws) \<le> r \<Longrightarrow> cut r ws ! i = ws ! i"
  by (simp add: cut_nth take_Suc_conv_app_nth)

end

fun alloc :: "nat \<Rightarrow> nat list \<Rightarrow> nat list" where
  "alloc r [] = []"
| "alloc r (w # ws) = min w r # alloc (r - w) ws"

lemma alloc_zero [simp]: "alloc 0 ws = replicate (length ws) 0"
  by (induction ws) auto

lemma alloc_length [simp]: "length (alloc r ws) = length ws"
  by (induction ws arbitrary: r) auto

lemma alloc_nth: "i < length ws \<Longrightarrow> alloc r ws ! i = min (ws ! i) (r - sum_list (take i ws))"
  by (induction ws arbitrary: r i) (auto simp: nth_Cons split: nat.splits)

lemma alloc_sum: "sum_list (alloc r ws) = min r (sum_list ws)"
  by (induction ws arbitrary: r) auto

interpretation cap: fair_cut alloc
  by unfold_locales (simp_all add: alloc_nth alloc_sum)

section \<open>The truncating loop\<close>

lemma truncate_alloc:
  assumes "truncate_post r idxs fs = (r', fs')" "distinct idxs" "\<forall>i \<in> set idxs. i < length fs"
  shows "r' = r - sum_list (map (\<lambda>i. weight (fs ! i)) idxs) \<and> length fs' = length fs
    \<and> (\<forall>i. i \<notin> set idxs \<longrightarrow> fs' ! i = fs ! i)
    \<and> map (\<lambda>i. weight (fs' ! i)) idxs = alloc r (map (\<lambda>i. weight (fs ! i)) idxs)"
  using assms
proof (induction r idxs fs rule: truncate_post.induct)
  case (1 r fs)
  then show ?case by simp
next
  case (2 r i idxs fs)
  have i: "i < length fs" "i \<notin> set idxs" "distinct idxs" "\<forall>k \<in> set idxs. k < length fs"
    using "2.prems"(2,3) by auto
  have keep: "map (\<lambda>k. weight (fs[i := x] ! k)) idxs = map (\<lambda>k. weight (fs ! k)) idxs" for x
    using i by (auto simp: nth_list_update)
  consider "r = 0" | "0 < r" "weight (fs ! i) \<le> r" | "0 < r" "r < weight (fs ! i)" by linarith
  then show ?case
  proof cases
    case 1
    have "truncate_post r idxs (fs[i := (fs ! i)\<lparr>weight := 0\<rparr>]) = (r', fs')"
      using "2.prems"(1) i(1) 1 by simp
    from 2(1) [OF i(1) 1 this i(3)] show ?thesis
      using i 1 by (auto simp: keep nth_list_update)
  next
    case c: 2
    have "truncate_post (r - weight (fs ! i)) idxs fs = (r', fs')"
      using "2.prems"(1) i(1) c by simp
    from 2(2) [OF i(1) _ c(2) this i(3)] show ?thesis
      using i c by auto
  next
    case c: 3
    have "truncate_post 0 idxs (fs[i := (fs ! i)\<lparr>weight := r\<rparr>]) = (r', fs')"
      using "2.prems"(1) i(1) c by simp
    from 2(3) [OF i(1) _ _ this i(3)] show ?thesis
      using i c by (auto simp: keep nth_list_update)
  qed
qed

section \<open>The order of priority\<close>

lemma priority_order_perm:
  "set (priority_order adds) = {0..<length adds}" "distinct (priority_order adds)"
  "length (priority_order adds) = length adds"
  by (simp_all add: priority_order_def)

lemma priority_order_sum:
  "sum_list (map (\<lambda>i. g (adds ! i)) (priority_order adds)) = sum_list (map g adds)"
  for g :: "post_addition \<Rightarrow> nat"
proof -
  have "mset (map (\<lambda>i. g (adds ! i)) (priority_order adds)) = mset (map (\<lambda>i. g (adds ! i)) [0..<length adds])"
    by (simp add: priority_order_def)
  also have "map (\<lambda>i. g (adds ! i)) [0..<length adds] = map g adds"
    by (rule nth_equalityI) auto
  finally show ?thesis
    by (metis sum_mset_sum_list)
qed

text \<open>An addition is ahead of another when it is heavier, or as heavy and earlier. The order sorts by it.\<close>

definition ahead :: "post_addition list \<Rightarrow> nat \<Rightarrow> nat \<Rightarrow> bool" where
  "ahead adds j i \<longleftrightarrow>
     original_weight (adds ! i) < original_weight (adds ! j)
     \<or> original_weight (adds ! i) = original_weight (adds ! j) \<and> j < i"

definition weight_ahead :: "post_addition list \<Rightarrow> nat \<Rightarrow> nat" where
  "weight_ahead adds i =
     sum_list (map (\<lambda>j. original_weight (adds ! j)) (filter (\<lambda>j. ahead adds j i) [0..<length adds]))"

lemma insort_key_ahead:
  fixes f :: "nat \<Rightarrow> int"
  assumes "sorted_wrt (\<lambda>q p. f q < f p \<or> f q = f p \<and> q < p) ys" "\<forall>y \<in> set ys. x < y"
  shows "sorted_wrt (\<lambda>q p. f q < f p \<or> f q = f p \<and> q < p) (insort_key f x ys)"
  using assms
proof (induction ys)
  case (Cons y ys)
  then show ?case
    by (auto simp: set_insort_key)
qed simp

lemma sort_key_ahead:
  fixes f :: "nat \<Rightarrow> int"
  shows "sorted_wrt (<) xs \<Longrightarrow> sorted_wrt (\<lambda>q p. f q < f p \<or> f q = f p \<and> q < p) (sort_key f xs)"
  by (induction xs) (simp_all add: insort_key_ahead)

lemma priority_order_ahead: "sorted_wrt (ahead adds) (priority_order adds)"
proof -
  have "sorted_wrt (<) [0..<length adds]"
    by simp
  from sort_key_ahead [OF this, of "\<lambda>i. - int (original_weight (adds ! i))"] show ?thesis
    unfolding priority_order_def by (rule sorted_wrt_mono_rel [rotated]) (auto simp: ahead_def)
qed

lemma priority_order_taken:
  assumes "k < length adds"
  shows "set (take k (priority_order adds)) = {j. j < length adds \<and> ahead adds j (priority_order adds ! k)}"
proof (rule equalityI; rule subsetI)
  let ?o = "priority_order adds"
  have len: "length ?o = length adds" and elems: "set ?o = {0..<length adds}"
    by (simp_all add: priority_order_perm)
  fix j
  assume "j \<in> set (take k ?o)"
  then obtain n where "n < k" "j = ?o ! n"
    using assms len by (auto simp: in_set_conv_nth)
  then show "j \<in> {j. j < length adds \<and> ahead adds j (?o ! k)}"
    using sorted_wrt_nth_less [OF priority_order_ahead, of n k adds] assms len elems
    by (metis atLeastLessThan_iff le_less_trans mem_Collect_eq nth_mem order_less_imp_le)
next
  let ?o = "priority_order adds"
  have len: "length ?o = length adds" and elems: "set ?o = {0..<length adds}"
    by (simp_all add: priority_order_perm)
  fix j
  assume j: "j \<in> {j. j < length adds \<and> ahead adds j (?o ! k)}"
  then obtain n where n: "n < length adds" "j = ?o ! n"
    using elems len by (metis atLeastLessThan_iff in_set_conv_nth le0 mem_Collect_eq)
  have "\<not> k < n"
    using sorted_wrt_nth_less [OF priority_order_ahead, of k n adds] n len j by (auto simp: ahead_def)
  moreover have "n \<noteq> k"
    using n j by (auto simp: ahead_def)
  ultimately have "n < k" by simp
  then show "j \<in> set (take k ?o)"
    using n len by (auto simp: in_set_conv_nth)
qed

lemma priority_order_weight:
  assumes "k < length adds"
  shows "sum_list (take k (map (\<lambda>i. original_weight (adds ! i)) (priority_order adds)))
    = weight_ahead adds (priority_order adds ! k)"
proof -
  let ?o = "priority_order adds" and ?w = "\<lambda>i. original_weight (adds ! i)"
  have "sum_list (map ?w (take k ?o)) = sum ?w (set (take k ?o))"
    by (rule sum_list_distinct_conv_sum_set) (simp add: priority_order_perm)
  also have "\<dots> = sum ?w (set (filter (\<lambda>j. ahead adds j (?o ! k)) [0..<length adds]))"
    unfolding priority_order_taken [OF assms] by (rule sum.cong) auto
  also have "\<dots> = weight_ahead adds (?o ! k)"
    unfolding weight_ahead_def by (rule sum_list_distinct_conv_sum_set [symmetric]) simp
  finally show ?thesis
    by (simp add: take_map)
qed

text \<open>An addition and those ahead of it are among all of them.\<close>

lemma weight_ahead_total:
  assumes "i < length adds"
  shows "weight_ahead adds i + original_weight (adds ! i) \<le> sum_list (map original_weight adds)"
proof -
  obtain k where k: "k < length adds" "priority_order adds ! k = i"
    using assms priority_order_perm by (metis atLeastLessThan_iff in_set_conv_nth le0)
  let ?ws = "map (\<lambda>i. original_weight (adds ! i)) (priority_order adds)"
  have "weight_ahead adds i + original_weight (adds ! i) = sum_list (take (Suc k) ?ws)"
    using priority_order_weight [OF k(1)] k by (simp add: take_Suc_conv_app_nth priority_order_perm)
  also have "\<dots> \<le> sum_list (take (Suc k) ?ws) + sum_list (drop (Suc k) ?ws)"
    by simp
  also have "\<dots> = sum_list ?ws"
    by (simp only: sum_list_append [symmetric] append_take_drop_id)
  finally show ?thesis
    by (simp add: priority_order_sum [of original_weight])
qed

section \<open>A well-formed ledger\<close>

text \<open>Every addition has a finding of its own, of a weight that respects the limit for one finding.\<close>

definition ledger_ok :: "ledger \<Rightarrow> bool" where
  "ledger_ok l \<longleftrightarrow>
     base_score l \<le> MAX_VALID_SCORE \<and> trust_discount l \<le> MAX_VALID_SCORE
     \<and> (clamav_positive l \<longrightarrow> trust_discount l = 0)
     \<and> distinct (map finding_index (post_additions l))
     \<and> (\<forall>a \<in> set (post_additions l). finding_index a < length (lg_findings l)
          \<and> original_weight a \<le> MAX_SINGLE_POST_WEIGHT
          \<and> (\<not> finalized l \<longrightarrow> weight (lg_findings l ! finding_index a) = original_weight a))"

datatype ledger_op = Evidence string finding | Discount nat "finding option"

fun ledger_step :: "ledger_op \<Rightarrow> ledger \<Rightarrow> ledger" where
  "ledger_step (Evidence src f) l = add_evidence src f l"
| "ledger_step (Discount d f) l = apply_trust_discount d f l"

abbreviation feed :: "ledger_op list \<Rightarrow> ledger \<Rightarrow> ledger" where
  "feed es l \<equiv> fold ledger_step es l"

lemma new_ledger_ok: "ledger_ok (new_ledger v clamav)"
  by (simp add: ledger_ok_def new_ledger_def)

lemma add_evidence_ok: "ledger_ok l \<Longrightarrow> ledger_ok (add_evidence src f l)"
  by (auto simp: ledger_ok_def add_evidence_def Let_def nth_append)

lemma apply_trust_discount_ok: "ledger_ok l \<Longrightarrow> ledger_ok (apply_trust_discount d f l)"
  by (auto simp: ledger_ok_def apply_trust_discount_def Let_def nth_append less_Suc_eq_le less_imp_le
    split: option.splits)

lemma ledger_step_ok: "ledger_ok l \<Longrightarrow> ledger_ok (ledger_step op l)"
  by (cases op) (simp_all add: add_evidence_ok apply_trust_discount_ok)

lemma feed_ok: "ledger_ok l \<Longrightarrow> ledger_ok (feed es l)"
  by (induction es arbitrary: l) (simp_all add: ledger_step_ok)

lemma ledger_step_finalized [simp]: "finalized (ledger_step op l) = finalized l"
  by (cases op) (auto simp: add_evidence_def apply_trust_discount_def Let_def split: option.splits)

lemma feed_finalized [simp]: "finalized (feed es l) = finalized l"
  by (induction es arbitrary: l) simp_all

lemma feed_closed: "finalized l \<Longrightarrow> feed es l = l"
proof (induction es arbitrary: l)
  case (Cons op es)
  then have "ledger_step op l = l"
    by (cases op) (simp_all add: add_evidence_def apply_trust_discount_def)
  then show ?case using Cons by simp
qed simp

section \<open>What finalising does\<close>

text \<open>What a ledger holds after \<open>finalize\<close>, over the ledger before it.\<close>

definition settled :: "ledger \<Rightarrow> ledger \<Rightarrow> bool" where
  "settled l l' \<longleftrightarrow>
     finalized l' \<and> ledger_ok l' \<and> base_score l' = base_score l \<and> trust_discount l' = trust_discount l
     \<and> post_additions l' = post_additions l \<and> clamav_positive l' = clamav_positive l
     \<and> length (lg_findings l') = length (lg_findings l)
     \<and> (\<forall>i. i \<notin> finding_index ` set (post_additions l) \<longrightarrow> lg_findings l' ! i = lg_findings l ! i)
     \<and> sum_list (map (\<lambda>a. weight (lg_findings l' ! finding_index a)) (post_additions l))
        = min POST_ARGUS_CAP (sum_list (map original_weight (post_additions l)))
     \<and> (\<forall>i < length (post_additions l). weight (lg_findings l' ! finding_index (post_additions l ! i))
          = min (original_weight (post_additions l ! i)) (POST_ARGUS_CAP - weight_ahead (post_additions l) i))"

lemma raw_post_eq: "min (raw_post l) POST_ARGUS_CAP = min POST_ARGUS_CAP (sum_list (map original_weight (post_additions l)))"
  by (simp add: raw_post_def sat_sum_eq POST_ARGUS_CAP_def)

lemma weights_of_additions:
  assumes "ledger_ok l" "\<not> finalized l"
  shows "map (\<lambda>a. weight (lg_findings l ! finding_index a)) (post_additions l)
    = map original_weight (post_additions l)"
  using assms by (simp add: ledger_ok_def)

lemma finalize_under_cap:
  assumes "ledger_ok l" "\<not> finalized l" "raw_post l \<le> POST_ARGUS_CAP"
  shows "finalize l = conclude (min POST_ARGUS_CAP (sum_list (map original_weight (post_additions l))))
      (l\<lparr>finalized := True\<rparr>) \<and> settled l (l\<lparr>finalized := True\<rparr>)"
proof -
  have r: "raw_post (l\<lparr>finalized := True\<rparr>) = raw_post l" by (simp add: raw_post_def)
  have s: "sum_list (map original_weight (post_additions l)) \<le> POST_ARGUS_CAP"
    using assms(3) by (simp add: raw_post_def sat_sum_eq POST_ARGUS_CAP_def)
  have "weight (lg_findings l ! finding_index (post_additions l ! i))
      = min (original_weight (post_additions l ! i)) (POST_ARGUS_CAP - weight_ahead (post_additions l) i)"
    if "i < length (post_additions l)" for i
    using assms(1,2) s weight_ahead_total [OF that] that by (simp add: ledger_ok_def)
  then have "settled l (l\<lparr>finalized := True\<rparr>)"
    using assms(1,2) s by (auto simp: settled_def weights_of_additions) (auto simp: ledger_ok_def)
  then show ?thesis
    using assms raw_post_eq [of l] by (simp add: finalize_def Let_def r)
qed

lemma finalize_over_cap:
  assumes ok: "ledger_ok l" "\<not> finalized l" and over: "raw_post l > POST_ARGUS_CAP"
  shows "\<exists>fs. finalize l = conclude (min POST_ARGUS_CAP (sum_list (map original_weight (post_additions l))))
      (l\<lparr>finalized := True, lg_findings := fs\<rparr>) \<and> settled l (l\<lparr>finalized := True, lg_findings := fs\<rparr>)"
proof -
  define adds where "adds = post_additions l"
  define order where "order = priority_order adds"
  define idxs where "idxs = map (\<lambda>pos. finding_index (adds ! pos)) order"
  define ws where "ws = map (\<lambda>pos. original_weight (adds ! pos)) order"
  obtain r' fs where t: "truncate_post POST_ARGUS_CAP idxs (lg_findings l) = (r', fs)" by fastforce
  have wf: "distinct (map finding_index adds)"
    "\<forall>a \<in> set adds. finding_index a < length (lg_findings l)
       \<and> weight (lg_findings l ! finding_index a) = original_weight a"
    using ok by (auto simp: ledger_ok_def adds_def)
  have pos: "set order = {0..<length adds}" "distinct order"
    by (simp_all add: order_def priority_order_perm)
  have inj: "inj_on (\<lambda>p. finding_index (adds ! p)) {0..<length adds}"
    using wf(1) by (auto simp: inj_on_def distinct_conv_nth) metis
  have d: "distinct idxs"
    using pos inj by (simp add: idxs_def distinct_map)
  have rng: "\<forall>i \<in> set idxs. i < length (lg_findings l)"
    using pos wf(2) by (auto simp: idxs_def)
  have w: "map (\<lambda>i. weight (lg_findings l ! i)) idxs = ws"
    using pos wf(2) by (auto simp: idxs_def ws_def)
  have sum: "sum_list ws = sum_list (map original_weight adds)"
    by (simp add: ws_def order_def priority_order_sum [of original_weight])
  have big: "POST_ARGUS_CAP < sum_list ws"
    using over raw_post_eq [of l] by (simp add: sum adds_def raw_post_def sat_sum_eq)
  have tr: "r' = POST_ARGUS_CAP - sum_list ws" "length fs = length (lg_findings l)"
    "\<forall>i. i \<notin> set idxs \<longrightarrow> fs ! i = lg_findings l ! i"
    "map (\<lambda>i. weight (fs ! i)) idxs = alloc POST_ARGUS_CAP ws"
    using truncate_alloc [OF t d rng] by (simp_all add: w)
  have kept: "alloc POST_ARGUS_CAP ws ! i = weight (fs ! finding_index (adds ! (order ! i)))"
      "ws ! i = original_weight (adds ! (order ! i))" if "i < length adds" for i
    using that tr(4) [symmetric] by (simp_all add: idxs_def ws_def order_def priority_order_perm)
  have total: "sum_list (map (\<lambda>a. weight (fs ! finding_index a)) adds) = min POST_ARGUS_CAP (sum_list ws)"
    using priority_order_sum [of "\<lambda>a. weight (fs ! finding_index a)" adds] tr(4) cap.cut_sum [of POST_ARGUS_CAP ws]
    by (simp add: idxs_def order_def comp_def)
  have fair: "weight (fs ! finding_index (adds ! i)) = min (original_weight (adds ! i)) (POST_ARGUS_CAP - weight_ahead adds i)"
    if "i < length adds" for i
  proof -
    have "i \<in> set order" "length order = length adds"
      using that pos(1) by (simp_all add: order_def priority_order_perm)
    then obtain k where k: "k < length adds" "order ! k = i"
      by (auto simp: in_set_conv_nth)
    then show ?thesis
      using cap.cut_nth [of k ws POST_ARGUS_CAP] kept [OF k(1)] priority_order_weight [OF k(1)]
      by (simp add: ws_def order_def priority_order_perm)
  qed
  have "set adds = set (map ((!) adds) [0..<length adds])"
    by (simp only: map_nth)
  then have images: "set idxs = finding_index ` set adds"
    using pos(1) by (simp add: idxs_def image_image)
  define m where "m = l\<lparr>finalized := True, lg_findings := fs\<rparr>"
  have "settled l m"
    using ok tr(2,3) total fair sum images
    by (auto simp: settled_def m_def ledger_ok_def adds_def)
  moreover have "finalize l = conclude POST_ARGUS_CAP m"
    using ok(2) over t big tr(1)
    by (simp add: finalize_def Let_def raw_post_def m_def adds_def idxs_def order_def comp_def)
  moreover have "min POST_ARGUS_CAP (sum_list (map original_weight (post_additions l))) = POST_ARGUS_CAP"
    using big sum by (simp add: adds_def)
  ultimately show ?thesis
    unfolding m_def by metis
qed

lemma finalize_settles:
  assumes "ledger_ok l" "\<not> finalized l"
  shows "\<exists>l'. finalize l = conclude (min POST_ARGUS_CAP (sum_list (map original_weight (post_additions l)))) l'
    \<and> settled l l'"
  using finalize_under_cap [OF assms] finalize_over_cap [OF assms] by (metis linorder_not_less)


section \<open>The score in closed form\<close>

fun evidence_weight :: "ledger_op \<Rightarrow> nat" where
  "evidence_weight (Evidence src f) = min (weight f) MAX_SINGLE_POST_WEIGHT"
| "evidence_weight (Discount d f) = 0"

fun discount_of :: "ledger_op \<Rightarrow> nat" where
  "discount_of (Evidence src f) = 0"
| "discount_of (Discount d f) = min d MAX_VALID_SCORE"

definition largest_discount :: "ledger_op list \<Rightarrow> nat" where
  "largest_discount es = foldr (\<lambda>e. max (discount_of e)) es 0"

text \<open>The abstract specification: what the score of a file is, over everything that was reported.\<close>

definition post_argus_score :: "nat \<Rightarrow> bool \<Rightarrow> ledger_op list \<Rightarrow> nat" where
  "post_argus_score base clamav es =
     min MAX_VALID_SCORE
       (min base MAX_VALID_SCORE + min POST_ARGUS_CAP (sum_list (map evidence_weight es))
        - (if clamav then 0 else largest_discount es))"

lemma ledger_step_fields:
  "base_score (ledger_step e l) = base_score l"
  "clamav_positive (ledger_step e l) = clamav_positive l"
  "\<not> finalized l \<Longrightarrow> sum_list (map original_weight (post_additions (ledger_step e l)))
      = sum_list (map original_weight (post_additions l)) + evidence_weight e"
  "\<not> finalized l \<Longrightarrow> trust_discount (ledger_step e l)
      = (if clamav_positive l then trust_discount l else max (trust_discount l) (discount_of e))"
  "take (length (lg_findings l)) (lg_findings (ledger_step e l)) = lg_findings l"
  "a \<in> set (post_additions (ledger_step e l)) \<Longrightarrow>
     a \<in> set (post_additions l) \<or> length (lg_findings l) \<le> finding_index a"
  by (cases e; auto simp: add_evidence_def apply_trust_discount_def Let_def split: option.splits if_splits)+

lemma ledger_step_grows: "length (lg_findings l) \<le> length (lg_findings (ledger_step e l))"
  using arg_cong [OF ledger_step_fields(5) [of l e], of length] by simp

lemma feed_base [simp]: "base_score (feed es l) = base_score l"
  by (induction es arbitrary: l) (simp_all add: ledger_step_fields)

lemma feed_clamav [simp]: "clamav_positive (feed es l) = clamav_positive l"
  by (induction es arbitrary: l) (simp_all add: ledger_step_fields)

lemma feed_weights:
  "\<not> finalized l \<Longrightarrow> sum_list (map original_weight (post_additions (feed es l)))
    = sum_list (map original_weight (post_additions l)) + sum_list (map evidence_weight es)"
  by (induction es arbitrary: l) (simp_all add: ledger_step_fields)

lemma feed_discount:
  "\<not> finalized l \<Longrightarrow> trust_discount (feed es l)
    = (if clamav_positive l then trust_discount l else max (trust_discount l) (largest_discount es))"
  by (induction es arbitrary: l) (simp_all add: ledger_step_fields largest_discount_def max.assoc)

lemma feed_keeps_base:
  "take (length (lg_findings l)) (lg_findings (feed es l)) = lg_findings l"
proof (induction es arbitrary: l)
  case (Cons e es)
  let ?m = "ledger_step e l"
  have "take (length (lg_findings l)) (take (length (lg_findings ?m)) (lg_findings (feed es ?m))) = lg_findings l"
    by (simp only: Cons.IH ledger_step_fields(5))
  then show ?case
    using ledger_step_grows [of l e] by (simp add: min_absorb1)
qed simp

lemma feed_additions_beyond:
  "a \<in> set (post_additions (feed es l)) \<Longrightarrow>
     a \<in> set (post_additions l) \<or> length (lg_findings l) \<le> finding_index a"
proof (induction es arbitrary: l)
  case (Cons e es)
  then show ?case
    using ledger_step_fields(6) [of a e l] ledger_step_grows [of l e] by fastforce
qed simp

text \<open>A ledger from its creation over any operations to its end.\<close>

definition converged :: "argus_verdict \<Rightarrow> bool \<Rightarrow> ledger_op list \<Rightarrow> (nat \<times> verdict \<times> explanation_line) \<times> ledger" where
  "converged v clamav es = finalize (feed es (new_ledger v clamav))"

lemma converged_settles:
  "\<exists>l'. converged v clamav es
      = conclude (min POST_ARGUS_CAP (sum_list (map evidence_weight es))) l'
    \<and> settled (feed es (new_ledger v clamav)) l'"
proof -
  let ?n = "new_ledger v clamav"
  have n: "\<not> finalized ?n" "post_additions ?n = []" by (simp_all add: new_ledger_def)
  then show ?thesis
    using finalize_settles [of "feed es ?n"] feed_weights [of ?n es]
    by (simp add: converged_def feed_ok new_ledger_ok)
qed

lemma converged_score_closed:
  assumes "converged v clamav es = ((score, vd, line), l')"
  shows "score = post_argus_score (av_score v) clamav es \<and> vd = from_score score
    \<and> line = build_explanation score vd l'"
proof -
  let ?n = "new_ledger v clamav"
  have n: "\<not> finalized ?n" "trust_discount ?n = 0" "clamav_positive ?n = clamav"
      "base_score ?n = min (av_score v) MAX_VALID_SCORE"
    by (simp_all add: new_ledger_def)
  obtain m where m: "converged v clamav es = conclude (min POST_ARGUS_CAP (sum_list (map evidence_weight es))) m"
      "settled (feed es ?n) m"
    using converged_settles by blast
  have f: "base_score m = min (av_score v) MAX_VALID_SCORE"
      "trust_discount m = (if clamav then 0 else largest_discount es)"
    using m(2) by (simp_all only: settled_def feed_base feed_discount [OF n(1)] n max_0L)
  have "sat_add (base_score m) k = base_score m + k" if "k \<le> POST_ARGUS_CAP" for k
    using f(1) that by (simp add: sat_add_def POST_ARGUS_CAP_def MAX_VALID_SCORE_def)
  then have "converged_score m (min POST_ARGUS_CAP (sum_list (map evidence_weight es)))
      = post_argus_score (av_score v) clamav es"
    by (simp add: converged_score_def post_argus_score_def f min.commute)
  then show ?thesis
    using assms m(1) by (auto simp: conclude_def Let_def)
qed

lemma settled_current_post:
  assumes "settled l l'" 
  shows "current_post l' = min POST_ARGUS_CAP (sum_list (map original_weight (post_additions l)))"
proof -
  have "filter (\<lambda>a. finding_index a < length (lg_findings l')) (post_additions l') = post_additions l'"
    using assms by (auto simp: settled_def ledger_ok_def)
  moreover have "sum_list (map (\<lambda>a. weight (lg_findings l' ! finding_index a)) (post_additions l'))
      = min POST_ARGUS_CAP (sum_list (map original_weight (post_additions l)))"
    using assms by (simp add: settled_def)
  ultimately show ?thesis
    by (simp add: current_post_def sat_sum_eq POST_ARGUS_CAP_def)
qed

lemma converged_again:
  "finalize (snd (converged v clamav es)) = converged v clamav es"
proof -
  let ?l = "feed es (new_ledger v clamav)"
  obtain m where m: "converged v clamav es = conclude (min POST_ARGUS_CAP (sum_list (map evidence_weight es))) m"
      "settled ?l m"
    using converged_settles by blast
  have "sum_list (map original_weight (post_additions ?l)) = sum_list (map evidence_weight es)"
    using feed_weights [of "new_ledger v clamav" es] by (simp add: new_ledger_def)
  then have "current_post m = min POST_ARGUS_CAP (sum_list (map evidence_weight es))"
    using settled_current_post [OF m(2)] by simp
  moreover have "finalized m" using m(2) by (simp add: settled_def)
  ultimately show ?thesis
    by (simp add: m(1) finalize_def) (simp add: conclude_def Let_def)
qed

lemma converged_base_findings:
  "take (length (av_findings v)) (lg_findings (snd (converged v clamav es))) = av_findings v"
proof -
  let ?n = "new_ledger v clamav" and ?k = "length (av_findings v)"
  obtain m where m: "converged v clamav es = conclude (min POST_ARGUS_CAP (sum_list (map evidence_weight es))) m"
      "settled (feed es ?n) m"
    using converged_settles by blast
  have n: "lg_findings ?n = av_findings v" "post_additions ?n = []" by (simp_all add: new_ledger_def)
  have "lg_findings m ! i = lg_findings (feed es ?n) ! i" if "i < ?k" for i
    using m(2) that feed_additions_beyond [of _ es ?n] n by (force simp: settled_def)
  moreover have "length (lg_findings m) = length (lg_findings (feed es ?n))"
    using m(2) by (simp add: settled_def)
  ultimately have "take ?k (lg_findings m) = take ?k (lg_findings (feed es ?n))"
    by (intro nth_equalityI) auto
  then show ?thesis
    using feed_keeps_base [of ?n es] m(1) n by (simp add: conclude_def Let_def)
qed

lemma patch_explanation_idem:
  "patch_explanation l s (patch_explanation l s' e) = patch_explanation l s e"
proof -
  have "filter (\<lambda>r. \<not> is_ledger_reason r) (ledger_reasons l) = []"
    by (auto simp: ledger_reasons_def is_ledger_reason_def reason_text_def filter_empty_conv)
  then show ?thesis
    by (simp add: patch_explanation_def is_ledger_trust_def)
qed

section \<open>Properties\<close>

text \<open>
C16: Whatever is reported about a file after ARGUS, in whatever order, its score is the ARGUS score
plus the post-ARGUS weights, each counted up to 40 and together up to 40, less the largest trust
discount, which counts only when ClamAV found nothing; the result is kept within 100, and the verdict
is the one of that score.
\<close>

theorem converged_score_correct:
  "fst (fst (converged v clamav es)) = post_argus_score (av_score v) clamav es
   \<and> fst (snd (fst (converged v clamav es))) = from_score (post_argus_score (av_score v) clamav es)"
proof -
  obtain score vd line l' where c: "converged v clamav es = ((score, vd, line), l')"
    by (metis prod.collapse)
  then show ?thesis
    using converged_score_closed [OF c] by simp
qed

text \<open>The evidence among what was reported, as it is entered.\<close>

fun entered :: "ledger_op \<Rightarrow> (string \<times> nat) list" where
  "entered (Evidence src f) = [(src, min (weight f) MAX_SINGLE_POST_WEIGHT)]"
| "entered (Discount d f) = []"

lemma feed_entered:
  "\<not> finalized l \<Longrightarrow> map (\<lambda>a. (source a, original_weight a)) (post_additions (feed es l))
    = map (\<lambda>a. (source a, original_weight a)) (post_additions l) @ concat (map entered es)"
proof (induction es arbitrary: l)
  case (Cons e es)
  have "map (\<lambda>a. (source a, original_weight a)) (post_additions (ledger_step e l))
      = map (\<lambda>a. (source a, original_weight a)) (post_additions l) @ entered e"
    using Cons.prems by (cases e) (auto simp: add_evidence_def apply_trust_discount_def Let_def split: option.splits)
  then show ?case
    using Cons by simp
qed simp

text \<open>
C28: Evidence is not diluted. The additions of a finalised ledger are the evidence that was reported, in
order, each capped at 40, and each keeps its whole weight as far as the budget of 40 reaches after
everything ahead of it, that is everything heavier and everything as heavy that came earlier: whatever
is lighter takes nothing from it, and the heaviest keeps its weight whatever else was reported. The
findings ARGUS reported are as ARGUS reported them.
\<close>

theorem strongest_evidence_survives:
  "let l' = snd (converged v clamav es); adds = post_additions l' in
    map (\<lambda>a. (source a, original_weight a)) adds = concat (map entered es)
    \<and> (\<forall>i < length adds. weight (lg_findings l' ! finding_index (adds ! i))
         = min (original_weight (adds ! i)) (POST_ARGUS_CAP - weight_ahead adds i))
    \<and> take (length (av_findings v)) (lg_findings l') = av_findings v"
proof -
  obtain m where m: "converged v clamav es = conclude (min POST_ARGUS_CAP (sum_list (map evidence_weight es))) m"
      "settled (feed es (new_ledger v clamav)) m"
    using converged_settles by blast
  have "snd (converged v clamav es) = m"
    using m(1) by (simp add: conclude_def Let_def)
  moreover have "map (\<lambda>a. (source a, original_weight a)) (post_additions m) = concat (map entered es)"
    using m(2) feed_entered [of "new_ledger v clamav" es] by (simp add: settled_def new_ledger_def)
  ultimately show ?thesis
    using m(2) converged_base_findings [of v clamav es] by (simp add: settled_def Let_def)
qed

definition noisy_run :: "ledger_op list" where
  "noisy_run =
     replicate 15 (Evidence ''flood'' \<lparr>layer = Context_Layer, severity = Low, weight = 1,
       description = ''noise'', technical_detail = None\<rparr>)
     @ [Evidence ''ADS'' \<lparr>layer = Alternate_Data_Stream, severity = High, weight = 30,
         description = ''stream content'', technical_detail = None\<rparr>]"

definition noisy_end :: ledger where
  "noisy_end = snd (converged (empty_verdict ''a.exe'') False noisy_run)"

lemma noisy_end_eval:
  "post_additions noisy_end ! 15 = \<lparr>source = ''ADS'', original_weight = 30, finding_index = 15\<rparr>"
  "post_additions noisy_end ! 12 = \<lparr>source = ''flood'', original_weight = 1, finding_index = 12\<rparr>"
  "length (post_additions noisy_end) = 16"
  "weight_ahead (post_additions noisy_end) 15 = 0" "weight_ahead (post_additions noisy_end) 12 = 42"
  by code_simp+

theorem strongest_evidence_survives_witness:
  "weight (lg_findings noisy_end ! 15) = 30 \<and> weight (lg_findings noisy_end ! 12) = 0"
proof -
  have "weight (lg_findings noisy_end ! finding_index (post_additions noisy_end ! i))
      = min (original_weight (post_additions noisy_end ! i)) (POST_ARGUS_CAP - weight_ahead (post_additions noisy_end) i)"
    if "i < 16" for i
    using strongest_evidence_survives [of "empty_verdict ''a.exe''" False noisy_run] that noisy_end_eval(3)
    by (simp only: noisy_end_def [symmetric] Let_def)
  from this [of 15] this [of 12] show ?thesis
    by (simp add: noisy_end_eval POST_ARGUS_CAP_def)
qed

text \<open>
Finalising is final: a second call returns the same score, verdict and line and leaves the
ledger alone, evidence and discounts that come later change nothing, and patching an explanation
again replaces what the ledger wrote instead of adding to it.
\<close>

theorem finalize_is_final:
  "finalize (snd (converged v clamav es)) = converged v clamav es
   \<and> feed late (snd (converged v clamav es)) = snd (converged v clamav es)
   \<and> patch_explanation (snd (converged v clamav es)) s (patch_explanation (snd (converged v clamav es)) s' e)
      = patch_explanation (snd (converged v clamav es)) s e"
proof -
  have "finalized (snd (converged v clamav es))"
    using converged_settles [of v clamav es] by (auto simp: conclude_def Let_def settled_def)
  then show ?thesis
    by (simp add: converged_again feed_closed patch_explanation_idem)
qed

text \<open>The trust finding of a file ClamAV detected is dropped with its discount.\<close>

lemma infected_keeps_no_trust:
  "apply_trust_discount d f (new_ledger v True) = new_ledger v True"
  "post_argus_score base True es \<ge> min base MAX_VALID_SCORE"
  by (simp_all add: apply_trust_discount_def new_ledger_def post_argus_score_def)

text \<open>More evidence never lowers the score.\<close>

lemma evidence_never_lowers:
  "post_argus_score base clamav es \<le> post_argus_score base clamav (es @ [Evidence src f])"
proof -
  have "largest_discount (es @ [Evidence src f]) = largest_discount es"
    by (simp add: largest_discount_def)
  then show ?thesis
    by (auto simp: post_argus_score_def intro!: min.mono diff_le_mono add_left_mono)
qed

text \<open>The verdict is recomputed from the score alone: a file ARGUS called potentially unwanted loses
  that verdict even when nothing was added to its ledger.\<close>

lemma ledger_loses_pua:
  assumes "av_verdict v = Potentially_Unwanted" "av_score v = 40"
  shows "fst (fst (converged v False [])) = av_score v \<and> fst (snd (fst (converged v False []))) = Suspicious"
proof -
  obtain score vd line l' where c: "converged v False [] = ((score, vd, line), l')"
    by (metis prod.collapse)
  then show ?thesis
    using converged_score_closed [OF c] assms
    by (simp add: post_argus_score_def largest_discount_def from_score_def MAX_VALID_SCORE_def)
qed

end
