(* ===== verification/Nrpt_Rule.thy ===== *)
theory Nrpt_Rule
  imports Std_Text
begin

text \<open>
  The rule that points the machine's DNS at the proxy, \<open>crates/nrpt/src/lib.rs\<close> and
  \<open>crates/nrpt/src/registry.rs\<close>: reading, writing and deleting a rule in the registry, and the file that
  records the GUID of the rule. The host is the policy container with its rules and the record file.
  An operation computes its result and the list of durable effects it has, in order, so that a crash
  between any two of them can be spoken of; what the system calls answer is the record \<open>io\<close>.
\<close>

section \<open>Errors\<close>

datatype nrpt_error =
  No_Policy_Container
| Access_Denied string
| Registry_Error string
| Malformed_Guid string
| Unsupported

text \<open>\<open>WIN32_ERROR\<close> as the code tells them apart. That a key is not there follows from the host; any
  other failure is a fault of the environment.\<close>

datatype win_fault = Fault_Denied | Fault_Code nat

datatype win_error = File_Not_Found | Win_Fault win_fault

definition map_err :: "win_error \<Rightarrow> string \<Rightarrow> nrpt_error" where
  "map_err rc what =
     (case rc of
        File_Not_Found \<Rightarrow> No_Policy_Container
      | Win_Fault Fault_Denied \<Rightarrow> Access_Denied what
      | Win_Fault (Fault_Code n) \<Rightarrow> Registry_Error (what @ '': Win32 error '' @ show_nat n))"

section \<open>GUIDs\<close>

definition guid_dashes :: "nat list" where "guid_dashes = [9, 14, 19, 24]"

definition guid_shaped :: "string \<Rightarrow> bool" where
  "guid_shaped b \<longleftrightarrow>
     length b = 38 \<and> b ! 0 = CHR 0x7B \<and> b ! 37 = CHR 0x7D
     \<and> list_all (\<lambda>i. if i \<in> set guid_dashes then b ! i = CHR 0x2D else is_hex_digit (b ! i)) [1..<37]"

definition validate_guid :: "string \<Rightarrow> nrpt_error + unit" where
  "validate_guid guid = (if guid_shaped guid then Inr () else Inl (Malformed_Guid guid))"

section \<open>The host\<close>

record rule_key =
  rk_names :: "string list option"
  rk_servers :: "string option"
  rk_options :: "nat option"
  rk_version :: "nat option"
  rk_comment :: "string option"

definition empty_key :: rule_key where
  "empty_key = \<lparr>rk_names = None, rk_servers = None, rk_options = None, rk_version = None, rk_comment = None\<rparr>"

datatype reg_value =
  Name_Value "string list"
| Servers_Value string
| Options_Value nat
| Version_Value nat
| Comment_Value string

primrec value_name :: "reg_value \<Rightarrow> string" where
  "value_name (Name_Value _) = ''Name''"
| "value_name (Servers_Value _) = ''GenericDNSServers''"
| "value_name (Options_Value _) = ''ConfigOptions''"
| "value_name (Version_Value _) = ''Version''"
| "value_name (Comment_Value _) = ''Comment''"

primrec store_value :: "reg_value \<Rightarrow> rule_key \<Rightarrow> rule_key" where
  "store_value (Name_Value v) k = k\<lparr>rk_names := Some v\<rparr>"
| "store_value (Servers_Value v) k = k\<lparr>rk_servers := Some v\<rparr>"
| "store_value (Options_Value v) k = k\<lparr>rk_options := Some v\<rparr>"
| "store_value (Version_Value v) k = k\<lparr>rk_version := Some v\<rparr>"
| "store_value (Comment_Value v) k = k\<lparr>rk_comment := Some v\<rparr>"

text \<open>The subkeys of the policy container in the order they are enumerated; no container is \<open>None\<close>.
  Names of registry keys are compared without regard to case. Of the record file the host keeps what
  a reader sees and what survives a loss of power; of the policy likewise.\<close>

type_synonym policy = "(string \<times> rule_key) list option"

record host =
  policy_keys :: policy
  policy_disk :: policy
  guid_file :: "string option"
  guid_disk :: "string option"

definition same_key :: "string \<Rightarrow> string \<Rightarrow> bool" where
  "same_key a b \<longleftrightarrow> to_ascii_lowercase a = to_ascii_lowercase b"

definition has_key :: "string \<Rightarrow> (string \<times> rule_key) list \<Rightarrow> bool" where
  "has_key guid ks \<longleftrightarrow> list_ex (\<lambda>(n, _). same_key n guid) ks"

definition key_values :: "string \<Rightarrow> (string \<times> rule_key) list \<Rightarrow> rule_key option" where
  "key_values guid ks = map_option snd (find (\<lambda>(n, _). same_key n guid) ks)"

section \<open>Durable effects\<close>

datatype effect =
  Put_Record string
| Sync_Record
| Delete_Record
| Create_Container
| Create_Key string
| Set_Value string reg_value
| Delete_Key string

definition put_key :: "string \<Rightarrow> (string \<times> rule_key) list \<Rightarrow> (string \<times> rule_key) list" where
  "put_key guid ks = (if has_key guid ks then ks else ks @ [(guid, empty_key)])"

definition update_key ::
    "string \<Rightarrow> (rule_key \<Rightarrow> rule_key) \<Rightarrow> (string \<times> rule_key) list \<Rightarrow> (string \<times> rule_key) list" where
  "update_key guid f ks = map (\<lambda>(n, k). (n, if same_key n guid then f k else k)) ks"

definition drop_key :: "string \<Rightarrow> (string \<times> rule_key) list \<Rightarrow> (string \<times> rule_key) list" where
  "drop_key guid ks = filter (\<lambda>(n, _). \<not> same_key n guid) ks"

primrec perform :: "effect \<Rightarrow> host \<Rightarrow> host" where
  "perform (Put_Record g) h = h\<lparr>guid_file := Some g\<rparr>"
| "perform Sync_Record h = h\<lparr>guid_disk := guid_file h\<rparr>"
| "perform Delete_Record h = h\<lparr>guid_file := None\<rparr>"
| "perform Create_Container h = h\<lparr>policy_keys := Some (case policy_keys h of None \<Rightarrow> [] | Some ks \<Rightarrow> ks)\<rparr>"
| "perform (Create_Key g) h = h\<lparr>policy_keys := map_option (put_key g) (policy_keys h)\<rparr>"
| "perform (Set_Value g v) h = h\<lparr>policy_keys := map_option (update_key g (store_value v)) (policy_keys h)\<rparr>"
| "perform (Delete_Key g) h = h\<lparr>policy_keys := map_option (drop_key g) (policy_keys h)\<rparr>"

abbreviation perform_all :: "effect list \<Rightarrow> host \<Rightarrow> host" where
  "perform_all es h \<equiv> fold perform es h"

text \<open>An operation reads the host and answers with its result and its effects. In a sequence the
  second operation reads the host the first one left.\<close>

type_synonym 'a op = "host \<Rightarrow> 'a \<times> effect list"

definition ret :: "'a \<Rightarrow> 'a op" where
  "ret a = (\<lambda>h. (a, []))"

definition effect_op :: "effect \<Rightarrow> (nrpt_error + unit) op" where
  "effect_op e = (\<lambda>h. (Inr (), [e]))"

definition bind_op :: "'a op \<Rightarrow> ('a \<Rightarrow> 'b op) \<Rightarrow> 'b op" where
  "bind_op m f = (\<lambda>h. let (a, es) = m h; (b, es') = f a (perform_all es h) in (b, es @ es'))"

text \<open>The \<open>?\<close> operator.\<close>

definition try_op :: "(nrpt_error + 'a) op \<Rightarrow> ('a \<Rightarrow> (nrpt_error + 'b) op) \<Rightarrow> (nrpt_error + 'b) op" where
  "try_op m f = bind_op m (\<lambda>r. case r of Inl e \<Rightarrow> ret (Inl e) | Inr a \<Rightarrow> f a)"

section \<open>System calls\<close>

text \<open>What the calls of one operation answer, by the place they are made from; a value may also be of
  the wrong type.\<close>

datatype query_fault = Query_Error win_error | Query_Type nat nat

definition query_err :: "string \<Rightarrow> query_fault \<Rightarrow> nrpt_error" where
  "query_err name f =
     (case f of
        Query_Error rc \<Rightarrow> map_err rc name
      | Query_Type expected found \<Rightarrow>
          Registry_Error (name @ '': expected value type '' @ show_nat expected @ '', found '' @ show_nat found))"

record io =
  open_fault :: "win_fault option"
  subkey_fault :: "win_fault option"
  delete_fault :: "win_fault option"
  enum_fault :: "nat \<Rightarrow> win_fault option"
  read_fault :: "string \<Rightarrow> query_fault option"
  container_fault :: "win_fault option"
  create_fault :: "win_fault option"
  set_fault :: "string \<Rightarrow> win_fault option"
  file_readable :: bool
  dir_created :: bool
  tmp_written :: bool
  renamed :: bool
  dir_synced :: bool
  file_removable :: bool

definition calm :: io where
  "calm =
     \<lparr>open_fault = None, subkey_fault = None, delete_fault = None, enum_fault = (\<lambda>_. None), read_fault = (\<lambda>_. None),
      container_fault = None, create_fault = None, set_fault = (\<lambda>_. None), file_readable = True,
      dir_created = True, tmp_written = True, renamed = True, dir_synced = True, file_removable = True\<rparr>"

text \<open>\<open>join\<close> with a separator.\<close>

fun join_with :: "string \<Rightarrow> string list \<Rightarrow> string" where
  "join_with sep [] = []"
| "join_with sep [x] = x"
| "join_with sep (x # y # xs) = x @ sep @ join_with sep (y # xs)"

definition DNS_POLICY_CONFIG :: string where
  "DNS_POLICY_CONFIG =
     join_with [CHR 0x5C]
       [''SYSTEM'', ''CurrentControlSet'', ''Services'', ''DnsCache'', ''Parameters'', ''DnsPolicyConfig'']"

definition open_read :: "io \<Rightarrow> host \<Rightarrow> nrpt_error + (string \<times> rule_key) list" where
  "open_read i h =
     (case open_fault i of
        Some f \<Rightarrow> Inl (map_err (Win_Fault f) DNS_POLICY_CONFIG)
      | None \<Rightarrow>
          (case policy_keys h of
             None \<Rightarrow> Inl (map_err File_Not_Found DNS_POLICY_CONFIG)
           | Some ks \<Rightarrow> Inr ks))"

definition subkey_path :: "string \<Rightarrow> string" where
  "subkey_path guid = DNS_POLICY_CONFIG @ [CHR 0x5C] @ guid"

definition subkey_exists :: "io \<Rightarrow> string \<Rightarrow> (nrpt_error + bool) op" where
  "subkey_exists i guid = (\<lambda>h.
     ((case open_read i h of
         Inl e \<Rightarrow> Inl e
       | Inr ks \<Rightarrow>
           (case subkey_fault i of
              Some f \<Rightarrow> Inl (map_err (Win_Fault f) (subkey_path guid))
            | None \<Rightarrow> Inr (has_key guid ks))), []))"

definition delete_subkey :: "io \<Rightarrow> string \<Rightarrow> (nrpt_error + unit) op" where
  "delete_subkey i guid = (\<lambda>h.
     (case open_read i h of
        Inl e \<Rightarrow> (Inl e, [])
      | Inr ks \<Rightarrow>
          (case delete_fault i of
             Some f \<Rightarrow> (Inl (map_err (Win_Fault f) (''delete '' @ subkey_path guid)), [])
           | None \<Rightarrow> (Inr (), if has_key guid ks then [Delete_Key guid] else []))))"

text \<open>The enumeration loop: one call per index, the last of which finds no more.\<close>

fun enum_subkeys :: "io \<Rightarrow> nat \<Rightarrow> (string \<times> rule_key) list \<Rightarrow> nrpt_error + string list" where
  "enum_subkeys i index ks =
     (case enum_fault i index of
        Some f \<Rightarrow> Inl (map_err (Win_Fault f) (''enumerate '' @ DNS_POLICY_CONFIG))
      | None \<Rightarrow>
          (case ks of
             [] \<Rightarrow> Inr []
           | (name, _) # rest \<Rightarrow>
               if index + 1 > 4096 then Inl (Registry_Error (DNS_POLICY_CONFIG @ '': implausible subkey count''))
               else
                 (case enum_subkeys i (index + 1) rest of
                    Inl e \<Rightarrow> Inl e
                  | Inr names \<Rightarrow> Inr (name # names))))"

declare enum_subkeys.simps [simp del]

definition list_subkeys :: "io \<Rightarrow> (nrpt_error + string list) op" where
  "list_subkeys i = (\<lambda>h.
     ((case open_read i h of
         Inl e \<Rightarrow> Inl e
       | Inr ks \<Rightarrow> enum_subkeys i 0 ks), []))"

definition read_rule_values :: "io \<Rightarrow> string \<Rightarrow> (nrpt_error + (string list \<times> string) option) op" where
  "read_rule_values i guid = (\<lambda>h.
     ((case open_read i h of
         Inl e \<Rightarrow> Inl e
       | Inr ks \<Rightarrow>
           (case subkey_fault i of
              Some f \<Rightarrow> Inl (map_err (Win_Fault f) (subkey_path guid))
            | None \<Rightarrow>
                (case key_values guid ks of
                   None \<Rightarrow> Inr None
                 | Some k \<Rightarrow>
                     (case read_fault i ''Name'' of
                        Some f \<Rightarrow> Inl (query_err ''Name'' f)
                      | None \<Rightarrow>
                          (case read_fault i ''GenericDNSServers'' of
                             Some f \<Rightarrow> Inl (query_err ''GenericDNSServers'' f)
                           | None \<Rightarrow>
                               Inr (Some (case rk_names k of None \<Rightarrow> [] | Some ns \<Rightarrow> ns,
                                          case rk_servers k of None \<Rightarrow> [] | Some s \<Rightarrow> s))))))), []))"

text \<open>Values are set one by one; the first that fails ends the call.\<close>

fun set_values :: "io \<Rightarrow> string \<Rightarrow> reg_value list \<Rightarrow> (nrpt_error + unit) op" where
  "set_values i guid [] = ret (Inr ())"
| "set_values i guid (v # vs) =
     (case set_fault i (value_name v) of
        Some f \<Rightarrow> ret (Inl (map_err (Win_Fault f) (value_name v)))
      | None \<Rightarrow> try_op (effect_op (Set_Value guid v)) (\<lambda>_. set_values i guid vs))"

definition open_or_create_container :: "io \<Rightarrow> (nrpt_error + unit) op" where
  "open_or_create_container i = (\<lambda>h.
     (case open_fault i of
        Some f \<Rightarrow> (Inl (map_err (Win_Fault f) DNS_POLICY_CONFIG), [])
      | None \<Rightarrow>
          (case policy_keys h of
             Some _ \<Rightarrow> (Inr (), [])
           | None \<Rightarrow>
               (case container_fault i of
                  Some f \<Rightarrow> (Inl (map_err (Win_Fault f) DNS_POLICY_CONFIG), [])
                | None \<Rightarrow> (Inr (), [Create_Container])))))"

definition create_key :: "io \<Rightarrow> string \<Rightarrow> (nrpt_error + unit) op" where
  "create_key i guid =
     (case create_fault i of
        Some f \<Rightarrow> ret (Inl (map_err (Win_Fault f) guid))
      | None \<Rightarrow> effect_op (Create_Key guid))"

definition write_rule :: "io \<Rightarrow> string \<Rightarrow> string \<Rightarrow> string \<Rightarrow> nat \<Rightarrow> nat \<Rightarrow> string \<Rightarrow> (nrpt_error + unit) op" where
  "write_rule i guid namespace servers options version comment =
     try_op (open_or_create_container i) (\<lambda>_.
     try_op (create_key i guid) (\<lambda>_.
       set_values i guid
         ([Name_Value [namespace], Servers_Value servers, Options_Value options, Version_Value version]
          @ (if comment = [] then [] else [Comment_Value comment]))))"

section \<open>Rules\<close>

definition rule_exists :: "io \<Rightarrow> string \<Rightarrow> (nrpt_error + bool) op" where
  "rule_exists i guid =
     (case validate_guid guid of
        Inl e \<Rightarrow> ret (Inl e)
      | Inr _ \<Rightarrow>
          bind_op (subkey_exists i guid) (\<lambda>r. ret (if r = Inl No_Policy_Container then Inr False else r)))"

definition remove_rule :: "io \<Rightarrow> string \<Rightarrow> (nrpt_error + unit) op" where
  "remove_rule i guid =
     (case validate_guid guid of
        Inl e \<Rightarrow> ret (Inl e)
      | Inr _ \<Rightarrow>
          bind_op (delete_subkey i guid) (\<lambda>r. ret (if r = Inl No_Policy_Container then Inr () else r)))"

definition NAMESPACE_ALL :: string where "NAMESPACE_ALL = ''.''"

definition RULE_VERSION :: nat where "RULE_VERSION = 2"

definition CONFIG_OPTION_DNS_SERVERS :: nat where "CONFIG_OPTION_DNS_SERVERS = 8"

definition rule_comment :: string where
  "rule_comment =
     ''Sentinella web protection - removed automatically if the local DNS proxy stops answering''"

text \<open>The servers are the text of their addresses.\<close>

definition install_rule :: "io \<Rightarrow> string \<Rightarrow> string \<Rightarrow> string list \<Rightarrow> (nrpt_error + unit) op" where
  "install_rule i guid namespace servers =
     (case validate_guid guid of
        Inl e \<Rightarrow> ret (Inl e)
      | Inr _ \<Rightarrow>
          if servers = [] then ret (Inl (Registry_Error ''refusing to install a rule with no DNS servers''))
          else if namespace = [] then ret (Inl (Registry_Error ''refusing to install an empty namespace''))
          else write_rule i guid namespace (join_with '';'' servers) CONFIG_OPTION_DNS_SERVERS RULE_VERSION
                 rule_comment)"

text \<open>\<open>any_rule\<close>, on the listing of the container of group policy.\<close>

definition any_rule :: "nrpt_error + string list \<Rightarrow> nrpt_error + bool" where
  "any_rule listing =
     (case listing of
        Inl e \<Rightarrow> (if e = No_Policy_Container then Inr False else Inl e)
      | Inr rules \<Rightarrow> Inr (rules \<noteq> []))"

definition list_rules :: "io \<Rightarrow> (nrpt_error + string list) op" where
  "list_rules i = bind_op (list_subkeys i) (\<lambda>r. ret (if r = Inl No_Policy_Container then Inr [] else r))"

section \<open>The record of the GUID\<close>

definition recorded_guid :: "io \<Rightarrow> string option op" where
  "recorded_guid i = (\<lambda>h.
     ((if file_readable i then
         (case guid_file h of
            None \<Rightarrow> None
          | Some raw \<Rightarrow> if guid_shaped (trim raw) then Some (trim raw) else None)
       else None), []))"

text \<open>Creating the directory, writing and syncing the temporary file change nothing a reader of the
  record sees; the rename does, and the sync of the directory makes it last.\<close>

definition record_guid :: "io \<Rightarrow> string \<Rightarrow> (nrpt_error + unit) op" where
  "record_guid i guid =
     (case validate_guid guid of
        Inl e \<Rightarrow> ret (Inl e)
      | Inr _ \<Rightarrow>
          if \<not> dir_created i then ret (Inl (Registry_Error ''state dir''))
          else if \<not> tmp_written i then ret (Inl (Registry_Error ''state write''))
          else if \<not> renamed i then ret (Inl (Registry_Error ''state rename''))
          else
            try_op (effect_op (Put_Record guid)) (\<lambda>_.
              if dir_synced i then effect_op Sync_Record
              else ret (Inl (Registry_Error ''state dir sync''))))"

definition clear_guid :: "io \<Rightarrow> (nrpt_error + unit) op" where
  "clear_guid i = (\<lambda>h.
     if guid_file h = None then (Inr (), [])
     else if file_removable i then (Inr (), [Delete_Record])
     else (Inl (Registry_Error ''state remove''), []))"

section \<open>Rules that look like ours\<close>

definition PROXY_SERVER :: string where "PROXY_SERVER = ''127.0.0.1''"

definition matches_orphan_pattern :: "string list \<Rightarrow> string \<Rightarrow> bool" where
  "matches_orphan_pattern ns servers \<longleftrightarrow>
     list_ex (\<lambda>n. trim n = NAMESPACE_ALL) ns
     \<and> list_ex (\<lambda>s. trim s = PROXY_SERVER) (split_on CHR 0x3B servers)"

definition is_recorded :: "string option \<Rightarrow> string \<Rightarrow> bool" where
  "is_recorded recorded guid \<longleftrightarrow> (case recorded of None \<Rightarrow> False | Some r \<Rightarrow> same_key r guid)"

fun collect_orphans :: "io \<Rightarrow> string option \<Rightarrow> string list \<Rightarrow> (nrpt_error + string list) op" where
  "collect_orphans i recorded [] = ret (Inr [])"
| "collect_orphans i recorded (guid # guids) =
     (if is_recorded recorded guid then collect_orphans i recorded guids
      else
        try_op (read_rule_values i guid) (\<lambda>vals.
        try_op (collect_orphans i recorded guids) (\<lambda>rest.
          ret (Inr (case vals of
                 None \<Rightarrow> rest
               | Some (ns, servers) \<Rightarrow>
                   if matches_orphan_pattern ns servers then guid # rest else rest)))))"

definition unrecorded_catchall_rules :: "io \<Rightarrow> (nrpt_error + string list) op" where
  "unrecorded_catchall_rules i =
     bind_op (recorded_guid i) (\<lambda>recorded.
     try_op (list_rules i) (collect_orphans i recorded))"

end
