(* ===== verification/Nrpt_Task.thy ===== *)
theory Nrpt_Task
  imports Std_Text
begin

text \<open>
  The scheduled task of the boot reconciler. The daemon installs no rule unless the task's definition
  file says that the task is enabled and names a command that exists (\<open>crates/nrpt/src/lib.rs\<close>); the
  file is written by the reconciler itself (\<open>crates/sentinella-dnsreconcile/src/task.rs\<close>), with the
  path of the command escaped.
\<close>

section \<open>Escaping\<close>

definition escape_char :: "char \<Rightarrow> string" where
  "escape_char c =
     (if c = CHR 0x26 then ''&amp;''
      else if c = CHR 0x3C then ''&lt;''
      else if c = CHR 0x3E then ''&gt;''
      else if c = CHR 0x22 then ''&quot;''
      else if c = CHR 0x27 then ''&apos;''
      else [c])"

definition xml_escape :: "string \<Rightarrow> string" where
  "xml_escape s = concat (map escape_char s)"

definition xml_unescape :: "string \<Rightarrow> string" where
  "xml_unescape s =
     replace_all ''&amp;'' ''&''
       (replace_all ''&apos;'' [CHR 0x27]
         (replace_all ''&quot;'' [CHR 0x22]
           (replace_all ''&gt;'' ''>''
             (replace_all ''&lt;'' ''<'' s))))"

lemma xml_escape_Nil [simp]: "xml_escape [] = []"
  by (simp add: xml_escape_def)

text \<open>The five replacements, each on what the ones before it left: \<open>k\<close> of the entities are decoded.\<close>

definition escape_stage :: "nat \<Rightarrow> char \<Rightarrow> string" where
  "escape_stage k c =
     (if c = CHR 0x3C then (if k \<ge> 1 then [c] else ''&lt;'')
      else if c = CHR 0x3E then (if k \<ge> 2 then [c] else ''&gt;'')
      else if c = CHR 0x22 then (if k \<ge> 3 then [c] else ''&quot;'')
      else if c = CHR 0x27 then (if k \<ge> 4 then [c] else ''&apos;'')
      else if c = CHR 0x26 then (if k \<ge> 5 then [c] else ''&amp;'')
      else [c])"

lemma escape_stages:
  "replace_all ''&lt;'' ''<'' (concat (map (escape_stage 0) s)) = concat (map (escape_stage 1) s)"
  "replace_all ''&gt;'' ''>'' (concat (map (escape_stage 1) s)) = concat (map (escape_stage 2) s)"
  "replace_all ''&quot;'' [CHR 0x22] (concat (map (escape_stage 2) s)) = concat (map (escape_stage 3) s)"
  "replace_all ''&apos;'' [CHR 0x27] (concat (map (escape_stage 3) s)) = concat (map (escape_stage 4) s)"
  "replace_all ''&amp;'' ''&'' (concat (map (escape_stage 4) s)) = concat (map (escape_stage 5) s)"
  by (rule replace_all_tokens; simp add: escape_stage_def starts_nowhere_Cons parallel_def)+

lemma xml_unescape_escape: "xml_unescape (xml_escape s) = s"
proof -
  have "escape_char = escape_stage 0"
    by (rule ext) (simp add: escape_char_def escape_stage_def)
  then have "xml_escape s = concat (map (escape_stage 0) s)"
    by (simp add: xml_escape_def)
  moreover have "concat (map (escape_stage 5) s) = s"
    by (induction s) (auto simp: escape_stage_def)
  ultimately show ?thesis
    by (simp only: xml_unescape_def escape_stages)
qed

section \<open>The definition file\<close>

definition utf16le_units :: "u8 list \<Rightarrow> nat list" where
  "utf16le_units b = map (\<lambda>i. unat (b ! (2 * i)) + 256 * unat (b ! (2 * i + 1))) [0..<length b div 2]"

definition chars_of :: "u8 list \<Rightarrow> string" where
  "chars_of b = map (\<lambda>w. char_of (unat w)) b"

definition decode_task_xml :: "u8 list \<Rightarrow> string" where
  "decode_task_xml b =
     (if length b \<ge> 2 \<and> b ! 0 = 0xFF \<and> b ! 1 = 0xFE then utf16_lossy (utf16le_units (drop 2 b))
      else utf8_lossy (chars_of b))"

definition task_definition_is_enabled :: "u8 list \<Rightarrow> bool" where
  "task_definition_is_enabled b =
     (let txt = decode_task_xml b in
      if txt = [] then False
      else \<not> contains (without_white txt) ''<Enabled>false</Enabled>'')"

text \<open>\<open>trim_matches('"')\<close>.\<close>

definition trim_quotes :: "string \<Rightarrow> string" where
  "trim_quotes s =
     (let q = (\<lambda>c. c = CHR 0x22) in rev (dropWhile q (rev (dropWhile q s))))"

text \<open>\<open>find('%')\<close>: what precedes the first percent sign and what follows it.\<close>

definition split_percent :: "string \<Rightarrow> (string \<times> string) option" where
  "split_percent s =
     (if CHR 0x25 \<in> set s
      then Some (takeWhile (\<lambda>c. c \<noteq> CHR 0x25) s, tl (dropWhile (\<lambda>c. c \<noteq> CHR 0x25) s))
      else None)"

lemma split_percent_length: "split_percent s = Some (b, a) \<Longrightarrow> length a < length s"
proof -
  assume "split_percent s = Some (b, a)"
  then have "CHR 0x25 \<in> set s" "a = tl (dropWhile (\<lambda>c. c \<noteq> CHR 0x25) s)"
    by (auto simp: split_percent_def split: if_splits)
  moreover from this have "dropWhile (\<lambda>c. c \<noteq> CHR 0x25) s \<noteq> []"
    by (simp add: dropWhile_eq_Nil_conv)
  ultimately show ?thesis
    using length_dropWhile_le [of "\<lambda>c. c \<noteq> CHR 0x25" s]
    by (cases "dropWhile (\<lambda>c. c \<noteq> CHR 0x25) s") auto
qed

function expand_env_vars :: "(string \<Rightarrow> string option) \<Rightarrow> string \<Rightarrow> string" where
  "expand_env_vars env s =
     (case split_percent s of
        None \<Rightarrow> s
      | Some (pre, after) \<Rightarrow>
          (case split_percent after of
             None \<Rightarrow> pre @ ''%'' @ after
           | Some (name, rest) \<Rightarrow>
               pre
               @ (case env name of Some v \<Rightarrow> v | None \<Rightarrow> ''%'' @ name @ ''%'')
               @ expand_env_vars env rest))"
  by pat_completeness auto
termination
  by (relation "measure (\<lambda>(env, s). length s)") (auto dest!: split_percent_length)

declare expand_env_vars.simps [simp del]

definition task_command :: "(string \<Rightarrow> string option) \<Rightarrow> string \<Rightarrow> string option" where
  "task_command env xml =
     (case find_sub ''<Command>'' xml of
        None \<Rightarrow> None
      | Some (_, after) \<Rightarrow>
          (case find_sub ''</Command>'' after of
             None \<Rightarrow> None
           | Some (inside, _) \<Rightarrow>
               let unquoted = trim (trim_quotes (xml_unescape (trim inside))) in
               if unquoted = [] then None else Some (expand_env_vars env unquoted)))"

text \<open>What the check asks of the system: environment variables, \<open>Path::is_absolute\<close>, \<open>Path::is_file\<close>
  and the bytes of the definition file under \<open>%SystemRoot%\<close>, if it can be read.\<close>

record task_env =
  env_var :: "string \<Rightarrow> string option"
  absolute_path :: "string \<Rightarrow> bool"
  existing_file :: "string \<Rightarrow> bool"
  task_bytes :: "u8 list option"

definition task_definition_is_usable :: "task_env \<Rightarrow> u8 list \<Rightarrow> bool" where
  "task_definition_is_usable e b =
     (if \<not> task_definition_is_enabled b then False
      else
        (case task_command (env_var e) (decode_task_xml b) of
           Some cmd \<Rightarrow> absolute_path e cmd \<and> existing_file e cmd
         | None \<Rightarrow> False))"

definition reconciler_task_installed :: "task_env \<Rightarrow> bool" where
  "reconciler_task_installed e =
     (if env_var e ''SystemRoot'' = None then False
      else (case task_bytes e of None \<Rightarrow> False | Some b \<Rightarrow> task_definition_is_usable e b))"

text \<open>\<open>task::remove\<close>: what a failed delete means is decided by asking for the task again. \<open>Inl\<close> is the
  failure of a call to \<open>schtasks\<close>.\<close>

definition delete_outcome :: "string \<Rightarrow> string + unit \<Rightarrow> string + unit" where
  "delete_outcome delete_err query = (case query of Inl _ \<Rightarrow> Inr () | Inr _ \<Rightarrow> Inl delete_err)"

definition remove_scheduled_task :: "string + unit \<Rightarrow> string + unit \<Rightarrow> string + unit" where
  "remove_scheduled_task delete query =
     (case delete of Inr _ \<Rightarrow> Inr () | Inl e \<Rightarrow> delete_outcome e query)"

section \<open>What the check promises\<close>

text \<open>The command the reconciler wrote is the command the daemon looks for.\<close>

lemma find_sub_before:
  "find_sub needle (t @ needle @ s) = Some (t, s)" if "starts_nowhere needle t" "needle \<noteq> []"
proof -
  have "find_sub needle (needle @ s) = Some ([], s)"
    using that(2) by (cases needle) auto
  then show ?thesis
    using find_sub_inert [OF that(1), of "needle @ s"] by simp
qed

lemma escape_char_no_tag: "CHR 0x3C \<notin> set (escape_char c)"
  by (simp add: escape_char_def)

lemma inert_without_head:
  assumes "c \<notin> set t" "needle = c # n"
  shows "starts_nowhere needle t"
proof -
  have "needle \<parallel> drop i t" if "i < length t" for i
  proof -
    have "drop i t = t ! i # drop (Suc i) t" "t ! i \<noteq> c"
      using that assms(1) by (auto simp: Cons_nth_drop_Suc)
    then show ?thesis
      using assms(2) by (simp add: parallel_def)
  qed
  then show ?thesis
    by (simp add: starts_nowhere_def list_all_iff)
qed

lemma task_command_reads_back:
  assumes "starts_nowhere ''<Command>'' before" "trim (xml_escape exe) = xml_escape exe"
    "trim (trim_quotes exe) = exe" "exe \<noteq> []"
  shows "task_command env (before @ ''<Command>'' @ xml_escape exe @ ''</Command>'' @ after)
    = Some (expand_env_vars env exe)"
proof -
  have "CHR 0x3C \<notin> set (xml_escape exe)"
    by (auto simp: xml_escape_def escape_char_no_tag)
  then have "starts_nowhere ''</Command>'' (xml_escape exe)"
    by (rule inert_without_head) simp
  then have "find_sub ''</Command>'' (xml_escape exe @ ''</Command>'' @ after) = Some (xml_escape exe, after)"
    by (rule find_sub_before) simp
  moreover have "find_sub ''<Command>'' (before @ ''<Command>'' @ xml_escape exe @ ''</Command>'' @ after)
      = Some (before, xml_escape exe @ ''</Command>'' @ after)"
    by (rule find_sub_before [OF assms(1)]) simp
  ultimately show ?thesis
    using assms(2-4) by (simp add: task_command_def xml_unescape_escape del: append.simps append_Cons)
qed

lemma usable_task_runs:
  assumes "reconciler_task_installed e"
  shows "\<exists>b cmd. task_bytes e = Some b \<and> \<not> contains (without_white (decode_task_xml b)) ''<Enabled>false</Enabled>''
    \<and> task_command (env_var e) (decode_task_xml b) = Some cmd \<and> absolute_path e cmd \<and> existing_file e cmd"
  using assms
  by (auto simp: reconciler_task_installed_def task_definition_is_usable_def task_definition_is_enabled_def Let_def
      split: if_splits option.splits)

end
