(* ===== verification/Nrpt_Reconcile.thy ===== *)
theory Nrpt_Reconcile
  imports Nrpt_Rule Nrpt_Task Proxy_Egress
begin

text \<open>
  The boot reconciler, \<open>crates/sentinella-dnsreconcile/src/main.rs\<close>: it removes the recorded rule unless
  the proxy answers, reports rules that look like ours but are not recorded, and refuses to unregister
  its own task while a rule is live. What it logs and prints is left out; the exit code is the result.
\<close>

datatype mode = Reconcile_Mode | Dry_Run | Force_Remove

datatype orphan_scan = Scan_Clean | Scan_Found | Scan_Unknown

definition EXIT_ORPHAN_SURFACED :: nat where "EXIT_ORPHAN_SURFACED = 3"

definition combine_exit :: "orphan_scan \<Rightarrow> nat \<Rightarrow> nat" where
  "combine_exit scan code =
     (if code \<noteq> 0 then code
      else (case scan of Scan_Clean \<Rightarrow> 0 | Scan_Found \<Rightarrow> EXIT_ORPHAN_SURFACED | Scan_Unknown \<Rightarrow> 1))"

definition scan_for_orphan_pattern_rules :: "io \<Rightarrow> orphan_scan op" where
  "scan_for_orphan_pattern_rules i =
     bind_op (unrecorded_catchall_rules i) (\<lambda>r.
       ret (case r of
              Inr found \<Rightarrow> if found = [] then Scan_Clean else Scan_Found
            | Inl e \<Rightarrow> if e = Unsupported then Scan_Clean else Scan_Unknown))"

definition remove_recorded :: "io \<Rightarrow> string \<Rightarrow> mode \<Rightarrow> nat op" where
  "remove_recorded i guid mode =
     (if mode = Dry_Run then ret 0
      else
        bind_op (remove_rule i guid) (\<lambda>r.
          case r of
            Inr _ \<Rightarrow> bind_op (clear_guid i) (\<lambda>_. ret 0)
          | Inl _ \<Rightarrow> ret 1))"

definition reconcile :: "io \<Rightarrow> mode \<Rightarrow> bool \<Rightarrow> nat op" where
  "reconcile i mode proxy_answers =
     bind_op (recorded_guid i) (\<lambda>recorded.
       case recorded of
         None \<Rightarrow> ret 0
       | Some guid \<Rightarrow>
           bind_op (rule_exists i guid) (\<lambda>r.
             case r of
               Inr False \<Rightarrow> if mode \<noteq> Dry_Run then bind_op (clear_guid i) (\<lambda>_. ret 0) else ret 0
             | Inl _ \<Rightarrow> ret 1
             | Inr True \<Rightarrow>
                 if mode = Force_Remove then remove_recorded i guid mode
                 else if proxy_answers then ret 0
                 else remove_recorded i guid mode))"

text \<open>The probe: up to three datagrams to the loopback address; \<open>replies\<close> are what came back within the
  time given to each, \<open>None\<close> for nothing (or no socket).\<close>

definition PROBE_ATTEMPTS :: nat where "PROBE_ATTEMPTS = 3"

definition probe_once :: "u16 \<Rightarrow> u8 list option \<Rightarrow> bool" where
  "probe_once pid reply = (case reply of None \<Rightarrow> False | Some b \<Rightarrow> is_canary_signature (take 1500 b) pid)"

definition probe_addr :: "u16 \<Rightarrow> u8 list option list \<Rightarrow> bool" where
  "probe_addr pid replies = list_ex (probe_once pid) (take PROBE_ATTEMPTS replies)"

text \<open>The scan and the reconciliation make their own system calls: \<open>i1\<close> and \<open>i2\<close>.\<close>

definition run :: "io \<Rightarrow> io \<Rightarrow> mode \<Rightarrow> u16 \<Rightarrow> u8 list option list \<Rightarrow> nat op" where
  "run i1 i2 mode pid replies =
     bind_op (scan_for_orphan_pattern_rules i1) (\<lambda>scan.
     bind_op (reconcile i2 mode (probe_addr pid replies)) (\<lambda>code.
       ret (combine_exit scan code)))"

text \<open>\<open>remove_task\<close>: the exit code, and whether the task was told to go.\<close>

definition remove_task :: "io \<Rightarrow> string + unit \<Rightarrow> string + unit \<Rightarrow> (nat \<times> bool) op" where
  "remove_task i delete query =
     bind_op (recorded_guid i) (\<lambda>recorded.
       let unregister = ret (case remove_scheduled_task delete query of Inr _ \<Rightarrow> 0 | Inl _ \<Rightarrow> 1, True) in
       case recorded of
         None \<Rightarrow> unregister
       | Some guid \<Rightarrow>
           bind_op (rule_exists i guid) (\<lambda>r.
             case r of
               Inr True \<Rightarrow> ret (1, False)
             | Inl _ \<Rightarrow> ret (1, False)
             | Inr False \<Rightarrow> unregister))"

end
