(* ===== verification/Web_Rule.thy ===== *)
theory Web_Rule
  imports Nrpt_Reconcile
begin

text \<open>
  The daemon's side of the rule, \<open>crates/sentinelld/src/web_protection/rule.rs\<close>: installing it behind
  its gates, removing it, and the watchdog that counts failures of three kinds and removes the rule
  after three of one kind.
\<close>

section \<open>Installing and removing\<close>

definition DNS_PORT :: u16 where "DNS_PORT = 53"

datatype install_refusal =
  Wrong_Port u16
| Not_Ipv4
| No_Reconciler_Task
| Cannot_Record nrpt_error
| Cannot_Install nrpt_error

definition ipv4_text :: "u32 \<Rightarrow> string" where
  "ipv4_text w = join_with ''.'' (map (\<lambda>s. show_nat (unat (drop_bit s w AND 0xFF))) [24, 16, 8, 0])"

text \<open>\<open>fresh\<close> is what \<open>new_guid\<close> would make up.\<close>

definition install :: "io \<Rightarrow> task_env \<Rightarrow> socket_addr \<Rightarrow> string option \<Rightarrow> string \<Rightarrow> (install_refusal + string) op" where
  "install i te listen_addr existing fresh =
     (if sa_port listen_addr \<noteq> DNS_PORT then ret (Inl (Wrong_Port (sa_port listen_addr)))
      else
        (case sa_ip listen_addr of
           V6 _ \<Rightarrow> ret (Inl Not_Ipv4)
         | V4 ip \<Rightarrow>
             if \<not> reconciler_task_installed te then ret (Inl No_Reconciler_Task)
             else
               let guid = (case existing of Some g \<Rightarrow> g | None \<Rightarrow> fresh) in
               bind_op (record_guid i guid) (\<lambda>r.
                 case r of
                   Inl e \<Rightarrow> ret (Inl (Cannot_Record e))
                 | Inr _ \<Rightarrow>
                     bind_op (install_rule i guid NAMESPACE_ALL [ipv4_text ip]) (\<lambda>r2.
                       ret (case r2 of Inl e \<Rightarrow> Inl (Cannot_Install e) | Inr _ \<Rightarrow> Inr guid)))))"

definition remove_guid :: "io \<Rightarrow> string \<Rightarrow> (nrpt_error + unit) op" where
  "remove_guid i guid = try_op (remove_rule i guid) (\<lambda>_. bind_op (clear_guid i) (\<lambda>_. ret (Inr ())))"

definition installed_now :: "io \<Rightarrow> string option \<Rightarrow> bool option op" where
  "installed_now i guid =
     (case guid of
        None \<Rightarrow> ret None
      | Some g \<Rightarrow> bind_op (rule_exists i g) (\<lambda>r. ret (case r of Inr b \<Rightarrow> Some b | Inl _ \<Rightarrow> None)))"

section \<open>The watchdog\<close>

definition WATCHDOG_INTERVAL :: nat where "WATCHDOG_INTERVAL = 20"

definition WATCHDOG_STRIKES :: nat where "WATCHDOG_STRIKES = 3"

definition RESOLVE_EVERY :: nat where "RESOLVE_EVERY = 3"

definition RECONCILER_CHECK_EVERY :: nat where "RECONCILER_CHECK_EVERY = 15"

record strikes =
  serve :: nat
  resolve :: nat
  reconciler :: nat

definition no_strikes :: strikes where
  "no_strikes = \<lparr>serve = 0, resolve = 0, reconciler = 0\<rparr>"

definition record_serving :: "bool \<Rightarrow> strikes \<Rightarrow> strikes" where
  "record_serving serving s = (if serving then s\<lparr>serve := 0\<rparr> else s\<lparr>serve := serve s + 1\<rparr>)"

definition record_resolve :: "bool option \<Rightarrow> strikes \<Rightarrow> strikes" where
  "record_resolve resolving s =
     (case resolving of
        Some True \<Rightarrow> s\<lparr>resolve := 0\<rparr>
      | Some False \<Rightarrow> s\<lparr>resolve := resolve s + 1\<rparr>
      | None \<Rightarrow> s)"

definition record_reconciler :: "bool option \<Rightarrow> strikes \<Rightarrow> strikes" where
  "record_reconciler found s =
     (case found of
        Some True \<Rightarrow> s\<lparr>reconciler := 0\<rparr>
      | Some False \<Rightarrow> s\<lparr>reconciler := reconciler s + 1\<rparr>
      | None \<Rightarrow> s)"

definition worst :: "strikes \<Rightarrow> nat" where
  "worst s = max (max (serve s) (resolve s)) (reconciler s)"

text \<open>\<open>probe_resolves\<close> on what came back, \<open>None\<close> for nothing within its time.\<close>

definition proves_resolution :: "u16 \<Rightarrow> u8 list option \<Rightarrow> bool" where
  "proves_resolution pid reply =
     (case reply of
        None \<Rightarrow> False
      | Some b \<Rightarrow>
          let resp = take 1500 b in
          if length resp < HEADER_LEN \<or> be16 (resp ! 0) (resp ! 1) \<noteq> pid then False
          else be16 (resp ! 2) (resp ! 3) AND 0x000F = 0 \<and> 1 \<le> unat (be16 (resp ! 6) (resp ! 7)))"

text \<open>What one tick meets: the canary probe, the counters around it, whether the filter allows the
  health-check name, the probe of the listener and of every upstream, and the task's definition.\<close>

record counter_reading =
  cr_queries :: nat
  cr_shed :: nat
  cr_canary :: nat

record tick_view =
  tv_pid :: u16
  tv_canary :: "u8 list option"
  tv_before :: counter_reading
  tv_after :: counter_reading
  tv_name_allowed :: bool
  tv_listener :: "u8 list option"
  tv_upstreams :: "(socket_addr \<times> u8 list option) list"
  tv_task :: task_env

definition probe_canary :: "tick_view \<Rightarrow> bool" where
  "probe_canary t = (case tv_canary t of None \<Rightarrow> False | Some b \<Rightarrow> is_canary_signature (take 1500 b) (tv_pid t))"

text \<open>Busy is not dead: traffic served since the probe rescues a failed probe.\<close>

definition tick_serving :: "tick_view \<Rightarrow> bool" where
  "tick_serving t =
     (let answered = probe_canary t; moved = cr_canary (tv_after t) > cr_canary (tv_before t);
          serving = (answered \<and> moved) in
      if \<not> serving \<and> (cr_queries (tv_after t) > cr_queries (tv_before t)
                    \<or> cr_shed (tv_after t) > cr_shed (tv_before t)) then True
      else serving)"

definition tick_resolving :: "tick_view \<Rightarrow> bool" where
  "tick_resolving t = (if tv_name_allowed t then proves_resolution (tv_pid t) (tv_listener t) else True)"

definition degraded_of :: "tick_view \<Rightarrow> socket_addr list" where
  "degraded_of t = map fst (filter (\<lambda>(_, r). \<not> proves_resolution (tv_pid t) r) (tv_upstreams t))"

datatype watchdog_cause = Task_Gone | Stopped_Answering | Resolves_Nothing

record watchdog =
  wd_tick :: nat
  wd_strikes :: strikes
  degraded_upstreams :: "socket_addr list"
  fired :: "watchdog_cause option"

definition new_watchdog :: watchdog where
  "new_watchdog = \<lparr>wd_tick = 0, wd_strikes = no_strikes, degraded_upstreams = [], fired = None\<rparr>"

definition count_tick :: "nat \<Rightarrow> tick_view \<Rightarrow> strikes \<Rightarrow> strikes" where
  "count_tick tick t s =
     record_reconciler
       (if tick mod RECONCILER_CHECK_EVERY = 0 then Some (reconciler_task_installed (tv_task t)) else None)
       (record_resolve (if tick mod RESOLVE_EVERY = 0 then Some (tick_resolving t) else None)
         (record_serving (tick_serving t) s))"

definition cause_of :: "strikes \<Rightarrow> watchdog_cause" where
  "cause_of s =
     (if reconciler s \<ge> WATCHDOG_STRIKES then Task_Gone
      else if serve s \<ge> WATCHDOG_STRIKES then Stopped_Answering
      else Resolves_Nothing)"

text \<open>One round of the loop; a watchdog that has fired has returned.\<close>

definition watchdog_tick :: "tick_view \<Rightarrow> watchdog \<Rightarrow> watchdog" where
  "watchdog_tick t w =
     (if fired w \<noteq> None then w
      else
        let tick = wd_tick w + 1;
            s = count_tick tick t (wd_strikes w) in
        w\<lparr>wd_tick := tick, wd_strikes := s,
          degraded_upstreams := (if tick mod RESOLVE_EVERY = 0 then degraded_of t else degraded_upstreams w),
          fired := (if worst s = 0 then None
                    else if worst s < WATCHDOG_STRIKES then None else Some (cause_of s))\<rparr>)"

definition watch :: "tick_view list \<Rightarrow> watchdog \<Rightarrow> watchdog" where
  "watch ts w = fold watchdog_tick ts w"

text \<open>The round with its removal: the rule of the watchdog's GUID goes when it fires.\<close>

definition watchdog_round :: "io \<Rightarrow> string \<Rightarrow> tick_view \<Rightarrow> watchdog \<Rightarrow> watchdog op" where
  "watchdog_round i guid t w =
     (let w' = watchdog_tick t w in
      if fired w = None \<and> fired w' \<noteq> None then bind_op (remove_guid i guid) (\<lambda>_. ret w') else ret w')"

section \<open>When the watchdog fires\<close>

text \<open>The abstract reading: how many of the last observations of a kind failed in a row.\<close>

definition trailing :: "('a \<Rightarrow> bool) \<Rightarrow> 'a list \<Rightarrow> nat" where
  "trailing bad xs = length (takeWhile bad (rev xs))"

lemma trailing_Nil [simp]: "trailing bad [] = 0"
  by (simp add: trailing_def)

lemma trailing_last [simp]: "trailing bad (xs @ [x]) = (if bad x then Suc (trailing bad xs) else 0)"
  by (simp add: trailing_def)

text \<open>The ticks of a schedule: every \<open>n\<close>-th of the ticks, numbered from 1.\<close>

definition every :: "nat \<Rightarrow> 'a list \<Rightarrow> 'a list" where
  "every n xs = map fst (filter (\<lambda>(_, k). k mod n = 0) (zip xs [1..<length xs + 1]))"

lemma every_Nil [simp]: "every n [] = []"
  by (simp add: every_def)

lemma every_snoc [simp]:
  "every n (xs @ [x]) = every n xs @ (if Suc (length xs) mod n = 0 then [x] else [])"
proof -
  have "zip (xs @ [x]) ([1..<length xs + 1] @ [Suc (length xs)])
      = zip xs [1..<length xs + 1] @ zip [x] [Suc (length xs)]"
    by (rule zip_append) (simp only: length_upt diff_add_inverse2)
  then show ?thesis
    by (simp only: every_def upt_Suc_append length_append_singleton add_Suc Suc_eq_plus1 [symmetric]) simp
qed

definition strikes_of :: "tick_view list \<Rightarrow> strikes" where
  "strikes_of ts =
     \<lparr>serve = trailing (\<lambda>t. \<not> tick_serving t) ts,
      resolve = trailing (\<lambda>t. \<not> tick_resolving t) (every RESOLVE_EVERY ts),
      reconciler = trailing (\<lambda>t. \<not> reconciler_task_installed (tv_task t)) (every RECONCILER_CHECK_EVERY ts)\<rparr>"

lemma strikes_of_snoc: "strikes_of (ts @ [t]) = count_tick (Suc (length ts)) t (strikes_of ts)"
  by (simp add: strikes_of_def count_tick_def record_reconciler_def record_resolve_def record_serving_def)

definition fires_on :: "tick_view list \<Rightarrow> bool" where
  "fires_on ts \<longleftrightarrow> WATCHDOG_STRIKES \<le> worst (strikes_of ts)"

lemma watch_snoc: "watch (ts @ [t]) w = watchdog_tick t (watch ts w)"
  by (simp add: watch_def)

lemma watch_quiet:
  "fired (watch ts new_watchdog) = None \<Longrightarrow>
     wd_tick (watch ts new_watchdog) = length ts \<and> wd_strikes (watch ts new_watchdog) = strikes_of ts"
proof (induction ts rule: rev_induct)
  case Nil
  then show ?case
    by (simp add: watch_def new_watchdog_def no_strikes_def strikes_of_def)
next
  case (snoc t ts)
  then have "fired (watch ts new_watchdog) = None"
    by (auto simp: watch_snoc watchdog_tick_def split: if_splits)
  then show ?case
    using snoc.IH by (simp add: watch_snoc watchdog_tick_def Let_def strikes_of_snoc)
qed

lemma watch_fired_iff:
  "fired (watch ts new_watchdog) \<noteq> None \<longleftrightarrow> (\<exists>k \<le> length ts. fires_on (take k ts))"
proof (induction ts rule: rev_induct)
  case Nil
  then show ?case
    by (simp add: watch_def new_watchdog_def fires_on_def strikes_of_def worst_def WATCHDOG_STRIKES_def)
next
  case (snoc t ts)
  have split: "(\<exists>k \<le> length (ts @ [t]). fires_on (take k (ts @ [t])))
      \<longleftrightarrow> (\<exists>k \<le> length ts. fires_on (take k ts)) \<or> fires_on (ts @ [t])"
    by (auto simp: le_Suc_eq)
  show ?case
  proof (cases "fired (watch ts new_watchdog)")
    case None
    then show ?thesis
      using snoc watch_quiet [OF None] unfolding split
      by (simp add: watch_snoc watchdog_tick_def Let_def strikes_of_snoc [symmetric] fires_on_def WATCHDOG_STRIKES_def)
  next
    case (Some c)
    then show ?thesis
      using snoc unfolding split by (simp add: watch_snoc watchdog_tick_def)
  qed
qed

end
