(* ===== verification/Web_Upstreams.thy ===== *)
theory Web_Upstreams
  imports Web_Rule
begin

text \<open>
  Where queries are forwarded to, \<open>crates/sentinelld/src/web_protection/upstreams.rs\<close>, and the
  configuration that starts it all, \<open>config.rs\<close> beside it: discovery of the machine's DNS servers, the
  filter on them, the loop that keeps the list current, and the validation that forces web protection
  off when it could not serve. Text entries of the configuration are represented by what they parse to.
\<close>

section \<open>Usable addresses\<close>

definition is_multicast :: "ip_addr \<Rightarrow> bool" where
  "is_multicast ip = (case ip of V4 w \<Rightarrow> drop_bit 28 w = 14 | V6 w \<Rightarrow> drop_bit 120 w = 255)"

definition is_link_local :: "ip_addr \<Rightarrow> bool" where
  "is_link_local ip = (case ip of V4 w \<Rightarrow> drop_bit 16 w = 0xA9FE | V6 w \<Rightarrow> drop_bit 118 w = 0x3FA)"

definition is_ipv6_placeholder :: "ip_addr \<Rightarrow> bool" where
  "is_ipv6_placeholder ip = (case ip of V4 _ \<Rightarrow> False | V6 w \<Rightarrow> drop_bit 64 w = 0xFEC000000000FFFF)"

definition plain_addr :: "ip_addr \<Rightarrow> u16 \<Rightarrow> socket_addr" where
  "plain_addr ip port = \<lparr>sa_ip = ip, sa_port = port, sa_flowinfo = 0, sa_scope_id = 0\<rparr>"

text \<open>The daemon's own copy of the loop guard.\<close>

definition is_self_referential :: "socket_addr \<Rightarrow> socket_addr \<Rightarrow> bool" where
  "is_self_referential upstream listen_addr \<longleftrightarrow>
     upstream = listen_addr
     \<or> (sa_port listen_addr \<noteq> 0
        \<and> sa_port upstream = sa_port listen_addr
        \<and> is_loopback (sa_ip upstream)
        \<and> (is_loopback (sa_ip listen_addr) \<or> is_unspecified (sa_ip listen_addr)))"

fun filter_loop :: "socket_addr \<Rightarrow> socket_addr list \<Rightarrow> ip_addr list \<Rightarrow> socket_addr list" where
  "filter_loop la out [] = out"
| "filter_loop la out (ip # ips) =
     (if is_ipv6_placeholder ip then filter_loop la out ips
      else if is_unspecified ip \<or> is_multicast ip then filter_loop la out ips
      else if is_link_local ip then filter_loop la out ips
      else
        let addr = plain_addr ip DNS_PORT in
        if is_self_referential addr la then filter_loop la out ips
        else filter_loop la (if addr \<in> set out then out else out @ [addr]) ips)"

definition filter_usable :: "ip_addr list \<Rightarrow> socket_addr \<Rightarrow> socket_addr list" where
  "filter_usable raw la = filter_loop la [] raw"

section \<open>Discovery\<close>

datatype discovery_error = Query_Failed string | None_Configured | Only_Loopback nat

text \<open>What \<open>GetAdaptersAddresses\<close> makes of the adapters that are up.\<close>

definition discover :: "string + ip_addr list \<Rightarrow> socket_addr \<Rightarrow> discovery_error + socket_addr list" where
  "discover adapters la =
     (case adapters of
        Inl e \<Rightarrow> Inl (Query_Failed e)
      | Inr raw \<Rightarrow>
          if raw = [] then Inl None_Configured
          else
            let kept = filter_usable raw la in
            if kept = [] then Inl (Only_Loopback (length raw)) else Inr kept)"

text \<open>An entry of the configured list: \<open>"system"\<close>, an address, or text that is neither.\<close>

datatype upstream_entry = System_Entry | Address_Entry socket_addr | Malformed_Entry string

fun push_unique :: "socket_addr list \<Rightarrow> socket_addr list \<Rightarrow> socket_addr list" where
  "push_unique out [] = out"
| "push_unique out (a # addrs) = push_unique (if a \<in> set out then out else out @ [a]) addrs"

fun resolve_loop ::
    "string + ip_addr list \<Rightarrow> socket_addr \<Rightarrow> socket_addr list \<Rightarrow> discovery_error option
     \<Rightarrow> upstream_entry list \<Rightarrow> discovery_error + socket_addr list" where
  "resolve_loop adapters la out err [] =
     (if out = [] then Inl (case err of Some e \<Rightarrow> e | None \<Rightarrow> None_Configured) else Inr out)"
| "resolve_loop adapters la out err (entry # rest) =
     (case entry of
        System_Entry \<Rightarrow>
          (case discover adapters la of
             Inr found \<Rightarrow> resolve_loop adapters la (push_unique out found) err rest
           | Inl e \<Rightarrow> resolve_loop adapters la out (Some e) rest)
      | Address_Entry a \<Rightarrow> resolve_loop adapters la (push_unique out [a]) err rest
      | Malformed_Entry _ \<Rightarrow> resolve_loop adapters la out err rest)"

definition resolve_upstreams ::
    "string + ip_addr list \<Rightarrow> upstream_entry list \<Rightarrow> socket_addr \<Rightarrow> discovery_error + socket_addr list" where
  "resolve_upstreams adapters configured la = resolve_loop adapters la [] None configured"

section \<open>Keeping the list current\<close>

record burst_coalescer =
  settle :: nat
  armed_until :: "nat option"

definition signal :: "nat \<Rightarrow> burst_coalescer \<Rightarrow> burst_coalescer" where
  "signal now c = (if armed_until c = None then c\<lparr>armed_until := Some (now + settle c)\<rparr> else c)"

definition due :: "burst_coalescer \<Rightarrow> nat option" where
  "due c = armed_until c"

definition coalescer_fired :: "burst_coalescer \<Rightarrow> burst_coalescer" where
  "coalescer_fired c = c\<lparr>armed_until := None\<rparr>"

text \<open>One re-resolution: the list last pushed and the proxy's state, of which \<open>set_upstreams\<close> is
  \<open>UpstreamsHandle::set\<close>.\<close>

definition refresh_upstreams ::
    "string + ip_addr list \<Rightarrow> upstream_entry list \<Rightarrow> socket_addr \<Rightarrow> socket_addr list \<times> proxy_state
     \<Rightarrow> socket_addr list \<times> proxy_state" where
  "refresh_upstreams adapters configured la = (\<lambda>(current, st).
     (case resolve_upstreams adapters configured la of
        Inl _ \<Rightarrow> (current, st)
      | Inr discovered \<Rightarrow>
          if discovered = current then (current, st)
          else
            (case set_upstreams discovered la st of
               (None, st') \<Rightarrow> (discovered, st')
             | (Some _, st') \<Rightarrow> (current, st'))))"

section \<open>Configuration\<close>

record web_config =
  wc_enabled :: bool
  wc_listen :: "socket_addr option"
  wc_upstreams :: "upstream_entry list"
  wc_block_response :: string
  wc_health_name :: string

datatype config_refusal =
  Bad_Listen
| Listen_Not_Loopback
| Listen_Ipv6
| Listen_Port u16
| No_Upstreams
| Bad_Upstream string
| Upstream_Is_Listen socket_addr
| Empty_Health_Name
| Escaped_Health_Name

fun check_upstreams :: "socket_addr \<Rightarrow> upstream_entry list \<Rightarrow> config_refusal option" where
  "check_upstreams la [] = None"
| "check_upstreams la (u # us) =
     (case u of
        System_Entry \<Rightarrow> check_upstreams la us
      | Malformed_Entry s \<Rightarrow> Some (Bad_Upstream s)
      | Address_Entry a \<Rightarrow> if a = la then Some (Upstream_Is_Listen a) else check_upstreams la us)"

definition check_enablable :: "web_config \<Rightarrow> config_refusal option" where
  "check_enablable c =
     (case wc_listen c of
        None \<Rightarrow> Some Bad_Listen
      | Some la \<Rightarrow>
          if \<not> is_loopback (sa_ip la) then Some Listen_Not_Loopback
          else
            (case sa_ip la of
               V6 _ \<Rightarrow> Some Listen_Ipv6
             | V4 _ \<Rightarrow>
                 if sa_port la \<noteq> DNS_PORT then Some (Listen_Port (sa_port la))
                 else if wc_upstreams c = [] then Some No_Upstreams
                 else
                   (case check_upstreams la (wc_upstreams c) of
                      Some r \<Rightarrow> Some r
                    | None \<Rightarrow>
                        if trim (wc_health_name c) = [] then Some Empty_Health_Name
                        else if CHR 0x5C \<in> set (wc_health_name c) then Some Escaped_Health_Name
                        else None)))"

definition validate_config :: "web_config \<Rightarrow> web_config" where
  "validate_config c0 =
     (let c = (if wc_block_response c0 \<in> {''nxdomain'', ''zero_ip''} then c0
               else c0\<lparr>wc_block_response := ''nxdomain''\<rparr>) in
      if \<not> wc_enabled c then c
      else if check_enablable c \<noteq> None then c\<lparr>wc_enabled := False\<rparr> else c)"

section \<open>The two loop guards agree\<close>

lemma is_self_referential_eq: "is_self_referential = self_referential"
  by (intro ext) (simp add: is_self_referential_def self_referential_def)

definition usable_upstream :: "socket_addr \<Rightarrow> socket_addr \<Rightarrow> bool" where
  "usable_upstream la a \<longleftrightarrow>
     sa_port a = DNS_PORT \<and> \<not> self_referential a la \<and> \<not> is_unspecified (sa_ip a)
     \<and> \<not> is_multicast (sa_ip a) \<and> \<not> is_link_local (sa_ip a) \<and> \<not> is_ipv6_placeholder (sa_ip a)"

lemma filter_loop_step:
  "filter_loop la out (ip # ips) =
     filter_loop la
       (if usable_upstream la (plain_addr ip DNS_PORT) \<and> plain_addr ip DNS_PORT \<notin> set out
        then out @ [plain_addr ip DNS_PORT] else out) ips"
  by (simp add: usable_upstream_def is_self_referential_eq plain_addr_def Let_def)

lemma filter_loop_set:
  "set (filter_loop la out ips)
     = set out \<union> {a. usable_upstream la a \<and> (\<exists>ip \<in> set ips. a = plain_addr ip DNS_PORT)}"
proof (induction ips arbitrary: out)
  case (Cons ip ips)
  show ?case
    unfolding filter_loop_step Cons by auto
qed simp

lemma filter_loop_distinct: "distinct out \<Longrightarrow> distinct (filter_loop la out ips)"
proof (induction ips arbitrary: out)
  case (Cons ip ips)
  then show ?case
    unfolding filter_loop_step by simp
qed simp

lemma filter_usable_set:
  "set (filter_usable raw la) = {a. usable_upstream la a \<and> (\<exists>ip \<in> set raw. a = plain_addr ip DNS_PORT)}"
  by (simp add: filter_usable_def filter_loop_set)

lemma filter_usable_accepted: "filter_usable raw la \<noteq> [] \<Longrightarrow> validate_upstreams (filter_usable raw la) la = None"
  using filter_usable_set [of raw la]
  by (auto simp: validate_upstreams_def find_None_iff usable_upstream_def)

lemma filter_usable_distinct: "distinct (filter_usable raw la)"
  by (simp add: filter_usable_def filter_loop_distinct)

lemma push_unique_set: "set (push_unique out addrs) = set out \<union> set addrs"
  by (induction out addrs rule: push_unique.induct) auto

lemma push_unique_distinct: "distinct out \<Longrightarrow> distinct (push_unique out addrs)"
  by (induction out addrs rule: push_unique.induct) auto

section \<open>Bursts\<close>

text \<open>While armed, no event moves the deadline, so a storm delays a re-resolution by no more than the
  settle time after its first event.\<close>

lemma signals_keep_deadline:
  "due (fold signal (t # ts) (c\<lparr>armed_until := None\<rparr>)) = Some (t + settle c)"
proof -
  have "armed_until x \<noteq> None \<Longrightarrow> fold signal us x = x" for us x
    by (induction us arbitrary: x) (simp_all add: signal_def)
  then show ?thesis
    by (simp add: signal_def due_def)
qed

end
