(* ===== verification/Web_Service.thy ===== *)
theory Web_Service
  imports Web_Upstreams Proxy_Health
begin

text \<open>
  Bringing web protection up and taking it down, \<open>crates/sentinelld/src/web_protection/service.rs\<close>, with
  the managed lists of \<open>lists.rs\<close>: a start either serves, with a rule when one could be installed, or is
  refused and takes away a rule that an earlier run left behind; a refusal that may clear by itself is
  retried.
\<close>

section \<open>Lists\<close>

record list_config =
  lc_allow :: "string list"
  lc_block :: "string list"

definition split_once_bar :: "string \<Rightarrow> (string \<times> string) option" where
  "split_once_bar s =
     (if CHR 0x7C \<in> set s
      then Some (takeWhile (\<lambda>c. c \<noteq> CHR 0x7C) s, tl (dropWhile (\<lambda>c. c \<noteq> CHR 0x7C) s)) else None)"

text \<open>\<open>path\<close> or \<open>path|policy\<close>; an unknown policy is read as exact.\<close>

definition blocklist_spec :: "string \<Rightarrow> string \<times> domain_list_policy" where
  "blocklist_spec s =
     (case split_once_bar s of
        Some (p, pol) \<Rightarrow> (p, if pol = ''suffix'' then SuffixPolicy else ExactPolicy)
      | None \<Rightarrow> (s, ExactPolicy))"

text \<open>\<open>files\<close> opens a path; a file that does not open or read is skipped.\<close>

definition load_one_list :: "(string \<Rightarrow> source option) \<Rightarrow> string \<Rightarrow> filter_engine \<Rightarrow> filter_engine" where
  "load_one_list files s e =
     (let (path, pol) = blocklist_spec s in
      case files path of
        None \<Rightarrow> e
      | Some src \<Rightarrow>
          snd (if suffix ''.hosts'' path \<or> suffix ''hosts'' path then load_hosts BlockList src e
               else load_domain_list BlockList pol src e))"

definition load_lists :: "(string \<Rightarrow> source option) \<Rightarrow> list_config \<Rightarrow> filter_engine \<Rightarrow> nat \<times> filter_engine" where
  "load_lists files cfg e =
     (let e1 = fold (\<lambda>entry. snd \<circ> add_allow_rule entry) (lc_allow cfg) e;
          e2 = fold (load_one_list files) (lc_block cfg) e1 in
      (rule_count e2, e2))"

datatype list_rejection =
  Download_Empty | Download_Too_Large nat | Download_Unparseable io_error | Download_Truncated nat | No_Usable_Rules

definition MAX_LIST_BYTES :: nat where "MAX_LIST_BYTES = 32 * 1024 * 1024"

definition validate_candidate :: "string \<Rightarrow> list_rejection + nat" where
  "validate_candidate body =
     (if body = [] then Inl Download_Empty
      else if length body > MAX_LIST_BYTES then Inl (Download_Too_Large (length body))
      else
        (case fst (load_hosts BlockList \<lparr>src_bytes = body, src_end = Eof\<rparr> new_engine) of
           Inl e \<Rightarrow> Inl (Download_Unparseable e)
         | Inr stats \<Rightarrow>
             if load_truncated stats then Inl (Download_Truncated (rules_added stats))
             else if rules_added stats = 0 then Inl No_Usable_Rules
             else Inr (rules_added stats)))"

text \<open>\<open>refresh_one\<close>: whether the list changed (an error is \<open>None\<close>), and the installed file after it.
  \<open>writable\<close> is whether staging and renaming succeed.\<close>

definition refresh_one :: "string option \<Rightarrow> bool \<Rightarrow> string option \<Rightarrow> bool option \<times> string option" where
  "refresh_one download writable current =
     (case download of
        None \<Rightarrow> (None, current)
      | Some body \<Rightarrow>
          (case validate_candidate body of
             Inl _ \<Rightarrow> (None, current)
           | Inr _ \<Rightarrow>
               if current = Some body then (Some False, current)
               else if writable then (Some True, Some body)
               else (None, current)))"

section \<open>The subsystem\<close>

datatype proxy_status = Wp_Disabled | Bind_Failed | Self_Test_Failed | Wp_Serving

datatype refusal_kind = Config_Refusal | Transient_Refusal

record web_protection =
  wp_enabled :: bool
  wp_state :: proxy_status
  wp_refusal :: "refusal_kind option"
  wp_listen :: "socket_addr option"
  wp_guid :: "string option"
  wp_proxy :: "proxy_state option"
  wp_watchdog :: "watchdog option"
  wp_running :: bool

definition inert :: "bool \<Rightarrow> proxy_status \<Rightarrow> refusal_kind option \<Rightarrow> web_protection" where
  "inert enabled status refusal =
     \<lparr>wp_enabled = enabled, wp_state = status, wp_refusal = refusal, wp_listen = None, wp_guid = None,
      wp_proxy = None, wp_watchdog = None, wp_running = False\<rparr>"

text \<open>Remove a rule of an earlier run; nothing it meets stops the start.\<close>

definition reconcile_orphan_rule :: "io \<Rightarrow> unit op" where
  "reconcile_orphan_rule i =
     bind_op (recorded_guid i) (\<lambda>recorded.
       case recorded of
         None \<Rightarrow> ret ()
       | Some guid \<Rightarrow>
           bind_op (rule_exists i guid) (\<lambda>r.
             case r of
               Inr True \<Rightarrow> bind_op (remove_guid i guid) (\<lambda>_. ret ())
             | Inr False \<Rightarrow> ret ()
             | Inl _ \<Rightarrow> ret ()))"

definition refused :: "io \<Rightarrow> proxy_status \<Rightarrow> refusal_kind \<Rightarrow> web_protection op" where
  "refused i status kind =
     bind_op (reconcile_orphan_rule i) (\<lambda>_. ret (inert True status (Some kind)))"

definition disabled :: "io \<Rightarrow> web_protection op" where
  "disabled i = bind_op (reconcile_orphan_rule i) (\<lambda>_. ret (inert False Wp_Disabled None))"

definition classify_self_test :: "self_test_report \<Rightarrow> refusal_kind" where
  "classify_self_test r = (if engine_ok r then Transient_Refusal else Config_Refusal)"

text \<open>What a start meets: the adapters, the files, the port the sockets got (\<open>None\<close>: they did not bind),
  the network of the self-test, the task and what \<open>new_guid\<close> would return.\<close>

record start_env =
  se_adapters :: "string + ip_addr list"
  se_files :: "string \<Rightarrow> source option"
  se_port :: "u16 option"
  se_net :: env
  se_probes :: probe_env
  se_task :: task_env
  se_fresh :: string

definition start_proxy_config :: "web_config \<Rightarrow> socket_addr \<Rightarrow> socket_addr list \<Rightarrow> proxy_config" where
  "start_proxy_config cfg la ups =
     default_config\<lparr>listen := la, cfg_upstreams := ups,
       cfg_block_response := (if wc_block_response cfg = ''zero_ip'' then Zero_Ip else Nxdomain),
       health_check_name := wc_health_name cfg\<rparr>"

text \<open>\<open>Proxy::bind\<close>: the checks of \<open>bind_proxy\<close> and the sockets; \<open>None\<close> is every failure.\<close>

definition bind_start :: "web_config \<Rightarrow> start_env \<Rightarrow> socket_addr \<Rightarrow> socket_addr list \<Rightarrow> filter_engine
    \<Rightarrow> (proxy_state \<times> socket_addr) option" where
  "bind_start cfg se la ups eng =
     (case se_port se of
        None \<Rightarrow> None
      | Some port \<Rightarrow>
          (case bind_proxy (start_proxy_config cfg la ups) eng port of
             Inl _ \<Rightarrow> None
           | Inr p \<Rightarrow> Some p))"

definition serve :: "io \<Rightarrow> start_env \<Rightarrow> socket_addr \<Rightarrow> proxy_state \<Rightarrow> web_protection op" where
  "serve i se bound st =
     bind_op (recorded_guid i) (\<lambda>existing.
     bind_op (install i (se_task se) bound existing (se_fresh se)) (\<lambda>r.
       ret (case r of
              Inr guid \<Rightarrow>
                \<lparr>wp_enabled = True, wp_state = Wp_Serving, wp_refusal = None, wp_listen = Some bound,
                 wp_guid = Some guid, wp_proxy = Some st, wp_watchdog = Some new_watchdog, wp_running = True\<rparr>
            | Inl _ \<Rightarrow>
                \<lparr>wp_enabled = True, wp_state = Wp_Serving, wp_refusal = None, wp_listen = Some bound,
                 wp_guid = None, wp_proxy = Some st, wp_watchdog = None, wp_running = True\<rparr>)))"

definition test_and_serve :: "io \<Rightarrow> start_env \<Rightarrow> socket_addr \<Rightarrow> proxy_state \<Rightarrow> web_protection op" where
  "test_and_serve i se bound st =
     (let (report, st') = self_test (se_net se) (se_probes se) st in
      if \<not> report_ok report then
        bind_op (reconcile_orphan_rule i) (\<lambda>_. ret
          \<lparr>wp_enabled = True, wp_state = Self_Test_Failed, wp_refusal = Some (classify_self_test report),
           wp_listen = Some bound, wp_guid = None, wp_proxy = Some st', wp_watchdog = None, wp_running = False\<rparr>)
      else serve i se bound st')"

definition start :: "io \<Rightarrow> web_config \<Rightarrow> list_config \<Rightarrow> start_env \<Rightarrow> web_protection op" where
  "start i cfg lcfg se =
     (if \<not> wc_enabled cfg then disabled i
      else
        (case wc_listen cfg of
           None \<Rightarrow> refused i Wp_Disabled Config_Refusal
         | Some la \<Rightarrow>
             (case resolve_upstreams (se_adapters se) (wc_upstreams cfg) la of
                Inl _ \<Rightarrow> refused i Wp_Disabled Transient_Refusal
              | Inr ups \<Rightarrow>
                  (case bind_start cfg se la ups (snd (load_lists (se_files se) lcfg new_engine)) of
                     None \<Rightarrow> refused i Bind_Failed Transient_Refusal
                   | Some (st, bound) \<Rightarrow> test_and_serve i se bound st))))"

text \<open>The rule first, the sockets second. What the status reads of the watchdog outlives its task.\<close>

definition stop :: "io \<Rightarrow> web_protection \<Rightarrow> web_protection op" where
  "stop i wp =
     bind_op (case wp_guid wp of None \<Rightarrow> ret (Inr ()) | Some guid \<Rightarrow> remove_guid i guid) (\<lambda>_.
       ret (wp\<lparr>wp_running := False\<rparr>))"

section \<open>Retrying\<close>

text \<open>Seconds without jitter, milliseconds with it; \<open>h\<close> is the hash of the attempt.\<close>

definition base_backoff :: "nat \<Rightarrow> nat" where
  "base_backoff attempt = min (30 * 2 ^ min attempt 4) 300"

definition jittered :: "nat \<Rightarrow> nat \<Rightarrow> nat" where
  "jittered base_ms h = (let spread = base_ms div 5 in base_ms - spread + h mod (2 * spread + 1))"

datatype retry_next = Retry_In nat | Retry_Served | Retry_Gave_Up

definition after_attempt :: "nat \<Rightarrow> nat \<Rightarrow> web_protection \<Rightarrow> retry_next" where
  "after_attempt attempt h wp =
     (if wp_state wp = Wp_Serving then Retry_Served
      else if wp_refusal wp = Some Transient_Refusal
      then Retry_In (jittered (base_backoff attempt * 1000) h)
      else Retry_Gave_Up)"

text \<open>The attempts of one retry task, the results of the starts it makes; the flag says that the daemon
  is going down when the attempt ends, in which case the attempt is taken down again.\<close>

fun retry_task :: "nat \<Rightarrow> (web_protection \<times> bool \<times> nat) list \<Rightarrow> web_protection \<Rightarrow> web_protection" where
  "retry_task attempt [] current = current"
| "retry_task attempt ((wp, down, h) # rest) current =
     (if down then current
      else (case after_attempt (attempt + 1) h wp of
              Retry_In _ \<Rightarrow> retry_task (attempt + 1) rest wp
            | Retry_Served \<Rightarrow> wp
            | Retry_Gave_Up \<Rightarrow> wp))"

definition spawn_retry :: "(web_protection \<times> bool \<times> nat) list \<Rightarrow> web_protection \<Rightarrow> web_protection" where
  "spawn_retry attempts current =
     (if wp_refusal current \<noteq> Some Transient_Refusal then current else retry_task 0 attempts current)"

section \<open>The live reload\<close>

definition apply_refresh_report ::
    "(string \<Rightarrow> source option) \<Rightarrow> list_config \<Rightarrow> bool \<Rightarrow> web_protection \<Rightarrow> nat option \<times> web_protection" where
  "apply_refresh_report files boot changed wp =
     (if \<not> changed then (None, wp)
      else
        (case wp_proxy wp of
           None \<Rightarrow> (None, wp)
         | Some st \<Rightarrow>
             (let (n, e) = load_lists files boot new_engine in
              (Some n, wp\<lparr>wp_proxy := Some (st\<lparr>engine := e\<rparr>)\<rparr>))))"

section \<open>The status\<close>

record web_status =
  ws_enabled :: bool
  ws_installed :: "bool option"
  ws_gpo :: "bool option"
  ws_state :: proxy_status
  ws_healthy :: nat
  ws_total :: nat
  ws_degraded :: "socket_addr list"
  ws_watchdog_fired :: bool

definition gpo_present_from :: "nrpt_error + bool \<Rightarrow> bool option" where
  "gpo_present_from r = (case r of Inr b \<Rightarrow> Some b | Inl _ \<Rightarrow> None)"

text \<open>\<open>counts0\<close> are the figures of the last self-test, for a start that does not serve.\<close>

definition status :: "io \<Rightarrow> nrpt_error + string list \<Rightarrow> nat \<times> nat \<Rightarrow> web_protection \<Rightarrow> web_status op" where
  "status i gpo counts0 wp =
     bind_op (installed_now i (wp_guid wp)) (\<lambda>present_now.
       let ups = (case wp_proxy wp of Some st \<Rightarrow> upstreams st | None \<Rightarrow> []);
           bad = (case wp_watchdog wp of Some wd \<Rightarrow> degraded_upstreams wd | None \<Rightarrow> []) in
       ret \<lparr>ws_enabled = wp_enabled wp, ws_installed = present_now, ws_gpo = gpo_present_from (any_rule gpo),
            ws_state = wp_state wp,
            ws_healthy = (if wp_watchdog wp \<noteq> None then length ups - length bad else fst counts0),
            ws_total = (if wp_watchdog wp \<noteq> None then length ups else snd counts0),
            ws_degraded = bad,
            ws_watchdog_fired = (case wp_watchdog wp of Some wd \<Rightarrow> fired wd \<noteq> None | None \<Rightarrow> False)\<rparr>)"

end
