(* ===== verification/Nrpt_Protocol.thy ===== *)
theory Nrpt_Protocol
  imports Web_Service
begin

text \<open>
  Why no rule of ours is ever lost track of. The abstract protocol knows only which rules of ours may be
  live, which GUID is recorded and whether the record is known to last; it says which effect may come
  next. Every operation of the daemon and of the reconciler yields effects the protocol allows, and
  every effect on the host is simulated by its step. The world adds crashes, losses of power, lazy
  flushing and other software, between any two effects.
\<close>

section \<open>Results and effects\<close>

lemma ret_simps [simp]: "fst (ret a h) = a" "snd (ret a h) = []"
  by (simp_all add: ret_def)

lemma effect_op_simps [simp]: "fst (effect_op e h) = Inr ()" "snd (effect_op e h) = [e]"
  by (simp_all add: effect_op_def)

lemma bind_op_simps [simp]:
  "fst (bind_op m f h) = fst (f (fst (m h)) (perform_all (snd (m h)) h))"
  "snd (bind_op m f h) = snd (m h) @ snd (f (fst (m h)) (perform_all (snd (m h)) h))"
  by (simp_all add: bind_op_def Let_def case_prod_unfold)

lemma try_op_simps [simp]:
  "fst (try_op m f h) =
     (case fst (m h) of Inl e \<Rightarrow> Inl e | Inr a \<Rightarrow> fst (f a (perform_all (snd (m h)) h)))"
  "snd (try_op m f h) =
     (case fst (m h) of Inl e \<Rightarrow> snd (m h) | Inr a \<Rightarrow> snd (m h) @ snd (f a (perform_all (snd (m h)) h)))"
  by (auto simp: try_op_def split: sum.splits)

section \<open>Names of keys\<close>

abbreviation lc :: "string \<Rightarrow> string" where "lc \<equiv> to_ascii_lowercase"

definition keys_of :: "policy \<Rightarrow> (string \<times> rule_key) list" where
  "keys_of p = (case p of None \<Rightarrow> [] | Some ks \<Rightarrow> ks)"

definition own_keys :: "string set \<Rightarrow> policy \<Rightarrow> string set" where
  "own_keys minted p = lc ` fst ` set (keys_of p) \<inter> minted"

definition foreign_keys :: "string set \<Rightarrow> policy \<Rightarrow> (string \<times> rule_key) list" where
  "foreign_keys minted p = filter (\<lambda>(n, _). lc n \<notin> minted) (keys_of p)"

lemma keys_of_simps [simp]: "keys_of None = []" "keys_of (Some ks) = ks"
  by (simp_all add: keys_of_def)

lemma has_key_iff: "has_key g ks \<longleftrightarrow> lc g \<in> lc ` fst ` set ks"
  by (auto simp: has_key_def list_ex_iff same_key_def case_prod_unfold image_iff dest: sym)

lemma own_put: "own_keys M (map_option (put_key g) p) \<subseteq> insert (lc g) (own_keys M p)"
  by (cases p) (auto simp: own_keys_def put_key_def)

lemma own_update [simp]: "own_keys M (map_option (update_key g f) p) = own_keys M p"
  by (cases p) (force simp: own_keys_def update_key_def image_iff)+

lemma own_drop [simp]: "own_keys M (map_option (drop_key g) p) = own_keys M p - {lc g}"
  by (cases p) (force simp: own_keys_def drop_key_def same_key_def)+

lemma own_container [simp]: "own_keys M (Some (case p of None \<Rightarrow> [] | Some ks \<Rightarrow> ks)) = own_keys M p"
  by (cases p) (simp_all add: own_keys_def)

section \<open>The protocol\<close>

record protocol =
  own :: "string set"
  recorded :: "string option"
  synced :: bool

primrec protocol_step :: "effect \<Rightarrow> protocol \<Rightarrow> protocol" where
  "protocol_step (Put_Record g) p = p\<lparr>recorded := Some (lc g), synced := False\<rparr>"
| "protocol_step Sync_Record p = p\<lparr>synced := True\<rparr>"
| "protocol_step Delete_Record p = p\<lparr>recorded := None, synced := False\<rparr>"
| "protocol_step Create_Container p = p"
| "protocol_step (Create_Key g) p = p\<lparr>own := insert (lc g) (own p)\<rparr>"
| "protocol_step (Set_Value g v) p = p"
| "protocol_step (Delete_Key g) p = p\<lparr>own := own p - {lc g}\<rparr>"

primrec may_do :: "string set \<Rightarrow> effect \<Rightarrow> protocol \<Rightarrow> bool" where
  "may_do M (Put_Record g) p \<longleftrightarrow> guid_shaped g \<and> lc g \<in> M \<and> own p \<subseteq> {lc g}"
| "may_do M Sync_Record p \<longleftrightarrow> True"
| "may_do M Delete_Record p \<longleftrightarrow> own p = {}"
| "may_do M Create_Container p \<longleftrightarrow> True"
| "may_do M (Create_Key g) p \<longleftrightarrow> lc g \<in> M \<and> recorded p = Some (lc g) \<and> synced p"
| "may_do M (Set_Value g v) p \<longleftrightarrow> lc g \<in> M"
| "may_do M (Delete_Key g) p \<longleftrightarrow> lc g \<in> M"

fun allowed :: "string set \<Rightarrow> protocol \<Rightarrow> effect list \<Rightarrow> bool" where
  "allowed M p [] \<longleftrightarrow> True"
| "allowed M p (e # es) \<longleftrightarrow> may_do M e p \<and> allowed M (protocol_step e p) es"

abbreviation protocol_run :: "effect list \<Rightarrow> protocol \<Rightarrow> protocol" where
  "protocol_run es p \<equiv> fold protocol_step es p"

lemma allowed_append [simp]: "allowed M p (es @ es') \<longleftrightarrow> allowed M p es \<and> allowed M (protocol_run es p) es'"
  by (induction es arbitrary: p) auto

text \<open>What the protocol itself keeps: rules of ours are named by the record.\<close>

definition protocol_ok :: "protocol \<Rightarrow> bool" where
  "protocol_ok p \<longleftrightarrow> own p \<subseteq> set_option (recorded p)"

lemma protocol_step_ok: "protocol_ok p \<Longrightarrow> may_do M e p \<Longrightarrow> protocol_ok (protocol_step e p)"
  by (cases e) (auto simp: protocol_ok_def)

section \<open>Simulation\<close>

definition record_of :: "string set \<Rightarrow> string option \<Rightarrow> string option \<Rightarrow> bool" where
  "record_of M f r \<longleftrightarrow>
     (case f of None \<Rightarrow> r = None | Some g \<Rightarrow> guid_shaped g \<and> lc g \<in> M \<and> r = Some (lc g))"

definition simulates :: "string set \<Rightarrow> protocol \<Rightarrow> host \<Rightarrow> bool" where
  "simulates M p h \<longleftrightarrow>
     own_keys M (policy_keys h) \<subseteq> own p \<and> record_of M (guid_file h) (recorded p)
     \<and> (synced p \<longrightarrow> guid_disk h = guid_file h)"

lemma simulates_step:
  "simulates M p h \<Longrightarrow> may_do M e p \<Longrightarrow> simulates M (protocol_step e p) (perform e h)"
  by (cases e) (auto simp: simulates_def record_of_def dest: subsetD [OF own_put] split: option.splits)

section \<open>Guarded kinds of effects\<close>

text \<open>What taking a rule away may do, and what writing one may do.\<close>

definition removal :: "string \<Rightarrow> protocol \<Rightarrow> effect list \<Rightarrow> bool" where
  "removal g p es \<longleftrightarrow>
     es = [] \<or> es = [Delete_Key g] \<or> es = [Delete_Key g, Delete_Record]
     \<or> es = [Delete_Record] \<and> lc g \<notin> own p"

lemma removal_allowed:
  assumes "removal g p es" "lc g \<in> M" "own p \<subseteq> {lc g}"
  shows "allowed M p es \<and> own (protocol_run es p) \<subseteq> own p"
  using assms by (auto simp: removal_def)

primrec writes :: "string \<Rightarrow> effect \<Rightarrow> bool" where
  "writes g (Put_Record _) = False"
| "writes g Sync_Record = False"
| "writes g Delete_Record = False"
| "writes g Create_Container = True"
| "writes g (Create_Key g') = (g' = g)"
| "writes g (Set_Value g' _) = (g' = g)"
| "writes g (Delete_Key _) = False"

lemma writes_allowed:
  assumes "list_all (writes g) es" "lc g \<in> M" "recorded p = Some (lc g)" "synced p"
  shows "allowed M p es \<and> own (protocol_run es p) \<subseteq> insert (lc g) (own p)"
  using assms
proof (induction es arbitrary: p)
  case (Cons e es)
  have "recorded (protocol_step e p) = Some (lc g) \<and> synced (protocol_step e p)
      \<and> own (protocol_step e p) \<subseteq> insert (lc g) (own p) \<and> may_do M e p"
    using Cons.prems by (cases e) auto
  moreover from this have "allowed M (protocol_step e p) es
      \<and> own (protocol_run es (protocol_step e p)) \<subseteq> insert (lc g) (own (protocol_step e p))"
    using Cons.prems by (intro Cons.IH) simp_all
  ultimately show ?case by auto
qed auto

section \<open>The operations obey\<close>

lemma trim_guid: "guid_shaped g \<Longrightarrow> trim g = g"
proof (rule trim_unchanged)
  assume g: "guid_shaped g"
  then show ne: "g \<noteq> []"
    by (auto simp: guid_shaped_def)
  have "hd g = CHR 0x7B" "last g = CHR 0x7D"
    using g by (simp_all add: guid_shaped_def hd_conv_nth [OF ne] last_conv_nth [OF ne])
  then show "byte_of (hd g) < 128" "byte_of (hd g) \<notin> {9, 10, 11, 12, 13, 32}"
    "byte_of (last g) < 128" "byte_of (last g) \<notin> {9, 10, 11, 12, 13, 32}"
    by (simp_all add: byte_of_def)
qed

lemma set_values_writes: "list_all (writes g) (snd (set_values i g vs h))"
  by (induction vs arbitrary: h) (auto split: option.splits)

lemma install_rule_writes: "list_all (writes g) (snd (install_rule i g ns servers h))"
  by (auto simp: install_rule_def validate_guid_def write_rule_def create_key_def open_or_create_container_def
      set_values_writes split: sum.splits option.splits)

text \<open>The record is read back as it was written; what is read is what is there.\<close>

lemma recorded_guid_effects [simp]: "snd (recorded_guid i h) = []"
  by (simp add: recorded_guid_def)

lemma recorded_guid_reads:
  "record_of M (guid_file h) r \<Longrightarrow> file_readable i \<Longrightarrow> fst (recorded_guid i h) = guid_file h"
  by (auto simp: recorded_guid_def record_of_def trim_guid split: option.splits)

lemma recorded_guid_SomeD:
  "record_of M (guid_file h) r \<Longrightarrow> fst (recorded_guid i h) = Some g \<Longrightarrow>
     guid_file h = Some g \<and> guid_shaped g \<and> lc g \<in> M \<and> r = Some (lc g)"
  by (auto simp: recorded_guid_def record_of_def trim_guid split: option.splits if_splits)

lemma rule_exists_effects [simp]: "snd (rule_exists i g h) = []"
  by (auto simp: rule_exists_def subkey_exists_def split: sum.splits)

lemma map_err_fault [simp]: "map_err (Win_Fault f) w \<noteq> No_Policy_Container"
  by (cases f) (simp_all add: map_err_def)

lemma map_err_missing [simp]: "map_err File_Not_Found w = No_Policy_Container"
  by (simp add: map_err_def)

lemma own_keys_absent: "\<not> has_key g (keys_of q) \<Longrightarrow> lc g \<notin> own_keys M q"
  by (auto simp: has_key_iff own_keys_def)

lemma open_read_missing: "open_read i h = Inl No_Policy_Container \<longleftrightarrow> open_fault i = None \<and> policy_keys h = None"
  by (auto simp: open_read_def split: option.splits)

lemma open_read_Inr: "open_read i h = Inr ks \<longleftrightarrow> open_fault i = None \<and> policy_keys h = Some ks"
  by (auto simp: open_read_def split: option.splits)

text \<open>An existence test that answers tells the truth.\<close>

lemma rule_exists_Inr:
  "fst (rule_exists i g h) = Inr b \<Longrightarrow> guid_shaped g \<and> b = has_key g (keys_of (policy_keys h))"
  by (cases "policy_keys h")
    (auto simp: rule_exists_def validate_guid_def subkey_exists_def open_read_def has_key_def
        split: option.splits if_splits sum.splits)

lemma clear_guid_removal:
  "lc g \<notin> own p \<Longrightarrow> removal g p (snd (clear_guid i h))"
  by (simp add: clear_guid_def removal_def)

text \<open>Removing a rule: when the call succeeds the rule is gone.\<close>

lemma remove_rule_cases:
  obtains (failed) e where "remove_rule i g h = (Inl e, [])"
  | (absent) "remove_rule i g h = (Inr (), [])" "\<not> has_key g (keys_of (policy_keys h))"
  | (deleted) "remove_rule i g h = (Inr (), [Delete_Key g])" "guid_shaped g"
proof (cases "guid_shaped g")
  case False
  then show ?thesis
    by (intro failed) (simp add: remove_rule_def validate_guid_def ret_def)
next
  case True
  show ?thesis
  proof (cases "open_read i h")
    case (Inl e)
    then show ?thesis
    proof (cases "e = No_Policy_Container")
      case True
      then have "policy_keys h = None"
        using Inl by (simp add: open_read_missing)
      then show ?thesis
        using True Inl \<open>guid_shaped g\<close>
        by (intro absent) (simp_all add: remove_rule_def validate_guid_def delete_subkey_def bind_op_def ret_def
            has_key_def)
    next
      case False
      then show ?thesis
        using Inl True
        by (intro failed) (simp add: remove_rule_def validate_guid_def delete_subkey_def bind_op_def ret_def)
    qed
  next
    case (Inr ks)
    then have ks: "policy_keys h = Some ks"
      by (simp add: open_read_Inr)
    show ?thesis
    proof (cases "delete_fault i")
      case None
      then show ?thesis
        using Inr True ks
        by (cases "has_key g ks")
          (auto intro: absent deleted
            simp: remove_rule_def validate_guid_def delete_subkey_def bind_op_def ret_def)
    next
      case (Some f)
      then show ?thesis
        using Inr True
        by (intro failed) (simp add: remove_rule_def validate_guid_def delete_subkey_def bind_op_def ret_def)
    qed
  qed
qed

lemma remove_and_clear:
  assumes "own p \<subseteq> own_keys M (policy_keys h)"
  shows "removal g p (snd (try_op (remove_rule i g) (\<lambda>_. bind_op (clear_guid i) (\<lambda>_. ret r)) h))"
proof (cases rule: remove_rule_cases [of i g h])
  case absent
  then have "lc g \<notin> own p"
    using assms own_keys_absent by blast
  then show ?thesis
    using clear_guid_removal absent by simp
qed (simp_all add: removal_def clear_guid_def)

lemma remove_guid_removal:
  "own p \<subseteq> own_keys M (policy_keys h) \<Longrightarrow> removal g p (snd (remove_guid i g h))"
  unfolding remove_guid_def by (rule remove_and_clear)

lemma reconcile_removal:
  assumes "own p \<subseteq> own_keys M (policy_keys h)" "fst (recorded_guid i h) = Some g"
  shows "removal g p (snd (reconcile i m answers h))"
proof -
  have *: "removal g p (snd (remove_recorded i g m h))" for m
  proof -
    have "snd (remove_recorded i g m h) =
        (if m = Dry_Run then [] else snd (try_op (remove_rule i g) (\<lambda>_. bind_op (clear_guid i) (\<lambda>_. ret (Inr ()))) h))"
      by (simp add: remove_recorded_def split: sum.splits)
    then show ?thesis
      using remove_and_clear [OF assms(1), of g i "Inr ()"] by (simp add: removal_def)
  qed
  show ?thesis
  proof (cases "fst (rule_exists i g h)")
    case (Inl e)
    then show ?thesis
      using assms(2) by (simp add: reconcile_def removal_def)
  next
    case (Inr b)
    then have "\<not> b \<Longrightarrow> lc g \<notin> own p"
      using rule_exists_Inr [OF Inr] own_keys_absent assms(1) by blast
    then show ?thesis
      using Inr assms(2) * clear_guid_removal [of g p i h]
      by (cases b) (auto simp: reconcile_def removal_def)
  qed
qed

lemma reconcile_unrecorded: "fst (recorded_guid i h) = None \<Longrightarrow> snd (reconcile i m answers h) = []"
  by (simp add: reconcile_def)

lemma orphan_removal:
  assumes "own p \<subseteq> own_keys M (policy_keys h)" "fst (recorded_guid i h) = Some g"
  shows "removal g p (snd (reconcile_orphan_rule i h))"
  using remove_guid_removal [OF assms(1), of g i] assms(2)
  by (auto simp: reconcile_orphan_rule_def removal_def split: sum.splits bool.splits)

lemma orphan_unrecorded: "fst (recorded_guid i h) = None \<Longrightarrow> snd (reconcile_orphan_rule i h) = []"
  by (simp add: reconcile_orphan_rule_def)

end
