(* ===== verification/Nrpt_World.thy ===== *)
theory Nrpt_World
  imports Nrpt_Protocol
begin

text \<open>
  The machine over its life: the daemon starts, is stopped and watches itself, the reconciler runs at
  boot, either may be killed between two effects, the power may fail, and other software edits the
  policy. \<open>world_step\<close> is the step relation; in every reachable state the rules of ours that are live,
  now and after a loss of power, are named by the record that would be read.
\<close>

section \<open>What an installation writes\<close>

lemma install_rule_Inr: "fst (install i te a existing fresh h) = Inr g \<Longrightarrow> g = (case existing of Some g \<Rightarrow> g | None \<Rightarrow> fresh)"
  by (auto simp: install_def Let_def split: if_splits ip_addr.splits sum.splits)

definition record_effects :: "string \<Rightarrow> effect list" where
  "record_effects g = [Put_Record g, Sync_Record]"

lemma record_guid_eq:
  "record_guid i g h =
     (if \<not> guid_shaped g then (Inl (Malformed_Guid g), [])
      else if \<not> dir_created i then (Inl (Registry_Error ''state dir''), [])
      else if \<not> tmp_written i then (Inl (Registry_Error ''state write''), [])
      else if \<not> renamed i then (Inl (Registry_Error ''state rename''), [])
      else if dir_synced i then (Inr (), record_effects g)
      else (Inl (Registry_Error ''state dir sync''), [Put_Record g]))"
  by (simp add: record_guid_def validate_guid_def try_op_def bind_op_def effect_op_def ret_def record_effects_def)

lemma record_guid_cases:
  obtains (refused) e where "record_guid i g h = (Inl e, [])"
  | (unsynced) e where "record_guid i g h = (Inl e, [Put_Record g])" "guid_shaped g"
  | (durable) "record_guid i g h = (Inr (), record_effects g)" "guid_shaped g"
proof (cases "guid_shaped g \<and> dir_created i \<and> tmp_written i \<and> renamed i")
  case False
  then have "\<exists>e. record_guid i g h = (Inl e, [])"
    by (auto simp: record_guid_eq)
  then show ?thesis
    using refused by blast
next
  case True
  then show ?thesis
    using unsynced durable by (cases "dir_synced i") (simp_all add: record_guid_eq)
qed

text \<open>The effects of an installation: the record first and to the disk, the rule only then.\<close>

lemma install_shape:
  fixes i te a existing fresh h
  defines "g \<equiv> (case existing of Some g \<Rightarrow> g | None \<Rightarrow> fresh)"
  shows "snd (install i te a existing fresh h) = []
    \<or> guid_shaped g \<and> snd (install i te a existing fresh h) = [Put_Record g]
    \<or> guid_shaped g \<and> sa_port a = DNS_PORT \<and> (\<exists>ip. sa_ip a = V4 ip) \<and> reconciler_task_installed te
      \<and> (\<exists>ws. snd (install i te a existing fresh h) = record_effects g @ ws \<and> list_all (writes g) ws)"
proof (cases "sa_port a = DNS_PORT \<and> reconciler_task_installed te")
  case False
  then show ?thesis
    by (auto simp: install_def split: ip_addr.splits)
next
  case True
  show ?thesis
  proof (cases "sa_ip a")
    case (V6 w)
    then show ?thesis
      using True by (simp add: install_def)
  next
    case (V4 ip)
    show ?thesis
      by (cases rule: record_guid_cases [of i g h])
        (use True V4 install_rule_writes in \<open>auto simp: install_def g_def [symmetric] Let_def\<close>)
  qed
qed

section \<open>What a start does\<close>

text \<open>A start either takes an old rule away or goes through the installation, never both.\<close>

lemma serve_effects [simp]:
  "snd (serve i se bound st h)
    = snd (install i (se_task se) bound (fst (recorded_guid i h)) (se_fresh se) h)"
  by (simp add: serve_def)

lemma start_cases:
  obtains (quiet) "snd (start i cfg lcfg se h) = snd (reconcile_orphan_rule i h)"
      "wp_guid (fst (start i cfg lcfg se h)) = None" "wp_state (fst (start i cfg lcfg se h)) \<noteq> Wp_Serving"
  | (served) la ups st bound where
      "wc_enabled cfg" "wc_listen cfg = Some la" "resolve_upstreams (se_adapters se) (wc_upstreams cfg) la = Inr ups"
      "bind_start cfg se la ups (snd (load_lists (se_files se) lcfg new_engine)) = Some (st, bound)"
      "report_ok (fst (self_test (se_net se) (se_probes se) st))"
      "start i cfg lcfg se h = serve i se bound (snd (self_test (se_net se) (se_probes se) st)) h"
proof (cases "wc_enabled cfg")
  case False
  then show ?thesis
    by (intro quiet) (simp_all add: start_def disabled_def inert_def)
next
  case enabled: True
  show ?thesis
  proof (cases "wc_listen cfg")
    case None
    then show ?thesis
      using enabled by (intro quiet) (simp_all add: start_def refused_def inert_def)
  next
    case la: (Some la)
    show ?thesis
    proof (cases "resolve_upstreams (se_adapters se) (wc_upstreams cfg) la")
      case (Inl e)
      then show ?thesis
        using enabled la by (intro quiet) (simp_all add: start_def refused_def inert_def)
    next
      case ups: (Inr ups)
      let ?b = "bind_start cfg se la ups (snd (load_lists (se_files se) lcfg new_engine))"
      show ?thesis
      proof (cases ?b)
        case None
        then show ?thesis
          using enabled la ups by (intro quiet) (simp_all add: start_def refused_def inert_def)
      next
        case (Some b)
        then obtain st bound where b: "?b = Some (st, bound)"
          by (cases b) simp
        have eq: "start i cfg lcfg se = test_and_serve i se bound st"
          using enabled la ups b by (simp add: start_def)
        show ?thesis
        proof (cases "report_ok (fst (self_test (se_net se) (se_probes se) st))")
          case True
          then show ?thesis
            using enabled la ups b eq by (intro served) (simp_all add: test_and_serve_def Let_def case_prod_unfold)
        next
          case False
          then show ?thesis
            using eq by (intro quiet) (simp_all add: test_and_serve_def Let_def case_prod_unfold)
        qed
      qed
    qed
  qed
qed

lemma serve_guid:
  "wp_guid (fst (serve i se bound st h)) = Some g \<Longrightarrow>
     g = (case fst (recorded_guid i h) of Some g \<Rightarrow> g | None \<Rightarrow> se_fresh se)"
  by (auto simp: serve_def dest: install_rule_Inr split: sum.splits)

section \<open>The world\<close>

text \<open>\<open>w_pending\<close> are the effects still to come of what is running, \<open>w_guid\<close> the rule the daemon believes
  it installed, \<open>w_minted\<close> every GUID the daemon ever made up.

  What the code does not rule out is a hazard, and a history is one of the set of hazards it may meet: a
  start whose read of the record fails, operations of the daemon and of the reconciler that overlap (they
  share no lock), a change of the record on the disk before the policy it speaks of (no write of the policy
  is ever flushed), and a loss of power. Operations that overlap have their effects interleaved, each
  operation's decided on what it found when it began.\<close>

datatype hazard = Unread_Record | Overlap | Early_Record | Power_Failure

record world =
  w_host :: host
  w_pending :: "effect list"
  w_guid :: "string option"
  w_minted :: "string set"

definition key_names :: "policy \<Rightarrow> string set" where
  "key_names p = lc ` fst ` set (keys_of p)"

definition settled :: "host \<Rightarrow> bool" where
  "settled h \<longleftrightarrow> policy_disk h = policy_keys h"

definition joined :: "hazard set \<Rightarrow> effect list \<Rightarrow> effect list \<Rightarrow> effect list set" where
  "joined H running new = (if running = [] \<or> Overlap \<in> H then shuffles running new else {})"

inductive world_step :: "hazard set \<Rightarrow> world \<Rightarrow> world \<Rightarrow> bool" for H where
  effect_step:
    "w_pending s = e # es \<Longrightarrow> e = Sync_Record \<longrightarrow> settled (w_host s) \<or> Early_Record \<in> H \<Longrightarrow>
     world_step H s (s\<lparr>w_host := perform e (w_host s), w_pending := es\<rparr>)"
| start_step:
    "es \<in> joined H (w_pending s) (snd (start i cfg lcfg se (w_host s))) \<Longrightarrow>
     file_readable i \<or> Unread_Record \<in> H \<Longrightarrow> guid_shaped (se_fresh se) \<Longrightarrow>
     lc (se_fresh se) \<notin> w_minted s \<union> key_names (policy_keys (w_host s)) \<union> key_names (policy_disk (w_host s)) \<Longrightarrow>
     world_step H s
       (s\<lparr>w_minted := insert (lc (se_fresh se)) (w_minted s), w_pending := es,
          w_guid := wp_guid (fst (start i cfg lcfg se (w_host s)))\<rparr>)"
| stop_step:
    "es \<in> joined H (w_pending s) (snd (stop i wp (w_host s))) \<Longrightarrow> wp_guid wp = w_guid s \<Longrightarrow>
     world_step H s (s\<lparr>w_pending := es\<rparr>)"
| watchdog_step:
    "es \<in> joined H (w_pending s) (snd (watchdog_round i g t w (w_host s))) \<Longrightarrow> w_guid s = Some g \<Longrightarrow>
     world_step H s (s\<lparr>w_pending := es\<rparr>)"
| reconciler_step:
    "es \<in> joined H (w_pending s) (snd (run i1 i2 m pid replies (w_host s))) \<Longrightarrow>
     world_step H s (s\<lparr>w_pending := es\<rparr>)"
| crash_step:
    "subseq es (w_pending s) \<Longrightarrow> es = [] \<or> Overlap \<in> H \<Longrightarrow> g = None \<or> g = w_guid s \<Longrightarrow>
     world_step H s (s\<lparr>w_pending := es, w_guid := g\<rparr>)"
| power_step:
    "Power_Failure \<in> H \<Longrightarrow>
     world_step H s
       (s\<lparr>w_host := (w_host s)\<lparr>policy_keys := policy_disk (w_host s), guid_file := guid_disk (w_host s)\<rparr>,
          w_pending := [], w_guid := None\<rparr>)"
| flush_policy_step:
    "world_step H s (s\<lparr>w_host := (w_host s)\<lparr>policy_disk := policy_keys (w_host s)\<rparr>\<rparr>)"
| flush_record_step:
    "settled (w_host s) \<or> Early_Record \<in> H \<Longrightarrow>
     world_step H s (s\<lparr>w_host := (w_host s)\<lparr>guid_disk := guid_file (w_host s)\<rparr>\<rparr>)"
| others_step:
    "own_keys (w_minted s) p \<subseteq> own_keys (w_minted s) (policy_keys (w_host s)) \<Longrightarrow>
     world_step H s (s\<lparr>w_host := (w_host s)\<lparr>policy_keys := p\<rparr>\<rparr>)"

inductive reachable :: "hazard set \<Rightarrow> world \<Rightarrow> bool" for H where
  fresh: "guid_file h = None \<Longrightarrow> guid_disk h = None \<Longrightarrow>
     reachable H \<lparr>w_host = h, w_pending = [], w_guid = None, w_minted = {}\<rparr>"
| later: "reachable H s \<Longrightarrow> world_step H s s' \<Longrightarrow> reachable H s'"

text \<open>More hazards, more histories.\<close>

lemma joined_mono: "H \<subseteq> H' \<Longrightarrow> joined H es new \<subseteq> joined H' es new"
  by (auto simp: joined_def)

lemma joined_idle [simp]: "joined H [] new = {new}"
  by (simp add: joined_def)

lemma joined_calm: "Overlap \<notin> H \<Longrightarrow> es \<in> joined H running new \<Longrightarrow> running = [] \<and> es = new"
  by (simp add: joined_def split: if_splits)

lemma joined_set: "es \<in> joined H running new \<Longrightarrow> set es = set running \<union> set new"
  by (auto simp: joined_def set_shuffles split: if_splits)

lemma joined_first: "Overlap \<in> H \<Longrightarrow> new @ running \<in> joined H running new"
  by (induction new) (auto simp: joined_def intro: Cons_in_shuffles_rightI)

lemma world_step_mono:
  assumes "world_step H s s'" "H \<subseteq> H'"
  shows "world_step H' s s'"
  using assms(1)
proof cases
  case (start_step es i cfg lcfg se)
  then show ?thesis
    using assms(2) joined_mono [OF assms(2)] by (auto intro!: world_step.start_step [of _ H' s i])
next
  case (stop_step es i wp)
  then show ?thesis
    using world_step.stop_step [of es H' s i wp] joined_mono [OF assms(2)] by auto
next
  case (watchdog_step es i g t w)
  then show ?thesis
    using world_step.watchdog_step [of es H' s i g t w] joined_mono [OF assms(2)] by auto
next
  case (reconciler_step es i1 i2 m pid replies)
  then show ?thesis
    using world_step.reconciler_step [of es H' s i1 i2 m pid replies] joined_mono [OF assms(2)] by auto
qed (use assms(2) in \<open>auto intro: world_step.intros\<close>)

lemma reachable_mono: "reachable H s \<Longrightarrow> H \<subseteq> H' \<Longrightarrow> reachable H' s"
  by (induction rule: reachable.induct) (auto intro: reachable.intros world_step_mono)

section \<open>What every state keeps\<close>

definition recorded_name :: "string option \<Rightarrow> string set" where
  "recorded_name f = lc ` set_option f"

definition record_fine :: "string set \<Rightarrow> string option \<Rightarrow> bool" where
  "record_fine M f \<longleftrightarrow> (\<forall>g. f = Some g \<longrightarrow> guid_shaped g \<and> lc g \<in> M)"

text \<open>What is live and what is still to come; and, where the power may fail, what the disk holds.\<close>

definition creates :: "effect list \<Rightarrow> string set" where
  "creates es = {lc g | g. Create_Key g \<in> set es}"

definition disk_ok :: "world \<Rightarrow> protocol \<Rightarrow> bool" where
  "disk_ok s p \<longleftrightarrow>
     record_fine (w_minted s) (guid_disk (w_host s))
     \<and> own p \<subseteq> recorded_name (guid_disk (w_host s))
     \<and> own_keys (w_minted s) (policy_disk (w_host s)) \<subseteq> recorded_name (guid_disk (w_host s))"

definition world_ok :: "bool \<Rightarrow> world \<Rightarrow> protocol \<Rightarrow> bool" where
  "world_ok d s p \<longleftrightarrow>
     simulates (w_minted s) p (w_host s) \<and> protocol_ok p \<and> allowed (w_minted s) p (w_pending s)
     \<and> (d \<longrightarrow> disk_ok s p)
     \<and> (\<forall>g. w_guid s = Some g \<longrightarrow> lc g \<in> w_minted s \<and> own p \<subseteq> {lc g} \<and> creates (w_pending s) \<subseteq> {lc g})"

lemma creates_simps [simp]: "creates [] = {}" "creates (es @ es') = creates es \<union> creates es'"
  "creates (Create_Key g # es) = insert (lc g) (creates es)" "creates (Put_Record g # es) = creates es"
  "creates (Sync_Record # es) = creates es" "creates (Delete_Record # es) = creates es"
  "creates (Create_Container # es) = creates es" "creates (Set_Value g v # es) = creates es"
  "creates (Delete_Key g # es) = creates es"
  by (auto simp: creates_def)

lemma creates_writes: "list_all (writes g) ws \<Longrightarrow> creates ws \<subseteq> {lc g}"
  by (induction ws) (auto simp: creates_def)

lemma creates_removal: "removal g p es \<Longrightarrow> creates es = {}"
  by (auto simp: removal_def)

text \<open>Between operations the protocol can be taken to know exactly what is live.\<close>

definition exact :: "string set \<Rightarrow> host \<Rightarrow> protocol" where
  "exact M h = \<lparr>own = own_keys M (policy_keys h), recorded = map_option lc (guid_file h), synced = False\<rparr>"

lemma record_of_exact: "record_of M f r \<Longrightarrow> r = map_option lc f"
  by (auto simp: record_of_def split: option.splits)

lemma world_ok_exact:
  assumes "world_ok d s p" "w_pending s = []"
  shows "world_ok d s (exact (w_minted s) (w_host s))"
proof -
  have "own_keys (w_minted s) (policy_keys (w_host s)) \<subseteq> own p" "recorded p = map_option lc (guid_file (w_host s))"
    "record_of (w_minted s) (guid_file (w_host s)) (recorded p)"
    using assms(1) by (auto simp: world_ok_def simulates_def dest: record_of_exact)
  moreover from this(1) have "own_keys (w_minted s) (policy_keys (w_host s)) \<subseteq> X" if "own p \<subseteq> X" for X
    using that by blast
  ultimately show ?thesis
    using assms by (simp add: world_ok_def disk_ok_def simulates_def exact_def protocol_ok_def)
qed

text \<open>An operation may be started whose effects the protocol allows.\<close>

lemma world_ok_operation:
  assumes "world_ok d s p" "w_pending s = []" "allowed (w_minted s) p es" "creates es = {}"
  shows "world_ok d (s\<lparr>w_pending := es\<rparr>) p"
  using assms by (simp add: world_ok_def disk_ok_def)

lemma world_ok_removal:
  assumes "world_ok d s p" "w_pending s = []" "removal g p es" "lc g \<in> w_minted s" "own p \<subseteq> {lc g}"
  shows "world_ok d (s\<lparr>w_pending := es\<rparr>) p"
  using assms removal_allowed creates_removal by (intro world_ok_operation) blast+

lemma world_ok_idle: "world_ok d s p \<Longrightarrow> w_pending s = [] \<Longrightarrow> world_ok d (s\<lparr>w_pending := []\<rparr>) p"
  by (intro world_ok_operation) simp_all

text \<open>What is recorded, of a world between operations.\<close>

lemma exact_recorded:
  assumes "world_ok d s (exact (w_minted s) (w_host s))" "fst (recorded_guid i (w_host s)) = Some g"
  shows "guid_file (w_host s) = Some g \<and> guid_shaped g \<and> lc g \<in> w_minted s
    \<and> own (exact (w_minted s) (w_host s)) \<subseteq> {lc g}"
proof -
  have "record_of (w_minted s) (guid_file (w_host s)) (recorded (exact (w_minted s) (w_host s)))"
    "protocol_ok (exact (w_minted s) (w_host s))"
    using assms(1) by (simp_all add: world_ok_def simulates_def)
  then show ?thesis
    using recorded_guid_SomeD [OF _ assms(2)] by (fastforce simp: protocol_ok_def)
qed

lemma exact_own: "own (exact M h) \<subseteq> own_keys M (policy_keys h)"
  by (simp add: exact_def)

text \<open>Operations that act on the recorded rule only.\<close>

lemma world_ok_recorded_removal:
  assumes "world_ok d s (exact (w_minted s) (w_host s))" "w_pending s = []"
    "\<And>g. fst (recorded_guid i (w_host s)) = Some g \<Longrightarrow> removal g (exact (w_minted s) (w_host s)) es"
    "fst (recorded_guid i (w_host s)) = None \<Longrightarrow> es = []"
  shows "world_ok d (s\<lparr>w_pending := es\<rparr>) (exact (w_minted s) (w_host s))"
proof (cases "fst (recorded_guid i (w_host s))")
  case None
  then show ?thesis
    using assms world_ok_idle by blast
next
  case (Some g)
  then show ?thesis
    using world_ok_removal [OF assms(1,2) assms(3) [OF Some]] exact_recorded [OF assms(1) Some] by blast
qed

text \<open>The reconciler's effects are those of its reconciliation: the scan only reads.\<close>

lemma collect_orphans_effects [simp]: "snd (collect_orphans i r gs h) = []"
proof (induction gs arbitrary: h)
  case (Cons g gs)
  have "snd (read_rule_values i g h) = []"
    by (simp add: read_rule_values_def)
  then show ?case
    using Cons by (simp split: sum.splits)
qed simp

lemma list_rules_effects [simp]: "snd (list_rules i h) = []"
  by (simp add: list_rules_def list_subkeys_def)

lemma scan_effects [simp]: "snd (scan_for_orphan_pattern_rules i h) = []"
  by (auto simp: scan_for_orphan_pattern_rules_def unrecorded_catchall_rules_def split: sum.splits)

lemma run_effects: "snd (run i1 i2 m pid replies h) = snd (reconcile i2 m (probe_addr pid replies) h)"
  by (simp add: run_def)

text \<open>A new GUID changes nothing of what is live.\<close>

lemma own_keys_mint: "a \<notin> key_names q \<Longrightarrow> own_keys (insert a M) q = own_keys M q"
  by (auto simp: own_keys_def key_names_def)

lemma foreign_keys_mint: "a \<notin> key_names q \<Longrightarrow> foreign_keys (insert a M) q = foreign_keys M q"
  unfolding foreign_keys_def by (rule filter_cong) (force simp: key_names_def image_iff)+

lemma world_ok_mint:
  assumes "world_ok d s (exact (w_minted s) (w_host s))" "w_pending s = []"
    "a \<notin> key_names (policy_keys (w_host s)) \<union> key_names (policy_disk (w_host s))"
  shows "world_ok d (s\<lparr>w_minted := insert a (w_minted s)\<rparr>) (exact (insert a (w_minted s)) (w_host s))"
  using assms
  by (auto simp: world_ok_def disk_ok_def exact_def simulates_def own_keys_mint record_fine_def record_of_def
      split: option.splits)

text \<open>What the installation does is allowed, and what it leaves live is the rule it reports.\<close>

lemma install_allowed:
  assumes ok: "guid_shaped g" "lc g \<in> M" "own p \<subseteq> {lc g}"
    and g: "g = (case existing of Some g \<Rightarrow> g | None \<Rightarrow> fresh)"
  shows "allowed M p (snd (install i te a existing fresh h))
    \<and> creates (snd (install i te a existing fresh h)) \<subseteq> {lc g}"
proof -
  have "allowed M p (record_effects g @ ws) \<and> creates (record_effects g @ ws) \<subseteq> {lc g}"
    if "list_all (writes g) ws" for ws
  proof -
    let ?q = "protocol_run (record_effects g) p"
    have "recorded ?q = Some (lc g)" "synced ?q" "own ?q = own p" "allowed M p (record_effects g)"
      using ok by (simp_all add: record_effects_def)
    then show ?thesis
      using writes_allowed [OF that ok(2), of ?q] creates_writes [OF that] by (simp add: record_effects_def)
  qed
  then show ?thesis
    using install_shape [of i te a existing fresh h] ok unfolding g [symmetric]
    by (elim disjE conjE exE) simp_all
qed

section \<open>Every step keeps it\<close>

lemma world_ok_start:
  assumes ok: "world_ok d s (exact (w_minted s) (w_host s))" and idle: "w_pending s = []"
    and read: "file_readable i" and fresh: "guid_shaped (se_fresh se)" "lc (se_fresh se) \<in> w_minted s"
  shows "world_ok d (s\<lparr>w_pending := snd (start i cfg lcfg se (w_host s)),
      w_guid := wp_guid (fst (start i cfg lcfg se (w_host s)))\<rparr>) (exact (w_minted s) (w_host s))"
    (is "world_ok d ?s ?p")
proof -
  have none: "world_ok d (s\<lparr>w_guid := None\<rparr>) ?p"
    using ok by (simp add: world_ok_def disk_ok_def)
  show ?thesis
  proof (cases rule: start_cases [of i cfg lcfg se "w_host s"])
    case quiet
    have "world_ok d (s\<lparr>w_guid := None, w_pending := snd (reconcile_orphan_rule i (w_host s))\<rparr>)
        (exact (w_minted (s\<lparr>w_guid := None\<rparr>)) (w_host (s\<lparr>w_guid := None\<rparr>)))"
      by (rule world_ok_recorded_removal [where i = i])
        (use none idle orphan_removal [OF exact_own] orphan_unrecorded in simp_all)
    then show ?thesis
      using quiet by (simp add: world_ok_def disk_ok_def)
  next
    case (served la ups st bound)
    let ?x = "fst (recorded_guid i (w_host s))"
    define g where "g = (case ?x of Some g \<Rightarrow> g | None \<Rightarrow> se_fresh se)"
    have x: "?x = guid_file (w_host s)"
      using ok read by (intro recorded_guid_reads) (auto simp: world_ok_def simulates_def)
    have own: "guid_shaped g \<and> lc g \<in> w_minted s \<and> own ?p \<subseteq> {lc g}"
    proof (cases ?x)
      case None
      then have "own ?p = {}"
        using ok x by (auto simp: world_ok_def protocol_ok_def exact_def)
      then show ?thesis
        using None fresh by (simp add: g_def)
    next
      case (Some g')
      then show ?thesis
        using exact_recorded [OF ok Some] by (simp add: g_def)
    qed
    have es: "allowed (w_minted s) ?p (snd (start i cfg lcfg se (w_host s)))
        \<and> creates (snd (start i cfg lcfg se (w_host s))) \<subseteq> {lc g}"
      using install_allowed [OF _ _ _ g_def, of "w_minted s" ?p i "se_task se" bound "w_host s"] own served(6)
      by simp
    have guid: "g' = g" if "wp_guid (fst (start i cfg lcfg se (w_host s))) = Some g'" for g'
      using served(6) serve_guid g_def that by metis
    have "\<forall>g'. wp_guid (fst (start i cfg lcfg se (w_host s))) = Some g' \<longrightarrow>
        lc g' \<in> w_minted s \<and> own ?p \<subseteq> {lc g'} \<and> creates (snd (start i cfg lcfg se (w_host s))) \<subseteq> {lc g'}"
      using guid es own by blast
    then show ?thesis
      using ok es by (simp add: world_ok_def disk_ok_def)
  qed
qed

lemma record_of_name: "record_of M f r \<Longrightarrow> record_fine M f \<and> set_option r = recorded_name f"
  by (auto simp: record_of_def record_fine_def recorded_name_def split: option.splits)

lemma world_ok_named:
  assumes "world_ok d s p"
  shows "own_keys (w_minted s) (policy_keys (w_host s)) \<subseteq> own p"
    "own p \<subseteq> recorded_name (guid_file (w_host s))" "record_fine (w_minted s) (guid_file (w_host s))"
proof -
  have "own_keys (w_minted s) (policy_keys (w_host s)) \<subseteq> own p" "own p \<subseteq> set_option (recorded p)"
    "record_of (w_minted s) (guid_file (w_host s)) (recorded p)"
    using assms by (simp_all add: world_ok_def simulates_def protocol_ok_def)
  then show "own_keys (w_minted s) (policy_keys (w_host s)) \<subseteq> own p"
    "own p \<subseteq> recorded_name (guid_file (w_host s))" "record_fine (w_minted s) (guid_file (w_host s))"
    using record_of_name by blast+
qed

lemma world_ok_flush_record:
  assumes "world_ok d s p" "d \<Longrightarrow> settled (w_host s)"
  shows "world_ok d (s\<lparr>w_host := (w_host s)\<lparr>guid_disk := guid_file (w_host s)\<rparr>\<rparr>) p"
proof -
  have "disk_ok (s\<lparr>w_host := (w_host s)\<lparr>guid_disk := guid_file (w_host s)\<rparr>\<rparr>) p" if d
    using world_ok_named [OF assms(1)] assms(2) [OF that] by (auto simp: disk_ok_def settled_def)
  then show ?thesis
    using assms by (auto simp: world_ok_def simulates_def)
qed

lemma world_ok_effect:
  assumes "world_ok d s p" "w_pending s = e # es" "d \<Longrightarrow> e = Sync_Record \<Longrightarrow> settled (w_host s)"
  shows "world_ok d (s\<lparr>w_host := perform e (w_host s), w_pending := es\<rparr>) (protocol_step e p)"
    (is "world_ok d ?s ?p")
proof -
  have p: "simulates (w_minted s) p (w_host s)" "protocol_ok p" "may_do (w_minted s) e p"
    "allowed (w_minted s) (protocol_step e p) es" "d \<Longrightarrow> disk_ok s p"
    using assms(1,2) by (simp_all add: world_ok_def)
  have believed: "lc g \<in> w_minted s \<and> own ?p \<subseteq> {lc g} \<and> creates es \<subseteq> {lc g}" if "w_guid s = Some g" for g
    using assms(1,2) that by (cases e) (auto simp: world_ok_def)
  have disk: "disk_ok ?s ?p" if d
  proof (cases "e = Sync_Record")
    case True
    then have "world_ok d (s\<lparr>w_host := (w_host s)\<lparr>guid_disk := guid_file (w_host s)\<rparr>\<rparr>) p"
      using world_ok_flush_record [OF assms(1)] assms(3) by blast
    then show ?thesis
      using True that by (simp add: world_ok_def disk_ok_def)
  next
    case False
    have "guid_disk (perform e (w_host s)) = guid_disk (w_host s)"
      "policy_disk (perform e (w_host s)) = policy_disk (w_host s)"
      using False by (cases e; simp)+
    moreover have "own ?p \<subseteq> recorded_name (guid_disk (w_host s))"
    proof (cases e)
      case (Create_Key g)
      then have "recorded p = Some (lc g)" "guid_disk (w_host s) = guid_file (w_host s)"
        using p(1,3) by (simp_all add: simulates_def)
      then have "lc g \<in> recorded_name (guid_disk (w_host s))"
        using p(1) record_of_name by (fastforce simp: simulates_def)
      then show ?thesis
        using p(5) [OF that] Create_Key by (simp add: disk_ok_def)
    qed (use p(5) [OF that] in \<open>auto simp: disk_ok_def\<close>)
    ultimately show ?thesis
      using p(5) [OF that] by (simp add: disk_ok_def)
  qed
  show ?thesis
    using simulates_step [OF p(1,3)] protocol_step_ok [OF p(2,3)] p(4) disk believed
    by (simp add: world_ok_def)
qed

lemma world_ok_crash:
  assumes "world_ok d s p" "g = None \<or> g = w_guid s"
  shows "world_ok d (s\<lparr>w_pending := [], w_guid := g\<rparr>) p"
  using assms(2,1) by (elim disjE) (simp_all add: world_ok_def disk_ok_def)

lemma world_ok_power:
  assumes "world_ok True s p"
  shows "\<exists>p'. world_ok True (s\<lparr>w_host := (w_host s)\<lparr>policy_keys := policy_disk (w_host s),
      guid_file := guid_disk (w_host s)\<rparr>, w_pending := [], w_guid := None\<rparr>) p'" (is "\<exists>p'. world_ok True ?s p'")
proof
  have "record_of (w_minted s) (guid_disk (w_host s)) (map_option lc (guid_disk (w_host s)))"
    using assms by (auto simp: world_ok_def disk_ok_def record_fine_def record_of_def split: option.splits)
  then show "world_ok True ?s (exact (w_minted ?s) (w_host ?s))"
    using assms
    by (simp add: world_ok_def disk_ok_def simulates_def exact_def protocol_ok_def recorded_name_def option.set_map)
qed

lemma world_ok_others:
  assumes "world_ok d s p" "own_keys (w_minted s) q \<subseteq> own_keys (w_minted s) (policy_keys (w_host s))"
  shows "world_ok d (s\<lparr>w_host := (w_host s)\<lparr>policy_keys := q\<rparr>\<rparr>) p"
  using assms by (auto simp: world_ok_def disk_ok_def simulates_def)

lemma world_ok_flush_policy:
  assumes "world_ok d s p"
  shows "world_ok d (s\<lparr>w_host := (w_host s)\<lparr>policy_disk := policy_keys (w_host s)\<rparr>\<rparr>) p"
  using assms by (auto simp: world_ok_def disk_ok_def simulates_def)

text \<open>The daemon acts on the rule it believes in.\<close>

lemma world_ok_believed:
  assumes "world_ok d s p" "w_pending s = []" "w_guid s = Some g"
  shows "lc g \<in> w_minted s \<and> own p \<subseteq> {lc g}"
  using assms by (simp add: world_ok_def)

lemma stop_effects:
  "snd (stop i wp h) = (case wp_guid wp of None \<Rightarrow> [] | Some g \<Rightarrow> snd (remove_guid i g h))"
  by (simp add: stop_def split: option.splits)

lemma watchdog_round_effects:
  "snd (watchdog_round i g t w h) \<in> {[], snd (remove_guid i g h)}"
  by (simp add: watchdog_round_def Let_def)

lemma world_ok_remove_believed:
  assumes "world_ok d s p" "w_pending s = []" "w_guid s = Some g" "es \<in> {[], snd (remove_guid i g (w_host s))}"
  shows "world_ok d (s\<lparr>w_pending := es\<rparr>) (exact (w_minted s) (w_host s))"
proof -
  have ok: "world_ok d s (exact (w_minted s) (w_host s))"
    using world_ok_exact assms by blast
  have "removal g (exact (w_minted s) (w_host s)) es"
    using assms(4) remove_guid_removal [OF exact_own] by (auto simp: removal_def)
  then show ?thesis
    using world_ok_believed [OF ok assms(2,3)] world_ok_removal [OF ok assms(2)] by blast
qed

text \<open>The hazards a history may meet without any rule being lost: a loss of power, or a record that
  reaches the disk early; not both.\<close>

definition harmless :: "hazard set \<Rightarrow> bool" where
  "harmless H \<longleftrightarrow> H \<subseteq> {Power_Failure} \<or> H \<subseteq> {Early_Record}"

lemma harmlessD: "harmless H \<Longrightarrow> Overlap \<notin> H \<and> Unread_Record \<notin> H"
  by (auto simp: harmless_def)

lemma world_ok_step:
  assumes "world_ok d s p" "world_step H s s'" "H \<subseteq> (if d then {Power_Failure} else {Early_Record})"
  shows "\<exists>p'. world_ok d s' p'"
proof -
  have H: "Overlap \<notin> H" "Unread_Record \<notin> H" "d \<Longrightarrow> Early_Record \<notin> H" "Power_Failure \<in> H \<Longrightarrow> d"
    using assms(3) by (auto split: if_splits)
  note calm = joined_calm [OF H(1)]
  show ?thesis
    using assms(2)
  proof cases
    case (effect_step e es)
    then show ?thesis
      using world_ok_effect [OF assms(1)] H(3) by auto
  next
    case (start_step es i cfg lcfg se)
    let ?s = "s\<lparr>w_minted := insert (lc (se_fresh se)) (w_minted s)\<rparr>"
    have idle: "w_pending s = []" "es = snd (start i cfg lcfg se (w_host s))"
      using calm [OF start_step(2)] by simp_all
    have "world_ok d ?s (exact (w_minted ?s) (w_host ?s))"
      using world_ok_mint [OF world_ok_exact [OF assms(1)]] start_step idle by simp
    from world_ok_start [OF this _ _ start_step(4), of i cfg lcfg] start_step idle H(2) show ?thesis
      by auto
  next
    case (stop_step es i wp)
    have es: "w_pending s = []" "es = snd (stop i wp (w_host s))"
      using calm [OF stop_step(2)] by simp_all
    show ?thesis
    proof (cases "w_guid s")
      case None
      then show ?thesis
        using world_ok_idle [OF assms(1) es(1)] stop_step(1,3) es(2) by (auto simp: stop_effects)
    next
      case (Some g)
      then show ?thesis
        using world_ok_remove_believed [OF assms(1) es(1) Some, of es i] stop_step(1,3) es(2)
        by (auto simp: stop_effects)
    qed
  next
    case (watchdog_step es i g t w)
    then show ?thesis
      using world_ok_remove_believed [OF assms(1) _ _ watchdog_round_effects] calm by blast
  next
    case (reconciler_step es i1 i2 m pid replies)
    then have es: "w_pending s = []" "es = snd (reconcile i2 m (probe_addr pid replies) (w_host s))"
      using calm [OF reconciler_step(2)] by (simp_all add: run_effects)
    have "world_ok d (s\<lparr>w_pending := es\<rparr>) (exact (w_minted s) (w_host s))"
      unfolding es(2)
      by (rule world_ok_recorded_removal [where i = i2])
        (use world_ok_exact [OF assms(1)] es(1) reconcile_removal [OF exact_own] reconcile_unrecorded
          in simp_all)
    then show ?thesis
      using reconciler_step by blast
  next
    case (crash_step es g)
    then show ?thesis
      using world_ok_crash [OF assms(1)] H(1) by blast
  next
    case power_step
    then show ?thesis
      using world_ok_power assms(1) H(4) by auto
  next
    case flush_policy_step
    then show ?thesis
      using world_ok_flush_policy [OF assms(1)] by blast
  next
    case flush_record_step
    then show ?thesis
      using world_ok_flush_record [OF assms(1)] H(3) by blast
  next
    case (others_step q)
    then show ?thesis
      using world_ok_others [OF assms(1)] by blast
  qed
qed

lemma reachable_ok:
  assumes "reachable H s" "H \<subseteq> (if d then {Power_Failure} else {Early_Record})"
  shows "\<exists>p. world_ok d s p"
  using assms(1)
proof (induction rule: reachable.induct)
  case (fresh h)
  then have "world_ok d \<lparr>w_host = h, w_pending = [], w_guid = None, w_minted = {}\<rparr> (exact {} h)"
    by (simp add: world_ok_def disk_ok_def simulates_def exact_def protocol_ok_def own_keys_def record_of_def
        record_fine_def)
  then show ?case
    by blast
next
  case (later s s')
  then show ?case
    using world_ok_step assms(2) by blast
qed

section \<open>Consequences\<close>

text \<open>Whatever is live, now or after a loss of power, is named by the record read then.\<close>

lemma reachable_named:
  assumes "reachable H s" "harmless H"
  shows "own_keys (w_minted s) (policy_keys (w_host s)) \<subseteq> recorded_name (guid_file (w_host s))"
proof -
  obtain d p where "world_ok d s p"
    using reachable_ok [OF assms(1), of True] reachable_ok [OF assms(1), of False] assms(2)
    by (auto simp: harmless_def)
  then show ?thesis
    using world_ok_named by blast
qed

lemma reachable_named_disk:
  assumes "reachable H s" "H \<subseteq> {Power_Failure}"
  shows "own_keys (w_minted s) (policy_disk (w_host s)) \<subseteq> recorded_name (guid_disk (w_host s))"
  using reachable_ok [OF assms(1), of True] assms(2) by (auto simp: world_ok_def disk_ok_def)

text \<open>The reconciler's run on such a world.\<close>

lemma calm_reads [simp]: "file_readable calm" "open_fault calm = None" "subkey_fault calm = None"
  "delete_fault calm = None" "file_removable calm"
  by (simp_all add: calm_def)

lemma calm_exists:
  "guid_shaped g \<Longrightarrow> fst (rule_exists calm g h) = Inr (has_key g (keys_of (policy_keys h)))"
  by (cases "policy_keys h")
    (simp_all add: rule_exists_def validate_guid_def subkey_exists_def open_read_def has_key_def)

lemma calm_remove:
  "guid_shaped g \<Longrightarrow> has_key g (keys_of (policy_keys h)) \<Longrightarrow> remove_rule calm g h = (Inr (), [Delete_Key g])"
  by (cases "policy_keys h")
    (simp_all add: remove_rule_def validate_guid_def delete_subkey_def open_read_def bind_op_def ret_def has_key_def)

lemma calm_clear: "guid_file h = Some g \<Longrightarrow> clear_guid calm h = (Inr (), [Delete_Record])"
  by (simp add: clear_guid_def)

lemma calm_reconcile:
  assumes "guid_file h = Some g" "guid_shaped g" "m \<noteq> Dry_Run"
  shows "reconcile calm m False h
    = (0, (if has_key g (keys_of (policy_keys h)) then [Delete_Key g] else []) @ [Delete_Record])"
proof -
  have r: "recorded_guid calm h = (Some g, [])"
    using assms by (simp add: recorded_guid_def trim_guid)
  have x: "rule_exists calm g h = (Inr (has_key g (keys_of (policy_keys h))), [])"
    using calm_exists [OF assms(2), of h] by (simp add: prod_eq_iff)
  show ?thesis
  proof (cases "has_key g (keys_of (policy_keys h))")
    case True
    then show ?thesis
      using r x assms calm_remove [OF assms(2) True] calm_clear [of "perform (Delete_Key g) h" g]
      by (simp add: reconcile_def bind_op_def remove_recorded_def ret_def)
  next
    case False
    then show ?thesis
      using r x assms calm_clear [of h g] by (simp add: reconcile_def bind_op_def ret_def)
  qed
qed

section \<open>Foreign rules\<close>

text \<open>Whatever the order in which things reach the disk, no effect of ours is on a key that is not ours.\<close>

primrec touches :: "string set \<Rightarrow> effect \<Rightarrow> bool" where
  "touches M (Put_Record g) \<longleftrightarrow> guid_shaped g \<and> lc g \<in> M"
| "touches M Sync_Record \<longleftrightarrow> True"
| "touches M Delete_Record \<longleftrightarrow> True"
| "touches M Create_Container \<longleftrightarrow> True"
| "touches M (Create_Key g) \<longleftrightarrow> lc g \<in> M"
| "touches M (Set_Value g v) \<longleftrightarrow> lc g \<in> M"
| "touches M (Delete_Key g) \<longleftrightarrow> lc g \<in> M"

definition world_tame :: "world \<Rightarrow> bool" where
  "world_tame s \<longleftrightarrow>
     list_all (touches (w_minted s)) (w_pending s)
     \<and> record_fine (w_minted s) (guid_file (w_host s)) \<and> record_fine (w_minted s) (guid_disk (w_host s))
     \<and> (\<forall>g. w_guid s = Some g \<longrightarrow> lc g \<in> w_minted s)"

lemma removal_touches: "removal g p es \<Longrightarrow> lc g \<in> M \<Longrightarrow> list_all (touches M) es"
  by (auto simp: removal_def)

lemma writes_touches: "list_all (writes g) ws \<Longrightarrow> lc g \<in> M \<Longrightarrow> list_all (touches M) ws"
proof (induction ws)
  case (Cons e ws)
  then show ?case
    by (cases e) auto
qed simp

lemma install_touches:
  assumes "g = (case existing of Some g \<Rightarrow> g | None \<Rightarrow> fresh)" "lc g \<in> M"
  shows "list_all (touches M) (snd (install i te a existing fresh h))"
  using install_shape [of i te a existing fresh h] assms(2) writes_touches unfolding assms(1) [symmetric]
  by (elim disjE conjE exE) (simp_all add: record_effects_def)

lemma recorded_guid_fine:
  "record_fine M (guid_file h) \<Longrightarrow> fst (recorded_guid i h) = Some g \<Longrightarrow> lc g \<in> M"
  by (auto simp: recorded_guid_def record_fine_def trim_guid split: option.splits if_splits)

lemma orphan_touches:
  "record_fine M (guid_file h) \<Longrightarrow> list_all (touches M) (snd (reconcile_orphan_rule i h))"
  using orphan_removal [OF exact_own] orphan_unrecorded removal_touches recorded_guid_fine
  by (cases "fst (recorded_guid i h)") (simp, blast)

lemma run_touches:
  "record_fine M (guid_file h) \<Longrightarrow> list_all (touches M) (snd (run i1 i2 m pid replies h))"
  using reconcile_removal [OF exact_own] reconcile_unrecorded removal_touches recorded_guid_fine
  unfolding run_effects by (cases "fst (recorded_guid i2 h)") (simp, blast)

lemma remove_guid_touches: "lc g \<in> M \<Longrightarrow> list_all (touches M) (snd (remove_guid i g h))"
  using remove_guid_removal [OF exact_own] removal_touches by blast

lemma start_touches:
  assumes "record_fine M (guid_file h)" "lc (se_fresh se) \<in> M"
  shows "list_all (touches M) (snd (start i cfg lcfg se h))
    \<and> (\<forall>g. wp_guid (fst (start i cfg lcfg se h)) = Some g \<longrightarrow> lc g \<in> M)"
proof (cases rule: start_cases [of i cfg lcfg se h])
  case quiet
  then show ?thesis
    using orphan_touches [OF assms(1)] by simp
next
  case (served la ups st bound)
  let ?g = "case fst (recorded_guid i h) of Some g \<Rightarrow> g | None \<Rightarrow> se_fresh se"
  have "lc ?g \<in> M"
    using assms recorded_guid_fine by (simp split: option.split)
  then show ?thesis
    using served(6) install_touches [OF refl] serve_guid by auto
qed

lemma touches_mono: "list_all (touches M) es \<Longrightarrow> M \<subseteq> N \<Longrightarrow> list_all (touches N) es"
proof (induction es)
  case (Cons e es)
  then show ?case
    by (cases e) auto
qed simp

lemma record_fine_mono: "record_fine M f \<Longrightarrow> M \<subseteq> N \<Longrightarrow> record_fine N f"
  by (auto simp: record_fine_def)

lemma touches_joined:
  "es \<in> joined H running new \<Longrightarrow> list_all (touches M) running \<Longrightarrow> list_all (touches M) new \<Longrightarrow>
     list_all (touches M) es"
  by (auto simp: list_all_iff dest!: joined_set)

lemma touches_subseq: "subseq es fs \<Longrightarrow> list_all (touches M) fs \<Longrightarrow> list_all (touches M) es"
  by (induction rule: list_emb.induct) auto

lemma world_tame_step:
  assumes "world_tame s" "world_step H s s'"
  shows "world_tame s'"
  using assms(2)
proof cases
  case (effect_step e es)
  then show ?thesis
    using assms(1) by (cases e) (auto simp: world_tame_def record_fine_def)
next
  case (start_step es i cfg lcfg se)
  let ?M = "insert (lc (se_fresh se)) (w_minted s)"
  have fine: "record_fine ?M (guid_file (w_host s))" "record_fine ?M (guid_disk (w_host s))"
    "list_all (touches ?M) (w_pending s)"
    using assms(1) record_fine_mono [OF _ subset_insertI] touches_mono [OF _ subset_insertI]
    by (simp_all add: world_tame_def)
  then have new: "list_all (touches ?M) (snd (start i cfg lcfg se (w_host s)))"
    "\<forall>g. wp_guid (fst (start i cfg lcfg se (w_host s))) = Some g \<longrightarrow> lc g \<in> ?M"
    using start_touches [of ?M "w_host s" se i cfg lcfg] by simp_all
  then show ?thesis
    using start_step(1) fine(1,2) touches_joined [OF start_step(2) fine(3) new(1)] by (simp add: world_tame_def)
next
  case (stop_step es i wp)
  have "list_all (touches (w_minted s)) (snd (stop i wp (w_host s)))"
    using assms(1) stop_step(3) remove_guid_touches
    by (cases "w_guid s") (auto simp: world_tame_def stop_effects)
  then show ?thesis
    using assms(1) stop_step(1) touches_joined [OF stop_step(2)] by (simp add: world_tame_def)
next
  case (watchdog_step es i g t w)
  have "list_all (touches (w_minted s)) (snd (watchdog_round i g t w (w_host s)))"
    using assms(1) watchdog_step(3) remove_guid_touches watchdog_round_effects [of i g t w "w_host s"]
    by (auto simp: world_tame_def)
  then show ?thesis
    using assms(1) watchdog_step(1) touches_joined [OF watchdog_step(2)] by (simp add: world_tame_def)
next
  case (reconciler_step es i1 i2 m pid replies)
  then show ?thesis
    using assms(1) touches_joined [OF reconciler_step(2) _ run_touches] by (simp add: world_tame_def)
next
  case (crash_step es g)
  then show ?thesis
    using assms(1) touches_subseq by (auto simp: world_tame_def)
qed (use assms(1) in \<open>simp_all add: world_tame_def\<close>)

lemma reachable_tame: "reachable H s \<Longrightarrow> world_tame s"
proof (induction rule: reachable.induct)
  case (fresh h)
  then show ?case
    by (simp add: world_tame_def record_fine_def)
next
  case (later s s')
  then show ?case
    using world_tame_step by blast
qed

lemma foreign_put: "lc g \<in> M \<Longrightarrow> foreign_keys M (map_option (put_key g) q) = foreign_keys M q"
  by (cases q) (simp_all add: foreign_keys_def put_key_def)

lemma foreign_update: "lc g \<in> M \<Longrightarrow> foreign_keys M (map_option (update_key g f) q) = foreign_keys M q"
proof (cases q)
  case (Some ks)
  assume "lc g \<in> M"
  then have "filter (\<lambda>(n, _). lc n \<notin> M) (update_key g f ks) = filter (\<lambda>(n, _). lc n \<notin> M) ks"
    by (induction ks) (auto simp: update_key_def same_key_def)
  then show ?thesis
    using Some by (simp add: foreign_keys_def)
qed (simp add: foreign_keys_def)

lemma foreign_drop: "lc g \<in> M \<Longrightarrow> foreign_keys M (map_option (drop_key g) q) = foreign_keys M q"
  by (cases q) (auto simp: foreign_keys_def drop_key_def same_key_def intro!: filter_cong)

lemma foreign_container: "foreign_keys M (Some (case q of None \<Rightarrow> [] | Some ks \<Rightarrow> ks)) = foreign_keys M q"
  by (cases q) (simp_all add: foreign_keys_def)

lemma touches_foreign:
  "touches M e \<Longrightarrow> foreign_keys M (policy_keys (perform e h)) = foreign_keys M (policy_keys h)"
  by (cases e) (simp_all add: foreign_put foreign_update foreign_drop foreign_container)

lemma touches_foreign_all:
  "list_all (touches M) es \<Longrightarrow> foreign_keys M (policy_keys (perform_all es h)) = foreign_keys M (policy_keys h)"
  by (induction es arbitrary: h) (simp_all add: touches_foreign)

section \<open>Cleaning up\<close>

text \<open>What a run of the reconciler and a start that does not serve leave: every rule of ours but the recorded
  one, whatever the history.\<close>

lemma reachable_record_fine: "reachable H s \<Longrightarrow> record_fine (w_minted s) (guid_file (w_host s))"
  using reachable_tame by (auto simp: world_tame_def)

lemma own_keys_without: "\<not> has_key g (keys_of q) \<Longrightarrow> own_keys M q - {lc g} = own_keys M q"
  using own_keys_absent by blast

lemma recovery:
  assumes "record_fine M (guid_file h)" "\<not> probe_addr pid replies" "m \<noteq> Dry_Run"
  shows "let h' = perform_all (snd (run i1 calm m pid replies h)) h in
    own_keys M (policy_keys h') = own_keys M (policy_keys h) - recorded_name (guid_file h) \<and> guid_file h' = None"
proof (cases "guid_file h")
  case None
  then have "recorded_guid calm h = (None, [])"
    by (simp add: recorded_guid_def)
  then show ?thesis
    using None assms(2) by (simp add: run_effects reconcile_def bind_op_def ret_def recorded_name_def)
next
  case (Some g)
  then have g: "guid_shaped g"
    using assms(1) by (simp add: record_fine_def)
  then show ?thesis
    using calm_reconcile [OF Some g assms(3)] assms(2) Some own_keys_without
    by (simp add: run_effects Let_def recorded_name_def)
qed

lemma unserved_start:
  assumes "wp_state (fst (start i cfg lcfg se h)) \<noteq> Wp_Serving"
  shows "snd (start i cfg lcfg se h) = snd (reconcile_orphan_rule i h)"
  using assms by (cases rule: start_cases [of i cfg lcfg se h]) (auto simp: serve_def split: sum.splits)

lemma orphan_cleanup:
  assumes "record_fine M (guid_file h)"
  shows "own_keys M (policy_keys (perform_all (snd (reconcile_orphan_rule calm h)) h))
    = own_keys M (policy_keys h) - recorded_name (guid_file h)"
proof (cases "guid_file h")
  case None
  then show ?thesis
    by (simp add: reconcile_orphan_rule_def recorded_guid_def recorded_name_def)
next
  case (Some g)
  then have g: "guid_shaped g"
    using assms by (simp add: record_fine_def)
  have r: "fst (recorded_guid calm h) = Some g"
    using Some g by (simp add: recorded_guid_def trim_guid)
  show ?thesis
  proof (cases "has_key g (keys_of (policy_keys h))")
    case True
    then show ?thesis
      using r Some calm_exists [OF g] calm_remove [OF g True]
      by (simp add: reconcile_orphan_rule_def remove_guid_def clear_guid_def recorded_name_def)
  next
    case False
    then show ?thesis
      using r Some calm_exists [OF g] own_keys_without
      by (simp add: reconcile_orphan_rule_def recorded_name_def)
  qed
qed

end
