(* ===== verification/Nrpt_Spec.thy ===== *)
theory Nrpt_Spec
  imports Nrpt_World
begin

text \<open>
  The properties of the rule: exactly which hazards a history may meet without a rule of ours escaping the
  record, that rules of others are never touched, what one run of the reconciler and a start that does not
  serve clean up, what an exit code of zero says, and that a start passes every gate before it writes. A
  start on a sample machine, worked out in full, shows that the hypotheses are met, and histories that go
  on from it show what each hazard loses.
\<close>

section \<open>A sample machine\<close>

definition sample_guid :: string where
  "sample_guid = ''{01234567-89ab-cdef-0123-456789abcdef}''"

definition sample_resolver :: socket_addr where
  "sample_resolver = plain_addr (V4 0x09090909) 53"

definition sample_listen :: socket_addr where
  "sample_listen = plain_addr (V4 0x7F000001) 53"

text \<open>An upstream that answers every query for the health-check name with one address.\<close>

definition answered :: "u8 list \<Rightarrow> u8 list" where
  "answered b = take 2 b @ [0x81, 0x80, 0, 1, 0, 1, 0, 0, 0, 0] @ take 17 (drop 12 b)
     @ [0xC0, 0x0C, 0, 1, 0, 1, 0, 0, 0, 60, 0, 4, 93, 184, 216, 34]"

definition live_net :: env where
  "live_net = dead_net\<lparr>udp_open := (\<lambda>_. True), udp_recv := (\<lambda>_ b. [Datagram (answered b)])\<rparr>"

definition live_probes :: probe_env where
  "live_probes = own_probes live_net (plain_addr (V4 0x7F000001) 40000)"

definition task_file :: "u8 list" where
  "task_file = map (\<lambda>c. word_of_nat (of_char c)) (concat
     [''<Task><Settings><Enabled>true</Enabled></Settings><Command>'', [CHR 0x22], ''%P%/dnsreconcile.exe'',
      [CHR 0x22], ''</Command></Task>''])"

definition sample_task :: task_env where
  "sample_task =
     \<lparr>env_var = (\<lambda>v. if v = ''P'' \<or> v = ''SystemRoot'' then Some ''C:'' else None),
      absolute_path = (\<lambda>p. take 2 p = ''C:''), existing_file = (\<lambda>p. p = ''C:/dnsreconcile.exe''),
      task_bytes = Some task_file\<rparr>"

definition sample_web :: web_config where
  "sample_web =
     \<lparr>wc_enabled = True, wc_listen = Some sample_listen, wc_upstreams = [Address_Entry sample_resolver],
      wc_block_response = ''nxdomain'', wc_health_name = ''example.com''\<rparr>"

definition no_lists :: list_config where
  "no_lists = \<lparr>lc_allow = [], lc_block = []\<rparr>"

definition sample_start :: start_env where
  "sample_start =
     \<lparr>se_adapters = Inr [], se_files = (\<lambda>_. None), se_port = Some 53, se_net = live_net, se_probes = live_probes,
      se_task = sample_task, se_fresh = sample_guid\<rparr>"

definition bare_host :: host where
  "bare_host = \<lparr>policy_keys = None, policy_disk = None, guid_file = None, guid_disk = None\<rparr>"

text \<open>The start, step by step.\<close>

definition started :: proxy_state where
  "started = initial_state (start_proxy_config sample_web sample_listen [sample_resolver]) new_engine"

definition seen :: "nat \<Rightarrow> nat \<Rightarrow> proxy_state" where
  "seen t probes = started\<lparr>txid_counter := t, counts := zero_counters\<lparr>canary_probes := probes\<rparr>\<rparr>"

lemma start_resolves:
  "resolve_upstreams (se_adapters sample_start) (wc_upstreams sample_web) sample_listen = Inr [sample_resolver]"
  by code_simp

lemma start_bind_checks:
  "bind_proxy (start_proxy_config sample_web sample_listen [sample_resolver]) new_engine 53
    = Inr (started, sample_listen)"
  by code_simp

lemma start_binds:
  "bind_start sample_web sample_start sample_listen [sample_resolver]
     (snd (load_lists (se_files sample_start) no_lists new_engine)) = Some (started, sample_listen)"
  using start_bind_checks by (simp add: bind_start_def sample_start_def load_lists_def no_lists_def)

lemma start_steps:
  "state_decide CANARY_DOMAIN started = (Block, started)"
  "upstream_step live_net started = (True, 1, 1, [], seen 2 0)"
  "canary_udp_step live_net live_probes (seen 2 0) = (True, seen 3 1)"
  "state_decide (health_check_name (config (seen 3 1))) (seen 3 1) = (Allow, seen 3 1)"
  by code_simp+

lemma start_name_step: "fst (name_udp_step live_net live_probes (seen 3 1))"
  by code_simp

lemma self_test_green:
  assumes "state_decide CANARY_DOMAIN st0 = (Block, st1)" "upstream_step ev st1 = (True, h, n, notes', st2)"
    "canary_udp_step ev pe st2 = (True, st3)"
    "state_decide (health_check_name (config st3)) st3 = (Allow, st4)" "name_udp_step ev pe st4 = (True, st5)"
    "canary_tcp_step ev pe st5 = (True, st6)"
    "wrapping_sub (canary_probes (counts st6)) (canary_probes (counts st2)) \<ge> 2"
    "queries (counts st6) = queries (counts st2)" "blocked (counts st6) = blocked (counts st2)"
  shows "report_ok (fst (self_test ev pe st0))"
  unfolding self_test_def assms(1-6) Let_def prod.case using assms(7-9) by (simp add: report_ok_def)

lemma seen_counts: "counts (seen t probes) = zero_counters\<lparr>canary_probes := probes\<rparr>"
  by (simp add: seen_def)

lemma sample_self_test: "report_ok (fst (self_test live_net live_probes started))"
proof -
  obtain st5 where n: "name_udp_step live_net live_probes (seen 3 1) = (True, st5)"
    using start_name_step by (cases "name_udp_step live_net live_probes (seen 3 1)") auto
  then have c: "counts st5 = counts (seen 3 1)
      \<or> counts st5 = (counts (seen 3 1))\<lparr>canary_probes := canary_probes (counts (seen 3 1)) + 1\<rparr>"
    unfolding live_probes_def by (rule name_step_own)
  obtain st6 where t: "canary_tcp_step live_net live_probes st5 = (True, st6)"
      "counts st6 = (counts st5)\<lparr>canary_probes := canary_probes (counts st5) + 1\<rparr>"
    using canary_tcp_own [of live_net live_net "plain_addr (V4 0x7F000001) 40000" st5]
    unfolding live_probes_def by blast
  show ?thesis
    by (rule self_test_green [OF start_steps n t(1)])
      (use c t(2) in \<open>auto simp: seen_counts zero_counters_def wrapping_sub_def\<close>)
qed

lemma sample_install:
  "recorded_guid calm bare_host = (None, [])"
  "install calm sample_task sample_listen None sample_guid bare_host
    = (Inr sample_guid, record_effects sample_guid @ [Create_Container, Create_Key sample_guid]
        @ map (Set_Value sample_guid) [Name_Value [''.''], Servers_Value ''127.0.0.1'', Options_Value 8,
            Version_Value 2, Comment_Value rule_comment])"
  by code_simp+

definition sample_effects :: "effect list" where
  "sample_effects = record_effects sample_guid @ [Create_Container, Create_Key sample_guid]
     @ map (Set_Value sample_guid) [Name_Value [''.''], Servers_Value ''127.0.0.1'', Options_Value 8,
         Version_Value 2, Comment_Value rule_comment]"

lemma start_serves:
  assumes "wc_enabled cfg" "wc_listen cfg = Some la" "resolve_upstreams (se_adapters se) (wc_upstreams cfg) la = Inr ups"
    "bind_start cfg se la ups (snd (load_lists (se_files se) lcfg new_engine)) = Some (st, bound)"
    "report_ok (fst (self_test (se_net se) (se_probes se) st))"
  shows "start i cfg lcfg se h = serve i se bound (snd (self_test (se_net se) (se_probes se) st)) h"
  using assms by (simp add: start_def test_and_serve_def Let_def case_prod_unfold)

lemma sample_serves_fresh:
  "start i sample_web no_lists (sample_start\<lparr>se_fresh := g\<rparr>) h
    = serve i (sample_start\<lparr>se_fresh := g\<rparr>) sample_listen (snd (self_test live_net live_probes started)) h"
proof -
  let ?se = "sample_start\<lparr>se_fresh := g\<rparr>"
  have "report_ok (fst (self_test (se_net ?se) (se_probes ?se) started))"
    "wc_enabled sample_web" "wc_listen sample_web = Some sample_listen"
    using sample_self_test by (simp_all add: sample_start_def sample_web_def)
  moreover have "resolve_upstreams (se_adapters ?se) (wc_upstreams sample_web) sample_listen = Inr [sample_resolver]"
    using start_resolves by (simp add: sample_start_def)
  moreover have "bind_start sample_web ?se sample_listen [sample_resolver]
      (snd (load_lists (se_files ?se) no_lists new_engine)) = Some (started, sample_listen)"
    using start_binds by (simp add: bind_start_def)
  ultimately show ?thesis
    using start_serves by (simp add: sample_start_def)
qed

lemma sample_serves:
  "start i sample_web no_lists sample_start h
    = serve i sample_start sample_listen (snd (self_test live_net live_probes started)) h"
  using sample_serves_fresh [of i sample_guid h] by (simp add: sample_start_def)

lemma sample_started:
  "snd (start calm sample_web no_lists sample_start bare_host) = sample_effects"
  "wp_guid (fst (start calm sample_web no_lists sample_start bare_host)) = Some sample_guid"
  "wp_state (fst (start calm sample_web no_lists sample_start bare_host)) = Wp_Serving"
  unfolding sample_serves
  by (simp_all add: serve_def sample_install sample_start_def sample_effects_def)

text \<open>A world in which that start has come to its end.\<close>

fun orderly :: "host \<Rightarrow> effect list \<Rightarrow> bool" where
  "orderly h [] \<longleftrightarrow> True"
| "orderly h (e # es) \<longleftrightarrow> (e = Sync_Record \<longrightarrow> settled h) \<and> orderly (perform e h) es"

lemma run_effects_reachable:
  assumes "reachable H s" "orderly (w_host s) (w_pending s)"
  shows "reachable H (s\<lparr>w_host := perform_all (w_pending s) (w_host s), w_pending := []\<rparr>)"
  using assms
proof (induction "w_pending s" arbitrary: s)
  case Nil
  then have "s\<lparr>w_host := perform_all (w_pending s) (w_host s), w_pending := []\<rparr> = s"
    by (cases s) simp
  then show ?case
    using Nil.prems(1) by (simp only:)
next
  case (Cons e es)
  let ?s = "s\<lparr>w_host := perform e (w_host s), w_pending := es\<rparr>"
  note pending = Cons.hyps(2) [symmetric]
  have "world_step H s ?s"
    using Cons.prems(2) unfolding pending by (intro world_step.effect_step [OF pending]) simp
  then have "reachable H ?s"
    using Cons.prems(1) reachable.later by blast
  then have "reachable H (?s\<lparr>w_host := perform_all (w_pending ?s) (w_host ?s), w_pending := []\<rparr>)"
    using Cons.prems(2) unfolding pending by (intro Cons.hyps(1)) simp_all
  then show ?case
    unfolding pending by simp
qed

definition serving_world :: world where
  "serving_world = \<lparr>w_host = perform_all sample_effects bare_host, w_pending = [], w_guid = Some sample_guid,
     w_minted = {lc sample_guid}\<rparr>"

lemma sample_guid_shaped: "guid_shaped sample_guid"
  by code_simp

lemma serving_reachable: "reachable H serving_world"
proof -
  let ?w = "\<lambda>es g M. \<lparr>w_host = bare_host, w_pending = es, w_guid = g, w_minted = M\<rparr>"
  have "reachable H (?w [] None {})"
    by (rule reachable.fresh) (simp_all add: bare_host_def)
  moreover have "world_step H (?w [] None {}) (?w sample_effects (Some sample_guid) {lc sample_guid})"
    using world_step.start_step [of sample_effects H "?w [] None {}" calm sample_web no_lists sample_start]
      sample_started sample_guid_shaped
    by (simp add: sample_start_def bare_host_def key_names_def)
  ultimately have r: "reachable H (?w sample_effects (Some sample_guid) {lc sample_guid})"
    by (rule reachable.later)
  have "orderly bare_host sample_effects"
    by code_simp
  then show ?thesis
    using run_effects_reachable [OF r] by (simp add: serving_world_def)
qed

lemma serving_live: "own_keys (w_minted serving_world) (policy_keys (w_host serving_world)) = {lc sample_guid}"
  by code_simp

lemma serving_recorded: "guid_file (w_host serving_world) = Some sample_guid"
  by code_simp

section \<open>What each hazard loses\<close>

text \<open>A rule of ours is lost when the record does not name it: neither the daemon nor the reconciler will
  ever take it away.\<close>

definition none_lost :: "string set \<Rightarrow> policy \<Rightarrow> string option \<Rightarrow> bool" where
  "none_lost M q f \<longleftrightarrow>
     (\<forall>(n, k) \<in> set (keys_of q). lc n \<in> M \<longrightarrow> (\<exists>g. f = Some g \<and> same_key n g))"

lemma none_lost_iff: "none_lost M q f \<longleftrightarrow> own_keys M q \<subseteq> recorded_name f"
  unfolding none_lost_def own_keys_def recorded_name_def same_key_def
  by (cases f) (fastforce simp: image_iff)+

abbreviation live_tracked :: "world \<Rightarrow> bool" where
  "live_tracked s \<equiv> none_lost (w_minted s) (policy_keys (w_host s)) (guid_file (w_host s))"

abbreviation disk_tracked :: "world \<Rightarrow> bool" where
  "disk_tracked s \<equiv> none_lost (w_minted s) (policy_disk (w_host s)) (guid_disk (w_host s))"

text \<open>A read of the record that fails is taken for a machine without a rule: the next start makes up a new
  GUID, overwrites the record and leaves the live rule under a name nobody knows.\<close>

definition unreadable :: io where
  "unreadable = calm\<lparr>file_readable := False\<rparr>"

definition second_guid :: string where
  "second_guid = ''{aaaaaaaa-89ab-cdef-0123-456789abcdef}''"

definition restart :: start_env where
  "restart = sample_start\<lparr>se_fresh := second_guid\<rparr>"

text \<open>The serving world, its rule on the disk, and the start that follows.\<close>

definition flushed_world :: world where
  "flushed_world =
     serving_world\<lparr>w_host := (w_host serving_world)\<lparr>policy_disk := policy_keys (w_host serving_world)\<rparr>\<rparr>"

lemma flushed_reachable: "reachable H flushed_world"
  unfolding flushed_world_def by (rule reachable.later [OF serving_reachable world_step.flush_policy_step])

lemma flushed_idle: "w_pending flushed_world = []" "w_guid flushed_world = Some sample_guid"
  "w_minted flushed_world = {lc sample_guid}"
  by (simp_all add: flushed_world_def serving_world_def)

lemma restart_install:
  "let h = w_host flushed_world; r = install unreadable sample_task sample_listen None second_guid h in
   fst (recorded_guid unreadable h) = None \<and> fst r = Inr second_guid
   \<and> map fst (keys_of (policy_keys (perform_all (snd r) h))) = [sample_guid, second_guid]
   \<and> guid_file (perform_all (snd r) h) = Some second_guid \<and> orderly h (snd r)"
  by code_simp

lemma unread_start:
  "let r = start unreadable sample_web no_lists restart (w_host flushed_world);
       h = perform_all (snd r) (w_host flushed_world) in
   wp_state (fst r) = Wp_Serving \<and> orderly (w_host flushed_world) (snd r)
   \<and> map fst (keys_of (policy_keys h)) = [sample_guid, second_guid] \<and> guid_file h = Some second_guid"
  using restart_install unfolding restart_def sample_serves_fresh
  by (simp add: serve_def sample_start_def Let_def)

lemma second_guid_new:
  "guid_shaped second_guid \<and> lc second_guid \<notin> w_minted flushed_world
     \<union> key_names (policy_keys (w_host flushed_world)) \<union> key_names (policy_disk (w_host flushed_world))
   \<and> \<not> same_key sample_guid second_guid"
  by code_simp

lemma lost_by_name:
  assumes "map fst (keys_of q) = ns" "n \<in> set ns" "lc n \<in> M" "\<And>g. f = Some g \<Longrightarrow> \<not> same_key n g"
  shows "\<not> none_lost M q f"
  using assms unfolding none_lost_def by force

lemma unread_record_loses_rule: "\<exists>s. reachable {Unread_Record} s \<and> \<not> live_tracked s"
proof -
  let ?r = "start unreadable sample_web no_lists restart (w_host flushed_world)"
  let ?s = "flushed_world\<lparr>w_minted := insert (lc second_guid) {lc sample_guid}, w_pending := snd ?r,
     w_guid := wp_guid (fst ?r)\<rparr>"
  let ?t = "?s\<lparr>w_host := perform_all (snd ?r) (w_host flushed_world), w_pending := []\<rparr>"
  have "world_step {Unread_Record} flushed_world ?s"
    using world_step.start_step [of "snd ?r" "{Unread_Record}" flushed_world unreadable sample_web no_lists restart]
      second_guid_new by (simp add: flushed_idle restart_def)
  then have "reachable {Unread_Record} ?s"
    using reachable.later flushed_reachable by blast
  then have "reachable {Unread_Record} ?t"
    using run_effects_reachable [of "{Unread_Record}" ?s] unread_start by (simp add: Let_def)
  moreover have "\<not> live_tracked ?t"
    using unread_start second_guid_new
    by (intro lost_by_name [of _ "[sample_guid, second_guid]" sample_guid]) (auto simp: Let_def)
  ultimately show ?thesis
    by blast
qed

text \<open>The reconciler and the daemon share the record and no lock. A run that falls between the record and
  the key finds a record without a rule and clears it; the key that is then created is recorded nowhere.\<close>

definition recorded_world :: world where
  "recorded_world = \<lparr>w_host = perform_all (record_effects sample_guid) bare_host,
     w_pending = drop 2 sample_effects, w_guid = Some sample_guid, w_minted = {lc sample_guid}\<rparr>"

lemma sample_pending_reachable:
  "reachable H \<lparr>w_host = bare_host, w_pending = sample_effects, w_guid = Some sample_guid,
     w_minted = {lc sample_guid}\<rparr>" (is "reachable H ?s")
proof -
  let ?w = "\<lparr>w_host = bare_host, w_pending = [], w_guid = None, w_minted = {}\<rparr>"
  have "world_step H ?w ?s"
    using world_step.start_step [of sample_effects H ?w calm sample_web no_lists sample_start]
      sample_started sample_guid_shaped
    by (simp add: sample_start_def bare_host_def key_names_def)
  moreover have "reachable H ?w"
    by (rule reachable.fresh) (simp_all add: bare_host_def)
  ultimately show ?thesis
    by (rule reachable.later [rotated])
qed

lemma recorded_reachable: "reachable H recorded_world"
proof -
  let ?w = "\<lambda>h es. \<lparr>w_host = h, w_pending = es, w_guid = Some sample_guid, w_minted = {lc sample_guid}\<rparr>"
  let ?h = "perform (Put_Record sample_guid) bare_host"
  have "sample_effects = Put_Record sample_guid # Sync_Record # drop 2 sample_effects"
    by (simp add: sample_effects_def record_effects_def)
  then have "world_step H (?w bare_host sample_effects) (?w ?h (Sync_Record # drop 2 sample_effects))"
    using world_step.effect_step [of "?w bare_host sample_effects" "Put_Record sample_guid"] by simp
  moreover have "world_step H (?w ?h (Sync_Record # drop 2 sample_effects)) recorded_world"
    using world_step.effect_step [of "?w ?h (Sync_Record # drop 2 sample_effects)" Sync_Record]
    by (simp add: recorded_world_def record_effects_def settled_def bare_host_def)
  ultimately show ?thesis
    using sample_pending_reachable reachable.later by blast
qed

lemma racing_run:
  "let h1 = w_host recorded_world; es = snd (run calm calm Reconcile_Mode 7 [] h1);
       h3 = perform_all (es @ w_pending recorded_world) h1 in
   fst (run calm calm Reconcile_Mode 7 [] h1) = 0 \<and> orderly h1 (es @ w_pending recorded_world)
   \<and> map fst (keys_of (policy_keys h3)) = [sample_guid] \<and> guid_file h3 = None"
  by code_simp

lemma overlap_loses_rule: "\<exists>s. reachable {Overlap} s \<and> \<not> live_tracked s"
proof -
  let ?es = "snd (run calm calm Reconcile_Mode 7 [] (w_host recorded_world))"
  let ?s = "recorded_world\<lparr>w_pending := ?es @ w_pending recorded_world\<rparr>"
  let ?t = "?s\<lparr>w_host := perform_all (w_pending ?s) (w_host ?s), w_pending := []\<rparr>"
  have "?es @ w_pending recorded_world \<in> joined {Overlap} (w_pending recorded_world) ?es"
    by (rule joined_first) simp
  then have "world_step {Overlap} recorded_world ?s"
    by (rule world_step.reconciler_step)
  then have "reachable {Overlap} ?s"
    using recorded_reachable reachable.later by blast
  then have "reachable {Overlap} ?t"
    by (rule run_effects_reachable) (use racing_run in \<open>simp add: Let_def\<close>)
  moreover have "\<not> live_tracked ?t"
    using racing_run
    by (intro lost_by_name [of _ "[sample_guid]" sample_guid]) (auto simp: Let_def recorded_world_def)
  ultimately show ?thesis
    by blast
qed

text \<open>Removing the rule deletes the key and then the record. Where the record's deletion reaches the disk
  and the key's has not, a loss of power brings the rule back without its record.\<close>

definition half_stopped :: world where
  "half_stopped = flushed_world\<lparr>w_host := (w_host flushed_world)\<lparr>policy_keys := Some [], guid_file := None,
     guid_disk := None\<rparr>, w_guid := Some sample_guid\<rparr>"

lemma half_stopped_reachable: "reachable {Early_Record} half_stopped"
proof -
  let ?wp = "fst (start calm sample_web no_lists sample_start bare_host)"
  let ?s2 = "flushed_world\<lparr>w_pending := snd (stop calm ?wp (w_host flushed_world))\<rparr>"
  let ?s3 = "?s2\<lparr>w_host := perform_all (w_pending ?s2) (w_host ?s2), w_pending := []\<rparr>"
  have stop: "snd (stop calm ?wp (w_host flushed_world)) = [Delete_Key sample_guid, Delete_Record]"
  proof -
    have "snd (remove_guid calm sample_guid (w_host flushed_world)) = [Delete_Key sample_guid, Delete_Record]"
      by code_simp
    then show ?thesis
      by (simp add: stop_effects sample_started)
  qed
  have "world_step {Early_Record} flushed_world ?s2"
    by (rule world_step.stop_step [where i = calm and wp = ?wp])
      (simp_all only: flushed_idle sample_started joined_idle insertI1)
  then have "reachable {Early_Record} ?s2"
    using flushed_reachable reachable.later by blast
  then have "reachable {Early_Record} ?s3"
    by (rule run_effects_reachable) (use stop in simp)
  then have "reachable {Early_Record} (?s3\<lparr>w_host := (w_host ?s3)\<lparr>guid_disk := guid_file (w_host ?s3)\<rparr>\<rparr>)"
    by (rule reachable.later) (rule world_step.flush_record_step, simp)
  moreover have "?s3\<lparr>w_host := (w_host ?s3)\<lparr>guid_disk := guid_file (w_host ?s3)\<rparr>\<rparr> = half_stopped"
  proof -
    have "perform_all [Delete_Key sample_guid, Delete_Record] (w_host flushed_world)
        = (w_host flushed_world)\<lparr>policy_keys := Some [], guid_file := None\<rparr>"
      by code_simp
    then show ?thesis
      using stop flushed_idle by (simp add: half_stopped_def)
  qed
  ultimately show ?thesis
    by simp
qed

lemma half_stopped_disk:
  "map fst (keys_of (policy_disk (w_host half_stopped))) = [sample_guid]"
  "guid_disk (w_host half_stopped) = None" "lc sample_guid \<in> w_minted half_stopped"
  by code_simp+

lemma half_stopped_untracked: "\<not> disk_tracked half_stopped"
  using half_stopped_disk by (intro lost_by_name [of _ "[sample_guid]" sample_guid]) simp_all

lemma early_record_loses_disk: "\<exists>s. reachable {Early_Record} s \<and> \<not> disk_tracked s"
  using half_stopped_reachable half_stopped_untracked by blast

lemma lost_power_loses_record: "\<exists>s. reachable {Early_Record, Power_Failure} s \<and> \<not> live_tracked s"
proof -
  let ?t = "half_stopped\<lparr>w_host := (w_host half_stopped)\<lparr>policy_keys := policy_disk (w_host half_stopped),
     guid_file := guid_disk (w_host half_stopped)\<rparr>, w_pending := [], w_guid := None\<rparr>"
  have "reachable {Early_Record, Power_Failure} ?t"
    by (rule reachable.later [OF reachable_mono [OF half_stopped_reachable] world_step.power_step]) auto
  moreover have "\<not> live_tracked ?t"
    using half_stopped_untracked by simp
  ultimately show ?thesis
    by blast
qed

section \<open>Properties\<close>

text \<open>
C3: Exactly when a rule of ours can be lost track of. Over all histories of starts, stops, rounds of the
watchdog and runs of the reconciler, killed between any two effects and with other software editing the
policy in between, every live rule under a GUID the daemon made up is the one the record names if and
only if the histories meet no hazard but losses of power, or none but changes of the record that reach
the disk before the policy's; with losses of power alone, and only then, the same holds of what the disk
holds. A failed read of the record, overlapping operations, or an early record together with a loss of
power does lose a rule: the code excludes none of them.
\<close>

theorem own_rules_are_recorded:
  "((\<forall>s. reachable H s \<longrightarrow> live_tracked s) \<longleftrightarrow> H \<subseteq> {Power_Failure} \<or> H \<subseteq> {Early_Record})
   \<and> ((\<forall>s. reachable H s \<longrightarrow> live_tracked s \<and> disk_tracked s) \<longleftrightarrow> H \<subseteq> {Power_Failure})"
proof -
  have live: "live_tracked s" if "reachable H s" "harmless H" for s
    using reachable_named [OF that] by (simp add: none_lost_iff)
  have disk: "disk_tracked s" if "reachable H s" "H \<subseteq> {Power_Failure}" for s
    using reachable_named_disk [OF that] by (simp add: none_lost_iff)
  have lost: "\<exists>s. reachable H s \<and> \<not> live_tracked s" if "\<not> harmless H"
  proof -
    have "\<exists>x \<in> H. x \<noteq> Power_Failure" "\<exists>y \<in> H. y \<noteq> Early_Record"
      using that by (simp_all add: harmless_def subset_iff Bex_def)
    then obtain x y where "x \<in> H" "x \<noteq> Power_Failure" "y \<in> H" "y \<noteq> Early_Record"
      by (elim bexE)
    then have "{Unread_Record} \<subseteq> H \<or> {Overlap} \<subseteq> H \<or> {Early_Record, Power_Failure} \<subseteq> H"
      by (cases x; cases y) simp_all
    then show ?thesis
      using unread_record_loses_rule overlap_loses_rule lost_power_loses_record reachable_mono
      by (elim disjE) blast+
  qed
  have gone: "\<exists>s. reachable H s \<and> \<not> disk_tracked s" if "Early_Record \<in> H"
    using early_record_loses_disk reachable_mono [of "{Early_Record}" _ H] that by blast
  have "harmless H" if "H \<subseteq> {Power_Failure}"
    using that by (simp add: harmless_def)
  moreover have "H \<subseteq> {Power_Failure}" if "harmless H" "Early_Record \<notin> H"
    using that unfolding harmless_def by blast
  ultimately show ?thesis
    using live disk lost gone unfolding harmless_def [symmetric] by blast
qed

theorem own_rules_are_recorded_witness:
  "live_tracked serving_world \<and> disk_tracked serving_world \<and> reachable {Power_Failure} serving_world
   \<and> sample_guid \<in> fst ` set (keys_of (policy_keys (w_host serving_world)))
   \<and> (\<exists>s. reachable {Overlap} s \<and> \<not> live_tracked s)"
proof -
  have "map fst (keys_of (policy_keys (w_host serving_world))) = [sample_guid]"
    by code_simp
  then have key: "sample_guid \<in> fst ` set (keys_of (policy_keys (w_host serving_world)))"
    by (metis list.set_intros(1) list.set_map)
  moreover have "live_tracked serving_world \<and> disk_tracked serving_world"
    using own_rules_are_recorded [of "{Power_Failure}"] serving_reachable by blast
  moreover have "\<exists>s. reachable {Overlap} s \<and> \<not> live_tracked s"
    using own_rules_are_recorded [of "{Overlap}"] by blast
  ultimately show ?thesis
    using serving_reachable by blast
qed

text \<open>
C24: Rules of others are never touched. In every reachable state, whatever hazards the history met,
carrying out what the running operations still have to do leaves every rule whose name the daemon did
not make up as it is, values and order included.
\<close>

theorem foreign_rules_untouched:
  assumes "reachable H s"
  shows "foreign_keys (w_minted s) (policy_keys (perform_all (w_pending s) (w_host s)))
    = foreign_keys (w_minted s) (policy_keys (w_host s))"
  using reachable_tame [OF assms] touches_foreign_all by (simp add: world_tame_def)

text \<open>The serving world with a rule of someone else, as the reconciler starts on it.\<close>

definition other_rule :: "string \<times> rule_key" where
  "other_rule = (''{corporate}'', empty_key\<lparr>rk_names := Some [''.corp''], rk_servers := Some ''10.0.0.53''\<rparr>)"

definition shared_world :: world where
  "shared_world = serving_world\<lparr>w_host := (w_host serving_world)\<lparr>policy_keys :=
     Some (other_rule # keys_of (policy_keys (w_host serving_world)))\<rparr>\<rparr>"

definition recovering_world :: world where
  "recovering_world = shared_world\<lparr>w_pending := snd (run calm calm Reconcile_Mode 7 [] (w_host shared_world))\<rparr>"

lemma recovering_reachable: "reachable H recovering_world"
proof -
  have "own_keys (w_minted serving_world) (Some (other_rule # keys_of (policy_keys (w_host serving_world))))
      \<subseteq> own_keys (w_minted serving_world) (policy_keys (w_host serving_world))"
    by code_simp
  then have "reachable H shared_world"
    unfolding shared_world_def by (rule reachable.later [OF serving_reachable world_step.others_step])
  moreover have "world_step H shared_world recovering_world"
  proof -
    have "w_pending shared_world = []"
      by (simp add: shared_world_def serving_world_def)
    then show ?thesis
      unfolding recovering_world_def
      by (intro world_step.reconciler_step [of _ _ _ calm calm Reconcile_Mode 7 "[]"]) (simp only: joined_idle insertI1)
  qed
  ultimately show ?thesis
    by (rule reachable.later)
qed

theorem foreign_rules_untouched_witness:
  "w_pending recovering_world = [Delete_Key sample_guid, Delete_Record]
   \<and> foreign_keys (w_minted recovering_world)
       (policy_keys (perform_all (w_pending recovering_world) (w_host recovering_world))) = [other_rule]"
proof -
  have "w_pending recovering_world = [Delete_Key sample_guid, Delete_Record]"
    "foreign_keys (w_minted recovering_world) (policy_keys (w_host recovering_world)) = [other_rule]"
    by code_simp+
  then show ?thesis
    using foreign_rules_untouched [OF recovering_reachable] by simp
qed

text \<open>
C8: One run recovers. From any reachable state, a run of the reconciler in a mode that acts, while the
proxy does not answer and none of the run's own calls fails, takes away every live rule of ours that the
record names and the record itself, and leaves those that had been lost; after a history whose hazards
are harmless (losses of power, or an early record, not both; no failed read of the record, no overlap)
none is left.
\<close>

theorem one_run_recovers:
  assumes "reachable H s" "\<not> probe_addr pid replies" "m \<noteq> Dry_Run"
  shows "let h = perform_all (snd (run i1 calm m pid replies (w_host s))) (w_host s) in
    own_keys (w_minted s) (policy_keys h)
      = own_keys (w_minted s) (policy_keys (w_host s)) - recorded_name (guid_file (w_host s))
    \<and> guid_file h = None
    \<and> (H \<subseteq> {Power_Failure} \<or> H \<subseteq> {Early_Record} \<longrightarrow> own_keys (w_minted s) (policy_keys h) = {})"
  using recovery [OF reachable_record_fine [OF assms(1)] assms(2,3), of i1] reachable_named [OF assms(1)]
  by (simp add: Let_def harmless_def)

theorem one_run_recovers_witness:
  "own_keys (w_minted serving_world) (policy_keys (w_host serving_world)) \<noteq> {}
   \<and> (let h = perform_all (snd (run calm calm Reconcile_Mode 7 [None, None, None] (w_host serving_world)))
              (w_host serving_world) in
       own_keys (w_minted serving_world) (policy_keys h) = {} \<and> guid_file h = None)"
proof -
  have "\<not> probe_addr 7 [None, None, None]"
    by code_simp
  then show ?thesis
    using one_run_recovers [OF serving_reachable [of "{Power_Failure}"], of 7 "[None, None, None]" Reconcile_Mode calm]
      serving_live serving_recorded by (simp add: Let_def recorded_name_def)
qed

text \<open>What an exit code of zero promises.\<close>

lemma reconcile_zero:
  assumes "fst (reconcile i m answers h) = 0" "fst (recorded_guid i h) = Some g"
  shows "let es = snd (reconcile i m answers h) in
    if m = Dry_Run then es = []
    else \<not> has_key g (keys_of (policy_keys (perform_all es h))) \<or> m = Reconcile_Mode \<and> answers \<and> es = []"
proof (cases "fst (rule_exists i g h)")
  case (Inl e)
  then show ?thesis
    using assms by (simp add: reconcile_def)
next
  case (Inr b)
  then have b: "b = has_key g (keys_of (policy_keys h))"
    using rule_exists_Inr by blast
  have clear: "policy_keys (perform_all (snd (clear_guid i h')) h') = policy_keys h'" for h'
    by (simp add: clear_guid_def)
  have drop: "\<not> has_key g (keys_of (policy_keys (perform (Delete_Key g) h)))"
    by (cases "policy_keys h") (auto simp: has_key_def drop_key_def list_ex_iff)
  show ?thesis
  proof (cases b)
    case False
    then show ?thesis
      using Inr b assms clear by (simp add: reconcile_def)
  next
    case True
    note r = remove_rule_cases [of i g h]
    show ?thesis
      using Inr b assms clear drop True
      by (cases rule: r; cases m) (simp_all add: reconcile_def remove_recorded_def Let_def split: if_splits)
  qed
qed

lemma run_fst:
  "fst (run i1 i2 m pid replies h)
    = combine_exit (fst (scan_for_orphan_pattern_rules i1 h)) (fst (reconcile i2 m (probe_addr pid replies) h))"
  by (simp add: run_def)

lemma combine_exit_zero: "combine_exit scan c = 0 \<longleftrightarrow> scan = Scan_Clean \<and> c = 0"
  by (cases scan) (simp_all add: combine_exit_def EXIT_ORPHAN_SURFACED_def)

text \<open>The scan sees every rule.\<close>

lemma read_rule_values_fst:
  "fst (read_rule_values i g h) = Inr vals \<Longrightarrow> \<exists>ks. policy_keys h = Some ks
     \<and> vals = map_option (\<lambda>k. (case rk_names k of None \<Rightarrow> [] | Some ns \<Rightarrow> ns,
                             case rk_servers k of None \<Rightarrow> [] | Some s \<Rightarrow> s)) (key_values g ks)"
  by (auto simp: read_rule_values_def open_read_def split: sum.splits option.splits)

lemma collect_orphans_misses_none:
  assumes "fst (collect_orphans i r gs h) = Inr []" "g \<in> set gs" "\<not> is_recorded r g"
    "key_values g (keys_of (policy_keys h)) = Some k"
  shows "\<not> matches_orphan_pattern (case rk_names k of None \<Rightarrow> [] | Some ns \<Rightarrow> ns)
    (case rk_servers k of None \<Rightarrow> [] | Some s \<Rightarrow> s)"
  using assms(1,2)
proof (induction gs)
  case (Cons g' gs)
  have eff: "snd (read_rule_values i g' h) = []"
    by (simp add: read_rule_values_def)
  show ?case
  proof (cases "is_recorded r g'")
    case True
    then show ?thesis
      using Cons assms(3) by auto
  next
    case False
    then obtain vals rest where v: "fst (read_rule_values i g' h) = Inr vals"
        "fst (collect_orphans i r gs h) = Inr rest"
        "(case vals of None \<Rightarrow> rest | Some (ns, servers) \<Rightarrow>
            if matches_orphan_pattern ns servers then g' # rest else rest) = []"
      using Cons.prems(1) eff by (auto split: sum.splits)
    then have "rest = []"
      by (auto split: option.splits if_splits)
    then show ?thesis
      using v Cons assms(4) read_rule_values_fst [OF v(1)] by (auto split: if_splits)
  qed
qed simp

lemma map_err_supported [simp]: "map_err rc what \<noteq> Unsupported"
  by (auto simp: map_err_def split: win_error.splits win_fault.splits)

lemma open_read_supported [simp]: "open_read i h \<noteq> Inl Unsupported"
  by (auto simp: open_read_def split: option.splits)

lemma read_rule_values_supported [simp]: "fst (read_rule_values i g h) \<noteq> Inl Unsupported"
  by (auto simp: read_rule_values_def query_err_def split: sum.splits option.splits query_fault.splits)

lemma collect_orphans_supported: "fst (collect_orphans i r gs h) \<noteq> Inl Unsupported"
proof (induction gs)
  case (Cons g gs)
  have "snd (read_rule_values i g h) = []"
    by (simp add: read_rule_values_def)
  then show ?case
    using Cons read_rule_values_supported [of i g h] by (auto split: sum.splits)
qed simp

lemma enum_subkeys_names: "enum_subkeys i n ks = Inr gs \<Longrightarrow> gs = map fst ks"
proof (induction ks arbitrary: n gs)
  case Nil
  then show ?case
    by (simp add: enum_subkeys.simps [of i n] split: option.splits)
next
  case (Cons k ks)
  obtain name x where k: "k = (name, x)"
    by fastforce
  then obtain names where "enum_subkeys i (n + 1) ks = Inr names" "gs = name # names"
    using Cons.prems by (auto simp: enum_subkeys.simps [of i n] split: option.splits if_splits sum.splits)
  then show ?case
    using Cons.IH k by simp
qed

lemma enum_subkeys_supported: "enum_subkeys i n ks \<noteq> Inl Unsupported \<and> enum_subkeys i n ks \<noteq> Inl No_Policy_Container"
proof (induction ks arbitrary: n)
  case Nil
  then show ?case
    by (simp add: enum_subkeys.simps [of i n] split: option.splits)
next
  case (Cons k ks)
  then show ?case
    using Cons.IH [of "n + 1"]
    by (cases k) (auto simp: enum_subkeys.simps [of i n] split: option.splits if_splits sum.splits)
qed

lemma catchall_supported: "fst (unrecorded_catchall_rules i h) \<noteq> Inl Unsupported"
proof -
  have "fst (list_rules i h) \<noteq> Inl Unsupported"
    using enum_subkeys_supported by (auto simp: list_rules_def list_subkeys_def split: sum.splits)
  then show ?thesis
    using collect_orphans_supported by (auto simp: unrecorded_catchall_rules_def split: sum.splits)
qed

lemma scan_clean:
  assumes "fst (scan_for_orphan_pattern_rules i h) = Scan_Clean"
    "(n, k0) \<in> set (keys_of (policy_keys h))" "\<not> is_recorded (fst (recorded_guid i h)) n"
    "key_values n (keys_of (policy_keys h)) = Some k"
  shows "\<not> matches_orphan_pattern (case rk_names k of None \<Rightarrow> [] | Some ns \<Rightarrow> ns)
    (case rk_servers k of None \<Rightarrow> [] | Some s \<Rightarrow> s)"
proof -
  obtain ks where ks: "policy_keys h = Some ks"
    using assms(2) by (cases "policy_keys h") auto
  have "fst (unrecorded_catchall_rules i h) \<noteq> Inl Unsupported"
    by (rule catchall_supported)
  then have "fst (unrecorded_catchall_rules i h) = Inr []"
    using assms(1) by (auto simp: scan_for_orphan_pattern_rules_def split: sum.splits if_splits)
  then obtain gs where gs: "fst (list_rules i h) = Inr gs" "fst (collect_orphans i (fst (recorded_guid i h)) gs h) = Inr []"
    by (auto simp: unrecorded_catchall_rules_def split: sum.splits)
  then have "gs = map fst ks"
    using ks enum_subkeys_names enum_subkeys_supported
    by (auto simp: list_rules_def list_subkeys_def open_read_def split: sum.splits option.splits if_splits)
  then show ?thesis
    using collect_orphans_misses_none [OF gs(2) _ assms(3,4)] assms(2) ks by force
qed

text \<open>The rule under a name, as the reconciler reads it: its namespaces and its servers.\<close>

definition shown :: "string \<Rightarrow> policy \<Rightarrow> string list \<times> string" where
  "shown n q =
     (case key_values n (keys_of q) of
        None \<Rightarrow> ([], [])
      | Some k \<Rightarrow> (case rk_names k of None \<Rightarrow> [] | Some ns \<Rightarrow> ns, case rk_servers k of None \<Rightarrow> [] | Some s \<Rightarrow> s))"

lemma scan_clean_shown:
  assumes "fst (scan_for_orphan_pattern_rules i h) = Scan_Clean" "n \<in> fst ` set (keys_of (policy_keys h))"
    "\<not> is_recorded (fst (recorded_guid i h)) n"
  shows "\<not> matches_orphan_pattern (fst (shown n (policy_keys h))) (snd (shown n (policy_keys h)))"
proof (cases "key_values n (keys_of (policy_keys h))")
  case None
  then show ?thesis
    by (simp add: shown_def matches_orphan_pattern_def)
next
  case (Some k)
  then show ?thesis
    using scan_clean [OF assms(1) _ assms(3) Some] assms(2) by (auto simp: shown_def)
qed

text \<open>
C12: What an exit code of zero says. Whatever the registry answered, whatever the mode and whatever came
back from the probe, a run that ends with zero has acted on the record its second read gave: with no
record it has changed nothing, on a dry run it has changed nothing, and otherwise the recorded rule is
gone, or the run was an ordinary one, the proxy answered and nothing was changed. And no rule that its
first read of the record does not name sends the whole name space to the proxy's address.
\<close>

theorem zero_exit_is_honest:
  assumes "fst (run i1 i2 m pid replies h) = 0"
  shows "(let es = snd (run i1 i2 m pid replies h) in
      case fst (recorded_guid i2 h) of
        None \<Rightarrow> es = []
      | Some g \<Rightarrow>
          if m = Dry_Run then es = []
          else \<not> has_key g (keys_of (policy_keys (perform_all es h)))
            \<or> m = Reconcile_Mode \<and> probe_addr pid replies \<and> es = [])
    \<and> (\<forall>n \<in> fst ` set (keys_of (policy_keys h)). is_recorded (fst (recorded_guid i1 h)) n \<or>
        \<not> matches_orphan_pattern (fst (shown n (policy_keys h))) (snd (shown n (policy_keys h))))"
proof -
  have "fst (scan_for_orphan_pattern_rules i1 h) = Scan_Clean" "fst (reconcile i2 m (probe_addr pid replies) h) = 0"
    using assms by (simp_all add: run_fst combine_exit_zero)
  moreover from this(1) have "is_recorded (fst (recorded_guid i1 h)) n \<or>
      \<not> matches_orphan_pattern (fst (shown n (policy_keys h))) (snd (shown n (policy_keys h)))"
    if "n \<in> fst ` set (keys_of (policy_keys h))" for n
    using scan_clean_shown that by blast
  ultimately show ?thesis
    using reconcile_zero [of i2 m "probe_addr pid replies" h] reconcile_unrecorded [of i2 h m]
    unfolding run_effects by (cases "fst (recorded_guid i2 h)") (simp_all only: Let_def option.case, blast+)
qed

theorem zero_exit_is_honest_witness:
  "fst (run calm calm Reconcile_Mode 7 [] (w_host shared_world)) = 0
   \<and> \<not> has_key sample_guid (keys_of (policy_keys
       (perform_all (snd (run calm calm Reconcile_Mode 7 [] (w_host shared_world))) (w_host shared_world))))"
proof -
  have "fst (run calm calm Reconcile_Mode 7 [] (w_host shared_world)) = 0"
    "fst (recorded_guid calm (w_host shared_world)) = Some sample_guid" "\<not> probe_addr 7 []"
    by code_simp+
  then show ?thesis
    using zero_exit_is_honest [of calm calm Reconcile_Mode 7 "[]" "w_host shared_world"] by (simp add: Let_def)
qed

text \<open>
C19: A rule is written only behind every gate. When a start creates a rule, web protection is enabled, the
proxy is bound to port 53 of an IPv4 address, its own self-test was green, the reconciler's task is
installed and usable, and the rule's GUID was put into the record and synced before anything else.
\<close>

theorem start_writes_behind_gates:
  assumes "Create_Key g \<in> set (snd (start i cfg lcfg se h))"
  shows "wc_enabled cfg \<and> reconciler_task_installed (se_task se)
    \<and> (\<exists>la ups st bound. wc_listen cfg = Some la
        \<and> bind_start cfg se la ups (snd (load_lists (se_files se) lcfg new_engine)) = Some (st, bound)
        \<and> sa_port bound = 53 \<and> (\<exists>ip. sa_ip bound = V4 ip)
        \<and> report_ok (fst (self_test (se_net se) (se_probes se) st)))
    \<and> (\<exists>es. snd (start i cfg lcfg se h) = Put_Record g # Sync_Record # es)"
proof (cases rule: start_cases [of i cfg lcfg se h])
  case quiet
  have "Create_Key g \<notin> set (snd (reconcile_orphan_rule i h))"
  proof (cases "fst (recorded_guid i h)")
    case None
    then show ?thesis
      using orphan_unrecorded by simp
  next
    case (Some x)
    then show ?thesis
      using orphan_removal [OF exact_own Some, of "{}"] by (auto simp: removal_def)
  qed
  then show ?thesis
    using assms quiet by simp
next
  case (served la ups st bound)
  let ?x = "fst (recorded_guid i h)"
  let ?g = "case ?x of Some g \<Rightarrow> g | None \<Rightarrow> se_fresh se"
  have es: "snd (start i cfg lcfg se h) = snd (install i (se_task se) bound ?x (se_fresh se) h)"
    using served(6) by simp
  obtain ws where ws: "sa_port bound = DNS_PORT" "\<exists>ip. sa_ip bound = V4 ip" "reconciler_task_installed (se_task se)"
      "snd (start i cfg lcfg se h) = record_effects ?g @ ws" "list_all (writes ?g) ws"
    using install_shape [of i "se_task se" bound ?x "se_fresh se" h] assms unfolding es
    by (elim disjE conjE exE) auto
  then have "g = ?g"
    using assms by (auto simp: record_effects_def list_all_iff)
  then show ?thesis
    using served(1-5) ws by (auto simp: record_effects_def DNS_PORT_def)
qed

theorem start_writes_behind_gates_witness:
  "\<exists>es. snd (start calm sample_web no_lists sample_start bare_host) = Put_Record sample_guid # Sync_Record # es"
proof -
  have "Create_Key sample_guid \<in> set (snd (start calm sample_web no_lists sample_start bare_host))"
    by (simp add: sample_started sample_effects_def)
  then show ?thesis
    using start_writes_behind_gates by blast
qed

text \<open>
C32: A start serves or cleans up. From any reachable state, a start none of whose calls fails either
serves, or takes away every live rule of ours that the record names; after a history whose hazards are
harmless (losses of power, or an early record, not both; no failed read of the record, no overlap) it
leaves no live rule of ours behind.
\<close>

theorem start_serves_or_cleans:
  assumes "reachable H s" "wp_state (fst (start calm cfg lcfg se (w_host s))) \<noteq> Wp_Serving"
  shows "let h = perform_all (snd (start calm cfg lcfg se (w_host s))) (w_host s) in
    own_keys (w_minted s) (policy_keys h)
      = own_keys (w_minted s) (policy_keys (w_host s)) - recorded_name (guid_file (w_host s))
    \<and> (H \<subseteq> {Power_Failure} \<or> H \<subseteq> {Early_Record} \<longrightarrow> own_keys (w_minted s) (policy_keys h) = {})"
  using orphan_cleanup [OF reachable_record_fine [OF assms(1)]] reachable_named [OF assms(1)]
  by (simp add: Let_def harmless_def unserved_start [OF assms(2)])

theorem start_serves_or_cleans_witness:
  "own_keys (w_minted serving_world) (policy_keys (w_host serving_world)) \<noteq> {}
   \<and> own_keys (w_minted serving_world) (policy_keys (perform_all
       (snd (start calm (sample_web\<lparr>wc_enabled := False\<rparr>) no_lists sample_start (w_host serving_world)))
       (w_host serving_world))) = {}"
proof -
  have "wp_state (fst (start calm (sample_web\<lparr>wc_enabled := False\<rparr>) no_lists sample_start (w_host serving_world)))
      \<noteq> Wp_Serving"
    by (simp add: start_def disabled_def inert_def)
  then show ?thesis
    using start_serves_or_cleans [OF serving_reachable [of "{Power_Failure}"]] serving_live serving_recorded
    by (simp add: Let_def recorded_name_def)
qed

text \<open>Names of keys are GUIDs: an empty name or a path would reach the container or another branch.\<close>

primrec well_named :: "effect \<Rightarrow> bool" where
  "well_named (Put_Record g) \<longleftrightarrow> guid_shaped g"
| "well_named Sync_Record \<longleftrightarrow> True"
| "well_named Delete_Record \<longleftrightarrow> True"
| "well_named Create_Container \<longleftrightarrow> True"
| "well_named (Create_Key g) \<longleftrightarrow> guid_shaped g"
| "well_named (Set_Value g v) \<longleftrightarrow> guid_shaped g"
| "well_named (Delete_Key g) \<longleftrightarrow> guid_shaped g"

lemma clear_guid_named: "list_all well_named (snd (clear_guid i h))"
  by (simp add: clear_guid_def)

lemma remove_rule_named: "list_all well_named (snd (remove_rule i g h))"
  by (cases rule: remove_rule_cases [of i g h]) simp_all

lemma remove_guid_named: "list_all well_named (snd (remove_guid i g h))"
  using remove_rule_named clear_guid_named by (simp add: remove_guid_def split: sum.splits)

lemma writes_named: "list_all (writes g) ws \<Longrightarrow> guid_shaped g \<Longrightarrow> list_all well_named ws"
proof (induction ws)
  case (Cons e ws)
  then show ?case
    by (cases e) auto
qed simp

lemma install_named: "list_all well_named (snd (install i te a existing fresh h))"
  using install_shape [of i te a existing fresh h] writes_named
  by (elim disjE conjE exE) (simp_all add: record_effects_def)

lemma orphan_named: "list_all well_named (snd (reconcile_orphan_rule i h))"
  using remove_guid_named by (simp add: reconcile_orphan_rule_def split: option.splits sum.splits bool.splits)

lemma start_named: "list_all well_named (snd (start i cfg lcfg se h))"
  using install_named orphan_named by (cases rule: start_cases [of i cfg lcfg se h]) simp_all

lemma run_named: "list_all well_named (snd (run i1 i2 m pid replies h))"
  using remove_rule_named clear_guid_named
  by (simp add: run_effects reconcile_def remove_recorded_def split: option.splits sum.splits bool.splits)

text \<open>
C35: Every registry key and every record is named by a well-formed GUID: whatever the host holds, the
environment answers, the daemon was handed or the record says, no start, stop, round of the watchdog or
run of the reconciler has an effect under any other name, so none can reach the policy container itself
or a key outside it.
\<close>

theorem effects_name_guids:
  "list_all well_named (snd (start i cfg lcfg se h)) \<and> list_all well_named (snd (stop i wp h))
   \<and> list_all well_named (snd (watchdog_round i g t w h))
   \<and> list_all well_named (snd (run i1 i2 m pid replies h))"
  using start_named remove_guid_named run_named
  by (simp add: stop_effects watchdog_round_def Let_def split: option.splits)

section \<open>What failing calls leave\<close>

text \<open>The record that cannot be read when the reconciler acts: it ends with zero, and the rule stays live with
  nobody to answer.\<close>

lemma unread_record_exits_zero:
  "fst (run calm unreadable Reconcile_Mode 7 [] (w_host serving_world)) = 0
   \<and> snd (run calm unreadable Reconcile_Mode 7 [] (w_host serving_world)) = []
   \<and> \<not> probe_addr 7 [] \<and> has_key sample_guid (keys_of (policy_keys (w_host serving_world)))"
  by code_simp

text \<open>An installation that fails after the value that matters leaves a live rule; the start then serves
  with no rule of its own, no watchdog, and nothing for \<open>stop\<close> to take away.\<close>

definition no_comment :: io where
  "no_comment = calm\<lparr>set_fault := (\<lambda>v. if v = ''Comment'' then Some Fault_Denied else None)\<rparr>"

lemma half_install:
  "let r = install no_comment sample_task sample_listen None sample_guid bare_host in
   fst (recorded_guid no_comment bare_host) = None
   \<and> fst r = Inl (Cannot_Install (Access_Denied ''Comment''))
   \<and> shown sample_guid (policy_keys (perform_all (snd r) bare_host)) = ([''.''], ''127.0.0.1'')"
  by code_simp

lemma failed_install_stays_live:
  "let r = start no_comment sample_web no_lists sample_start bare_host;
       h = perform_all (snd r) bare_host in
   wp_state (fst r) = Wp_Serving \<and> wp_watchdog (fst r) = None \<and> snd (stop calm (fst r) h) = []
   \<and> shown sample_guid (policy_keys h) = ([''.''], ''127.0.0.1'')"
  using half_install unfolding sample_serves
  by (simp add: serve_def sample_start_def Let_def stop_def)

end
