(* ===== verification/Web_Watch.thy ===== *)
theory Web_Watch
  imports Web_Rule
begin

text \<open>
  What the watchdog promises: it fires exactly when three observations of one kind failed in a row,
  ticks without such an observation being no evidence either way; and what its probes prove.
\<close>

section \<open>Schedules\<close>

lemma every_length: "0 < n \<Longrightarrow> length (every n xs) = length xs div n"
  by (induction xs rule: rev_induct) (auto simp: div_Suc)

lemma every_append: "\<exists>zs. every n (xs @ ys) = every n xs @ zs \<and> set zs \<subseteq> set ys"
proof (induction ys rule: rev_induct)
  case (snoc y ys)
  then obtain zs where zs: "every n (xs @ ys) = every n xs @ zs" "set zs \<subseteq> set ys" by blast
  have "every n (xs @ ys @ [y]) = every n xs @ zs @ (if Suc (length (xs @ ys)) mod n = 0 then [y] else [])"
    using zs(1) every_snoc [of n "xs @ ys" y] by simp
  then show ?case
    using zs(2) by (intro exI [of _ "zs @ (if Suc (length (xs @ ys)) mod n = 0 then [y] else [])"]) auto
qed simp

lemma trailing_append:
  assumes "\<forall>x \<in> set ys. bad x"
  shows "length ys \<le> trailing bad (xs @ ys)"
proof -
  have "takeWhile bad (rev ys @ rev xs) = rev ys @ takeWhile bad (rev xs)"
    by (rule takeWhile_append2) (use assms in simp)
  then show ?thesis
    by (simp only: trailing_def rev_append length_append length_rev le_add1)
qed

lemma trailing_every:
  assumes "0 < n" "n * k \<le> length ys" "\<forall>x \<in> set ys. bad x"
  shows "k \<le> trailing bad (every n (xs @ ys))"
proof -
  obtain zs where zs: "every n (xs @ ys) = every n xs @ zs" "set zs \<subseteq> set ys"
    using every_append [of n xs ys] by blast
  have "(length xs + n * k) div n = length xs div n + k"
    using assms(1) by simp
  then have "length xs div n + k \<le> (length xs + length ys) div n"
    using assms(2) div_le_mono [of "length xs + n * k" "length xs + length ys" n] by simp
  then have "k \<le> length zs"
    using arg_cong [OF zs(1), of length] assms(1) by (simp add: every_length)
  also have "\<dots> \<le> trailing bad (every n (xs @ ys))"
    unfolding zs(1) using assms(3) zs(2) by (intro trailing_append) auto
  finally show ?thesis .
qed

lemma watch_fires_at:
  assumes "fires_on ts"
  shows "fired (watch ts new_watchdog) \<noteq> None"
  using assms watch_fired_iff [of ts] by (metis order_refl take_all)

section \<open>What the probes prove\<close>

lemma error_answer_proves_nothing:
  assumes "build_error_response request rcode aa = Some resp"
  shows "\<not> proves_resolution pid (Some resp)"
proof -
  obtain f where "resp = echo_response request f" "HEADER_LEN \<le> length request"
    using assms by (auto simp: build_error_response_def Let_def split: if_splits)
  then have "resp ! 6 = 0 \<and> resp ! 7 = 0"
    by (simp add: echo_response_def Let_def to_be16_def HEADER_LEN_def nth_append)
  then show ?thesis
    by (auto simp: proves_resolution_def Let_def HEADER_LEN_def unat_be16)
qed

text \<open>A blocked name is answered like a resolved one under the zero-address policy, which is why the
  watchdog asks the filter first.\<close>

lemma blocked_answer_looks_resolved:
  "\<exists>resp. build_zero_ip_response sample_query 10 = Some resp
    \<and> proves_resolution (be16 (sample_query ! 0) (sample_query ! 1)) (Some resp)"
proof -
  have "case build_zero_ip_response sample_query 10 of None \<Rightarrow> False
    | Some resp \<Rightarrow> proves_resolution (be16 (sample_query ! 0) (sample_query ! 1)) (Some resp)"
    by code_simp
  then show ?thesis
    by (cases "build_zero_ip_response sample_query 10") auto
qed

text \<open>A proxy of this program passes the canary probe whatever the state of its cache, its upstreams and
  the network: what it answers is its signature, and its counter moves.\<close>

lemma own_proxy_serves:
  assumes "build_query pid CANARY_DOMAIN TYPE_A CLASS_IN = Some probe"
    "handle_query ev probe client tcp syn st = (answer, st')"
    "tv_pid t = pid" "tv_canary t = map_option fst answer"
    "cr_canary (tv_after t) - cr_canary (tv_before t)
      = canary_probes (counts st') - canary_probes (counts st)"
  shows "tick_serving t"
proof -
  obtain resp where r: "handle_query ev probe client tcp syn st
      = (Some (resp, 512), bump (\<lambda>c. c\<lparr>canary_probes := canary_probes c + 1\<rparr>) st)"
      "is_canary_signature resp pid" "length resp \<le> 287"
    using canary_answer [OF assms(1)] by blast
  then have "probe_canary t"
    using assms by (simp add: probe_canary_def)
  moreover have "cr_canary (tv_after t) > cr_canary (tv_before t)"
    using assms(2,5) r(1) by (auto simp: bump_def)
  ultimately show ?thesis
    by (simp add: tick_serving_def)
qed

lemma own_proxy_answers_reconciler:
  assumes "build_query pid CANARY_DOMAIN TYPE_A CLASS_IN = Some probe"
  shows "probe_once pid (map_option fst (fst (handle_query ev probe client tcp syn st)))"
  using canary_answer [OF assms, of ev client tcp syn st] by (auto simp: probe_once_def)

section \<open>Properties\<close>

text \<open>
C22: The watchdog fires exactly when, at some tick so far, the last three canary checks failed, or the
last three resolution checks (every third tick) did, or the last three checks of the boot
reconciler's task (every fifteenth tick) did: a check that was not made is no evidence of health.
\<close>

theorem watchdog_fires_iff:
  "fired (watch ts new_watchdog) \<noteq> None \<longleftrightarrow>
     (\<exists>k \<le> length ts.
        3 \<le> trailing (\<lambda>t. \<not> tick_serving t) (take k ts)
        \<or> 3 \<le> trailing (\<lambda>t. \<not> tick_resolving t) (every 3 (take k ts))
        \<or> 3 \<le> trailing (\<lambda>t. \<not> reconciler_task_installed (tv_task t)) (every 15 (take k ts)))"
  unfolding watch_fired_iff
  by (simp add: fires_on_def worst_def strikes_of_def WATCHDOG_STRIKES_def RESOLVE_EVERY_def
      RECONCILER_CHECK_EVERY_def le_max_iff_disj disj_assoc)

text \<open>
A failure that lasts is acted on: after any history, three ticks (a minute) without a serving
listener, nine ticks of a listener that resolves nothing, or forty-five ticks without the
reconciler's task make the watchdog fire.
\<close>

theorem lasting_failure_fires:
  assumes "length bad \<ge> 3 \<and> (\<forall>t \<in> set bad. \<not> tick_serving t)
    \<or> length bad \<ge> 9 \<and> (\<forall>t \<in> set bad. \<not> tick_resolving t)
    \<or> length bad \<ge> 45 \<and> (\<forall>t \<in> set bad. \<not> reconciler_task_installed (tv_task t))"
  shows "fired (watch (ts @ bad) new_watchdog) \<noteq> None"
proof (rule watch_fires_at)
  show "fires_on (ts @ bad)"
    using assms
  proof (elim disjE conjE)
    assume "length bad \<ge> 3" "\<forall>t \<in> set bad. \<not> tick_serving t"
    then show ?thesis
      using trailing_append [of bad "\<lambda>t. \<not> tick_serving t" ts]
      by (simp add: fires_on_def worst_def strikes_of_def WATCHDOG_STRIKES_def)
  next
    assume "length bad \<ge> 9" "\<forall>t \<in> set bad. \<not> tick_resolving t"
    then show ?thesis
      using trailing_every [of 3 3 bad "\<lambda>t. \<not> tick_resolving t" ts]
      by (simp add: fires_on_def worst_def strikes_of_def WATCHDOG_STRIKES_def RESOLVE_EVERY_def)
  next
    assume "length bad \<ge> 45" "\<forall>t \<in> set bad. \<not> reconciler_task_installed (tv_task t)"
    then show ?thesis
      using trailing_every [of 15 3 bad "\<lambda>t. \<not> reconciler_task_installed (tv_task t)" ts]
      by (simp add: fires_on_def worst_def strikes_of_def WATCHDOG_STRIKES_def RECONCILER_CHECK_EVERY_def)
  qed
qed

definition no_task :: task_env where
  "no_task = \<lparr>env_var = (\<lambda>_. None), absolute_path = (\<lambda>_. False), existing_file = (\<lambda>_. False), task_bytes = None\<rparr>"

definition silent_tick :: tick_view where
  "silent_tick =
     \<lparr>tv_pid = 7, tv_canary = None, tv_before = \<lparr>cr_queries = 5, cr_shed = 0, cr_canary = 2\<rparr>,
      tv_after = \<lparr>cr_queries = 5, cr_shed = 0, cr_canary = 2\<rparr>, tv_name_allowed = True, tv_listener = None,
      tv_upstreams = [], tv_task = no_task\<rparr>"

theorem lasting_failure_fires_witness:
  "fired (watch ([] @ replicate 3 silent_tick) new_watchdog) \<noteq> None"
  by (rule lasting_failure_fires) (simp add: silent_tick_def tick_serving_def probe_canary_def Let_def)

text \<open>A flood that makes the proxy shed probes cannot make the watchdog fire.\<close>

lemma trailing_none: "\<forall>x \<in> set xs. \<not> bad x \<Longrightarrow> trailing bad xs = 0"
  by (cases xs rule: rev_cases) simp_all

lemma every_subset: "set (every n xs) \<subseteq> set xs"
  using every_append [of n "[]" xs] by auto

lemma flood_never_fires:
  assumes "\<forall>t \<in> set ts. cr_shed (tv_after t) > cr_shed (tv_before t) \<and> tick_resolving t
    \<and> reconciler_task_installed (tv_task t)"
  shows "fired (watch ts new_watchdog) = None"
proof -
  have s: "\<forall>t \<in> set ts. tick_serving t"
    using assms by (auto simp: tick_serving_def Let_def)
  have "\<not> fires_on (take k ts)" for k
  proof -
    have "set (take k ts) \<subseteq> set ts" by (rule set_take_subset)
    then show ?thesis
      using s assms every_subset [of RESOLVE_EVERY "take k ts"] every_subset [of RECONCILER_CHECK_EVERY "take k ts"]
      by (auto simp: fires_on_def worst_def strikes_of_def WATCHDOG_STRIKES_def le_max_iff_disj
          subset_iff trailing_none)
  qed
  then show ?thesis
    using watch_fired_iff [of ts] by blast
qed

end
