(* ===== verification/Web_Spec.thy ===== *)
theory Web_Spec
  imports Nrpt_Protocol
begin

text \<open>
  Properties of the addresses web protection forwards to, and of its refusals.
\<close>

text \<open>
The addresses discovery keeps are exactly the usable ones: port 53 of an address that is neither
unspecified, multicast, link-local nor a placeholder, and that does not lead back to the listener; none
is kept twice, and whatever is kept passes the proxy's own check of its upstreams, so the daemon's guard
and the proxy's guard against forwarding loops never disagree.
\<close>

theorem filter_usable_correct:
  "set (filter_usable raw la) = {a. usable_upstream la a \<and> (\<exists>ip \<in> set raw. a = plain_addr ip DNS_PORT)}
   \<and> distinct (filter_usable raw la)
   \<and> (filter_usable raw la = [] \<or> validate_upstreams (filter_usable raw la) la = None)"
proof (intro conjI filter_usable_set filter_usable_distinct)
  show "filter_usable raw la = [] \<or> validate_upstreams (filter_usable raw la) la = None"
    using filter_usable_accepted by (cases "filter_usable raw la = []") simp_all
qed

section \<open>Refusals\<close>

text \<open>A configuration that no retry can mend: the upstream is another address of the loopback network, which
  the configuration's validation lets pass and the proxy refuses. The refusal is taken for a transient one.\<close>

definition loop_web :: web_config where
  "loop_web =
     \<lparr>wc_enabled = True, wc_listen = Some (plain_addr (V4 0x7F000001) 53),
      wc_upstreams = [Address_Entry (plain_addr (V4 0x7F000002) 53)], wc_block_response = ''nxdomain'',
      wc_health_name = ''example.com''\<rparr>"

lemma loop_web_checks:
  "check_enablable loop_web = None" "validate_config loop_web = loop_web"
  by code_simp+

lemma loop_web_unbound: "bind_start loop_web se (plain_addr (V4 0x7F000001) 53) [plain_addr (V4 0x7F000002) 53] e = None"
proof -
  have "validate_upstreams [plain_addr (V4 0x7F000002) 53] (plain_addr (V4 0x7F000001) 53) \<noteq> None"
    "validate_health_check_name ''example.com'' = None"
    by code_simp+
  then show ?thesis
    by (auto simp: bind_start_def bind_proxy_def start_proxy_config_def default_config_def loop_web_def
        split: option.splits)
qed

lemma bind_refusal_retried:
  "let wp = fst (start i loop_web lcfg se h) in
   wp_state wp = Bind_Failed \<and> wp_refusal wp = Some Transient_Refusal
   \<and> after_attempt n x wp = Retry_In (jittered (base_backoff n * 1000) x)"
proof -
  have "resolve_upstreams (se_adapters se) (wc_upstreams loop_web) (plain_addr (V4 0x7F000001) 53)
      = Inr [plain_addr (V4 0x7F000002) 53]"
    by (simp add: loop_web_def resolve_upstreams_def Let_def)
  then show ?thesis
    using loop_web_unbound
    by (simp add: start_def loop_web_def refused_def inert_def after_attempt_def Let_def)
qed

end
