(* ===== verification/Ipc_Auth.thy ===== *)
theory Ipc_Auth
  imports Std_Text
begin

text \<open>
  Who may talk to the daemon: \<open>crates/sentinelld/src/ipc/client_auth.rs\<close> and \<open>fairness.rs\<close>, the
  first-party test of \<open>paths.rs\<close> they use, and the accept loop of \<open>Server::run_named_pipe\<close> in
  \<open>ipc/mod.rs\<close>. Every connection is resolved to an identity, judged, and then has to win a global
  permit and a permit of its own principal; both go back when the session ends.
\<close>

section \<open>Identities\<close>

record client_identity =
  ci_sid :: string
  ci_session :: u32
  ci_elevated :: bool
  ci_system :: bool
  ci_untrusted :: bool
  ci_image :: "string option"

text \<open>What the token queries on the client process answer. A query that fails is \<open>None\<close>; the SID has
  several steps, any of which may fail, and may come back empty.\<close>

record token_answers =
  ta_pid :: "u32 option"
  ta_process :: bool
  ta_token :: bool
  ta_sid :: "string option"
  ta_session :: "u32 option"
  ta_elevation :: "u32 option"
  ta_image :: "string option"

datatype resolve_outcome = Resolved client_identity | Unresolved | Client_Gone

definition resolve_client :: "token_answers \<Rightarrow> resolve_outcome" where
  "resolve_client t =
     (case ta_pid t of
        None \<Rightarrow> Unresolved
      | Some pid \<Rightarrow>
          if pid = 0 then Client_Gone
          else if \<not> ta_process t then Client_Gone
          else if \<not> ta_token t then Client_Gone
          else
            (case ta_sid t of
               None \<Rightarrow> Unresolved
             | Some sid \<Rightarrow>
                 if sid = [] then Unresolved
                 else Resolved
                   \<lparr>ci_sid = sid,
                    ci_session = (case ta_session t of None \<Rightarrow> 0 | Some s \<Rightarrow> s),
                    ci_elevated = (case ta_elevation t of None \<Rightarrow> False | Some e \<Rightarrow> e \<noteq> 0),
                    ci_system = (sid = ''S-1-5-18''),
                    ci_untrusted = (sid = ''S-1-5-7'' \<or> sid = ''S-1-0-0''),
                    ci_image = ta_image t\<rparr>))"

section \<open>First-party clients\<close>

definition strip_prefix :: "'a list \<Rightarrow> 'a list \<Rightarrow> 'a list option" where
  "strip_prefix p s = (if take (length p) s = p then Some (drop (length p) s) else None)"

definition starts_with :: "'a list \<Rightarrow> 'a list \<Rightarrow> bool" where
  "starts_with s p \<longleftrightarrow> take (length p) s = p"

definition normalized_for_root_match :: "string \<Rightarrow> string option" where
  "normalized_for_root_match dir =
     (let s = to_lowercase dir in
      case strip_prefix [CHR 0x5C, CHR 0x5C, CHR ''?'', CHR 0x5C] s of
        Some rest \<Rightarrow> if starts_with rest (''unc'' @ [CHR 0x5C]) then None else Some rest
      | None \<Rightarrow> if starts_with s [CHR 0x5C, CHR 0x5C] then None else Some s)"

definition between_bars :: "string list \<Rightarrow> string" where
  "between_bars parts = concat (map (\<lambda>p. CHR 0x5C # p) parts) @ [CHR 0x5C]"

definition USER_WRITABLE_PREFIXES :: "string list" where
  "USER_WRITABLE_PREFIXES =
     [between_bars [''users'', ''public''], between_bars [''users'', ''default''],
      between_bars [''windows'', ''temp''], between_bars [''temp''], between_bars [''tmp''],
      between_bars [''appdata'', ''local'', ''temp''], between_bars [''downloads''],
      between_bars [''desktop''], between_bars [''$recycle.bin''], between_bars [''perflogs'']]"

definition contains_user_writable_marker :: "string \<Rightarrow> bool" where
  "contains_user_writable_marker s = list_ex (\<lambda>bad. contains s bad) USER_WRITABLE_PREFIXES"

text \<open>\<open>vars\<close> is the environment: the values of \<open>ProgramFiles\<close> and \<open>ProgramFiles(x86)\<close>.\<close>

definition program_roots :: "string option \<times> string option \<Rightarrow> string list" where
  "program_roots vars =
     (let found = (case fst vars of None \<Rightarrow> [] | Some v \<Rightarrow> [to_lowercase v])
                  @ (case snd vars of None \<Rightarrow> [] | Some v \<Rightarrow> [to_lowercase v]) in
      if found = []
      then [''c:'' @ CHR 0x5C # ''program files'', ''c:'' @ CHR 0x5C # ''program files (x86)'']
      else found)"

definition is_first_party_image_dir :: "string option \<times> string option \<Rightarrow> string \<Rightarrow> bool" where
  "is_first_party_image_dir vars dir =
     (case normalized_for_root_match dir of
        None \<Rightarrow> False
      | Some s \<Rightarrow>
          \<not> contains_user_writable_marker s
          \<and> list_ex (\<lambda>root. starts_with s (root @ [CHR 0x5C]) \<or> s = root) (program_roots vars))"

text \<open>The machine the daemon runs on, as far as the judgement of an image needs it: the directory an
  image path resolves to (\<open>canonicalize\<close>, the path itself when that fails, and its parent) and the
  environment.\<close>

record host =
  image_dir :: "string \<Rightarrow> string option"
  program_vars :: "string option \<times> string option"

definition is_first_party :: "host \<Rightarrow> client_identity \<Rightarrow> bool" where
  "is_first_party h i =
     (case ci_image i of
        None \<Rightarrow> False
      | Some img \<Rightarrow>
          (case image_dir h img of
             None \<Rightarrow> False
           | Some dir \<Rightarrow> is_first_party_image_dir (program_vars h) dir))"

section \<open>Authorization\<close>

datatype auth_decision = Auth_Allow | Auth_Deny string

definition decide_client :: "client_identity \<Rightarrow> u32 option \<Rightarrow> auth_decision" where
  "decide_client i active_console =
     (if ci_untrusted i then Auth_Deny ''anonymous/null SID''
      else if ci_system i \<or> ci_elevated i then Auth_Allow
      else case active_console of
        Some console \<Rightarrow>
          if ci_session i = console then Auth_Allow
          else Auth_Deny ''unprivileged caller in a non-console session''
      | None \<Rightarrow> Auth_Allow)"

definition require_elevation :: "client_identity option \<Rightarrow> auth_decision" where
  "require_elevation p =
     (case p of
        Some i \<Rightarrow>
          if ci_untrusted i then Auth_Deny ''anonymous/null SID''
          else if ci_system i \<or> ci_elevated i then Auth_Allow
          else Auth_Deny ''kill-vector method requires elevated caller''
      | None \<Rightarrow> Auth_Deny ''kill-vector method requires a resolved elevated caller'')"

datatype pipe_auth = Pipe_Allow "client_identity option" | Pipe_Deny

definition decide_pipe_auth :: "resolve_outcome \<Rightarrow> u32 option \<Rightarrow> pipe_auth" where
  "decide_pipe_auth outcome active_console =
     (case outcome of
        Resolved i \<Rightarrow>
          (case decide_client i active_console of
             Auth_Allow \<Rightarrow> Pipe_Allow (Some i)
           | Auth_Deny _ \<Rightarrow> Pipe_Deny)
      | Client_Gone \<Rightarrow> Pipe_Deny
      | Unresolved \<Rightarrow> Pipe_Allow None)"

definition active_console_session :: "u32 \<Rightarrow> u32 option" where
  "active_console_session s = (if s = 0xFFFFFFFF then None else Some s)"

definition authorize_and_resolve_pipe_client :: "token_answers \<Rightarrow> u32 \<Rightarrow> pipe_auth" where
  "authorize_and_resolve_pipe_client t console =
     decide_pipe_auth (resolve_client t) (active_console_session console)"

section \<open>The quota of a principal\<close>

datatype principal_key = Sid_Key string | First_Party_Key | Unidentified_Key

definition MAX_CONNECTIONS_PER_PRINCIPAL :: nat where "MAX_CONNECTIONS_PER_PRINCIPAL = 8"
definition MAX_CONNECTIONS_FIRST_PARTY :: nat where "MAX_CONNECTIONS_FIRST_PARTY = 24"
definition MAX_CONNECTIONS_UNIDENTIFIED :: nat where "MAX_CONNECTIONS_UNIDENTIFIED = 16"

definition connection_key :: "host \<Rightarrow> client_identity option \<Rightarrow> principal_key" where
  "connection_key h p =
     (case p of
        Some i \<Rightarrow> if is_first_party h i then First_Party_Key else Sid_Key (ci_sid i)
      | None \<Rightarrow> Unidentified_Key)"

fun key_cap :: "principal_key \<Rightarrow> nat" where
  "key_cap (Sid_Key _) = MAX_CONNECTIONS_PER_PRINCIPAL"
| "key_cap First_Party_Key = MAX_CONNECTIONS_FIRST_PARTY"
| "key_cap Unidentified_Key = MAX_CONNECTIONS_UNIDENTIFIED"

type_synonym quota = "principal_key \<Rightarrow> nat option"

text \<open>\<open>entry(key).or_insert(0)\<close> leaves its entry behind when the cap turns the caller away.\<close>

definition try_acquire_key :: "principal_key \<Rightarrow> quota \<Rightarrow> bool \<times> quota" where
  "try_acquire_key key counts =
     (let n = (case counts key of None \<Rightarrow> 0 | Some m \<Rightarrow> m) in
      if key_cap key \<le> n then (False, counts(key \<mapsto> n)) else (True, counts(key \<mapsto> n + 1)))"

definition release_key :: "principal_key \<Rightarrow> quota \<Rightarrow> quota" where
  "release_key key counts =
     (case counts key of
        None \<Rightarrow> counts
      | Some n \<Rightarrow> if n - 1 = 0 then counts(key := None) else counts(key \<mapsto> n - 1))"

section \<open>The accept loop\<close>

definition MAX_CONCURRENT_CONNECTIONS :: nat where "MAX_CONCURRENT_CONNECTIONS = 64"

record session =
  se_id :: nat
  se_peer :: "client_identity option"
  se_key :: principal_key

record accept_state =
  permits_left :: nat
  principal_quota :: quota
  live_sessions :: "session list"
  next_session :: nat
  ipc_errors :: nat

definition accept_start :: accept_state where
  "accept_start =
     \<lparr>permits_left = MAX_CONCURRENT_CONNECTIONS, principal_quota = (\<lambda>_. None),
      live_sessions = [], next_session = 0, ipc_errors = 0\<rparr>"

text \<open>A client has connected and the next listener is ready. \<open>bypass\<close> is the environment's kill switch.\<close>

definition shed :: "accept_state \<Rightarrow> accept_state" where
  "shed s = s\<lparr>ipc_errors := ipc_errors s + 1\<rparr>"

definition admit :: "host \<Rightarrow> client_identity option \<Rightarrow> accept_state \<Rightarrow> session option \<times> accept_state" where
  "admit h peer s =
     (if permits_left s = 0 then (None, shed s)
      else
        (case try_acquire_key (connection_key h peer) (principal_quota s) of
           (False, q) \<Rightarrow> (None, shed (s\<lparr>principal_quota := q\<rparr>))
         | (True, q) \<Rightarrow>
             let se = \<lparr>se_id = next_session s, se_peer = peer, se_key = connection_key h peer\<rparr> in
             (Some se,
              s\<lparr>permits_left := permits_left s - 1, principal_quota := q,
                live_sessions := live_sessions s @ [se], next_session := next_session s + 1\<rparr>)))"

definition on_connect :: "host \<Rightarrow> bool \<Rightarrow> token_answers \<Rightarrow> u32 \<Rightarrow> accept_state \<Rightarrow> session option \<times> accept_state" where
  "on_connect h bypass t console s =
     (if bypass then admit h None s
      else
        (case authorize_and_resolve_pipe_client t console of
           Pipe_Deny \<Rightarrow> (None, shed s)
         | Pipe_Allow peer \<Rightarrow> admit h peer s))"

text \<open>The session task ends, however it ends, and drops both permits.\<close>

definition on_session_end :: "nat \<Rightarrow> accept_state \<Rightarrow> accept_state" where
  "on_session_end i s =
     (case find (\<lambda>se. se_id se = i) (live_sessions s) of
        None \<Rightarrow> s
      | Some se \<Rightarrow>
          s\<lparr>permits_left := permits_left s + 1,
            principal_quota := release_key (se_key se) (principal_quota s),
            live_sessions := filter (\<lambda>x. se_id x \<noteq> i) (live_sessions s)\<rparr>)"

inductive accept_step :: "host \<Rightarrow> accept_state \<Rightarrow> accept_state \<Rightarrow> bool" for h where
  connected: "on_connect h bypass t console s = (r, s') \<Longrightarrow> accept_step h s s'"
| pipe_error: "accept_step h s (shed s)"
| session_end: "accept_step h s (on_session_end i s)"

inductive accept_reachable :: "host \<Rightarrow> accept_state \<Rightarrow> bool" for h where
  start: "accept_reachable h accept_start"
| step: "accept_reachable h s \<Longrightarrow> accept_step h s s' \<Longrightarrow> accept_reachable h s'"

inductive_cases accept_stepE: "accept_step h s s'"

end
