(* ===== verification/Ipc_Policy.thy ===== *)
theory Ipc_Policy
  imports Ipc_Auth Argus_Float "HOL-Library.AList"
begin

text \<open>
  The control plane's policy table and its request-rate limiter, \<open>crates/sentinelld/src/ipc/policy.rs\<close>:
  a class, a payload cap and a rate bucket for each of the 52 methods, and two layers of token buckets,
  one per principal in front of one per method class. Instants and durations are nanoseconds; the
  fractional seconds the code computes with are binary64 values, a significand and a number of fraction
  bits, rounded to nearest with ties to even after every operation. One reading of the clock serves
  a request.
\<close>

section \<open>The method table\<close>

datatype method_class = Public_Status | Authenticated_Read | Authenticated_Action
  | Privileged_Mutation | Dangerous_Operation

datatype rate_bucket = Status_Bucket | ScanControl_Bucket | QuarantineOps_Bucket | ConfigMutation_Bucket
  | DiagnosticsExport_Bucket | SourcesMutation_Bucket | MemoryScan_Bucket | Unlimited_Bucket

record method_policy =
  mp_class :: method_class
  max_payload_bytes :: nat
  mp_bucket :: rate_bucket
  audit_log :: bool
  allowed_while_reloading :: bool
  allowed_while_degraded :: bool

definition pub_status :: "nat \<Rightarrow> method_policy" where
  "pub_status max_payload =
     \<lparr>mp_class = Public_Status, max_payload_bytes = max_payload, mp_bucket = Status_Bucket,
      audit_log = False, allowed_while_reloading = True, allowed_while_degraded = True\<rparr>"

definition auth_read :: "nat \<Rightarrow> rate_bucket \<Rightarrow> method_policy" where
  "auth_read max_payload bucket =
     \<lparr>mp_class = Authenticated_Read, max_payload_bytes = max_payload, mp_bucket = bucket,
      audit_log = False, allowed_while_reloading = True, allowed_while_degraded = True\<rparr>"

definition auth_action :: "nat \<Rightarrow> rate_bucket \<Rightarrow> bool \<Rightarrow> method_policy" where
  "auth_action max_payload bucket audit =
     \<lparr>mp_class = Authenticated_Action, max_payload_bytes = max_payload, mp_bucket = bucket,
      audit_log = audit, allowed_while_reloading = False, allowed_while_degraded = False\<rparr>"

definition priv_mutation :: "nat \<Rightarrow> rate_bucket \<Rightarrow> method_policy" where
  "priv_mutation max_payload bucket =
     \<lparr>mp_class = Privileged_Mutation, max_payload_bytes = max_payload, mp_bucket = bucket,
      audit_log = True, allowed_while_reloading = False, allowed_while_degraded = False\<rparr>"

definition dangerous :: "nat \<Rightarrow> rate_bucket \<Rightarrow> method_policy" where
  "dangerous max_payload bucket =
     \<lparr>mp_class = Dangerous_Operation, max_payload_bytes = max_payload, mp_bucket = bucket,
      audit_log = True, allowed_while_reloading = False, allowed_while_degraded = False\<rparr>"

definition public_and_status_methods :: "(string \<times> method_policy) list" where
  "public_and_status_methods =
    [
     (''health'', pub_status 512),
     (''engine.status'', pub_status 512),
     (''scan.status'', pub_status 512),
     (''watcher.status'', auth_read 512 Status_Bucket),
     (''webprotection.status'', auth_read 512 Status_Bucket),
     (''idle_scanner.status'', auth_read 512 Status_Bucket),
     (''update.status'', pub_status 512),
     (''argus.version'', pub_status 512),
     (''security.challenge'', pub_status 1024)]"

definition read_methods :: "(string \<times> method_policy) list" where
  "read_methods =
    [
     (''scan.history'', auth_read 1024 Status_Bucket),
     (''activity.list'', auth_read 1024 Status_Bucket),
     (''stats.runtime'', auth_read 1024 Status_Bucket),
     (''runtime.status'', auth_read 1024 Status_Bucket),
     (''trust.status'', auth_read 1024 Status_Bucket),
     (''detections.list'', auth_read 4096 Status_Bucket),
     (''quarantine.list'', auth_read 1024 QuarantineOps_Bucket),
     (''sources.status'', auth_read 1024 Status_Bucket),
     (''sources.list'', auth_read 1024 Status_Bucket),
     (''argus.packs'', auth_read 1024 Status_Bucket),
     (''argus.verdicts'', auth_read 4096 Status_Bucket),
     (''memory.list_processes'', auth_read 1024 MemoryScan_Bucket),
     (''settings.get'', auth_read 512 Status_Bucket),
     (''system.fullscreen_report'', auth_action 256 Status_Bucket False),
     (''settings.get_full'', auth_read 16384 Status_Bucket),
     (''settings.get_defaults'', auth_read 8192 Status_Bucket),
     (''settings.restart_requirements'', auth_read 8192 Status_Bucket),
     (''dev.status'', auth_read 512 Status_Bucket)]"

definition action_methods :: "(string \<times> method_policy) list" where
  "action_methods =
    [
     (''scan.start'', auth_action 4096 ScanControl_Bucket True),
     (''scan.cancel'', auth_action 512 ScanControl_Bucket True),
     (''update.start'', auth_action 1024 ScanControl_Bucket True),
     (''activity.log'', auth_action 4096 DiagnosticsExport_Bucket False),
     (''argus.analyze'', auth_action 8192 ScanControl_Bucket False),
     (''argus.reload'', priv_mutation 1024 ScanControl_Bucket),
     (''runtime.scan_buffer'', auth_action (1024 * 1024) MemoryScan_Bucket True),
     (''memory.scan_process'', auth_action 1024 MemoryScan_Bucket True),
     (''quarantine.add'', priv_mutation 4096 QuarantineOps_Bucket),
     (''calibration.report_safe'', auth_action 4096 QuarantineOps_Bucket True),
     (''diagnostics.export'', auth_action 1024 DiagnosticsExport_Bucket False),
     (''dev.set_developer_mode'', auth_action 1024 ConfigMutation_Bucket True),
     (''benchmark.run'', auth_action 1024 DiagnosticsExport_Bucket False)]"

definition privileged_methods :: "(string \<times> method_policy) list" where
  "privileged_methods =
    [
     (''settings.set'', priv_mutation 16384 ConfigMutation_Bucket),
     (''settings.set_full'', priv_mutation 32768 ConfigMutation_Bucket),
     (''protection.set_critical'', priv_mutation 32768 ConfigMutation_Bucket),
     (''protection.disable'', priv_mutation 1024 ConfigMutation_Bucket),
     (''protection.enable'', priv_mutation 1024 ConfigMutation_Bucket),
     (''sources.set'', priv_mutation 4096 SourcesMutation_Bucket),
     (''sources.update'', priv_mutation 1024 SourcesMutation_Bucket),
     (''sources.rollback'', priv_mutation 1024 SourcesMutation_Bucket),
     (''engine.reload'', priv_mutation 1024 ScanControl_Bucket)]"

definition dangerous_methods :: "(string \<times> method_policy) list" where
  "dangerous_methods =
    [
     (''quarantine.restore'', dangerous 1024 QuarantineOps_Bucket),
     (''quarantine.restore_as'', dangerous 4096 QuarantineOps_Bucket),
     (''quarantine.delete'', dangerous 1024 QuarantineOps_Bucket)]"

definition method_registry :: "(string \<times> method_policy) list" where
  "method_registry = public_and_status_methods @ read_methods @ action_methods
     @ privileged_methods @ dangerous_methods"

definition policy_of :: "string \<Rightarrow> method_policy option" where
  "policy_of = map_of method_registry"

section \<open>Budgets\<close>

record bucket_config =
  max_per_minute :: nat
  burst :: nat
  per_principal_max_per_minute :: nat
  per_principal_burst :: nat

definition new_bucket_config :: "nat \<Rightarrow> nat \<Rightarrow> nat \<Rightarrow> nat \<Rightarrow> bucket_config" where
  "new_bucket_config m b pm pb =
     \<lparr>max_per_minute = m, burst = b, per_principal_max_per_minute = pm, per_principal_burst = pb\<rparr>"

fun bucket_budget :: "rate_bucket \<Rightarrow> bucket_config" where
  "bucket_budget Status_Bucket = new_bucket_config 300 40 150 40"
| "bucket_budget ScanControl_Bucket = new_bucket_config 10 3 5 2"
| "bucket_budget QuarantineOps_Bucket = new_bucket_config 30 5 15 4"
| "bucket_budget ConfigMutation_Bucket = new_bucket_config 10 2 5 2"
| "bucket_budget DiagnosticsExport_Bucket = new_bucket_config 6 2 3 2"
| "bucket_budget SourcesMutation_Bucket = new_bucket_config 5 2 2 2"
| "bucket_budget MemoryScan_Bucket = new_bucket_config 10 2 5 2"
| "bucket_budget Unlimited_Bucket = new_bucket_config u32_max u32_max u32_max u32_max"

section \<open>Seconds as binary64\<close>

definition f64_of :: "nat \<Rightarrow> nat \<Rightarrow> nat \<times> nat" where
  "f64_of p q =
     (if p = 0 then (0, 0)
      else
        let k = fraction_bits 0 p q in
        if 0 < k then (round_div (p * 2 ^ k) q, k)
        else let s = excess_bits 0 (p div q) in (round_div p (q * 2 ^ s) * 2 ^ s, 0))"

definition f64_add :: "nat \<times> nat \<Rightarrow> nat \<times> nat \<Rightarrow> nat \<times> nat" where
  "f64_add x y = f64_of (fst x * 2 ^ snd y + fst y * 2 ^ snd x) (2 ^ (snd x + snd y))"

definition f64_times :: "nat \<times> nat \<Rightarrow> nat \<Rightarrow> nat \<times> nat" where
  "f64_times x n = f64_of (fst x * n) (2 ^ snd x)"

definition f64_over :: "nat \<times> nat \<Rightarrow> nat \<Rightarrow> nat \<times> nat" where
  "f64_over x n = f64_of (fst x) (2 ^ snd x * n)"

definition NANOS_PER_SEC :: nat where "NANOS_PER_SEC = 1000000000"

definition as_secs_f64 :: "nat \<Rightarrow> nat \<times> nat" where
  "as_secs_f64 d = f64_add (f64_of (d div NANOS_PER_SEC) 1) (f64_of (d mod NANOS_PER_SEC) NANOS_PER_SEC)"

definition from_secs_f64 :: "nat \<times> nat \<Rightarrow> nat" where
  "from_secs_f64 x = round_div (fst x * NANOS_PER_SEC) (2 ^ snd x)"

text \<open>The whole tokens an elapsed time has earned, and the time those tokens account for.\<close>

definition minted :: "nat \<Rightarrow> nat \<Rightarrow> nat" where
  "minted rate elapsed = f64_floor (f64_over (f64_times (as_secs_f64 elapsed) rate) 60)"

definition accounted :: "nat \<Rightarrow> nat \<Rightarrow> nat" where
  "accounted rate refill = from_secs_f64 (f64_over (f64_times (f64_of refill 1) 60) (max rate 1))"

section \<open>A token bucket\<close>

record bucket_state =
  bs_tokens :: nat
  bs_last_refill :: nat

definition refill_bucket :: "nat \<Rightarrow> nat \<Rightarrow> nat \<Rightarrow> bucket_state \<Rightarrow> bucket_state" where
  "refill_bucket rate cap now b =
     (let r = minted rate (now - bs_last_refill b) in
      if 0 < r
      then b\<lparr>bs_tokens := min (bs_tokens b + r) cap, bs_last_refill := bs_last_refill b + accounted rate r\<rparr>
      else b)"

definition retry_secs :: "nat \<Rightarrow> nat" where
  "retry_secs rate = max (60 div max rate 1) 1"

definition take_token :: "nat \<Rightarrow> nat \<Rightarrow> nat \<Rightarrow> bucket_state \<Rightarrow> nat option \<times> bucket_state" where
  "take_token rate cap now b =
     (let b' = refill_bucket rate cap now b in
      if bs_tokens b' = 0 then (Some (retry_secs rate), b')
      else (None, b'\<lparr>bs_tokens := bs_tokens b' - 1\<rparr>))"

section \<open>The two layers\<close>

datatype rate_principal = Rate_Sid string | Rate_Unidentified

definition rate_key :: "client_identity option \<Rightarrow> rate_principal" where
  "rate_key p = (case p of Some i \<Rightarrow> Rate_Sid (ci_sid i) | None \<Rightarrow> Rate_Unidentified)"

definition MAX_PRINCIPAL_ENTRIES :: nat where "MAX_PRINCIPAL_ENTRIES = 256"

record principal_bucket = bucket_state +
  pb_last_used :: nat

type_synonym bucket_id = "rate_bucket \<times> rate_principal"

record rate_limiter =
  rl_buckets :: "rate_bucket \<Rightarrow> bucket_state"
  rl_principals :: "(bucket_id \<times> principal_bucket) list"
  rl_clock :: nat

definition new_rate_limiter :: "nat \<Rightarrow> rate_limiter" where
  "new_rate_limiter now =
     \<lparr>rl_buckets = (\<lambda>b. \<lparr>bs_tokens = burst (bucket_budget b), bs_last_refill = now\<rparr>),
      rl_principals = [], rl_clock = 0\<rparr>"

text \<open>\<open>min_by_key\<close> over the table: the first entry with the least tick.\<close>

fun least_used :: "(bucket_id \<times> principal_bucket) list \<Rightarrow> bucket_id option" where
  "least_used [] = None"
| "least_used ((k, b) # es) =
     (case least_used es of
        None \<Rightarrow> Some k
      | Some k' \<Rightarrow>
          (case map_of es k' of
             Some b' \<Rightarrow> if pb_last_used b' < pb_last_used b then Some k' else Some k
           | None \<Rightarrow> Some k))"

definition make_room :: "bucket_id \<Rightarrow> (bucket_id \<times> principal_bucket) list \<Rightarrow> (bucket_id \<times> principal_bucket) list" where
  "make_room key es =
     (if map_of es key = None \<and> MAX_PRINCIPAL_ENTRIES \<le> length es
      then (case least_used es of None \<Rightarrow> es | Some victim \<Rightarrow> AList.delete victim es)
      else es)"

definition check_principal :: "rate_bucket \<Rightarrow> client_identity option \<Rightarrow> nat \<Rightarrow> rate_limiter \<Rightarrow> nat option \<times> rate_limiter" where
  "check_principal bucket p now l =
     (let cfg = bucket_budget bucket;
          tick = rl_clock l + 1;
          key = (bucket, rate_key p);
          es = make_room key (rl_principals l);
          entry = (case map_of es key of
                     Some b \<Rightarrow> b
                   | None \<Rightarrow> \<lparr>bs_tokens = per_principal_burst cfg, bs_last_refill = now, pb_last_used = tick\<rparr>);
          (verdict, b) = take_token (per_principal_max_per_minute cfg) (per_principal_burst cfg) now
                           (bucket_state.truncate entry) in
      (verdict,
       l\<lparr>rl_principals := AList.update key
            \<lparr>bs_tokens = bs_tokens b, bs_last_refill = bs_last_refill b, pb_last_used = tick\<rparr> es,
         rl_clock := tick\<rparr>))"

definition check_global :: "rate_bucket \<Rightarrow> nat \<Rightarrow> rate_limiter \<Rightarrow> nat option \<times> rate_limiter" where
  "check_global bucket now l =
     (let cfg = bucket_budget bucket;
          (verdict, b) = take_token (max_per_minute cfg) (burst cfg) now (rl_buckets l bucket) in
      (verdict, l\<lparr>rl_buckets := (rl_buckets l)(bucket := b)\<rparr>))"

definition first_party_peer :: "host \<Rightarrow> client_identity option \<Rightarrow> bool" where
  "first_party_peer h p = (case p of Some i \<Rightarrow> is_first_party h i | None \<Rightarrow> False)"

definition check_rate :: "host \<Rightarrow> rate_bucket \<Rightarrow> client_identity option \<Rightarrow> nat \<Rightarrow> rate_limiter \<Rightarrow> nat option \<times> rate_limiter" where
  "check_rate h bucket p now l =
     (if bucket = Unlimited_Bucket then (None, l)
      else if first_party_peer h p then check_global bucket now l
      else
        (case check_principal bucket p now l of
           (Some retry, l') \<Rightarrow> (Some retry, l')
         | (None, l') \<Rightarrow> check_global bucket now l'))"

end
