(* ===== verification/Ipc_Auth_Spec.thy ===== *)
theory Ipc_Auth_Spec
  imports Ipc_Auth
begin

text \<open>
  What the accept loop promises in every reachable state: the permits are exactly the live sessions,
  the quota map counts them per principal and forgets principals at zero, nobody is above the cap, and
  a principal below its cap is turned away only by a crowd of several other principals.
\<close>

section \<open>Sessions counted per principal\<close>

definition held :: "accept_state \<Rightarrow> principal_key \<Rightarrow> nat" where
  "held s k = count_list (map se_key (live_sessions s)) k"

definition quota_of :: "principal_key list \<Rightarrow> quota" where
  "quota_of ks = (\<lambda>k. if count_list ks k = 0 then None else Some (count_list ks k))"

definition peer_ok :: "host \<Rightarrow> session \<Rightarrow> bool" where
  "peer_ok h se \<longleftrightarrow>
     se_key se = connection_key h (se_peer se)
     \<and> (case se_peer se of None \<Rightarrow> True | Some i \<Rightarrow> \<not> ci_untrusted i)"

definition accept_ok :: "host \<Rightarrow> accept_state \<Rightarrow> bool" where
  "accept_ok h s \<longleftrightarrow>
     permits_left s + length (live_sessions s) = MAX_CONCURRENT_CONNECTIONS
     \<and> principal_quota s = quota_of (map se_key (live_sessions s))
     \<and> (\<forall>k. held s k \<le> key_cap k)
     \<and> distinct (map se_id (live_sessions s))
     \<and> (\<forall>se \<in> set (live_sessions s). se_id se < next_session s \<and> peer_ok h se)"

lemma key_cap_pos [simp]: "0 < key_cap k"
  by (cases k) (simp_all add: MAX_CONNECTIONS_PER_PRINCIPAL_def MAX_CONNECTIONS_FIRST_PARTY_def
      MAX_CONNECTIONS_UNIDENTIFIED_def)

lemma count_list_snoc: "count_list (ks @ [k]) k' = count_list ks k' + (if k = k' then 1 else 0)"
  by (induction ks) auto

lemma quota_of_snoc: "quota_of (ks @ [k]) = (quota_of ks)(k \<mapsto> count_list ks k + 1)"
  by (rule ext) (simp add: quota_of_def count_list_snoc)

lemma try_acquire_quota_of:
  "try_acquire_key k (quota_of ks)
     = (if key_cap k \<le> count_list ks k then (False, quota_of ks) else (True, quota_of (ks @ [k])))"
proof (cases "key_cap k \<le> count_list ks k")
  case True
  moreover have "0 < count_list ks k" using True key_cap_pos [of k] by linarith
  moreover from this have "(quota_of ks)(k \<mapsto> count_list ks k) = quota_of ks"
    by (intro ext) (simp add: quota_of_def)
  ultimately show ?thesis by (simp add: try_acquire_key_def Let_def quota_of_def)
next
  case False
  then show ?thesis
    unfolding quota_of_snoc by (simp add: try_acquire_key_def Let_def quota_of_def)
qed

lemma release_quota_of:
  assumes "ks = as @ k # bs"
  shows "release_key k (quota_of ks) = quota_of (as @ bs)"
proof
  fix k'
  show "release_key k (quota_of ks) k' = quota_of (as @ bs) k'"
    using assms by (auto simp: release_key_def quota_of_def)
qed

section \<open>The invariant\<close>

lemma accept_ok_start: "accept_ok h accept_start"
  by (simp add: accept_ok_def accept_start_def quota_of_def held_def)

lemma accept_ok_shed [simp]: "accept_ok h (shed s) = accept_ok h s"
  by (simp add: accept_ok_def shed_def held_def)

lemma admit_cases:
  assumes "accept_ok h s"
  shows "admit h peer s =
    (if permits_left s = 0 \<or> key_cap (connection_key h peer) \<le> held s (connection_key h peer)
     then (None, shed s)
     else
       let se = \<lparr>se_id = next_session s, se_peer = peer, se_key = connection_key h peer\<rparr> in
       (Some se,
        s\<lparr>permits_left := permits_left s - 1,
          principal_quota := quota_of (map se_key (live_sessions s @ [se])),
          live_sessions := live_sessions s @ [se], next_session := next_session s + 1\<rparr>))"
proof -
  have q: "principal_quota s = quota_of (map se_key (live_sessions s))"
    using assms by (simp add: accept_ok_def)
  have u: "s\<lparr>principal_quota := quota_of (map se_key (live_sessions s))\<rparr> = s"
    by (cases s) (use q in simp)
  show ?thesis
    by (simp add: admit_def q try_acquire_quota_of Let_def held_def u)
qed

lemma accept_ok_admit:
  assumes ok: "accept_ok h s" and a: "admit h peer s = (r, s')"
    and trusted: "\<And>i. peer = Some i \<Longrightarrow> \<not> ci_untrusted i"
  shows "accept_ok h s'"
proof (cases "permits_left s = 0 \<or> key_cap (connection_key h peer) \<le> held s (connection_key h peer)")
  case True
  then show ?thesis using a ok by (auto simp: admit_cases [OF ok])
next
  case False
  define se where "se = \<lparr>se_id = next_session s, se_peer = peer, se_key = connection_key h peer\<rparr>"
  have s': "s' = s\<lparr>permits_left := permits_left s - 1,
          principal_quota := quota_of (map se_key (live_sessions s @ [se])),
          live_sessions := live_sessions s @ [se], next_session := next_session s + 1\<rparr>"
    using a False by (simp add: admit_cases [OF ok] Let_def se_def)
  have "peer_ok h se" using trusted by (simp add: peer_ok_def se_def split: option.splits)
  moreover have "held s' k \<le> key_cap k" for k
    using ok False by (auto simp: s' held_def count_list_snoc accept_ok_def se_def not_le)
  moreover have "\<forall>x \<in> set (live_sessions s). se_id x \<noteq> next_session s"
    using ok by (auto simp: accept_ok_def)
  ultimately show ?thesis
    using ok False by (auto simp: accept_ok_def s' se_def less_Suc_eq image_iff)
qed

lemma decide_pipe_auth_trusted:
  assumes "decide_pipe_auth outcome console = Pipe_Allow (Some i)"
  shows "\<not> ci_untrusted i"
  using assms by (auto simp: decide_pipe_auth_def decide_client_def split: resolve_outcome.splits auth_decision.splits if_splits)

lemma accept_ok_connect:
  assumes ok: "accept_ok h s" and c: "on_connect h bypass t console s = (r, s')"
  shows "accept_ok h s'"
proof (cases bypass)
  case True
  then show ?thesis using accept_ok_admit [OF ok, of None r s'] c by (simp add: on_connect_def)
next
  case False
  show ?thesis
  proof (cases "authorize_and_resolve_pipe_client t console")
    case (Pipe_Allow peer)
    moreover have "\<not> ci_untrusted i" if "peer = Some i" for i
      using Pipe_Allow that decide_pipe_auth_trusted unfolding authorize_and_resolve_pipe_client_def by blast
    ultimately show ?thesis
      using accept_ok_admit [OF ok, of peer r s'] c False by (simp add: on_connect_def)
  next
    case Pipe_Deny
    then show ?thesis using c False ok by (auto simp: on_connect_def)
  qed
qed

lemma accept_ok_end:
  assumes ok: "accept_ok h s"
  shows "accept_ok h (on_session_end i s)"
proof (cases "find (\<lambda>se. se_id se = i) (live_sessions s)")
  case None
  then show ?thesis using ok by (simp add: on_session_end_def)
next
  case (Some se)
  then have se: "se \<in> set (live_sessions s)" and i: "se_id se = i"
    by (auto simp: find_Some_iff)
  obtain as bs where l: "live_sessions s = as @ se # bs" using split_list [OF se] by blast
  have d: "distinct (map se_id (as @ se # bs))" using ok l by (simp add: accept_ok_def)
  have f: "filter (\<lambda>x. se_id x \<noteq> i) (live_sessions s) = as @ bs"
  proof -
    have "filter (\<lambda>x. se_id x \<noteq> i) as = as" "filter (\<lambda>x. se_id x \<noteq> i) bs = bs"
      using d i by (auto simp: filter_id_conv image_iff)
    then show ?thesis using i l by simp
  qed
  have q: "release_key (se_key se) (principal_quota s) = quota_of (map se_key (as @ bs))"
    using ok l release_quota_of [of "map se_key (live_sessions s)" "map se_key as" "se_key se" "map se_key bs"]
    by (simp add: accept_ok_def)
  have e: "on_session_end i s = s\<lparr>permits_left := permits_left s + 1,
      principal_quota := quota_of (map se_key (as @ bs)), live_sessions := as @ bs\<rparr>"
    using Some by (simp add: on_session_end_def q f)
  have "count_list (map se_key (as @ bs)) k \<le> key_cap k" for k
  proof -
    have "count_list (map se_key (as @ se # bs)) k \<le> key_cap k"
      using ok l by (simp add: accept_ok_def held_def)
    then show ?thesis by (auto split: if_splits)
  qed
  then show ?thesis
    using ok d l by (auto simp: accept_ok_def e held_def)
qed

lemma accept_ok_step:
  assumes "accept_ok h s" "accept_step h s s'"
  shows "accept_ok h s'"
  using assms(2) by (cases rule: accept_stepE) (use assms(1) accept_ok_connect accept_ok_end in auto)

lemma reachable_accept_ok: "accept_reachable h s \<Longrightarrow> accept_ok h s"
  by (induction rule: accept_reachable.induct) (use accept_ok_start accept_ok_step in auto)

section \<open>Who can crowd whom out\<close>

definition connected_sids :: "accept_state \<Rightarrow> string set" where
  "connected_sids s = {sid. Sid_Key sid \<in> se_key ` set (live_sessions s)}"

lemma finite_connected_sids: "finite (connected_sids s)"
proof -
  have "connected_sids s = Sid_Key -` se_key ` set (live_sessions s)" by (auto simp: connected_sids_def)
  then show ?thesis by (simp add: finite_vimageI inj_on_def)
qed

lemma sessions_by_principal:
  assumes "connected_sids s \<subseteq> S" "finite S"
  shows "length (live_sessions s)
           = (\<Sum>sid\<in>S. held s (Sid_Key sid)) + held s First_Party_Key + held s Unidentified_Key"
proof -
  let ?ks = "map se_key (live_sessions s)"
  let ?X = "insert First_Party_Key (insert Unidentified_Key (Sid_Key ` S))"
  have "set ?ks \<subseteq> ?X"
  proof
    fix k assume "k \<in> set ?ks"
    then have "k \<in> se_key ` set (live_sessions s)" by simp
    with assms(1) show "k \<in> ?X" unfolding connected_sids_def by (cases k rule: principal_key.exhaust) auto
  qed
  then have "length ?ks = sum (count_list ?ks) ?X" using assms(2) by (simp add: sum_count_set)
  also have "\<dots> = sum (count_list ?ks) (Sid_Key ` S) + held s First_Party_Key + held s Unidentified_Key"
    using assms(2) by (subst sum.insert; (subst sum.insert)?) (auto simp: held_def)
  also have "sum (count_list ?ks) (Sid_Key ` S) = (\<Sum>sid\<in>S. held s (Sid_Key sid))"
    by (subst sum.reindex) (auto simp: held_def inj_on_def)
  finally show ?thesis by simp
qed

lemma permit_available:
  assumes ok: "accept_ok h s" and S: "finite S" "connected_sids s \<subseteq> S" "card S \<le> 3"
    and mine: "case k of Sid_Key sid \<Rightarrow> sid \<in> S | _ \<Rightarrow> True" and below: "held s k < key_cap k"
  shows "0 < permits_left s"
proof -
  have cap: "held s k \<le> key_cap k" for k using ok by (simp add: accept_ok_def)
  have le: "(\<Sum>sid\<in>S. held s (Sid_Key sid)) \<le> (\<Sum>sid\<in>S. 8)"
    using cap [of "Sid_Key _"] by (intro sum_mono) (simp add: MAX_CONNECTIONS_PER_PRINCIPAL_def)
  have "length (live_sessions s) < 64"
  proof (cases k)
    case (Sid_Key sid)
    have "(\<Sum>sid\<in>S. held s (Sid_Key sid)) < (\<Sum>sid\<in>S. 8)"
      using Sid_Key mine below cap [of "Sid_Key _"] S(1)
      by (intro sum_strict_mono_ex1) (auto simp: MAX_CONNECTIONS_PER_PRINCIPAL_def)
    then show ?thesis
      using sessions_by_principal [OF S(2,1)] cap [of First_Party_Key] cap [of Unidentified_Key] S(3)
      by (simp add: MAX_CONNECTIONS_FIRST_PARTY_def MAX_CONNECTIONS_UNIDENTIFIED_def)
  next
    case First_Party_Key
    then show ?thesis
      using sessions_by_principal [OF S(2,1)] below cap [of Unidentified_Key] S(3) le
      by (simp add: MAX_CONNECTIONS_FIRST_PARTY_def MAX_CONNECTIONS_UNIDENTIFIED_def)
  next
    case Unidentified_Key
    then show ?thesis
      using sessions_by_principal [OF S(2,1)] below cap [of First_Party_Key] S(3) le
      by (simp add: MAX_CONNECTIONS_FIRST_PARTY_def MAX_CONNECTIONS_UNIDENTIFIED_def)
  qed
  then show ?thesis using ok by (simp add: accept_ok_def MAX_CONCURRENT_CONNECTIONS_def)
qed

section \<open>The properties\<close>

lemma admit_below_caps:
  assumes "accept_ok h s" "0 < permits_left s" "held s (connection_key h peer) < key_cap (connection_key h peer)"
  shows "\<exists>se s'. admit h peer s = (Some se, s') \<and> se_peer se = peer"
  using assms by (simp add: admit_cases Let_def)

text \<open>
C21: In every reachable state of the accept loop the free permits and the live sessions add up to 64,
the quota map holds for each principal exactly the number of its live sessions and no entry at zero,
and nobody is above the cap of its bucket. No session whose caller was identified belongs to an anonymous
or null SID; one whose caller was not, because the check is bypassed or the token could not be read,
carries no identity, whoever it may be, and counts in the bucket of the unidentified, which holds 16.
\<close>

theorem accept_loop_accounts:
  assumes "accept_reachable h s"
  shows "permits_left s + length (live_sessions s) = MAX_CONCURRENT_CONNECTIONS
         \<and> (\<forall>k. principal_quota s k = (if held s k = 0 then None else Some (held s k)))
         \<and> (\<forall>k. held s k \<le> key_cap k)
         \<and> (\<forall>se \<in> set (live_sessions s). \<forall>i. se_peer se = Some i \<longrightarrow> \<not> ci_untrusted i)
         \<and> (\<forall>se \<in> set (live_sessions s). se_peer se = None \<longrightarrow> se_key se = Unidentified_Key)
         \<and> held s Unidentified_Key \<le> 16"
proof -
  have ok: "accept_ok h s"
    by (rule reachable_accept_ok [OF assms])
  then have "held s Unidentified_Key \<le> key_cap Unidentified_Key"
    unfolding accept_ok_def by blast
  then have "held s Unidentified_Key \<le> 16"
    by (simp add: MAX_CONNECTIONS_UNIDENTIFIED_def)
  with ok show ?thesis
    by (auto simp: accept_ok_def quota_of_def held_def peer_ok_def connection_key_def split: option.splits)
qed

definition example_host :: host where
  "example_host = \<lparr>image_dir = (\<lambda>p. None), program_vars = (None, None)\<rparr>"

definition example_answers :: token_answers where
  "example_answers = \<lparr>ta_pid = Some 77, ta_process = True, ta_token = True, ta_sid = Some ''S-1-5-21-7'',
     ta_session = Some 1, ta_elevation = Some 0, ta_image = None\<rparr>"

lemma example_connect:
  "on_connect example_host False example_answers 1 accept_start
     = (let i = \<lparr>ci_sid = ''S-1-5-21-7'', ci_session = 1, ci_elevated = False, ci_system = False,
                 ci_untrusted = False, ci_image = None\<rparr>;
            se = \<lparr>se_id = 0, se_peer = Some i, se_key = Sid_Key ''S-1-5-21-7''\<rparr> in
        (Some se, \<lparr>permits_left = 63, principal_quota = [Sid_Key ''S-1-5-21-7'' \<mapsto> 1],
                   live_sessions = [se], next_session = 1, ipc_errors = 0\<rparr>))"
  by (simp add: on_connect_def authorize_and_resolve_pipe_client_def resolve_client_def example_answers_def
      decide_pipe_auth_def active_console_session_def decide_client_def admit_def accept_start_def
      connection_key_def is_first_party_def try_acquire_key_def MAX_CONCURRENT_CONNECTIONS_def
      MAX_CONNECTIONS_PER_PRINCIPAL_def Let_def)

theorem accept_loop_accounts_witness:
  "permits_left (snd (on_connect example_host False example_answers 1 accept_start)) + 1 = 64"
proof -
  have "accept_reachable example_host (snd (on_connect example_host False example_answers 1 accept_start))"
    by (rule accept_reachable.step [OF accept_reachable.start accept_step.connected [OF prod.collapse [symmetric]]])
  from accept_loop_accounts [OF this] show ?thesis
    by (simp add: example_connect Let_def MAX_CONCURRENT_CONNECTIONS_def)
qed

text \<open>
C10: A principal cannot be crowded out by a flooder. Whatever has happened before, a client that the
per-connection check lets through and whose own bucket is below its cap gets a session, as long as no
more than three distinct SIDs, its own included, hold connections; in particular one flooding SID, the
shared unidentified bucket and the first-party pool together never exhaust the 64 permits.
\<close>

theorem fair_admission:
  assumes "accept_reachable h s"
    and "authorize_and_resolve_pipe_client t console = Pipe_Allow peer"
    and "held s (connection_key h peer) < key_cap (connection_key h peer)"
    and "card (connected_sids s \<union> {sid. connection_key h peer = Sid_Key sid}) \<le> 3"
  shows "\<exists>se s'. on_connect h False t console s = (Some se, s') \<and> se_peer se = peer"
proof -
  let ?S = "connected_sids s \<union> {sid. connection_key h peer = Sid_Key sid}"
  have "finite {sid. connection_key h peer = Sid_Key sid}"
    by (rule finite_subset [of _ "case connection_key h peer of Sid_Key x \<Rightarrow> {x} | _ \<Rightarrow> {}"])
      (auto split: principal_key.splits)
  then have "finite ?S" by (simp add: finite_connected_sids)
  then have "0 < permits_left s"
    by (rule permit_available [OF reachable_accept_ok [OF assms(1)]]) (use assms(3,4) in \<open>auto split: principal_key.splits\<close>)
  then show ?thesis
    using admit_below_caps [OF reachable_accept_ok [OF assms(1)] _ assms(3)] assms(2)
    by (simp add: on_connect_def)
qed

theorem fair_admission_witness:
  "\<exists>se s'. on_connect example_host False example_answers 1 accept_start = (Some se, s')
     \<and> se_peer se = Some \<lparr>ci_sid = ''S-1-5-21-7'', ci_session = 1, ci_elevated = False, ci_system = False,
                          ci_untrusted = False, ci_image = None\<rparr>"
  by (rule fair_admission [OF accept_reachable.start])
    (simp_all add: authorize_and_resolve_pipe_client_def resolve_client_def example_answers_def
      decide_pipe_auth_def active_console_session_def decide_client_def connection_key_def is_first_party_def
      held_def accept_start_def connected_sids_def MAX_CONNECTIONS_PER_PRINCIPAL_def)

end
