(* ===== verification/Ipc_Rate.thy ===== *)
theory Ipc_Rate
  imports Complex_Main Ipc_Policy Ipc_Auth_Spec
begin

text \<open>
  How many requests the rate limiter lets through. The refill is computed in floating point, so the
  accounting is done against an interface that only bounds its errors; the interface is then discharged
  for the arithmetic of the code and for every budget of the table.
\<close>

section \<open>An almost exact token bucket\<close>

text \<open>A refill with some way of minting tokens and accounting for them, and what a bucket can still give
  until the time \<open>T\<close>: its tokens and the time to come, in units of a token.\<close>

definition refill_with :: "(nat \<Rightarrow> nat) \<Rightarrow> (nat \<Rightarrow> nat) \<Rightarrow> nat \<Rightarrow> nat \<Rightarrow> bucket_state \<Rightarrow> bucket_state" where
  "refill_with mint acct cap now b =
     (let r = mint (now - bs_last_refill b) in
      if 0 < r
      then b\<lparr>bs_tokens := min (bs_tokens b + r) cap, bs_last_refill := bs_last_refill b + acct r\<rparr>
      else b)"

definition worth_until :: "nat \<Rightarrow> nat \<Rightarrow> bucket_state \<Rightarrow> int" where
  "worth_until rate T b = int (bs_tokens b) * 5999999940000000000
     + int rate * 100000000 * (int T - int (bs_last_refill b) + 100)"

text \<open>
  \<open>mint\<close> turns elapsed nanoseconds into whole tokens, \<open>acct\<close> says how much time those tokens stand for.
  A token is worth at most its nominal time and one part in \<open>10^8\<close>, minted tokens account for at most
  100 ns more than has passed, and what is left unaccounted is less than the time of one token.
\<close>

locale paced =
  fixes rate :: nat and mint :: "nat \<Rightarrow> nat" and acct :: "nat \<Rightarrow> nat"
  assumes worth: "r * 60000000000 * 99999999 \<le> rate * acct r * 100000000"
    and overshoot: "e \<le> 100000000000000000 \<Longrightarrow> acct (mint e) \<le> e + 100"
    and remainder: "e \<le> 100000000000000000 \<Longrightarrow> rate * e \<le> 60000000000 + rate * (acct (mint e) + 100)"
    and mint_zero: "mint 0 = 0" and acct_zero: "acct 0 = 0"
begin

lemma potential_refill: "worth_until rate T (refill_with mint acct cap now b) \<le> worth_until rate T b"
proof -
  define r where "r = mint (now - bs_last_refill b)"
  have "int (r * 60000000000 * 99999999) \<le> int (rate * acct r * 100000000)" using worth [of r] by (simp only: of_nat_le_iff)
  then have "int r * 5999999940000000000 \<le> int rate * 100000000 * int (acct r)" by (simp add: algebra_simps)
  moreover have "int (min (bs_tokens b + r) cap) * 5999999940000000000 \<le> (int (bs_tokens b) + int r) * 5999999940000000000"
    by (rule mult_right_mono) simp_all
  ultimately show ?thesis
    by (simp add: worth_until_def refill_with_def r_def [symmetric] Let_def algebra_simps)
qed

lemma refill_last:
  assumes "bs_last_refill b \<le> now + 100" "now \<le> bs_last_refill b + 100000000000000000"
  shows "bs_last_refill (refill_with mint acct cap now b) \<le> now + 100"
    and "bs_last_refill b \<le> bs_last_refill (refill_with mint acct cap now b)"
proof -
  show "bs_last_refill b \<le> bs_last_refill (refill_with mint acct cap now b)" by (simp add: refill_with_def Let_def)
  show "bs_last_refill (refill_with mint acct cap now b) \<le> now + 100"
  proof (cases "bs_last_refill b \<le> now")
    case True
    have "now - bs_last_refill b \<le> 100000000000000000" using assms(2) by linarith
    from overshoot [OF this] True have "bs_last_refill b + acct (mint (now - bs_last_refill b)) \<le> now + 100" by linarith
    then show ?thesis using assms(1) by (simp add: refill_with_def Let_def)
  next
    case False
    then show ?thesis using assms by (simp add: refill_with_def mint_zero)
  qed
qed

text \<open>After a refill at \<open>now\<close> the bucket's worth until \<open>T\<close> is its cap, one token, and the time to come.\<close>

lemma potential_start:
  assumes "bs_tokens b \<le> cap" "now \<le> bs_last_refill b + 100000000000000000"
  shows "worth_until rate T (refill_with mint acct cap now b)
     \<le> int cap * 5999999940000000000 + 100000000 * (int rate * (int T - int now) + 60000000000 + 200 * int rate)"
proof -
  let ?b = "refill_with mint acct cap now b"
  have "bs_tokens ?b \<le> cap" using assms(1) by (simp add: refill_with_def Let_def)
  moreover have "int rate * (int now - int (bs_last_refill ?b)) \<le> 60000000000 + int rate * 100"
  proof (cases "bs_last_refill b \<le> now")
    case True
    then have e: "now - bs_last_refill b \<le> 100000000000000000" using assms(2) by simp
    have "int (rate * (now - bs_last_refill b)) \<le> int (60000000000 + rate * (acct (mint (now - bs_last_refill b)) + 100))"
      using remainder [OF e] by (simp only: of_nat_le_iff)
    then show ?thesis
      using True acct_zero
      by (cases "mint (now - bs_last_refill b) = 0") (simp_all add: refill_with_def Let_def of_nat_diff algebra_simps)
  next
    case False
    then have "int rate * (int now - int (bs_last_refill ?b)) \<le> 0"
      by (intro mult_nonneg_nonpos) (simp_all add: refill_with_def mint_zero)
    then show ?thesis by simp
  qed
  ultimately show ?thesis unfolding worth_until_def
    by (simp add: algebra_simps)
qed

lemma potential_nonneg:
  assumes "bs_last_refill b \<le> T + 100"
  shows "0 \<le> worth_until rate T b"
  using assms by (simp add: worth_until_def)

end

section \<open>The arithmetic of the code\<close>

definition f64_val :: "nat \<times> nat \<Rightarrow> real" where
  "f64_val x = real (fst x) / 2 ^ snd x"

lemma round_div_ge:
  assumes "0 < b"
  shows "2 * a \<le> 2 * (round_div a b * b) + b"
proof -
  define q r where "q = a div b" and "r = a mod b"
  have a: "a = q * b + r" by (simp add: q_def r_def)
  have r: "r < b" using assms by (simp add: r_def)
  have "2 * a \<le> 2 * ((q + 1) * b) + b" using r by (simp add: a)
  moreover have "2 * a \<le> 2 * (q * b) + b" if "2 * r \<le> b" using that by (simp add: a)
  ultimately show ?thesis unfolding round_div_def Let_def q_def [symmetric] r_def [symmetric] by auto
qed

lemma round_div_error:
  assumes "0 < d" "4503599627370496 * d \<le> n"
  shows "\<bar>real (round_div n d) * real d - real n\<bar> \<le> real n / 9007199254740992"
proof -
  have "real (2 * (round_div n d * d)) \<le> real (2 * n + d)" "real (2 * n) \<le> real (2 * (round_div n d * d) + d)"
    using round_div_le [OF assms(1)] round_div_ge [OF assms(1)] by (simp_all only: of_nat_le_iff)
  moreover have "real (4503599627370496 * d) \<le> real n" using assms(2) by (simp only: of_nat_le_iff)
  ultimately have "real (round_div n d) * real d - real n \<le> real n / 9007199254740992"
      "real n - real (round_div n d) * real d \<le> real n / 9007199254740992"
    unfolding of_nat_mult of_nat_add of_nat_numeral by linarith+
  then show ?thesis by linarith
qed

lemma f64_of_error:
  assumes "0 < q"
  shows "\<bar>f64_val (f64_of p q) - real p / real q\<bar> \<le> real p / real q / 9007199254740992"
proof (cases "p = 0")
  case True
  then show ?thesis by (simp add: f64_of_def f64_val_def)
next
  case False
  define k where "k = fraction_bits 0 p q"
  define s where "s = (if 0 < k then 0 else excess_bits 0 (p div q))"
  define n where "n = p * 2 ^ k" define d where "d = q * 2 ^ s"
  have k: "4503599627370496 * q \<le> p * 2 ^ k" unfolding k_def by (rule fraction_bits_ge) (use False in simp)
  have d: "0 < d" using assms by (simp add: d_def)
  have le: "4503599627370496 * d \<le> n"
  proof (cases "s = 0")
    case True
    then show ?thesis using k by (simp add: d_def n_def)
  next
    case s: False
    then have k0: "k = 0" and se: "s = excess_bits 0 (p div q)" by (auto simp: s_def split: if_splits)
    have "4503599627370496 * 2 ^ s \<le> p div q" using excess_bits_ge [of 0 "p div q"] s by (simp add: se)
    then have "4503599627370496 * 2 ^ s * q \<le> p" using assms by (simp add: less_eq_div_iff_mult_less_eq)
    then show ?thesis using k0 by (simp add: d_def n_def ac_simps)
  qed
  have v: "f64_val (f64_of p q) = real (round_div n d) * 2 ^ s / 2 ^ k"
    using False by (auto simp: f64_of_def f64_val_def Let_def k_def [symmetric] n_def d_def s_def)
  have e: "\<bar>real (round_div n d) * real d - real n\<bar> \<le> real n / 9007199254740992" by (rule round_div_error [OF d le])
  have "f64_val (f64_of p q) - real p / real q = (real (round_div n d) * real d - real n) / (real q * 2 ^ k)"
    using assms by (simp add: v n_def d_def field_simps)
  then have "\<bar>f64_val (f64_of p q) - real p / real q\<bar> = \<bar>real (round_div n d) * real d - real n\<bar> / (real q * 2 ^ k)"
    by simp
  also have "\<dots> \<le> (real n / 9007199254740992) / (real q * 2 ^ k)" by (rule divide_right_mono [OF e]) simp
  also have "\<dots> = real p / real q / 9007199254740992" using assms by (simp add: n_def)
  finally show ?thesis .
qed

text \<open>Each operation is off by a factor between \<open>1 - u\<close> and \<open>1 + u\<close>.\<close>

definition f64_up :: real where "f64_up = 1 + 1 / 9007199254740992"
definition f64_dn :: real where "f64_dn = 1 - 1 / 9007199254740992"

lemma UL_pos [simp]: "0 < f64_up" "0 < f64_dn" "0 \<le> f64_up" "0 \<le> f64_dn" by (simp_all add: f64_up_def f64_dn_def)

lemma U_7: "f64_up ^ 7 \<le> 1 + 1 / 1125899906842624"
  and L_7: "1 - 1 / 1125899906842624 \<le> f64_dn ^ 7"
  and L_3: "1 - 1 / 1125899906842624 \<le> f64_dn ^ 3" "f64_dn ^ 3 \<le> 1"
  by (simp_all add: f64_up_def f64_dn_def power_numeral_reduce field_simps)

lemma f64_of_le: "0 < q \<Longrightarrow> f64_val (f64_of p q) \<le> f64_up * (real p / real q)"
  and f64_of_ge: "0 < q \<Longrightarrow> f64_dn * (real p / real q) \<le> f64_val (f64_of p q)"
  using f64_of_error [of q p] by (simp_all add: f64_up_def f64_dn_def algebra_simps abs_le_iff)

lemma f64_times_le: "f64_val (f64_times x n) \<le> f64_up * (f64_val x * real n)"
  and f64_times_ge: "f64_dn * (f64_val x * real n) \<le> f64_val (f64_times x n)"
  using f64_of_le [of "2 ^ snd x" "fst x * n"] f64_of_ge [of "2 ^ snd x" "fst x * n"]
  by (simp_all add: f64_times_def f64_val_def mult.commute)

lemma f64_over_le: "0 < n \<Longrightarrow> f64_val (f64_over x n) \<le> f64_up * (f64_val x / real n)"
  and f64_over_ge: "0 < n \<Longrightarrow> f64_dn * (f64_val x / real n) \<le> f64_val (f64_over x n)"
  using f64_of_le [of "2 ^ snd x * n" "fst x"] f64_of_ge [of "2 ^ snd x * n" "fst x"]
  by (simp_all add: f64_over_def f64_val_def)

lemma f64_add_le: "f64_val (f64_add x y) \<le> f64_up * (f64_val x + f64_val y)"
  and f64_add_ge: "f64_dn * (f64_val x + f64_val y) \<le> f64_val (f64_add x y)"
proof -
  have "real (fst x * 2 ^ snd y + fst y * 2 ^ snd x) / real (2 ^ (snd x + snd y)) = f64_val x + f64_val y"
    by (simp add: f64_val_def power_add field_simps)
  then show "f64_val (f64_add x y) \<le> f64_up * (f64_val x + f64_val y)"
    "f64_dn * (f64_val x + f64_val y) \<le> f64_val (f64_add x y)"
    using f64_of_le [of "2 ^ (snd x + snd y)" "fst x * 2 ^ snd y + fst y * 2 ^ snd x"]
      f64_of_ge [of "2 ^ (snd x + snd y)" "fst x * 2 ^ snd y + fst y * 2 ^ snd x"]
    by (simp_all add: f64_add_def)
qed

lemma f64_floor_bounds: "real (f64_floor x) \<le> f64_val x" "f64_val x < real (f64_floor x) + 1"
proof -
  have "f64_floor x * 2 ^ snd x \<le> fst x" "fst x < (f64_floor x + 1) * 2 ^ snd x"
    by (simp_all add: f64_floor_def dividend_less_div_times)
  then have "real (f64_floor x * 2 ^ snd x) \<le> real (fst x)" "real (fst x) < real ((f64_floor x + 1) * 2 ^ snd x)"
    by (simp_all only: of_nat_le_iff of_nat_less_iff)
  then show "real (f64_floor x) \<le> f64_val x" "f64_val x < real (f64_floor x) + 1"
    by (simp_all add: f64_val_def field_simps)
qed

lemma as_secs_le: "f64_val (as_secs_f64 e) \<le> f64_up ^ 2 * (real e / 1000000000)"
  and as_secs_ge: "f64_dn ^ 2 * (real e / 1000000000) \<le> f64_val (as_secs_f64 e)"
proof -
  let ?a = "f64_val (f64_of (e div NANOS_PER_SEC) 1)" let ?b = "f64_val (f64_of (e mod NANOS_PER_SEC) NANOS_PER_SEC)"
  have "real e = real (e div NANOS_PER_SEC * NANOS_PER_SEC + e mod NANOS_PER_SEC)"
    by (rule arg_cong [OF div_mult_mod_eq [symmetric]])
  then have "real e = real (e div NANOS_PER_SEC) * 1000000000 + real (e mod NANOS_PER_SEC)"
    unfolding of_nat_add of_nat_mult by (simp add: NANOS_PER_SEC_def)
  then have e: "real e / 1000000000 = real (e div NANOS_PER_SEC) + real (e mod NANOS_PER_SEC) / 1000000000"
    by simp
  have "?a + ?b \<le> f64_up * (real e / 1000000000)" "f64_dn * (real e / 1000000000) \<le> ?a + ?b"
    using f64_of_le [of 1 "e div NANOS_PER_SEC"] f64_of_le [of NANOS_PER_SEC "e mod NANOS_PER_SEC"]
      f64_of_ge [of 1 "e div NANOS_PER_SEC"] f64_of_ge [of NANOS_PER_SEC "e mod NANOS_PER_SEC"]
    unfolding e by (simp_all add: NANOS_PER_SEC_def distrib_left)
  then have m: "f64_up * (?a + ?b) \<le> f64_up * (f64_up * (real e / 1000000000))" "f64_dn * (f64_dn * (real e / 1000000000)) \<le> f64_dn * (?a + ?b)"
    by (simp_all only: mult_left_mono UL_pos)
  show "f64_val (as_secs_f64 e) \<le> f64_up ^ 2 * (real e / 1000000000)"
    unfolding as_secs_f64_def power2_eq_square mult.assoc by (rule order_trans [OF f64_add_le m(1)])
  show "f64_dn ^ 2 * (real e / 1000000000) \<le> f64_val (as_secs_f64 e)"
    unfolding as_secs_f64_def power2_eq_square mult.assoc by (rule order_trans [OF m(2) f64_add_ge])
qed

lemma minted_le: "real (minted rate e) \<le> f64_up ^ 4 * (real rate * real e / 60000000000)"
proof -
  have "real (minted rate e) \<le> f64_up * (f64_val (f64_times (as_secs_f64 e) rate) / real 60)"
    unfolding minted_def by (rule order_trans [OF f64_floor_bounds(1) f64_over_le]) simp
  also have "\<dots> \<le> f64_up * (f64_up * (f64_val (as_secs_f64 e) * real rate) / real 60)"
    by (intro mult_left_mono divide_right_mono f64_times_le) simp_all
  also have "\<dots> \<le> f64_up * (f64_up * (f64_up ^ 2 * (real e / 1000000000) * real rate) / real 60)"
    by (intro mult_left_mono divide_right_mono mult_right_mono as_secs_le) simp_all
  also have "\<dots> = f64_up ^ 4 * (real rate * real e / 60000000000)" by (simp add: power_numeral_reduce)
  finally show ?thesis .
qed

lemma minted_gt: "f64_dn ^ 4 * (real rate * real e / 60000000000) < real (minted rate e) + 1"
proof -
  have "f64_dn ^ 4 * (real rate * real e / 60000000000) = f64_dn * (f64_dn * (f64_dn ^ 2 * (real e / 1000000000) * real rate) / real 60)"
    by (simp add: power_numeral_reduce)
  also have "\<dots> \<le> f64_dn * (f64_dn * (f64_val (as_secs_f64 e) * real rate) / real 60)"
    by (intro mult_left_mono divide_right_mono mult_right_mono as_secs_ge) simp_all
  also have "\<dots> \<le> f64_dn * (f64_val (f64_times (as_secs_f64 e) rate) / real 60)"
    by (intro mult_left_mono divide_right_mono f64_times_ge) simp_all
  also have "\<dots> < real (minted rate e) + 1"
    unfolding minted_def by (rule le_less_trans [OF f64_over_ge f64_floor_bounds(2)]) simp
  finally show ?thesis .
qed

lemma from_secs_bounds: "\<bar>real (from_secs_f64 x) - f64_val x * 1000000000\<bar> \<le> 1 / 2"
proof -
  let ?a = "fst x * 1000000000" let ?b = "2 ^ snd x :: nat"
  have "real (2 * (round_div ?a ?b * ?b)) \<le> real (2 * ?a + ?b)" "real (2 * ?a) \<le> real (2 * (round_div ?a ?b * ?b) + ?b)"
    using round_div_le [of ?b ?a] round_div_ge [of ?b ?a] by (simp_all only: of_nat_le_iff) simp_all
  then have "real (from_secs_f64 x) \<le> f64_val x * 1000000000 + 1 / 2" "f64_val x * 1000000000 \<le> real (from_secs_f64 x) + 1 / 2"
    by (simp_all add: from_secs_f64_def f64_val_def NANOS_PER_SEC_def field_simps)
  then show ?thesis by linarith
qed

lemma accounted_le:
  assumes "0 < rate"
  shows "real (accounted rate r) \<le> f64_up ^ 3 * (60000000000 * real r / real rate) + 1 / 2"
proof -
  let ?y = "f64_over (f64_times (f64_of r 1) 60) (max rate 1)"
  have m: "max rate 1 = rate" using assms by (intro max_absorb1) simp
  have "f64_val ?y \<le> f64_up * (f64_val (f64_times (f64_of r 1) 60) / real rate)"
    using f64_over_le [OF assms] m by simp
  also have "\<dots> \<le> f64_up * (f64_up * (f64_val (f64_of r 1) * real 60) / real rate)"
    by (intro mult_left_mono divide_right_mono f64_times_le) simp_all
  also have "\<dots> \<le> f64_up * (f64_up * (f64_up * (real r / real 1) * real 60) / real rate)"
    by (intro mult_left_mono divide_right_mono mult_right_mono f64_of_le) simp_all
  also have "\<dots> = f64_up ^ 3 * (60000000000 * real r / real rate) / 1000000000" by (simp add: power_numeral_reduce)
  finally have "f64_val ?y * 1000000000 \<le> f64_up ^ 3 * (60000000000 * real r / real rate)"
    by (simp only: pos_le_divide_eq zero_less_numeral)
  then show ?thesis using from_secs_bounds [of ?y] unfolding accounted_def by linarith
qed

lemma accounted_ge:
  assumes "0 < rate"
  shows "f64_dn ^ 3 * (60000000000 * real r / real rate) - 1 / 2 \<le> real (accounted rate r)"
proof -
  let ?y = "f64_over (f64_times (f64_of r 1) 60) (max rate 1)"
  have m: "max rate 1 = rate" using assms by (intro max_absorb1) simp
  have "f64_dn ^ 3 * (60000000000 * real r / real rate) / 1000000000 = f64_dn * (f64_dn * (f64_dn * (real r / real 1) * real 60) / real rate)"
    by (simp add: power_numeral_reduce)
  also have "\<dots> \<le> f64_dn * (f64_dn * (f64_val (f64_of r 1) * real 60) / real rate)"
    by (intro mult_left_mono divide_right_mono mult_right_mono f64_of_ge) simp_all
  also have "\<dots> \<le> f64_dn * (f64_val (f64_times (f64_of r 1) 60) / real rate)"
    by (intro mult_left_mono divide_right_mono f64_times_ge) simp_all
  also have "\<dots> \<le> f64_val ?y"
    using f64_over_ge [OF assms] m by simp
  finally have "f64_dn ^ 3 * (60000000000 * real r / real rate) \<le> f64_val ?y * 1000000000"
    by (simp only: pos_divide_le_eq zero_less_numeral)
  then show ?thesis using from_secs_bounds [of ?y] unfolding accounted_def by linarith
qed

lemma paced_worth_slack:
  fixes x a b r :: real
  assumes "a - r / 2 \<le> b" "x - x / 1125899906842624 \<le> a" "60000000000 \<le> x" "r \<le> 300"
  shows "x * 99999999 \<le> b * 100000000"
  using assms by linarith

lemma paced_remainder_slack:
  fixes a b c e l m r :: real
  assumes "l \<le> a + c" "a \<le> b + r / 2" "e - e / 1125899906842624 \<le> l" "e \<le> r * 100000000000000000"
    "c \<le> 60000000000" "0 \<le> r"
  shows "e \<le> 60000000000 + b + 100 * r"
  using assms by linarith

lemma paced_worth:
  assumes "0 < rate" "rate \<le> 300"
  shows "r * 60000000000 * 99999999 \<le> rate * accounted rate r * 100000000"
proof (cases "r = 0")
  case False
  define x where "x = 60000000000 * real r"
  have "f64_dn ^ 3 * x - real rate / 2 = real rate * (f64_dn ^ 3 * (x / real rate) - 1 / 2)"
    using assms(1) by (simp add: right_diff_distrib)
  also have "\<dots> \<le> real rate * real (accounted rate r)"
    unfolding x_def by (rule mult_left_mono [OF accounted_ge [OF assms(1)]]) simp
  finally have "f64_dn ^ 3 * x - real rate / 2 \<le> real rate * real (accounted rate r)" .
  moreover have "x - x / 1125899906842624 \<le> f64_dn ^ 3 * x"
    using mult_right_mono [OF L_3(1), of x] by (simp add: x_def left_diff_distrib)
  moreover have "60000000000 \<le> x" "real rate \<le> 300" using False assms(2) by (simp_all add: x_def)
  ultimately have "x * 99999999 \<le> real rate * real (accounted rate r) * 100000000"
    by (rule paced_worth_slack)
  then have "real (r * 60000000000 * 99999999) \<le> real (rate * accounted rate r * 100000000)" by (simp add: x_def)
  then show ?thesis by (simp only: of_nat_le_iff)
qed simp

lemma paced_overshoot:
  assumes "0 < rate" "e \<le> 100000000000000000"
  shows "accounted rate (minted rate e) \<le> e + 100"
proof -
  have "f64_up ^ 3 * (60000000000 * real (minted rate e) / real rate)
      \<le> f64_up ^ 3 * (60000000000 * (f64_up ^ 4 * (real rate * real e / 60000000000)) / real rate)"
    by (intro mult_left_mono divide_right_mono minted_le) simp_all
  also have "\<dots> = f64_up ^ 7 * real e" using assms(1) by (simp add: power_numeral_reduce)
  also have "\<dots> \<le> (1 + 1 / 1125899906842624) * real e" by (rule mult_right_mono [OF U_7]) simp
  finally have "real (accounted rate (minted rate e)) \<le> (1 + 1 / 1125899906842624) * real e + 1 / 2"
    using accounted_le [OF assms(1), of "minted rate e"] by linarith
  moreover have "real e \<le> 100000000000000000" using assms(2) by (metis of_nat_le_iff of_nat_numeral)
  ultimately have "real (accounted rate (minted rate e)) \<le> real (e + 100)" by simp
  then show ?thesis by (simp only: of_nat_le_iff)
qed

lemma paced_remainder:
  assumes "0 < rate" "rate \<le> 300" "e \<le> 100000000000000000"
  shows "rate * e \<le> 60000000000 + rate * (accounted rate (minted rate e) + 100)"
proof -
  let ?m = "real (minted rate e)" let ?a = "real (accounted rate (minted rate e))"
  have "f64_dn ^ 3 * (60000000000 * (f64_dn ^ 4 * (real rate * real e / 60000000000))) \<le> f64_dn ^ 3 * (60000000000 * (?m + 1))"
    using minted_gt [of rate e] by (intro mult_left_mono) simp_all
  then have 1: "f64_dn ^ 7 * (real rate * real e) \<le> f64_dn ^ 3 * (60000000000 * ?m) + f64_dn ^ 3 * 60000000000"
    by (simp add: power_numeral_reduce distrib_left)
  have "f64_dn ^ 3 * (60000000000 * ?m) - real rate / 2 = real rate * (f64_dn ^ 3 * (60000000000 * ?m / real rate) - 1 / 2)"
    using assms(1) by (simp add: right_diff_distrib)
  also have "\<dots> \<le> real rate * ?a" by (rule mult_left_mono [OF accounted_ge [OF assms(1)]]) simp
  finally have 2: "f64_dn ^ 3 * (60000000000 * ?m) \<le> real rate * ?a + real rate / 2" by linarith
  have 3: "real rate * real e - real rate * real e / 1125899906842624 \<le> f64_dn ^ 7 * (real rate * real e)"
    using mult_right_mono [OF L_7, of "real rate * real e"] by (simp add: left_diff_distrib mult.commute [of "real e"])
  have "real e \<le> 100000000000000000" using assms(3) by (metis of_nat_le_iff of_nat_numeral)
  then have "real rate * real e \<le> real rate * 100000000000000000" by (rule mult_left_mono) simp
  then have "real rate * real e \<le> 60000000000 + real rate * ?a + 100 * real rate"
    using L_3(2) by (intro paced_remainder_slack [OF 1 2 3]) simp_all
  then have "real (rate * e) \<le> real (60000000000 + rate * (accounted rate (minted rate e) + 100))"
    by (simp add: distrib_left)
  then show ?thesis by (simp only: of_nat_le_iff)
qed

lemma paced_code:
  assumes "0 < rate" "rate \<le> 300"
  shows "paced rate (minted rate) (accounted rate)"
proof
  show "minted rate 0 = 0" using minted_le [of rate 0] by simp
  show "accounted rate 0 = 0"
    by (simp add: accounted_def f64_of_def f64_times_def f64_over_def from_secs_f64_def round_div_def)
qed (use paced_worth paced_overshoot paced_remainder assms in auto)

section \<open>The bucket of the code\<close>

definition clamped_rate :: "nat \<Rightarrow> nat" where "clamped_rate r = min 300 (max 1 r)"

lemma clamped_rate [simp]: "0 < r \<Longrightarrow> r \<le> 300 \<Longrightarrow> clamped_rate r = r"
  by (simp add: clamped_rate_def)

interpretation code_bucket: paced "clamped_rate rate" "minted (clamped_rate rate)" "accounted (clamped_rate rate)"
  for rate :: nat
  by (rule paced_code) (simp_all add: clamped_rate_def)

lemma refill_bucket_with: "refill_bucket rate = refill_with (minted rate) (accounted rate)"
  by (intro ext) (simp add: refill_bucket_def refill_with_def)

definition on_time :: "nat \<Rightarrow> bucket_state \<Rightarrow> bool" where
  "on_time now b \<longleftrightarrow> bs_last_refill b \<le> now + 100 \<and> now \<le> bs_last_refill b + 100000000000000000"

lemma take_token_worth:
  assumes "0 < rate" "rate \<le> 300" "on_time now b" "take_token rate cap now b = (v, b')"
  shows "worth_until rate T b' + (if v = None then 5999999940000000000 else 0) \<le> worth_until rate T b"
    and "bs_last_refill b' \<le> now + 100" and "bs_last_refill b \<le> bs_last_refill b'"
proof -
  let ?c = "refill_bucket rate cap now b"
  note t = assms(3) [unfolded on_time_def, THEN conjunct1] assms(3) [unfolded on_time_def, THEN conjunct2]
  note r = clamped_rate [OF assms(1,2)]
  have "worth_until rate T ?c \<le> worth_until rate T b" "bs_last_refill ?c \<le> now + 100" "bs_last_refill b \<le> bs_last_refill ?c"
    using code_bucket.potential_refill [of rate T cap now b] code_bucket.refill_last [OF t, of rate cap]
    unfolding r refill_bucket_with by blast+
  then show "worth_until rate T b' + (if v = None then 5999999940000000000 else 0) \<le> worth_until rate T b"
    "bs_last_refill b' \<le> now + 100" "bs_last_refill b \<le> bs_last_refill b'"
    using assms(4) by (auto simp: take_token_def Let_def worth_until_def of_nat_diff algebra_simps split: if_splits)
qed

text \<open>The first request of a window leaves a bucket worth its burst, one token and the window.\<close>

lemma take_token_start:
  assumes "0 < rate" "rate \<le> 300" "on_time now b" "bs_tokens b \<le> cap" "take_token rate cap now b = (v, b')"
  shows "worth_until rate T b' + (if v = None then 5999999940000000000 else 0)
     \<le> int cap * 5999999940000000000 + 100000000 * (int rate * (int T - int now) + 60000000000 + 200 * int rate)"
proof -
  note r = clamped_rate [OF assms(1,2)]
  have t: "now \<le> bs_last_refill b + 100000000000000000" using assms(3) by (simp add: on_time_def)
  have "worth_until rate T b' + (if v = None then 5999999940000000000 else 0)
      \<le> worth_until rate T (refill_bucket rate cap now b)"
    using assms(5) by (auto simp: take_token_def Let_def worth_until_def of_nat_diff split: if_splits)
  also have "\<dots> \<le> int cap * 5999999940000000000 + 100000000 * (int rate * (int T - int now) + 60000000000 + 200 * int rate)"
    using code_bucket.potential_start [OF assms(4) t, of rate T] unfolding r refill_bucket_with .
  finally show ?thesis .
qed

section \<open>A run of requests\<close>

type_synonym rate_request = "rate_bucket \<times> client_identity option \<times> nat"

definition request_time :: "rate_request \<Rightarrow> nat" where "request_time r = snd (snd r)"

lemma request_time_simp [simp]: "request_time (b, p, t) = t" by (simp add: request_time_def)

fun accepted_in :: "host \<Rightarrow> rate_bucket \<Rightarrow> rate_limiter \<Rightarrow> rate_request list \<Rightarrow> nat" where
  "accepted_in h B l [] = 0"
| "accepted_in h B l ((b, p, t) # rs) =
     (let (v, l') = check_rate h b p t l in
      (if v = None \<and> b = B then 1 else 0) + accepted_in h B l' rs)"

fun limiter_after :: "host \<Rightarrow> rate_limiter \<Rightarrow> rate_request list \<Rightarrow> rate_limiter" where
  "limiter_after h l [] = l"
| "limiter_after h l ((b, p, t) # rs) = limiter_after h (snd (check_rate h b p t l)) rs"

text \<open>One request either leaves the global bucket \<open>B\<close> alone and is not accepted from it, or takes a
  token of it.\<close>

lemma check_principal_buckets [simp]: "rl_buckets (snd (check_principal b p now l)) = rl_buckets l"
  by (simp add: check_principal_def Let_def split: prod.splits)

lemma check_rate_bucket:
  assumes "check_rate h b p t l = (v, l')" "B \<noteq> Unlimited_Bucket"
  obtains (aside) "rl_buckets l' B = rl_buckets l B" "\<not> (v = None \<and> b = B)"
    | (taken) "b = B" "take_token (max_per_minute (bucket_budget B)) (burst (bucket_budget B)) t (rl_buckets l B)
                 = (v, rl_buckets l' B)"
proof -
  have g: "(rl_buckets l' B = rl_buckets l B \<and> \<not> (v = None \<and> b = B)) \<or>
        (b = B \<and> take_token (max_per_minute (bucket_budget B)) (burst (bucket_budget B)) t (rl_buckets l B)
                 = (v, rl_buckets l' B))"
    if "check_global b t l0 = (v, l')" "rl_buckets l0 = rl_buckets l" for l0
    using that by (cases "b = B") (auto simp: check_global_def Let_def split: prod.splits)
  show thesis
  proof (cases "b = Unlimited_Bucket")
    case True
    then show thesis using assms aside by (auto simp: check_rate_def)
  next
    case u: False
    show thesis
    proof (cases "first_party_peer h p")
      case True
      then show thesis using g [of l] u assms(1) aside taken by (auto simp: check_rate_def)
    next
      case False
      obtain w l0 where c: "check_principal b p t l = (w, l0)" by (cases "check_principal b p t l")
      then have l0: "rl_buckets l0 = rl_buckets l" using check_principal_buckets [of b p t l] by simp
      show thesis
      proof (cases w)
        case None
        then show thesis using g [OF _ l0] c u False assms(1) aside taken by (auto simp: check_rate_def)
      next
        case (Some r)
        then show thesis using c u False assms(1) aside l0 by (auto simp: check_rate_def)
      qed
    qed
  qed
qed

lemma budget_rate: "B \<noteq> Unlimited_Bucket \<Longrightarrow> 0 < max_per_minute (bucket_budget B) \<and> max_per_minute (bucket_budget B) \<le> 300"
  by (cases B) (simp_all add: new_bucket_config_def)

definition bucket_ok :: "rate_bucket \<Rightarrow> nat \<Rightarrow> bucket_state \<Rightarrow> bool" where
  "bucket_ok B now b \<longleftrightarrow> bs_tokens b \<le> burst (bucket_budget B) \<and> bs_last_refill b \<le> now + 100"

lemma bucket_ok_take:
  assumes "B \<noteq> Unlimited_Bucket" "bucket_ok B now b" "now \<le> bs_last_refill b + 100000000000000000"
    and t: "take_token (max_per_minute (bucket_budget B)) (burst (bucket_budget B)) now b = (v, b')"
  shows "bucket_ok B now b'" "bs_last_refill b \<le> bs_last_refill b'"
proof -
  have o: "on_time now b" using assms(2,3) by (simp add: bucket_ok_def on_time_def)
  note l = take_token_worth(2,3) [OF conjunct1 [OF budget_rate [OF assms(1)]] conjunct2 [OF budget_rate [OF assms(1)]] o t]
  have "bs_tokens b' \<le> burst (bucket_budget B)"
    using t assms(2) by (auto simp: take_token_def refill_bucket_def bucket_ok_def Let_def split: if_splits)
  then show "bucket_ok B now b'" "bs_last_refill b \<le> bs_last_refill b'" using l by (simp_all add: bucket_ok_def)
qed

lemma accepted_worth:
  assumes "B \<noteq> Unlimited_Bucket" "sorted (map request_time rs)"
    and "\<forall>r \<in> set rs. on_time (request_time r) (rl_buckets l B) \<and> request_time r \<le> T"
    and "bs_last_refill (rl_buckets l B) \<le> T + 100"
  shows "int (accepted_in h B l rs) * 5999999940000000000
           \<le> worth_until (max_per_minute (bucket_budget B)) T (rl_buckets l B)"
  using assms(2-)
proof (induction rs arbitrary: l)
  case Nil
  then show ?case by (simp add: worth_until_def)
next
  case (Cons r rs)
  obtain b p t where r: "r = (b, p, t)" by (cases r) auto
  obtain v l' where c: "check_rate h b p t l = (v, l')" by (cases "check_rate h b p t l")
  from c assms(1) show ?case
  proof (cases rule: check_rate_bucket)
    case aside
    then show ?thesis using Cons.IH [of l'] Cons.prems c by (auto simp: r)
  next
    case taken
    have o: "on_time t (rl_buckets l B)" using Cons.prems(2) by (simp add: r)
    note w = take_token_worth [OF conjunct1 [OF budget_rate [OF assms(1)]] conjunct2 [OF budget_rate [OF assms(1)]] o taken(2)]
    have "int (accepted_in h B l' rs) * 5999999940000000000
           \<le> worth_until (max_per_minute (bucket_budget B)) T (rl_buckets l' B)"
      using Cons.prems w(2,3) by (intro Cons.IH) (auto simp: r on_time_def)
    then show ?thesis using w(1) [of T] c taken(1) by (cases v) (simp_all add: r algebra_simps)
  qed
qed

lemma accepted_in_window:
  assumes "B \<noteq> Unlimited_Bucket" "sorted (map request_time rs)" "bucket_ok B t\<^sub>0 (rl_buckets l B)" "t\<^sub>0 \<le> T"
    and "\<forall>r \<in> set rs. t\<^sub>0 \<le> request_time r \<and> request_time r \<le> T
           \<and> request_time r \<le> bs_last_refill (rl_buckets l B) + 100000000000000000"
  shows "int (accepted_in h B l rs) * 5999999940000000000
           \<le> int (burst (bucket_budget B)) * 5999999940000000000
              + 100000000 * (int (max_per_minute (bucket_budget B)) * (int T - int t\<^sub>0) + 60000000000
                             + 200 * int (max_per_minute (bucket_budget B)))"
  using assms(2-)
proof (induction rs arbitrary: l)
  case Nil
  then show ?case by simp
next
  case (Cons r rs)
  obtain b p t where r: "r = (b, p, t)" by (cases r) auto
  obtain v l' where c: "check_rate h b p t l = (v, l')" by (cases "check_rate h b p t l")
  from c assms(1) show ?case
  proof (cases rule: check_rate_bucket)
    case aside
    then show ?thesis using Cons.IH [of l'] Cons.prems c by (auto simp: r)
  next
    case taken
    have o: "on_time t (rl_buckets l B)"
      using Cons.prems(2,4) by (auto simp: r bucket_ok_def on_time_def)
    have k: "bs_tokens (rl_buckets l B) \<le> burst (bucket_budget B)" using Cons.prems(2) by (simp add: bucket_ok_def)
    note rate = conjunct1 [OF budget_rate [OF assms(1)]] conjunct2 [OF budget_rate [OF assms(1)]]
    note w = take_token_worth(2,3) [OF rate o taken(2)]
    note s = take_token_start [OF rate o k taken(2), of T]
    have t: "t\<^sub>0 \<le> t" "t \<le> T" using Cons.prems(4) by (auto simp: r)
    have "int (accepted_in h B l' rs) * 5999999940000000000
           \<le> worth_until (max_per_minute (bucket_budget B)) T (rl_buckets l' B)"
      using Cons.prems w t by (intro accepted_worth [OF assms(1)]) (auto simp: r on_time_def)
    moreover have "int (max_per_minute (bucket_budget B)) * (int T - int t)
        \<le> int (max_per_minute (bucket_budget B)) * (int T - int t\<^sub>0)"
      using t by (intro mult_left_mono) simp_all
    ultimately show ?thesis using s c taken(1) by (cases v) (simp_all add: r algebra_simps)
  qed
qed

lemma limiter_after_ok:
  assumes "B \<noteq> Unlimited_Bucket" "sorted (map request_time rs)" "bucket_ok B t\<^sub>0 (rl_buckets l B)"
    and "\<forall>r \<in> set rs. t\<^sub>0 \<le> request_time r \<and> request_time r \<le> t\<^sub>1
           \<and> request_time r \<le> bs_last_refill (rl_buckets l B) + 100000000000000000"
    and "t\<^sub>0 \<le> t\<^sub>1"
  shows "bucket_ok B t\<^sub>1 (rl_buckets (limiter_after h l rs) B)
     \<and> bs_last_refill (rl_buckets l B) \<le> bs_last_refill (rl_buckets (limiter_after h l rs) B)"
  using assms(2-)
proof (induction rs arbitrary: l t\<^sub>0)
  case Nil
  then show ?case by (simp add: bucket_ok_def)
next
  case (Cons r rs)
  obtain b p t where r: "r = (b, p, t)" by (cases r) auto
  obtain v l' where c: "check_rate h b p t l = (v, l')" by (cases "check_rate h b p t l")
  from c assms(1) show ?case
  proof (cases rule: check_rate_bucket)
    case aside
    then show ?thesis using Cons.IH [of t\<^sub>0 l'] Cons.prems c by (auto simp: r)
  next
    case taken
    have o: "bucket_ok B t (rl_buckets l B)" "t \<le> bs_last_refill (rl_buckets l B) + 100000000000000000"
      using Cons.prems(2,3) by (auto simp: r bucket_ok_def)
    note k = bucket_ok_take [OF assms(1) o taken(2)]
    have "bucket_ok B t\<^sub>1 (rl_buckets (limiter_after h l' rs) B)
       \<and> bs_last_refill (rl_buckets l' B) \<le> bs_last_refill (rl_buckets (limiter_after h l' rs) B)"
      using Cons.prems k by (intro Cons.IH [of t]) (auto simp: r)
    then show ?thesis using c k by (simp add: r)
  qed
qed

lemma window_slack:
  fixes a c w :: int
  assumes "a * 5999999940000000000 \<le> c * 5999999940000000000 + 100000000 * (w + 60000000000 + 200 * r)"
    and "r \<le> 300" "w \<le> 3000000000000000000"
  shows "a * 60000000000 \<le> (c + 2) * 60000000000 + w"
proof (rule ccontr)
  assume "\<not> ?thesis"
  then have "120000000000 + w \<le> (a - c) * 60000000000" by (simp add: algebra_simps)
  then have "(120000000000 + w) * 99999999 \<le> (a - c) * 60000000000 * 99999999" by (rule mult_right_mono) simp
  then show False using assms by (simp add: algebra_simps)
qed

definition example_requests :: "rate_request list" where
  "example_requests = [(SourcesMutation_Bucket, None, 0), (SourcesMutation_Bucket, None, 0), (SourcesMutation_Bucket, None, 0)]"

text \<open>
C6: The rate limiter keeps its promise to the whole machine. From any history of requests of any
callers, over any window of up to 115 days the requests let through in one method class, by all
principals and connections together, number at most the burst of the class, two, and its nominal rate
times the length of the window; the two cover the token in the making and all rounding of the
floating-point refill, for an uptime of up to three years.
\<close>

theorem rate_limit_bound:
  assumes "B \<noteq> Unlimited_Bucket" and "sorted (map request_time (pre @ rs))"
    and "\<forall>r \<in> set pre. request_time r \<le> t\<^sub>0"
    and "\<forall>r \<in> set rs. t\<^sub>0 \<le> request_time r \<and> request_time r \<le> t\<^sub>0 + w"
    and "t\<^sub>0 + w \<le> 100000000000000000" and "w \<le> 10000000000000000"
  shows "accepted_in h B (limiter_after h (new_rate_limiter 0) pre) rs * 60000000000
           \<le> (burst (bucket_budget B) + 2) * 60000000000 + max_per_minute (bucket_budget B) * w"
proof -
  let ?l = "limiter_after h (new_rate_limiter 0) pre"
  have i: "bucket_ok B 0 (rl_buckets (new_rate_limiter 0) B)" "bs_last_refill (rl_buckets (new_rate_limiter 0) B) = 0"
    by (simp_all add: bucket_ok_def new_rate_limiter_def)
  have p: "bucket_ok B t\<^sub>0 (rl_buckets ?l B)"
    using limiter_after_ok [OF assms(1) _ i(1), of pre t\<^sub>0 h] assms i(2) by (fastforce simp: sorted_append)
  have r: "int (max_per_minute (bucket_budget B)) \<le> 300" using budget_rate [OF assms(1)] by simp
  then have "int (max_per_minute (bucket_budget B)) * int w \<le> 300 * 10000000000000000"
    using assms(6) by (intro mult_mono) simp_all
  then have m: "int (max_per_minute (bucket_budget B)) * int w \<le> 3000000000000000000" by simp
  have s: "sorted (map request_time rs)" using assms(2) by (simp add: sorted_append)
  have b: "\<forall>r \<in> set rs. t\<^sub>0 \<le> request_time r \<and> request_time r \<le> t\<^sub>0 + w
           \<and> request_time r \<le> bs_last_refill (rl_buckets ?l B) + 100000000000000000"
    using assms(4,5) by fastforce
  have "int (accepted_in h B ?l rs) * 60000000000
      \<le> (int (burst (bucket_budget B)) + 2) * 60000000000 + int (max_per_minute (bucket_budget B)) * int w"
    using accepted_in_window [OF assms(1) s p _ b, of h] by (intro window_slack [OF _ r m]) simp
  then have "int (accepted_in h B ?l rs * 60000000000)
      \<le> int ((burst (bucket_budget B) + 2) * 60000000000 + max_per_minute (bucket_budget B) * w)"
    by (simp add: algebra_simps)
  then show ?thesis by (simp only: of_nat_le_iff)
qed

theorem rate_limit_bound_witness:
  "accepted_in example_host SourcesMutation_Bucket (limiter_after example_host (new_rate_limiter 0) []) example_requests
     \<le> 4"
  using rate_limit_bound [of SourcesMutation_Bucket "[]" example_requests 0 0 example_host]
  by (simp add: example_requests_def new_bucket_config_def)

end
