(* ===== verification/Cfg_Types.thy ===== *)
theory Cfg_Types
  imports Complex_Main Std_Text
begin

text \<open>
  The daemon's configuration, \<open>crates/sentinelld/src/config/mod.rs\<close> with the sections it takes from
  \<open>fish\<close> and \<open>web_protection\<close>, and its mirror on the wire,
  \<open>crates/sentinella-ipc-proto/src/full_config.rs\<close>. \<open>u32\<close> and \<open>u64\<close> settings are natural numbers: they
  are compared, clamped and copied, never added. A binary64 setting is the rational it stands for, or
  one of the values TOML can write beside the finite ones.
\<close>

datatype f64_value = Fin rat | NaN | PInf | NInf

section \<open>The sections and the whole\<close>

record scan_config =
  sc_argus_worker_enabled :: bool
  sc_argus_worker_path :: string
  sc_argus_worker_timeout_sec :: nat
  sc_orchestrator_file_scan_enabled :: bool
  sc_orchestrator_folder_scan_enabled :: bool
  sc_orchestrator_quick_scan_enabled :: bool
  sc_orchestrator_full_scan_enabled :: bool

record performance_config =
  pf_memory_profile :: string
  pf_memory_warning_mb :: nat
  pf_memory_critical_mb :: nat
  pf_external_argus_under_pressure :: bool
  pf_max_resident_workers_on_pressure :: nat

record fish_config =
  fi_enabled :: bool
  fi_observe_only :: bool
  fi_window_seconds :: nat
  fi_rename_threshold :: nat
  fi_rewrite_threshold :: nat
  fi_ext_mutation_threshold :: nat
  fi_slow_burn_window_secs :: nat
  fi_slow_burn_threshold :: nat
  fi_entropy_delta_threshold :: f64_value
  fi_alert_cooldown_seconds :: nat
  fi_active_response :: string

record sandbox_config =
  sb_enabled :: bool
  sb_mode :: string
  sb_timeout_sec :: nat
  sb_min_score :: nat
  sb_max_score :: nat

record developer_config =
  dv_enabled :: bool
  dv_password_sha256 :: string
  dv_telemetry_enabled :: bool
  dv_telemetry_max_kb :: nat

record web_protection_config =
  wp_enabled :: bool
  wp_listen :: string
  wp_upstreams :: "string list"
  wp_block_response :: string
  wp_health_check_name :: string
  wp_blocklists :: "string list"
  wp_allowlist :: "string list"
  wp_log_queries :: bool

record config =
  c_realtime_enabled :: bool
  c_realtime_roots :: "string list"
  c_max_file_size_mb :: nat
  c_scan_archives :: bool
  c_heuristic_alerts :: bool
  c_auto_update :: bool
  c_update_interval_hours :: nat
  c_signature_stale_days :: nat
  c_signature_stale_notify_days :: nat
  c_update_mirror :: string
  c_quarantine_retention_days :: nat
  c_auto_quarantine :: bool
  c_excluded_paths :: "string list"
  c_excluded_extensions :: "string list"
  c_excluded_detections :: "string list"
  c_trusted_hashes :: "string list"
  c_enhanced_signature_provider :: string
  c_log_level :: string
  c_scheduled_scan_enabled :: bool
  c_scheduled_scan_hour :: nat
  c_scheduled_scan_type :: string
  c_startup_critical_scan :: bool
  c_powershell_bridge_enabled :: bool
  c_powershell_poll_seconds :: nat
  c_idle_scan_enabled :: bool
  c_idle_scan_start_delay_secs :: nat
  c_idle_scan_on_battery :: bool
  c_idle_scan_cpu_pause_threshold :: nat
  c_idle_scan_max_file_size_mb :: nat
  c_idle_scan_fullscreen_pause :: bool
  c_idle_scan_disk_latency_pause_ms :: nat
  c_idle_scan_max_files_per_session :: nat
  c_idle_scan_slow_delay_min_ms :: nat
  c_idle_scan_slow_delay_max_ms :: nat
  c_idle_scan_normal_delay_min_ms :: nat
  c_idle_scan_normal_delay_max_ms :: nat
  c_idle_scan_fast_delay_min_ms :: nat
  c_idle_scan_fast_delay_max_ms :: nat
  c_scan :: scan_config
  c_argus_worker_enabled :: bool
  c_argus_worker_path :: string
  c_argus_worker_timeout_sec :: nat
  c_clamav_isolation :: string
  c_clamav_worker_timeout_sec :: nat
  c_performance :: performance_config
  c_fish :: fish_config
  c_sandbox :: sandbox_config
  c_developer :: developer_config
  c_web_protection :: web_protection_config

record full_scan_config =
  fs_argus_worker_enabled :: bool
  fs_argus_worker_path :: string
  fs_argus_worker_timeout_sec :: nat
  fs_orchestrator_file_scan_enabled :: bool
  fs_orchestrator_folder_scan_enabled :: bool
  fs_orchestrator_quick_scan_enabled :: bool
  fs_orchestrator_full_scan_enabled :: bool

record full_performance_config =
  fp_memory_profile :: string
  fp_memory_warning_mb :: nat
  fp_memory_critical_mb :: nat
  fp_external_argus_under_pressure :: bool
  fp_max_resident_workers_on_pressure :: nat

record full_fish_config =
  ff_enabled :: bool
  ff_observe_only :: bool
  ff_window_seconds :: nat
  ff_rename_threshold :: nat
  ff_rewrite_threshold :: nat
  ff_ext_mutation_threshold :: nat
  ff_slow_burn_window_secs :: nat
  ff_slow_burn_threshold :: nat
  ff_entropy_delta_threshold :: f64_value
  ff_alert_cooldown_seconds :: nat
  ff_active_response :: string

record full_sandbox_config =
  fb_enabled :: bool
  fb_mode :: string
  fb_timeout_sec :: nat
  fb_min_score :: nat
  fb_max_score :: nat

record developer_config_public =
  fd_enabled :: bool
  fd_telemetry_enabled :: bool
  fd_telemetry_max_kb :: nat

record full_web_protection_config =
  fw_enabled :: bool
  fw_listen :: string
  fw_upstreams :: "string list"
  fw_block_response :: string
  fw_health_check_name :: string
  fw_blocklists :: "string list"
  fw_allowlist :: "string list"
  fw_log_queries :: bool

record full_config =
  f_realtime_enabled :: bool
  f_realtime_roots :: "string list"
  f_max_file_size_mb :: nat
  f_scan_archives :: bool
  f_heuristic_alerts :: bool
  f_auto_update :: bool
  f_update_interval_hours :: nat
  f_signature_stale_days :: nat
  f_signature_stale_notify_days :: nat
  f_update_mirror :: string
  f_quarantine_retention_days :: nat
  f_auto_quarantine :: bool
  f_excluded_paths :: "string list"
  f_excluded_extensions :: "string list"
  f_excluded_detections :: "string list"
  f_trusted_hashes :: "string list"
  f_enhanced_signature_provider :: string
  f_log_level :: string
  f_scheduled_scan_enabled :: bool
  f_scheduled_scan_hour :: nat
  f_scheduled_scan_type :: string
  f_startup_critical_scan :: bool
  f_powershell_bridge_enabled :: bool
  f_powershell_poll_seconds :: nat
  f_idle_scan_enabled :: bool
  f_idle_scan_start_delay_secs :: nat
  f_idle_scan_on_battery :: bool
  f_idle_scan_cpu_pause_threshold :: nat
  f_idle_scan_max_file_size_mb :: nat
  f_idle_scan_fullscreen_pause :: bool
  f_idle_scan_disk_latency_pause_ms :: nat
  f_idle_scan_max_files_per_session :: nat
  f_idle_scan_slow_delay_min_ms :: nat
  f_idle_scan_slow_delay_max_ms :: nat
  f_idle_scan_normal_delay_min_ms :: nat
  f_idle_scan_normal_delay_max_ms :: nat
  f_idle_scan_fast_delay_min_ms :: nat
  f_idle_scan_fast_delay_max_ms :: nat
  f_argus_worker_enabled :: bool
  f_argus_worker_path :: string
  f_argus_worker_timeout_sec :: nat
  f_clamav_isolation :: string
  f_clamav_worker_timeout_sec :: nat
  f_scan :: full_scan_config
  f_performance :: full_performance_config
  f_fish :: full_fish_config
  f_sandbox :: full_sandbox_config
  f_developer :: developer_config_public
  f_web_protection :: "full_web_protection_config option"

section \<open>Defaults\<close>

text \<open>The binary64 value written \<open>0.20\<close>.\<close>

definition f64_fifth :: f64_value where
  "f64_fifth = Fin (3602879701896397 / 18014398509481984)"

definition default_scan :: scan_config where
  "default_scan =
     \<lparr>sc_argus_worker_enabled = False, sc_argus_worker_path = ''argusd.exe'',
      sc_argus_worker_timeout_sec = 15, sc_orchestrator_file_scan_enabled = False,
      sc_orchestrator_folder_scan_enabled = False, sc_orchestrator_quick_scan_enabled = False,
      sc_orchestrator_full_scan_enabled = True\<rparr>"

definition default_performance :: performance_config where
  "default_performance =
     \<lparr>pf_memory_profile = ''normal'', pf_memory_warning_mb = 1500, pf_memory_critical_mb = 2500,
      pf_external_argus_under_pressure = True, pf_max_resident_workers_on_pressure = 1\<rparr>"

definition default_fish :: fish_config where
  "default_fish =
     \<lparr>fi_enabled = True, fi_observe_only = True, fi_window_seconds = 30, fi_rename_threshold = 50,
      fi_rewrite_threshold = 200, fi_ext_mutation_threshold = 5, fi_slow_burn_window_secs = 600,
      fi_slow_burn_threshold = 2000, fi_entropy_delta_threshold = f64_fifth,
      fi_alert_cooldown_seconds = 60, fi_active_response = ''observe''\<rparr>"

definition default_sandbox :: sandbox_config where
  "default_sandbox =
     \<lparr>sb_enabled = False, sb_mode = ''experimental'', sb_timeout_sec = 10, sb_min_score = 26,
      sb_max_score = 75\<rparr>"

definition default_developer :: developer_config where
  "default_developer =
     \<lparr>dv_enabled = False, dv_password_sha256 = [], dv_telemetry_enabled = True,
      dv_telemetry_max_kb = 2048\<rparr>"

definition default_web_protection :: web_protection_config where
  "default_web_protection =
     \<lparr>wp_enabled = False, wp_listen = ''127.0.0.1:53'', wp_upstreams = [''system''],
      wp_block_response = ''nxdomain'', wp_health_check_name = ''example.com'', wp_blocklists = [],
      wp_allowlist = [], wp_log_queries = False\<rparr>"

definition default_full_scan :: full_scan_config where
  "default_full_scan =
     \<lparr>fs_argus_worker_enabled = False, fs_argus_worker_path = ''argusd.exe'',
      fs_argus_worker_timeout_sec = 15, fs_orchestrator_file_scan_enabled = False,
      fs_orchestrator_folder_scan_enabled = False, fs_orchestrator_quick_scan_enabled = False,
      fs_orchestrator_full_scan_enabled = True\<rparr>"

definition default_full_performance :: full_performance_config where
  "default_full_performance =
     \<lparr>fp_memory_profile = ''normal'', fp_memory_warning_mb = 1500, fp_memory_critical_mb = 2500,
      fp_external_argus_under_pressure = True, fp_max_resident_workers_on_pressure = 1\<rparr>"

definition default_full_fish :: full_fish_config where
  "default_full_fish =
     \<lparr>ff_enabled = True, ff_observe_only = True, ff_window_seconds = 30, ff_rename_threshold = 50,
      ff_rewrite_threshold = 200, ff_ext_mutation_threshold = 5, ff_slow_burn_window_secs = 600,
      ff_slow_burn_threshold = 250, ff_entropy_delta_threshold = f64_fifth,
      ff_alert_cooldown_seconds = 60, ff_active_response = ''observe''\<rparr>"

definition default_full_sandbox :: full_sandbox_config where
  "default_full_sandbox =
     \<lparr>fb_enabled = False, fb_mode = ''experimental'', fb_timeout_sec = 10, fb_min_score = 26,
      fb_max_score = 75\<rparr>"

definition default_full_developer :: developer_config_public where
  "default_full_developer =
     \<lparr>fd_enabled = False, fd_telemetry_enabled = True, fd_telemetry_max_kb = 2048\<rparr>"

definition default_full_web_protection :: full_web_protection_config where
  "default_full_web_protection =
     \<lparr>fw_enabled = False, fw_listen = ''127.0.0.1:53'', fw_upstreams = [''system''],
      fw_block_response = ''nxdomain'', fw_health_check_name = ''example.com'', fw_blocklists = [],
      fw_allowlist = [], fw_log_queries = False\<rparr>"

definition default_full_config :: full_config where
  "default_full_config =
     \<lparr>f_realtime_enabled = True, f_realtime_roots = [], f_max_file_size_mb = 512,
      f_scan_archives = True, f_heuristic_alerts = True, f_auto_update = True,
      f_update_interval_hours = 4, f_signature_stale_days = 3, f_signature_stale_notify_days = 14,
      f_update_mirror = ''database.clamav.net'', f_quarantine_retention_days = 90,
      f_auto_quarantine = True, f_excluded_paths = [], f_excluded_extensions = [],
      f_excluded_detections = [], f_trusted_hashes = [], f_enhanced_signature_provider = ''none'',
      f_log_level = ''info'', f_scheduled_scan_enabled = True, f_scheduled_scan_hour = 3,
      f_scheduled_scan_type = ''quick'', f_startup_critical_scan = True,
      f_powershell_bridge_enabled = False, f_powershell_poll_seconds = 5, f_idle_scan_enabled = True,
      f_idle_scan_start_delay_secs = 300, f_idle_scan_on_battery = False,
      f_idle_scan_cpu_pause_threshold = 50, f_idle_scan_max_file_size_mb = 256,
      f_idle_scan_fullscreen_pause = True, f_idle_scan_disk_latency_pause_ms = 50,
      f_idle_scan_max_files_per_session = 10000, f_idle_scan_slow_delay_min_ms = 1500,
      f_idle_scan_slow_delay_max_ms = 2500, f_idle_scan_normal_delay_min_ms = 400,
      f_idle_scan_normal_delay_max_ms = 1000, f_idle_scan_fast_delay_min_ms = 100,
      f_idle_scan_fast_delay_max_ms = 300, f_argus_worker_enabled = False,
      f_argus_worker_path = ''argusd.exe'', f_argus_worker_timeout_sec = 15,
      f_clamav_isolation = ''in_process'', f_clamav_worker_timeout_sec = 30, f_scan = default_full_scan,
      f_performance = default_full_performance, f_fish = default_full_fish,
      f_sandbox = default_full_sandbox, f_developer = default_full_developer, f_web_protection = None\<rparr>"

text \<open>\<open>env\<close> is the process environment.\<close>

definition under :: "string \<Rightarrow> string list \<Rightarrow> string" where
  "under base parts = base @ concat (map (\<lambda>p. CHR 0x5C # p) parts)"

definition default_roots :: "(string \<Rightarrow> string option) \<Rightarrow> string list" where
  "default_roots env =
     (let home = (case env ''USERPROFILE'' of Some h \<Rightarrow> h
                  | None \<Rightarrow> (case env ''HOME'' of Some h \<Rightarrow> h | None \<Rightarrow> []));
          temp = (case env ''TEMP'' of Some t \<Rightarrow> t | None \<Rightarrow> under home [''AppData'', ''Local'', ''Temp'']) in
      [under home [''Downloads''], under home [''Desktop''], temp, under home [''Documents''],
       under home [''AppData'', ''Roaming''], under home [''AppData'', ''Local'', ''Temp''],
       under ''C:'' [''ProgramData''], under home [''OneDrive'']])"

definition initial_config :: "(string \<Rightarrow> string option) \<Rightarrow> config" where
  "initial_config env =
     \<lparr>c_realtime_enabled = True, c_realtime_roots = default_roots env, c_max_file_size_mb = 512,
      c_scan_archives = True, c_heuristic_alerts = True, c_auto_update = True,
      c_update_interval_hours = 4, c_signature_stale_days = 3, c_signature_stale_notify_days = 14,
      c_update_mirror = ''database.clamav.net'', c_quarantine_retention_days = 90,
      c_auto_quarantine = True, c_excluded_paths = [], c_excluded_extensions = [],
      c_excluded_detections = [], c_trusted_hashes = [], c_enhanced_signature_provider = ''none'',
      c_log_level = ''info'', c_scheduled_scan_enabled = True, c_scheduled_scan_hour = 3,
      c_scheduled_scan_type = ''quick'', c_startup_critical_scan = True,
      c_powershell_bridge_enabled = False, c_powershell_poll_seconds = 5, c_idle_scan_enabled = True,
      c_idle_scan_start_delay_secs = 300, c_idle_scan_on_battery = False,
      c_idle_scan_cpu_pause_threshold = 50, c_idle_scan_max_file_size_mb = 256,
      c_idle_scan_fullscreen_pause = True, c_idle_scan_disk_latency_pause_ms = 50,
      c_idle_scan_max_files_per_session = 10000, c_idle_scan_slow_delay_min_ms = 1500,
      c_idle_scan_slow_delay_max_ms = 2500, c_idle_scan_normal_delay_min_ms = 400,
      c_idle_scan_normal_delay_max_ms = 1000, c_idle_scan_fast_delay_min_ms = 100,
      c_idle_scan_fast_delay_max_ms = 300, c_scan = default_scan, c_argus_worker_enabled = False,
      c_argus_worker_path = ''argusd.exe'', c_argus_worker_timeout_sec = 15,
      c_clamav_isolation = ''in_process'', c_clamav_worker_timeout_sec = 30,
      c_performance = default_performance, c_fish = default_fish, c_sandbox = default_sandbox,
      c_developer = default_developer, c_web_protection = default_web_protection\<rparr>"

end
