(* ===== verification/Std_Addr.thy ===== *)
theory Std_Addr
  imports Std_Text Proxy
begin

text \<open>
  \<open>str::parse::<SocketAddr>\<close>: the standard library's recursive-descent reader of \<open>1.2.3.4:53\<close> and
  \<open>[v6%scope]:53\<close>, with the values it reads.
\<close>

fun octet_values :: "nat \<Rightarrow> string \<Rightarrow> (nat list \<times> string) option" where
  "octet_values 0 s = Some ([], s)"
| "octet_values (Suc n) s =
     (case read_number 10 3 255 False s of
        None \<Rightarrow> None
      | Some (v, r) \<Rightarrow>
          if n = 0 then Some ([v], r)
          else
            (case Option.bind (read_char CHR 0x2E r) (octet_values n) of
               None \<Rightarrow> None
             | Some (vs, r2) \<Rightarrow> Some (v # vs, r2)))"

fun group_values :: "nat \<Rightarrow> nat \<Rightarrow> string \<Rightarrow> nat list \<times> bool \<times> string" where
  "group_values 0 i s = ([], False, s)"
| "group_values (Suc left) i s =
     (case (if i = 0 then Some s else read_char CHR '':'' s) of
        None \<Rightarrow> ([], False, s)
      | Some r \<Rightarrow>
          (case (if 0 < left then octet_values 4 r else None) of
             Some (vs, r4) \<Rightarrow> ([vs ! 0 * 256 + vs ! 1, vs ! 2 * 256 + vs ! 3], True, r4)
           | None \<Rightarrow>
               (case read_number 16 4 0xFFFF True r of
                  None \<Rightarrow> ([], False, s)
                | Some (v, r6) \<Rightarrow> (let (vs, v4, r7) = group_values left (i + 1) r6 in (v # vs, v4, r7)))))"

definition v6_groups :: "string \<Rightarrow> (nat list \<times> string) option" where
  "v6_groups s =
     (let (head, head_ipv4, r) = group_values 8 0 s in
      if length head = 8 then Some (head, r)
      else if head_ipv4 then None
      else
        (case Option.bind (read_char CHR '':'' r) (read_char CHR '':'') of
           None \<Rightarrow> None
         | Some r2 \<Rightarrow>
             (let (tail, _, r3) = group_values (8 - (length head + 1)) 0 r2 in
              Some (head @ replicate (8 - length head - length tail) 0 @ tail, r3))))"

definition number_of :: "nat \<Rightarrow> nat list \<Rightarrow> nat" where
  "number_of base vs = foldl (\<lambda>acc v. acc * base + v) 0 vs"

definition read_port :: "string \<Rightarrow> (nat \<times> string) option" where
  "read_port s = Option.bind (read_char CHR '':'' s) (\<lambda>r. read_number 10 (length r) 65535 True r)"

definition socket_addr_v4 :: "string \<Rightarrow> (socket_addr \<times> string) option" where
  "socket_addr_v4 s =
     (case octet_values 4 s of
        None \<Rightarrow> None
      | Some (vs, r) \<Rightarrow>
          (case read_port r of
             None \<Rightarrow> None
           | Some (p, r2) \<Rightarrow>
               Some (\<lparr>sa_ip = V4 (word_of_nat (number_of 256 vs)), sa_port = word_of_nat p,
                      sa_flowinfo = 0, sa_scope_id = 0\<rparr>, r2)))"

definition read_scope :: "string \<Rightarrow> nat \<times> string" where
  "read_scope s =
     (case Option.bind (read_char CHR ''%'' s) (\<lambda>r. read_number 10 (length r) u32_max True r) of
        None \<Rightarrow> (0, s) | Some x \<Rightarrow> x)"

definition socket_addr_v6 :: "string \<Rightarrow> (socket_addr \<times> string) option" where
  "socket_addr_v6 s =
     (case Option.bind (read_char CHR ''['' s) v6_groups of
        None \<Rightarrow> None
      | Some (gs, r) \<Rightarrow>
          (let (scope, r2) = read_scope r in
           case Option.bind (read_char CHR '']'' r2) read_port of
             None \<Rightarrow> None
           | Some (p, r3) \<Rightarrow>
               Some (\<lparr>sa_ip = V6 (word_of_nat (number_of 65536 gs)), sa_port = word_of_nat p,
                      sa_flowinfo = 0, sa_scope_id = word_of_nat scope\<rparr>, r3)))"

definition parse_socket_addr :: "string \<Rightarrow> socket_addr option" where
  "parse_socket_addr s =
     (case (case socket_addr_v4 s of Some x \<Rightarrow> Some x | None \<Rightarrow> socket_addr_v6 s) of
        Some (a, r) \<Rightarrow> if r = [] then Some a else None
      | None \<Rightarrow> None)"

end
