(* ===== verification/Cfg_Validate.thy ===== *)
theory Cfg_Validate
  imports Cfg_Types Std_Addr Web_Upstreams
begin

text \<open>
  What makes a configuration acceptable: \<open>Config::validate\<close> with the parts of it that live in
  \<open>fish/mod.rs\<close> and \<open>web_protection/config.rs\<close>, the tests on exclusions it shares with the control
  plane, the expansion of environment variables, and loading and saving. A file is the configuration
  its text deserializes to; the TOML text is not represented.
\<close>

section \<open>Clamps\<close>

definition zero_default :: "nat \<Rightarrow> nat \<Rightarrow> nat" where
  "zero_default d n = (if n = 0 then d else n)"

definition at_most :: "nat \<Rightarrow> nat \<Rightarrow> nat" where
  "at_most k n = (if n > k then k else n)"

definition clamp :: "nat \<Rightarrow> nat \<Rightarrow> nat \<Rightarrow> nat" where
  "clamp lo hi n = (if n < lo then lo else if n > hi then hi else n)"

definition one_of :: "string list \<Rightarrow> string \<Rightarrow> string \<Rightarrow> string" where
  "one_of known fallback s = (if s \<in> set known then s else fallback)"

section \<open>Excluded paths\<close>

definition is_ascii_alphabetic :: "char \<Rightarrow> bool" where
  "is_ascii_alphabetic c \<longleftrightarrow> in_range 65 90 c \<or> in_range 97 122 c"

definition normalize_excluded_path :: "string \<Rightarrow> string" where
  "normalize_excluded_path entry =
     trim_end_matches CHR 0x5C
       (map (\<lambda>c. if c = CHR ''/'' then CHR 0x5C else c) (to_ascii_lowercase (trim entry)))"

definition is_drive_root :: "string \<Rightarrow> bool" where
  "is_drive_root n \<longleftrightarrow> length n = 2 \<and> is_ascii_alphabetic (n ! 0) \<and> n ! 1 = CHR '':''"

definition is_forbidden_system_root :: "string \<Rightarrow> bool" where
  "is_forbidden_system_root n \<longleftrightarrow>
     n \<in> set [under ''c:'' [''windows''], under ''c:'' [''windows'', ''system32''],
              under ''c:'' [''program files''], under ''c:'' [''program files (x86)'']]
     \<or> n = under ''c:'' [''users'']"

definition is_dangerous_excluded_path :: "string \<Rightarrow> bool" where
  "is_dangerous_excluded_path entry \<longleftrightarrow>
     (let n = normalize_excluded_path entry in
      n = [] \<or> is_drive_root n \<or> is_forbidden_system_root n \<or> contains n ''..'')"

definition keep_excluded_path :: "string \<Rightarrow> bool" where
  "keep_excluded_path p \<longleftrightarrow>
     (let t = trim p; n = normalize_excluded_path p in
      if t = [] \<or> list_all (\<lambda>c. c = CHR 0x5C \<or> c = CHR ''/'') t then False
      else if is_drive_root n then False
      else if length n < 3 then False
      else if is_forbidden_system_root n then False
      else if contains n ''..'' then False
      else True)"

section \<open>Other lists\<close>

definition keep_excluded_detection :: "string \<Rightarrow> bool" where
  "keep_excluded_detection d \<longleftrightarrow> (let t = trim d in if t = [] then False else if length t < 3 then False else True)"

definition NEVER_EXCLUDABLE_EXTENSIONS :: "string list" where
  "NEVER_EXCLUDABLE_EXTENSIONS =
     [''exe'', ''dll'', ''sys'', ''drv'', ''scr'', ''ocx'', ''cpl'', ''msi'', ''msp'', ''msc'',
      ''bat'', ''cmd'', ''com'', ''ps1'', ''psm1'', ''vbs'', ''vbe'', ''js'', ''jse'', ''wsf'',
      ''wsh'', ''hta'', ''lnk'', ''url'', ''pif'', ''reg'', ''inf'', ''jar'', ''py'', ''pyw'',
      ''rb'', ''pl'', ''sh'']"

definition normal_extension :: "string \<Rightarrow> string" where
  "normal_extension e = to_ascii_lowercase (dropWhile (\<lambda>c. c = CHR ''.'') (trim e))"

definition keep_excluded_extension :: "string \<Rightarrow> bool" where
  "keep_excluded_extension e \<longleftrightarrow>
     (let t = normal_extension e in
      if t = [] then False
      else if CHR ''*'' \<in> set t \<or> CHR ''?'' \<in> set t then False
      else if t \<in> set NEVER_EXCLUDABLE_EXTENSIONS then False
      else True)"

definition keep_trusted_hash :: "string \<Rightarrow> bool" where
  "keep_trusted_hash h \<longleftrightarrow> (let t = trim h in length t = 64 \<and> list_all is_hex_digit t)"

definition normal_hash :: "string \<Rightarrow> string" where
  "normal_hash h = to_ascii_lowercase (trim h)"

definition MAX_REALTIME_ROOTS :: nat where "MAX_REALTIME_ROOTS = 64"
definition MAX_EXCLUSIONS :: nat where "MAX_EXCLUSIONS = 50"

definition is_known_signature_provider :: "string \<Rightarrow> bool" where
  "is_known_signature_provider v \<longleftrightarrow> v \<in> set [''none'', ''securiteinfo'', ''urlhaus'', ''malwarepatrol'']"

section \<open>The update mirror\<close>

function trim_start_matches :: "string \<Rightarrow> string \<Rightarrow> string" where
  "trim_start_matches p s =
     (if p \<noteq> [] \<and> take (length p) s = p then trim_start_matches p (drop (length p) s) else s)"
  by pat_completeness auto
termination
proof (relation "measure (\<lambda>(p, s). length s)", goal_cases)
  case (2 p s)
  then have "s \<noteq> []" by auto
  then show ?case using 2 by simp
qed simp

declare trim_start_matches.simps [simp del]

definition valid_mirror :: "string \<Rightarrow> string" where
  "valid_mirror m =
     (if m = [] then ''database.clamav.net''
      else
        let t = hd (split_on CHR ''/'' (trim_start_matches ''http://'' (trim_start_matches ''https://'' (trim m)))) in
        if t = [] \<or> length t > 253 then ''database.clamav.net'' else t)"

section \<open>The sections\<close>

text \<open>The two bounds of a delay, swapped when they are the wrong way round and then kept off zero.\<close>

definition valid_delays :: "nat \<times> nat \<Rightarrow> nat \<times> nat" where
  "valid_delays d =
     (let (lo, hi) = (if fst d > snd d then (snd d, fst d) else d);
          lo' = (if lo = 0 then 1 else lo) in
      (lo', if hi < lo' then lo' else hi))"

definition valid_performance :: "performance_config \<Rightarrow> performance_config" where
  "valid_performance p =
     (let q = (if pf_memory_warning_mb p \<ge> pf_memory_critical_mb p
               then p\<lparr>pf_memory_warning_mb := 1500, pf_memory_critical_mb := 2500\<rparr> else p) in
      q\<lparr>pf_memory_profile := one_of [''low'', ''normal'', ''aggressive''] ''normal'' (pf_memory_profile q)\<rparr>)"

definition valid_scan :: "scan_config \<Rightarrow> scan_config" where
  "valid_scan s =
     s\<lparr>sc_argus_worker_path := (if trim (sc_argus_worker_path s) = [] then ''argusd.exe'' else sc_argus_worker_path s),
       sc_argus_worker_timeout_sec := at_most 300 (zero_default 15 (sc_argus_worker_timeout_sec s))\<rparr>"

definition valid_entropy :: "f64_value \<Rightarrow> f64_value" where
  "valid_entropy e =
     (case (case e of Fin x \<Rightarrow> e | _ \<Rightarrow> f64_fifth) of
        Fin x \<Rightarrow> (let y = (if x < 0 then 0 else x) in Fin (if y > 1 then 1 else y))
      | other \<Rightarrow> other)"

definition valid_fish :: "fish_config \<Rightarrow> fish_config" where
  "valid_fish f =
     f\<lparr>fi_window_seconds := clamp 5 3600 (fi_window_seconds f),
       fi_rename_threshold := zero_default (fi_rename_threshold default_fish) (fi_rename_threshold f),
       fi_rewrite_threshold := zero_default (fi_rewrite_threshold default_fish) (fi_rewrite_threshold f),
       fi_ext_mutation_threshold := zero_default (fi_ext_mutation_threshold default_fish) (fi_ext_mutation_threshold f),
       fi_slow_burn_window_secs := clamp 60 86400
         (zero_default (fi_slow_burn_window_secs default_fish) (fi_slow_burn_window_secs f)),
       fi_slow_burn_threshold := zero_default (fi_slow_burn_threshold default_fish) (fi_slow_burn_threshold f),
       fi_entropy_delta_threshold := valid_entropy (fi_entropy_delta_threshold f),
       fi_alert_cooldown_seconds := at_most 86400 (fi_alert_cooldown_seconds f),
       fi_active_response := one_of [''observe'', ''suspend'', ''terminate''] ''observe'' (fi_active_response f)\<rparr>"

definition valid_developer :: "developer_config \<Rightarrow> developer_config" where
  "valid_developer d =
     (let h = to_ascii_lowercase (trim (dv_password_sha256 d));
          h' = (if length h = 64 \<and> list_all is_hex_digit h then h else []) in
      d\<lparr>dv_enabled := (if dv_enabled d \<and> h' = [] then False else dv_enabled d),
        dv_password_sha256 := h',
        dv_telemetry_max_kb := at_most 65536 (if dv_telemetry_max_kb d < 64 then 64 else dv_telemetry_max_kb d)\<rparr>)"

definition valid_sandbox :: "sandbox_config \<Rightarrow> sandbox_config" where
  "valid_sandbox s =
     (let mn = at_most 100 (sb_min_score s); mx = at_most 100 (sb_max_score s) in
      s\<lparr>sb_mode := one_of [''experimental'', ''production''] ''experimental'' (sb_mode s),
        sb_timeout_sec := at_most 120 (if sb_timeout_sec s < 5 then 5 else sb_timeout_sec s),
        sb_min_score := (if mn > mx then mx - 1 else mn),
        sb_max_score := mx\<rparr>)"

text \<open>The web section is read the way its own module reads it.\<close>

definition read_upstream :: "string \<Rightarrow> upstream_entry" where
  "read_upstream u =
     (if u = ''system'' then System_Entry
      else case parse_socket_addr u of Some a \<Rightarrow> Address_Entry a | None \<Rightarrow> Malformed_Entry u)"

definition read_web :: "web_protection_config \<Rightarrow> web_config" where
  "read_web w =
     \<lparr>wc_enabled = wp_enabled w, wc_listen = parse_socket_addr (wp_listen w),
      wc_upstreams = map read_upstream (wp_upstreams w), wc_block_response = wp_block_response w,
      wc_health_name = wp_health_check_name w\<rparr>"

definition valid_web :: "web_protection_config \<Rightarrow> web_protection_config" where
  "valid_web w =
     (let v = validate_config (read_web w) in
      w\<lparr>wp_enabled := wc_enabled v, wp_block_response := wc_block_response v\<rparr>)"

section \<open>The whole\<close>

definition valid_numbers :: "config \<Rightarrow> config" where
  "valid_numbers c =
     (let stale = clamp 1 30 (c_signature_stale_days c);
          slow = valid_delays (c_idle_scan_slow_delay_min_ms c, c_idle_scan_slow_delay_max_ms c);
          normal = valid_delays (c_idle_scan_normal_delay_min_ms c, c_idle_scan_normal_delay_max_ms c);
          fast = valid_delays (c_idle_scan_fast_delay_min_ms c, c_idle_scan_fast_delay_max_ms c) in
      c\<lparr>c_max_file_size_mb := at_most 4096 (zero_default 512 (c_max_file_size_mb c)),
        c_update_interval_hours := at_most 168 (zero_default 1 (c_update_interval_hours c)),
        c_signature_stale_days := stale,
        c_signature_stale_notify_days := max (clamp 3 365 (c_signature_stale_notify_days c)) stale,
        c_quarantine_retention_days := at_most 365 (zero_default 1 (c_quarantine_retention_days c)),
        c_scheduled_scan_hour := (if c_scheduled_scan_hour c > 23 then 3 else c_scheduled_scan_hour c),
        c_idle_scan_cpu_pause_threshold := at_most 100 (zero_default 5 (c_idle_scan_cpu_pause_threshold c)),
        c_idle_scan_disk_latency_pause_ms := at_most 60000 (zero_default 50 (c_idle_scan_disk_latency_pause_ms c)),
        c_idle_scan_max_files_per_session := zero_default 10000 (c_idle_scan_max_files_per_session c),
        c_idle_scan_max_file_size_mb := at_most 4096 (zero_default 256 (c_idle_scan_max_file_size_mb c)),
        c_idle_scan_slow_delay_min_ms := fst slow, c_idle_scan_slow_delay_max_ms := snd slow,
        c_idle_scan_normal_delay_min_ms := fst normal, c_idle_scan_normal_delay_max_ms := snd normal,
        c_idle_scan_fast_delay_min_ms := fst fast, c_idle_scan_fast_delay_max_ms := snd fast,
        c_powershell_poll_seconds := at_most 3600 (zero_default 5 (c_powershell_poll_seconds c)),
        c_argus_worker_timeout_sec := at_most 300 (zero_default 15 (c_argus_worker_timeout_sec c)),
        c_clamav_worker_timeout_sec :=
          at_most 300 (if c_clamav_worker_timeout_sec c < 5 then 30 else c_clamav_worker_timeout_sec c)\<rparr>)"

definition valid_names :: "config \<Rightarrow> config" where
  "valid_names c =
     c\<lparr>c_update_mirror := valid_mirror (c_update_mirror c),
       c_scheduled_scan_type := one_of [''quick'', ''full''] ''quick'' (c_scheduled_scan_type c),
       c_log_level := one_of [''trace'', ''debug'', ''info'', ''warn'', ''error''] ''info'' (c_log_level c),
       c_enhanced_signature_provider :=
         (if is_known_signature_provider (c_enhanced_signature_provider c)
          then c_enhanced_signature_provider c else ''none''),
       c_argus_worker_path := (if trim (c_argus_worker_path c) = [] then ''argusd.exe'' else c_argus_worker_path c),
       c_clamav_isolation := one_of [''in_process'', ''subprocess''] ''in_process'' (c_clamav_isolation c)\<rparr>"

definition valid_sections :: "config \<Rightarrow> config" where
  "valid_sections c =
     c\<lparr>c_performance := valid_performance (c_performance c), c_scan := valid_scan (c_scan c),
       c_developer := valid_developer (c_developer c), c_sandbox := valid_sandbox (c_sandbox c),
       c_fish := valid_fish (c_fish c), c_web_protection := valid_web (c_web_protection c)\<rparr>"

definition valid_lists :: "config \<Rightarrow> config" where
  "valid_lists c =
     c\<lparr>c_excluded_paths := take MAX_EXCLUSIONS (filter keep_excluded_path (c_excluded_paths c)),
       c_realtime_roots := take MAX_REALTIME_ROOTS (c_realtime_roots c),
       c_excluded_detections := take MAX_EXCLUSIONS (filter keep_excluded_detection (c_excluded_detections c)),
       c_excluded_extensions :=
         take MAX_EXCLUSIONS (map normal_extension (filter keep_excluded_extension (c_excluded_extensions c))),
       c_trusted_hashes :=
         take MAX_EXCLUSIONS (map normal_hash (filter keep_trusted_hash (c_trusted_hashes c)))\<rparr>"

text \<open>\<open>Config::validate\<close>. Its blocks touch different fields, so their order does not matter.\<close>

definition config_validate :: "config \<Rightarrow> config" where
  "config_validate c = valid_lists (valid_sections (valid_names (valid_numbers c)))"

section \<open>Environment variables\<close>

function replace_var :: "string \<Rightarrow> string \<Rightarrow> string \<Rightarrow> string" where
  "replace_var needle resolved s =
     (if s = [] then []
      else if needle \<noteq> [] \<and> take (length needle) s = needle
        \<and> (case drop (length needle) s of [] \<Rightarrow> True
           | c # _ \<Rightarrow> \<not> (is_ascii_alphabetic c \<or> in_range 48 57 c \<or> c = CHR ''_''))
      then resolved @ replace_var needle resolved (drop (length needle) s)
      else hd s # replace_var needle resolved (tl s))"
  by pat_completeness auto
termination
  by (relation "measure (\<lambda>(_, _, s). length s)") (auto simp: neq_Nil_conv)

declare replace_var.simps [simp del]

definition expansion_keys :: "(string \<times> string) list" where
  "expansion_keys =
     [(''USERPROFILE'', []), (''HOME'', []), (''TEMP'', []), (''PROGRAMDATA'', under ''C:'' [''ProgramData'']),
      (''LOCALAPPDATA'', [])]"

definition expand_vars_with :: "(string \<Rightarrow> string option) \<Rightarrow> string \<Rightarrow> string" where
  "expand_vars_with env value =
     fold (\<lambda>(key, fallback) out.
        let resolved = (case env key of Some v \<Rightarrow> v | None \<Rightarrow> fallback) in
        if resolved = [] then out
        else replace_var (CHR ''$'' # key) resolved (replace_all (CHR ''%'' # key @ [CHR ''%'']) resolved out))
      expansion_keys value"

definition expanded :: "(string \<Rightarrow> string option) \<Rightarrow> config \<Rightarrow> config" where
  "expanded env c =
     c\<lparr>c_realtime_roots := map (expand_vars_with env) (c_realtime_roots c),
       c_excluded_paths := map (expand_vars_with env) (c_excluded_paths c),
       c_argus_worker_path := expand_vars_with env (c_argus_worker_path c),
       c_scan := (c_scan c)\<lparr>sc_argus_worker_path := expand_vars_with env (sc_argus_worker_path (c_scan c))\<rparr>\<rparr>"

section \<open>The file\<close>

datatype config_file = Missing_File | Unreadable_File | Broken_File | Config_File config

text \<open>\<open>Config::load\<close>: \<open>None\<close> is the read that fails. \<open>saves\<close> is whether a save succeeds; a save that
  does not leaves the file as it was.\<close>

definition save_config :: "bool \<Rightarrow> config \<Rightarrow> config_file \<Rightarrow> config_file" where
  "save_config saves c file = (if saves then Config_File c else file)"

definition load_config :: "(string \<Rightarrow> string option) \<Rightarrow> bool \<Rightarrow> config_file \<Rightarrow> config option \<times> config_file" where
  "load_config env saves file =
     (let fresh = config_validate (expanded env (initial_config env)) in
      case file of
        Config_File c \<Rightarrow> (Some (config_validate (expanded env c)), file)
      | Broken_File \<Rightarrow> (Some fresh, save_config saves fresh file)
      | Missing_File \<Rightarrow> (Some fresh, save_config saves fresh file)
      | Unreadable_File \<Rightarrow> (None, file))"

text \<open>\<open>Config::load(None).unwrap_or_default()\<close>, the way every request handler reads it.\<close>

definition load_or_default :: "(string \<Rightarrow> string option) \<Rightarrow> bool \<Rightarrow> config_file \<Rightarrow> config \<times> config_file" where
  "load_or_default env saves file =
     (case load_config env saves file of
        (Some c, file') \<Rightarrow> (c, file')
      | (None, file') \<Rightarrow> (initial_config env, file'))"

end
