(* ===== verification/Cfg_Bridge.thy ===== *)
theory Cfg_Bridge
  imports Cfg_Validate
begin

text \<open>
  The seam between the daemon's configuration and its mirror on the wire: \<open>From<&Config> for
  FullConfig\<close>, \<open>apply_non_critical\<close>, \<open>critical_diff\<close> in \<open>config/mod.rs\<close>, and the two tables of
  \<open>full_config.rs\<close>, the settings only an elevated request may change and the restart each one needs.
\<close>

section \<open>Out to the wire\<close>

definition full_scan_of :: "scan_config \<Rightarrow> full_scan_config" where
  "full_scan_of s =
     \<lparr>fs_argus_worker_enabled = sc_argus_worker_enabled s,
      fs_argus_worker_path = sc_argus_worker_path s,
      fs_argus_worker_timeout_sec = sc_argus_worker_timeout_sec s,
      fs_orchestrator_file_scan_enabled = sc_orchestrator_file_scan_enabled s,
      fs_orchestrator_folder_scan_enabled = sc_orchestrator_folder_scan_enabled s,
      fs_orchestrator_quick_scan_enabled = sc_orchestrator_quick_scan_enabled s,
      fs_orchestrator_full_scan_enabled = sc_orchestrator_full_scan_enabled s\<rparr>"

definition full_performance_of :: "performance_config \<Rightarrow> full_performance_config" where
  "full_performance_of s =
     \<lparr>fp_memory_profile = pf_memory_profile s, fp_memory_warning_mb = pf_memory_warning_mb s,
      fp_memory_critical_mb = pf_memory_critical_mb s,
      fp_external_argus_under_pressure = pf_external_argus_under_pressure s,
      fp_max_resident_workers_on_pressure = pf_max_resident_workers_on_pressure s\<rparr>"

definition full_fish_of :: "fish_config \<Rightarrow> full_fish_config" where
  "full_fish_of s =
     \<lparr>ff_enabled = fi_enabled s, ff_observe_only = fi_observe_only s,
      ff_window_seconds = fi_window_seconds s, ff_rename_threshold = fi_rename_threshold s,
      ff_rewrite_threshold = fi_rewrite_threshold s,
      ff_ext_mutation_threshold = fi_ext_mutation_threshold s,
      ff_slow_burn_window_secs = fi_slow_burn_window_secs s,
      ff_slow_burn_threshold = fi_slow_burn_threshold s,
      ff_entropy_delta_threshold = fi_entropy_delta_threshold s,
      ff_alert_cooldown_seconds = fi_alert_cooldown_seconds s, ff_active_response = fi_active_response s\<rparr>"

definition full_sandbox_of :: "sandbox_config \<Rightarrow> full_sandbox_config" where
  "full_sandbox_of s =
     \<lparr>fb_enabled = sb_enabled s, fb_mode = sb_mode s, fb_timeout_sec = sb_timeout_sec s,
      fb_min_score = sb_min_score s, fb_max_score = sb_max_score s\<rparr>"

definition full_developer_of :: "developer_config \<Rightarrow> developer_config_public" where
  "full_developer_of s =
     \<lparr>fd_enabled = dv_enabled s, fd_telemetry_enabled = dv_telemetry_enabled s,
      fd_telemetry_max_kb = dv_telemetry_max_kb s\<rparr>"

definition full_web_protection_of :: "web_protection_config \<Rightarrow> full_web_protection_config" where
  "full_web_protection_of s =
     \<lparr>fw_enabled = wp_enabled s, fw_listen = wp_listen s, fw_upstreams = wp_upstreams s,
      fw_block_response = wp_block_response s, fw_health_check_name = wp_health_check_name s,
      fw_blocklists = wp_blocklists s, fw_allowlist = wp_allowlist s, fw_log_queries = wp_log_queries s\<rparr>"

definition full_of_config :: "config \<Rightarrow> full_config" where
  "full_of_config c =
     \<lparr>f_realtime_enabled = c_realtime_enabled c, f_realtime_roots = c_realtime_roots c,
      f_max_file_size_mb = c_max_file_size_mb c, f_scan_archives = c_scan_archives c,
      f_heuristic_alerts = c_heuristic_alerts c, f_auto_update = c_auto_update c,
      f_update_interval_hours = c_update_interval_hours c,
      f_signature_stale_days = c_signature_stale_days c,
      f_signature_stale_notify_days = c_signature_stale_notify_days c,
      f_update_mirror = c_update_mirror c, f_quarantine_retention_days = c_quarantine_retention_days c,
      f_auto_quarantine = c_auto_quarantine c, f_excluded_paths = c_excluded_paths c,
      f_excluded_extensions = c_excluded_extensions c, f_excluded_detections = c_excluded_detections c,
      f_trusted_hashes = c_trusted_hashes c,
      f_enhanced_signature_provider = c_enhanced_signature_provider c, f_log_level = c_log_level c,
      f_scheduled_scan_enabled = c_scheduled_scan_enabled c,
      f_scheduled_scan_hour = c_scheduled_scan_hour c, f_scheduled_scan_type = c_scheduled_scan_type c,
      f_startup_critical_scan = c_startup_critical_scan c,
      f_powershell_bridge_enabled = c_powershell_bridge_enabled c,
      f_powershell_poll_seconds = c_powershell_poll_seconds c,
      f_idle_scan_enabled = c_idle_scan_enabled c,
      f_idle_scan_start_delay_secs = c_idle_scan_start_delay_secs c,
      f_idle_scan_on_battery = c_idle_scan_on_battery c,
      f_idle_scan_cpu_pause_threshold = c_idle_scan_cpu_pause_threshold c,
      f_idle_scan_max_file_size_mb = c_idle_scan_max_file_size_mb c,
      f_idle_scan_fullscreen_pause = c_idle_scan_fullscreen_pause c,
      f_idle_scan_disk_latency_pause_ms = c_idle_scan_disk_latency_pause_ms c,
      f_idle_scan_max_files_per_session = c_idle_scan_max_files_per_session c,
      f_idle_scan_slow_delay_min_ms = c_idle_scan_slow_delay_min_ms c,
      f_idle_scan_slow_delay_max_ms = c_idle_scan_slow_delay_max_ms c,
      f_idle_scan_normal_delay_min_ms = c_idle_scan_normal_delay_min_ms c,
      f_idle_scan_normal_delay_max_ms = c_idle_scan_normal_delay_max_ms c,
      f_idle_scan_fast_delay_min_ms = c_idle_scan_fast_delay_min_ms c,
      f_idle_scan_fast_delay_max_ms = c_idle_scan_fast_delay_max_ms c,
      f_argus_worker_enabled = c_argus_worker_enabled c, f_argus_worker_path = c_argus_worker_path c,
      f_argus_worker_timeout_sec = c_argus_worker_timeout_sec c,
      f_clamav_isolation = c_clamav_isolation c,
      f_clamav_worker_timeout_sec = c_clamav_worker_timeout_sec c, f_scan = full_scan_of (c_scan c),
      f_performance = full_performance_of (c_performance c), f_fish = full_fish_of (c_fish c),
      f_sandbox = full_sandbox_of (c_sandbox c), f_developer = full_developer_of (c_developer c),
      f_web_protection = Some (full_web_protection_of (c_web_protection c))\<rparr>"

section \<open>Back from the wire\<close>

definition apply_scan :: "full_scan_config \<Rightarrow> scan_config \<Rightarrow> scan_config" where
  "apply_scan f s =
     s\<lparr>sc_argus_worker_timeout_sec := fs_argus_worker_timeout_sec f,
       sc_orchestrator_file_scan_enabled := fs_orchestrator_file_scan_enabled f,
       sc_orchestrator_folder_scan_enabled := fs_orchestrator_folder_scan_enabled f,
       sc_orchestrator_quick_scan_enabled := fs_orchestrator_quick_scan_enabled f,
       sc_orchestrator_full_scan_enabled := fs_orchestrator_full_scan_enabled f\<rparr>"

definition apply_performance :: "full_performance_config \<Rightarrow> performance_config \<Rightarrow> performance_config" where
  "apply_performance f s =
     s\<lparr>pf_memory_profile := fp_memory_profile f, pf_memory_warning_mb := fp_memory_warning_mb f,
       pf_memory_critical_mb := fp_memory_critical_mb f,
       pf_external_argus_under_pressure := fp_external_argus_under_pressure f,
       pf_max_resident_workers_on_pressure := fp_max_resident_workers_on_pressure f\<rparr>"

definition apply_fish :: "full_fish_config \<Rightarrow> fish_config \<Rightarrow> fish_config" where
  "apply_fish f s =
     s\<lparr>fi_window_seconds := ff_window_seconds f, fi_rename_threshold := ff_rename_threshold f,
       fi_rewrite_threshold := ff_rewrite_threshold f,
       fi_ext_mutation_threshold := ff_ext_mutation_threshold f,
       fi_slow_burn_window_secs := ff_slow_burn_window_secs f,
       fi_slow_burn_threshold := ff_slow_burn_threshold f,
       fi_entropy_delta_threshold := ff_entropy_delta_threshold f,
       fi_alert_cooldown_seconds := ff_alert_cooldown_seconds f\<rparr>"

definition apply_sandbox :: "full_sandbox_config \<Rightarrow> sandbox_config \<Rightarrow> sandbox_config" where
  "apply_sandbox f s =
     s\<lparr>sb_mode := fb_mode f, sb_timeout_sec := fb_timeout_sec f, sb_min_score := fb_min_score f,
       sb_max_score := fb_max_score f\<rparr>"

definition apply_developer :: "developer_config_public \<Rightarrow> developer_config \<Rightarrow> developer_config" where
  "apply_developer f s =
     s\<lparr>dv_telemetry_enabled := fd_telemetry_enabled f, dv_telemetry_max_kb := fd_telemetry_max_kb f\<rparr>"

definition apply_non_critical :: "full_config \<Rightarrow> config \<Rightarrow> config" where
  "apply_non_critical f c =
     c\<lparr>c_max_file_size_mb := f_max_file_size_mb f, c_scan_archives := f_scan_archives f,
       c_auto_update := f_auto_update f, c_update_interval_hours := f_update_interval_hours f,
       c_signature_stale_days := f_signature_stale_days f,
       c_signature_stale_notify_days := f_signature_stale_notify_days f,
       c_update_mirror := f_update_mirror f,
       c_quarantine_retention_days := f_quarantine_retention_days f, c_log_level := f_log_level f,
       c_scheduled_scan_hour := f_scheduled_scan_hour f,
       c_scheduled_scan_type := f_scheduled_scan_type f,
       c_startup_critical_scan := f_startup_critical_scan f,
       c_powershell_bridge_enabled := f_powershell_bridge_enabled f,
       c_powershell_poll_seconds := f_powershell_poll_seconds f,
       c_idle_scan_start_delay_secs := f_idle_scan_start_delay_secs f,
       c_idle_scan_on_battery := f_idle_scan_on_battery f,
       c_idle_scan_cpu_pause_threshold := f_idle_scan_cpu_pause_threshold f,
       c_idle_scan_max_file_size_mb := f_idle_scan_max_file_size_mb f,
       c_idle_scan_fullscreen_pause := f_idle_scan_fullscreen_pause f,
       c_idle_scan_disk_latency_pause_ms := f_idle_scan_disk_latency_pause_ms f,
       c_idle_scan_max_files_per_session := f_idle_scan_max_files_per_session f,
       c_idle_scan_slow_delay_min_ms := f_idle_scan_slow_delay_min_ms f,
       c_idle_scan_slow_delay_max_ms := f_idle_scan_slow_delay_max_ms f,
       c_idle_scan_normal_delay_min_ms := f_idle_scan_normal_delay_min_ms f,
       c_idle_scan_normal_delay_max_ms := f_idle_scan_normal_delay_max_ms f,
       c_idle_scan_fast_delay_min_ms := f_idle_scan_fast_delay_min_ms f,
       c_idle_scan_fast_delay_max_ms := f_idle_scan_fast_delay_max_ms f,
       c_argus_worker_timeout_sec := f_argus_worker_timeout_sec f,
       c_clamav_worker_timeout_sec := f_clamav_worker_timeout_sec f,
       c_scan := apply_scan (f_scan f) (c_scan c),
       c_performance := apply_performance (f_performance f) (c_performance c),
       c_fish := apply_fish (f_fish f) (c_fish c),
       c_sandbox := apply_sandbox (f_sandbox f) (c_sandbox c),
       c_developer := apply_developer (f_developer f) (c_developer c)\<rparr>"

section \<open>What an ordinary save may not change\<close>

definition differs :: "string \<Rightarrow> bool \<Rightarrow> string list" where
  "differs path d = (if d then [path] else [])"

definition web_critical_diff :: "web_protection_config \<Rightarrow> full_web_protection_config \<Rightarrow> string list" where
  "web_critical_diff s w =
     differs ''web_protection.enabled'' (wp_enabled s \<noteq> fw_enabled w)
     @ differs ''web_protection.listen'' (wp_listen s \<noteq> fw_listen w)
     @ differs ''web_protection.upstreams'' (wp_upstreams s \<noteq> fw_upstreams w)
     @ differs ''web_protection.block_response'' (wp_block_response s \<noteq> fw_block_response w)
     @ differs ''web_protection.health_check_name'' (wp_health_check_name s \<noteq> fw_health_check_name w)
     @ differs ''web_protection.blocklists'' (wp_blocklists s \<noteq> fw_blocklists w)
     @ differs ''web_protection.allowlist'' (wp_allowlist s \<noteq> fw_allowlist w)
     @ differs ''web_protection.log_queries'' (wp_log_queries s \<noteq> fw_log_queries w)"

definition critical_diff :: "config \<Rightarrow> full_config \<Rightarrow> string list" where
  "critical_diff c f =
     differs ''realtime_enabled'' (c_realtime_enabled c \<noteq> f_realtime_enabled f)
     @ differs ''auto_quarantine'' (c_auto_quarantine c \<noteq> f_auto_quarantine f)
     @ differs ''heuristic_alerts'' (c_heuristic_alerts c \<noteq> f_heuristic_alerts f)
     @ differs ''idle_scan_enabled'' (c_idle_scan_enabled c \<noteq> f_idle_scan_enabled f)
     @ differs ''scheduled_scan_enabled'' (c_scheduled_scan_enabled c \<noteq> f_scheduled_scan_enabled f)
     @ differs ''excluded_paths'' (c_excluded_paths c \<noteq> f_excluded_paths f)
     @ differs ''excluded_extensions'' (c_excluded_extensions c \<noteq> f_excluded_extensions f)
     @ differs ''excluded_detections'' (c_excluded_detections c \<noteq> f_excluded_detections f)
     @ differs ''trusted_hashes'' (c_trusted_hashes c \<noteq> f_trusted_hashes f)
     @ differs ''realtime_roots'' (c_realtime_roots c \<noteq> f_realtime_roots f)
     @ differs ''enhanced_signature_provider'' (c_enhanced_signature_provider c \<noteq> f_enhanced_signature_provider f)
     @ differs ''argus_worker_enabled'' (c_argus_worker_enabled c \<noteq> f_argus_worker_enabled f)
     @ differs ''argus_worker_path'' (c_argus_worker_path c \<noteq> f_argus_worker_path f)
     @ differs ''scan.argus_worker_enabled'' (sc_argus_worker_enabled (c_scan c) \<noteq> fs_argus_worker_enabled (f_scan f))
     @ differs ''scan.argus_worker_path'' (sc_argus_worker_path (c_scan c) \<noteq> fs_argus_worker_path (f_scan f))
     @ differs ''fish.enabled'' (fi_enabled (c_fish c) \<noteq> ff_enabled (f_fish f))
     @ differs ''fish.observe_only'' (fi_observe_only (c_fish c) \<noteq> ff_observe_only (f_fish f))
     @ differs ''fish.active_response'' (fi_active_response (c_fish c) \<noteq> ff_active_response (f_fish f))
     @ differs ''sandbox.enabled'' (sb_enabled (c_sandbox c) \<noteq> fb_enabled (f_sandbox f))
     @ differs ''clamav_isolation'' (c_clamav_isolation c \<noteq> f_clamav_isolation f)
     @ (case f_web_protection f of None \<Rightarrow> [] | Some w \<Rightarrow> web_critical_diff (c_web_protection c) w)"

definition CRITICAL_FIELDS :: "string list" where
  "CRITICAL_FIELDS =
     [''realtime_enabled'', ''auto_quarantine'', ''argus_worker_enabled'', ''argus_worker_path'',
      ''scan.argus_worker_enabled'', ''scan.argus_worker_path'', ''excluded_paths'',
      ''excluded_extensions'', ''excluded_detections'', ''trusted_hashes'', ''realtime_roots'',
      ''heuristic_alerts'', ''idle_scan_enabled'', ''scheduled_scan_enabled'',
      ''enhanced_signature_provider'', ''fish.enabled'', ''fish.observe_only'',
      ''fish.active_response'', ''sandbox.enabled'', ''clamav_isolation'', ''web_protection.enabled'',
      ''web_protection.listen'', ''web_protection.upstreams'', ''web_protection.block_response'',
      ''web_protection.health_check_name'', ''web_protection.blocklists'', ''web_protection.allowlist'',
      ''web_protection.log_queries'']"

definition is_critical :: "string \<Rightarrow> bool" where
  "is_critical p \<longleftrightarrow> p \<in> set CRITICAL_FIELDS"

section \<open>When a change takes effect\<close>

datatype restart_need = No_Restart | Engine_Reload | Daemon_Restart

definition restart_requirement :: "string \<Rightarrow> restart_need" where
  "restart_requirement p =
     (if p \<in> set [''excluded_paths'', ''excluded_extensions'',
                    ''enhanced_signature_provider'', ''max_file_size_mb'', ''scan_archives'',
                    ''heuristic_alerts''] then Engine_Reload
      else if p \<in> set [''excluded_detections'', ''trusted_hashes''] then No_Restart
      else if p \<in> set [''log_level'', ''clamav_isolation'', ''powershell_bridge_enabled'',
                    ''powershell_poll_seconds'', ''scheduled_scan_enabled'',
                    ''argus_worker_enabled'', ''scan.argus_worker_enabled'', ''fish.enabled'',
                    ''sandbox.enabled''] then Daemon_Restart
      else if p \<in> set [''web_protection.enabled'', ''web_protection.listen'',
                    ''web_protection.upstreams'', ''web_protection.block_response'',
                    ''web_protection.health_check_name'', ''web_protection.blocklists'',
                    ''web_protection.allowlist'', ''web_protection.log_queries''] then Daemon_Restart
      else if p \<in> set [''performance.memory_profile'', ''performance.memory_warning_mb'',
                    ''performance.memory_critical_mb'',
                    ''performance.external_argus_under_pressure'',
                    ''performance.max_resident_workers_on_pressure'',
                    ''clamav_worker_timeout_sec''] then Daemon_Restart
      else No_Restart)"

definition restart_paths :: "string list" where
  "restart_paths =
     [''realtime_enabled'', ''realtime_roots'', ''max_file_size_mb'', ''scan_archives'',
      ''heuristic_alerts'', ''auto_update'', ''update_interval_hours'',
      ''signature_stale_days'', ''signature_stale_notify_days'', ''update_mirror'',
      ''quarantine_retention_days'', ''auto_quarantine'', ''excluded_paths'',
      ''excluded_extensions'', ''excluded_detections'', ''trusted_hashes'',
      ''enhanced_signature_provider'', ''log_level'', ''scheduled_scan_enabled'',
      ''scheduled_scan_hour'', ''scheduled_scan_type'', ''startup_critical_scan'',
      ''powershell_bridge_enabled'', ''powershell_poll_seconds'', ''idle_scan_enabled'',
      ''idle_scan_start_delay_secs'', ''idle_scan_on_battery'',
      ''idle_scan_cpu_pause_threshold'', ''idle_scan_max_file_size_mb'',
      ''idle_scan_fullscreen_pause'', ''idle_scan_disk_latency_pause_ms'',
      ''idle_scan_max_files_per_session'', ''idle_scan_slow_delay_min_ms'',
      ''idle_scan_slow_delay_max_ms'', ''idle_scan_normal_delay_min_ms'',
      ''idle_scan_normal_delay_max_ms'', ''idle_scan_fast_delay_min_ms'',
      ''idle_scan_fast_delay_max_ms'', ''argus_worker_enabled'', ''argus_worker_path'',
      ''argus_worker_timeout_sec'', ''clamav_isolation'', ''clamav_worker_timeout_sec'',
      ''scan.argus_worker_enabled'', ''scan.argus_worker_path'',
      ''scan.argus_worker_timeout_sec'', ''scan.orchestrator_file_scan_enabled'',
      ''scan.orchestrator_folder_scan_enabled'', ''scan.orchestrator_quick_scan_enabled'',
      ''scan.orchestrator_full_scan_enabled'', ''performance.memory_profile'',
      ''performance.memory_warning_mb'', ''performance.memory_critical_mb'',
      ''performance.external_argus_under_pressure'',
      ''performance.max_resident_workers_on_pressure'', ''fish.enabled'',
      ''fish.observe_only'', ''fish.window_seconds'', ''fish.rename_threshold'',
      ''fish.rewrite_threshold'', ''fish.ext_mutation_threshold'',
      ''fish.slow_burn_window_secs'', ''fish.slow_burn_threshold'',
      ''fish.entropy_delta_threshold'', ''fish.alert_cooldown_seconds'',
      ''fish.active_response'', ''sandbox.enabled'', ''sandbox.mode'',
      ''sandbox.timeout_sec'', ''sandbox.min_score'', ''sandbox.max_score'',
      ''developer.enabled'', ''developer.telemetry_enabled'', ''developer.telemetry_max_kb'',
      ''web_protection.enabled'', ''web_protection.listen'', ''web_protection.upstreams'',
      ''web_protection.block_response'', ''web_protection.health_check_name'',
      ''web_protection.blocklists'', ''web_protection.allowlist'',
      ''web_protection.log_queries'']"

definition restart_map :: "(string \<times> restart_need) list" where
  "restart_map = map (\<lambda>p. (p, restart_requirement p)) restart_paths"

end
