(* ===== verification/Ipc_Settings.thy ===== *)
theory Ipc_Settings
  imports Cfg_Bridge "HOL-Library.AList"
begin

text \<open>
  How a request changes the configuration: \<open>json_merge_in_place\<close>, \<open>settings_set_merge\<close> and
  \<open>apply_set_critical_params\<close> of \<open>crates/sentinelld/src/ipc/mod.rs\<close>. JSON is the value
  \<open>serde_json\<close> hands the daemon; turning a configuration into one and back is the library's, and a
  parameter here.
\<close>

section \<open>JSON\<close>

text \<open>An object is its entries, no key twice. A number is an integer or a finite binary64 value.\<close>

datatype json =
    J_Null
  | J_Bool bool
  | J_Int int
  | J_Float rat
  | J_Str string
  | J_Arr "json list"
  | J_Obj "(string \<times> json) list"

fun json_get :: "json \<Rightarrow> string \<Rightarrow> json option" where
  "json_get (J_Obj es) k = map_of es k"
| "json_get _ k = None"

fun json_keys :: "json \<Rightarrow> string list" where
  "json_keys (J_Obj es) = map fst es"
| "json_keys _ = []"

fun json_remove :: "string \<Rightarrow> json \<Rightarrow> json" where
  "json_remove k (J_Obj es) = J_Obj (AList.delete k es)"
| "json_remove k j = j"

fun as_str :: "json \<Rightarrow> string option" where
  "as_str (J_Str s) = Some s"
| "as_str _ = None"

fun as_bool :: "json \<Rightarrow> bool option" where
  "as_bool (J_Bool b) = Some b"
| "as_bool _ = None"

fun as_u64 :: "json \<Rightarrow> nat option" where
  "as_u64 (J_Int i) = (if 0 \<le> i \<and> i < 2 ^ 64 then Some (nat i) else None)"
| "as_u64 _ = None"

text \<open>\<open>params.get(k).and_then(as_str).unwrap_or(d)\<close>.\<close>

definition str_param :: "json \<Rightarrow> string \<Rightarrow> string \<Rightarrow> string" where
  "str_param j k d = (case json_get j k of None \<Rightarrow> d | Some v \<Rightarrow> (case as_str v of None \<Rightarrow> d | Some s \<Rightarrow> s))"

section \<open>\<open>settings.set\<close>\<close>

function json_merge :: "json \<Rightarrow> json \<Rightarrow> json" where
  "json_merge (J_Obj b) (J_Obj os) =
     J_Obj (fold (\<lambda>(k, v) acc.
        AList.update k (json_merge (case map_of acc k of None \<Rightarrow> J_Null | Some w \<Rightarrow> w) v) acc) os b)"
| "json_merge (J_Obj b) J_Null = J_Null"
| "json_merge (J_Obj b) (J_Bool x) = J_Bool x"
| "json_merge (J_Obj b) (J_Int x) = J_Int x"
| "json_merge (J_Obj b) (J_Float x) = J_Float x"
| "json_merge (J_Obj b) (J_Str x) = J_Str x"
| "json_merge (J_Obj b) (J_Arr x) = J_Arr x"
| "json_merge J_Null v = v"
| "json_merge (J_Bool b) v = v"
| "json_merge (J_Int b) v = v"
| "json_merge (J_Float b) v = v"
| "json_merge (J_Str b) v = v"
| "json_merge (J_Arr b) v = v"
  by pat_completeness auto
termination
proof (relation "measure (\<lambda>(b, v). size v)", goal_cases)
  case (2 b os e k v acc)
  have "size v < size_list (size_prod (\<lambda>_. 0) size) os"
    using 2 by (induction os) auto
  then show ?case by simp
qed simp

definition without_envelope :: "json \<Rightarrow> json" where
  "without_envelope params = json_remove ''token'' (json_remove ''auth'' params)"

text \<open>The protected settings, put back from the configuration on disk.\<close>

definition pin_critical :: "config \<Rightarrow> config \<Rightarrow> config" where
  "pin_critical current c =
     c\<lparr>c_realtime_enabled := c_realtime_enabled current, c_auto_quarantine := c_auto_quarantine current,
       c_argus_worker_path := c_argus_worker_path current,
       c_argus_worker_enabled := c_argus_worker_enabled current,
       c_scan := (c_scan c)\<lparr>sc_argus_worker_path := sc_argus_worker_path (c_scan current),
                            sc_argus_worker_enabled := sc_argus_worker_enabled (c_scan current)\<rparr>,
       c_excluded_paths := c_excluded_paths current,
       c_excluded_extensions := c_excluded_extensions current,
       c_excluded_detections := c_excluded_detections current,
       c_trusted_hashes := c_trusted_hashes current, c_realtime_roots := c_realtime_roots current,
       c_heuristic_alerts := c_heuristic_alerts current,
       c_idle_scan_enabled := c_idle_scan_enabled current,
       c_scheduled_scan_enabled := c_scheduled_scan_enabled current,
       c_enhanced_signature_provider := c_enhanced_signature_provider current,
       c_fish := (c_fish c)\<lparr>fi_enabled := fi_enabled (c_fish current),
                            fi_observe_only := fi_observe_only (c_fish current),
                            fi_active_response := fi_active_response (c_fish current)\<rparr>,
       c_sandbox := (c_sandbox c)\<lparr>sb_enabled := sb_enabled (c_sandbox current)\<rparr>,
       c_clamav_isolation := c_clamav_isolation current,
       c_web_protection := c_web_protection current,
       c_developer := (c_developer c)\<lparr>dv_password_sha256 := dv_password_sha256 (c_developer current)\<rparr>\<rparr>"

definition settings_set_merge ::
    "(config \<Rightarrow> json option) \<Rightarrow> (json \<Rightarrow> config option) \<Rightarrow> config \<Rightarrow> json \<Rightarrow> config option" where
  "settings_set_merge to_json of_json current params =
     (case to_json current of
        None \<Rightarrow> None
      | Some stored \<Rightarrow>
          map_option (pin_critical current) (of_json (json_merge stored (without_envelope params))))"

section \<open>\<open>protection.set_critical\<close>\<close>

datatype set_error =
    Field_Error string string
  | Entry_Error string nat string
  | Too_Many string nat
  | Unservable config_refusal
  | Unknown_Parameter string

datatype set_change = Flag_Set string bool | Text_Set string string | List_Set string nat

record set_critical_apply =
  sa_config :: config
  sa_changes :: "set_change list"
  sa_errors :: "set_error list"
  sa_toggle :: "bool option"
  sa_web :: bool

definition refuse :: "set_error \<Rightarrow> set_critical_apply \<Rightarrow> set_critical_apply" where
  "refuse e a = a\<lparr>sa_errors := sa_errors a @ [e]\<rparr>"

definition put :: "(config \<Rightarrow> config) \<Rightarrow> set_change \<Rightarrow> set_critical_apply \<Rightarrow> set_critical_apply" where
  "put g ch a = a\<lparr>sa_config := g (sa_config a), sa_changes := sa_changes a @ [ch]\<rparr>"

definition MAX_LIST_ENTRIES :: nat where "MAX_LIST_ENTRIES = 64"
definition MAX_PATH_LEN :: nat where "MAX_PATH_LEN = 4096"

text \<open>An entry passes when its check says nothing.\<close>

fun check_entries :: "string \<Rightarrow> (string \<Rightarrow> string option) \<Rightarrow> nat \<Rightarrow> json list \<Rightarrow> string list \<times> set_error list" where
  "check_entries key check i [] = ([], [])"
| "check_entries key check i (v # vs) =
     (let (out, errs) = check_entries key check (i + 1) vs in
      case as_str v of
        None \<Rightarrow> (out, Entry_Error key i ''not a string'' # errs)
      | Some s \<Rightarrow>
          (case check s of
             None \<Rightarrow> (s # out, errs)
           | Some why \<Rightarrow> (out, Entry_Error key i why # errs)))"

fun validate_string_list ::
    "string \<Rightarrow> (string \<Rightarrow> string option) \<Rightarrow> json \<Rightarrow> string list option \<times> set_error list" where
  "validate_string_list key check (J_Arr vs) =
     (if length vs > MAX_LIST_ENTRIES then (None, [Too_Many key (length vs)])
      else let (out, errs) = check_entries key check 0 vs in (Some out, errs))"
| "validate_string_list key check _ = (None, [])"

subsection \<open>One parameter\<close>

definition apply_flag :: "string \<Rightarrow> (bool \<Rightarrow> config \<Rightarrow> config) \<Rightarrow> json \<Rightarrow> set_critical_apply \<Rightarrow> set_critical_apply" where
  "apply_flag key g params a =
     (case json_get params key of
        Some (J_Bool v) \<Rightarrow> put (g v) (Flag_Set key v) a
      | _ \<Rightarrow> a)"

definition apply_choice ::
    "string \<Rightarrow> (string \<Rightarrow> bool) \<Rightarrow> (string \<Rightarrow> config \<Rightarrow> config) \<Rightarrow> json \<Rightarrow> set_critical_apply \<Rightarrow> set_critical_apply" where
  "apply_choice key known g params a =
     (case json_get params key of
        Some (J_Str v) \<Rightarrow>
          if known v then put (g v) (Text_Set key v) a else refuse (Field_Error key ''not in allowlist'') a
      | _ \<Rightarrow> a)"

definition apply_list ::
    "string \<Rightarrow> (string \<Rightarrow> string option) \<Rightarrow> (string \<Rightarrow> string) \<Rightarrow> (string list \<Rightarrow> config \<Rightarrow> config)
     \<Rightarrow> json \<Rightarrow> set_critical_apply \<Rightarrow> set_critical_apply" where
  "apply_list key check clean g params a =
     (case json_get params key of
        None \<Rightarrow> a
      | Some v \<Rightarrow>
          (let (found, errs) = validate_string_list key check v;
               a' = a\<lparr>sa_errors := sa_errors a @ errs\<rparr> in
           case found of
             None \<Rightarrow> a'
           | Some xs \<Rightarrow> put (g (map clean xs)) (List_Set key (length xs)) a'))"

definition realtime_step :: "json \<Rightarrow> set_critical_apply \<Rightarrow> set_critical_apply" where
  "realtime_step params a =
     (case json_get params ''realtime_enabled'' of
        Some (J_Bool v) \<Rightarrow>
          (put (\<lambda>c. c\<lparr>c_realtime_enabled := v\<rparr>) (Flag_Set ''realtime_enabled'' v) a)\<lparr>sa_toggle := Some v\<rparr>
      | _ \<Rightarrow> a)"

text \<open>The path goes to both places the worker is started from.\<close>

definition set_worker_path :: "string \<Rightarrow> config \<Rightarrow> config" where
  "set_worker_path t c = c\<lparr>c_argus_worker_path := t, c_scan := (c_scan c)\<lparr>sc_argus_worker_path := t\<rparr>\<rparr>"

definition worker_path_step :: "json \<Rightarrow> set_critical_apply \<Rightarrow> set_critical_apply" where
  "worker_path_step params a =
     (let key = ''argus_worker_path'' in
      case json_get params key of
        Some (J_Str v) \<Rightarrow>
          (let t = trim v; low = to_lowercase t in
           if t = [] \<or> length t > MAX_PATH_LEN then refuse (Field_Error key ''empty or too long'') a
           else if is_dangerous_excluded_path t \<or> contains t ''..''
           then refuse (Field_Error key ''rejected (dangerous or traversal)'') a
           else if drop (length low - 4) low \<noteq> ''.exe'' then refuse (Field_Error key ''must end with .exe'') a
           else put (set_worker_path t) (Text_Set key t) a)
      | _ \<Rightarrow> a)"

subsection \<open>The web section\<close>

text \<open>A key of this section that is present is judged, whatever its type.\<close>

definition web_key ::
    "string \<Rightarrow> (json \<Rightarrow> set_critical_apply \<Rightarrow> set_critical_apply) \<Rightarrow> json \<Rightarrow> set_critical_apply \<Rightarrow> set_critical_apply" where
  "web_key key judge params a =
     (case json_get params key of
        None \<Rightarrow> a
      | Some v \<Rightarrow> judge v (a\<lparr>sa_web := True\<rparr>))"

definition on_web :: "(web_protection_config \<Rightarrow> web_protection_config) \<Rightarrow> config \<Rightarrow> config" where
  "on_web g c = c\<lparr>c_web_protection := g (c_web_protection c)\<rparr>"

definition web_flag ::
    "string \<Rightarrow> (bool \<Rightarrow> web_protection_config \<Rightarrow> web_protection_config) \<Rightarrow> json
     \<Rightarrow> set_critical_apply \<Rightarrow> set_critical_apply" where
  "web_flag key g =
     web_key key (\<lambda>v a.
       case as_bool v of
         Some b \<Rightarrow> put (on_web (g b)) (Flag_Set key b) a
       | None \<Rightarrow> refuse (Field_Error key ''must be a boolean'') a)"

definition web_text ::
    "string \<Rightarrow> (string \<Rightarrow> string + string) \<Rightarrow> (string \<Rightarrow> web_protection_config \<Rightarrow> web_protection_config)
     \<Rightarrow> json \<Rightarrow> set_critical_apply \<Rightarrow> set_critical_apply" where
  "web_text key judge g =
     web_key key (\<lambda>v a.
       case as_str v of
         None \<Rightarrow> refuse (Field_Error key ''must be a string'') a
       | Some s \<Rightarrow>
           (case judge s of
              Inl why \<Rightarrow> refuse (Field_Error key why) a
            | Inr t \<Rightarrow> put (on_web (g t)) (Text_Set key t) a))"

definition web_list ::
    "string \<Rightarrow> (string \<Rightarrow> string option) \<Rightarrow> (string list \<Rightarrow> web_protection_config \<Rightarrow> web_protection_config)
     \<Rightarrow> json \<Rightarrow> set_critical_apply \<Rightarrow> set_critical_apply" where
  "web_list key check g =
     web_key key (\<lambda>v a.
       case v of
         J_Arr vs \<Rightarrow>
           (let (found, errs) = validate_string_list key check v; a' = a\<lparr>sa_errors := sa_errors a @ errs\<rparr> in
            case found of
              None \<Rightarrow> a'
            | Some xs \<Rightarrow> put (on_web (g xs)) (List_Set key (length xs)) a')
       | _ \<Rightarrow> refuse (Field_Error key ''must be an array of strings'') a)"

definition judge_listen :: "string \<Rightarrow> string + string" where
  "judge_listen s =
     (let t = trim s in
      if t = [] \<or> length t > 128 then Inl ''empty or too long''
      else if parse_socket_addr t = None then Inl ''is not a valid IP:port''
      else Inr t)"

definition judge_block_response :: "string \<Rightarrow> string + string" where
  "judge_block_response s =
     (if s = ''nxdomain'' \<or> s = ''zero_ip'' then Inr s else Inl ''not in allowlist (nxdomain|zero_ip)'')"

definition judge_health_name :: "string \<Rightarrow> string + string" where
  "judge_health_name s =
     (let t = trim s in
      if t = [] then Inl ''empty''
      else if length t > 253 then Inl ''longer than any legal DNS name''
      else if CHR 0x5C \<in> set t then Inl ''contains a backslash escape''
      else Inr t)"

definition check_upstream_entry :: "string \<Rightarrow> string option" where
  "check_upstream_entry s =
     (let t = trim s in
      if t = ''system'' then None
      else if t = [] then Some ''empty entry''
      else if parse_socket_addr t = None then Some ''neither system nor a valid IP:port''
      else None)"

definition check_blocklist_entry :: "string \<Rightarrow> string option" where
  "check_blocklist_entry s =
     (let t = trim s;
          (path, policy) = (if CHR ''|'' \<in> set t
                            then (trim (takeWhile (\<lambda>c. c \<noteq> CHR ''|'') t),
                                  Some (tl (dropWhile (\<lambda>c. c \<noteq> CHR ''|'') t)))
                            else (t, None)) in
      if path = [] then Some ''empty path''
      else if length path > MAX_PATH_LEN then Some ''path too long''
      else (case policy of
              None \<Rightarrow> None
            | Some p \<Rightarrow> if p = ''exact'' \<or> p = ''suffix'' then None else Some ''unknown policy''))"

definition check_allowlist_entry :: "string \<Rightarrow> string option" where
  "check_allowlist_entry s =
     (let t = trim s in
      if t = [] then Some ''empty entry''
      else if length t > 253 then Some ''entry longer than any legal DNS name''
      else if without_white t \<noteq> t \<or> CHR 0x5C \<in> set t
      then Some ''whitespace and backslashes are not valid in a DNS name''
      else None)"

definition servable_step :: "set_critical_apply \<Rightarrow> set_critical_apply" where
  "servable_step a =
     (if wp_enabled (c_web_protection (sa_config a))
      then (case check_enablable (read_web (c_web_protection (sa_config a))) of
              None \<Rightarrow> a
            | Some r \<Rightarrow> refuse (Unservable r) a)
      else a)"

subsection \<open>The protected lists\<close>

definition check_excluded_path :: "string \<Rightarrow> string option" where
  "check_excluded_path s =
     (let t = trim s in
      if t = [] then Some ''empty entry''
      else if length t > MAX_PATH_LEN then Some ''path too long''
      else if is_dangerous_excluded_path t then Some ''would exclude critical system area''
      else None)"

definition check_excluded_extension :: "string \<Rightarrow> string option" where
  "check_excluded_extension s =
     (let t = dropWhile (\<lambda>c. c = CHR ''.'') (trim s) in
      if t = [] then Some ''empty entry''
      else if length t > 16 then Some ''extension too long''
      else if CHR ''*'' \<in> set t \<or> CHR ''?'' \<in> set t \<or> CHR 0x5C \<in> set t \<or> CHR ''/'' \<in> set t
      then Some ''globs and path separators rejected''
      else if \<not> list_all (\<lambda>c. is_ascii_alphabetic c \<or> in_range 48 57 c) t
      then Some ''extension must be ASCII alphanumeric''
      else None)"

definition check_excluded_detection :: "string \<Rightarrow> string option" where
  "check_excluded_detection s =
     (let t = trim s in
      if t = [] then Some ''empty entry rejected (would silence ALL detections)''
      else if length t > 256 then Some ''detection name too long''
      else None)"

definition is_hex64_lower :: "string \<Rightarrow> bool" where
  "is_hex64_lower s \<longleftrightarrow> length s = 64 \<and> list_all (\<lambda>c. in_range 48 57 c \<or> in_range 97 102 c) s"

definition check_trusted_hash :: "string \<Rightarrow> string option" where
  "check_trusted_hash s =
     (if \<not> is_hex64_lower (to_lowercase (trim s)) then Some ''must be 64-char lowercase hex SHA-256'' else None)"

definition check_realtime_root :: "string \<Rightarrow> string option" where
  "check_realtime_root s =
     (let t = trim s in
      if t = [] then Some ''empty entry''
      else if length t > MAX_PATH_LEN then Some ''path too long''
      else if is_dangerous_excluded_path t then Some ''is too broad''
      else None)"

definition clean_extension :: "string \<Rightarrow> string" where
  "clean_extension s = to_lowercase (dropWhile (\<lambda>c. c = CHR ''.'') (trim s))"

definition clean_hash :: "string \<Rightarrow> string" where
  "clean_hash s = to_lowercase (trim s)"

subsection \<open>The request\<close>

text \<open>Every parameter, in the order the code reads them.\<close>

definition set_critical_steps :: "(json \<Rightarrow> set_critical_apply \<Rightarrow> set_critical_apply) list" where
  "set_critical_steps =
     [realtime_step,
      apply_flag ''auto_quarantine'' (\<lambda>v c. c\<lparr>c_auto_quarantine := v\<rparr>),
      apply_flag ''heuristic_alerts'' (\<lambda>v c. c\<lparr>c_heuristic_alerts := v\<rparr>),
      apply_flag ''idle_scan_enabled'' (\<lambda>v c. c\<lparr>c_idle_scan_enabled := v\<rparr>),
      apply_flag ''scheduled_scan_enabled'' (\<lambda>v c. c\<lparr>c_scheduled_scan_enabled := v\<rparr>),
      apply_flag ''argus_worker_enabled''
        (\<lambda>v c. c\<lparr>c_argus_worker_enabled := v, c_scan := (c_scan c)\<lparr>sc_argus_worker_enabled := v\<rparr>\<rparr>),
      apply_choice ''enhanced_signature_provider'' is_known_signature_provider
        (\<lambda>v c. c\<lparr>c_enhanced_signature_provider := v\<rparr>),
      worker_path_step,
      apply_flag ''fish.enabled'' (\<lambda>v c. c\<lparr>c_fish := (c_fish c)\<lparr>fi_enabled := v\<rparr>\<rparr>),
      apply_flag ''fish.observe_only'' (\<lambda>v c. c\<lparr>c_fish := (c_fish c)\<lparr>fi_observe_only := v\<rparr>\<rparr>),
      apply_choice ''fish.active_response'' (\<lambda>v. v \<in> set [''observe'', ''suspend'', ''terminate''])
        (\<lambda>v c. c\<lparr>c_fish := (c_fish c)\<lparr>fi_active_response := v\<rparr>\<rparr>),
      apply_flag ''sandbox.enabled'' (\<lambda>v c. c\<lparr>c_sandbox := (c_sandbox c)\<lparr>sb_enabled := v\<rparr>\<rparr>),
      apply_choice ''clamav_isolation'' (\<lambda>v. v \<in> set [''in_process'', ''subprocess''])
        (\<lambda>v c. c\<lparr>c_clamav_isolation := v\<rparr>),
      web_flag ''web_protection.enabled'' (\<lambda>v w. w\<lparr>wp_enabled := v\<rparr>),
      web_text ''web_protection.listen'' judge_listen (\<lambda>v w. w\<lparr>wp_listen := v\<rparr>),
      web_list ''web_protection.upstreams'' check_upstream_entry (\<lambda>v w. w\<lparr>wp_upstreams := v\<rparr>),
      web_text ''web_protection.block_response'' judge_block_response (\<lambda>v w. w\<lparr>wp_block_response := v\<rparr>),
      web_text ''web_protection.health_check_name'' judge_health_name (\<lambda>v w. w\<lparr>wp_health_check_name := v\<rparr>),
      web_list ''web_protection.blocklists'' check_blocklist_entry (\<lambda>v w. w\<lparr>wp_blocklists := v\<rparr>),
      web_list ''web_protection.allowlist'' check_allowlist_entry (\<lambda>v w. w\<lparr>wp_allowlist := v\<rparr>),
      web_flag ''web_protection.log_queries'' (\<lambda>v w. w\<lparr>wp_log_queries := v\<rparr>),
      (\<lambda>_. servable_step),
      apply_list ''excluded_paths'' check_excluded_path (\<lambda>s. s) (\<lambda>v c. c\<lparr>c_excluded_paths := v\<rparr>),
      apply_list ''excluded_extensions'' check_excluded_extension clean_extension
        (\<lambda>v c. c\<lparr>c_excluded_extensions := v\<rparr>),
      apply_list ''excluded_detections'' check_excluded_detection (\<lambda>s. s)
        (\<lambda>v c. c\<lparr>c_excluded_detections := v\<rparr>),
      apply_list ''trusted_hashes'' check_trusted_hash clean_hash (\<lambda>v c. c\<lparr>c_trusted_hashes := v\<rparr>),
      apply_list ''realtime_roots'' check_realtime_root (\<lambda>s. s) (\<lambda>v c. c\<lparr>c_realtime_roots := v\<rparr>)]"

text \<open>The keys \<open>param!\<close> records: all of them, on every request.\<close>

definition set_critical_keys :: "string list" where
  "set_critical_keys =
     [''token'', ''auth'', ''realtime_enabled'', ''auto_quarantine'', ''heuristic_alerts'',
      ''idle_scan_enabled'', ''scheduled_scan_enabled'', ''argus_worker_enabled'',
      ''enhanced_signature_provider'', ''argus_worker_path'', ''fish.enabled'', ''fish.observe_only'',
      ''fish.active_response'', ''sandbox.enabled'', ''clamav_isolation'', ''web_protection.enabled'',
      ''web_protection.listen'', ''web_protection.upstreams'', ''web_protection.block_response'',
      ''web_protection.health_check_name'', ''web_protection.blocklists'', ''web_protection.allowlist'',
      ''web_protection.log_queries'', ''excluded_paths'', ''excluded_extensions'',
      ''excluded_detections'', ''trusted_hashes'', ''realtime_roots'']"

definition unknown_keys :: "json \<Rightarrow> string list" where
  "unknown_keys params = filter (\<lambda>k. k \<notin> set set_critical_keys) (json_keys params)"

definition set_critical_work :: "config \<Rightarrow> json \<Rightarrow> set_critical_apply" where
  "set_critical_work c params =
     (let a = fold (\<lambda>step. step params) set_critical_steps
                \<lparr>sa_config = c, sa_changes = [], sa_errors = [], sa_toggle = None, sa_web = False\<rparr> in
      a\<lparr>sa_errors := sa_errors a @ map Unknown_Parameter (unknown_keys params)\<rparr>)"

text \<open>The configuration it leaves is the one it was given unless nothing was wrong.\<close>

definition apply_set_critical_params :: "config \<Rightarrow> json \<Rightarrow> set_critical_apply" where
  "apply_set_critical_params c params =
     (let a = set_critical_work c params in
      a\<lparr>sa_config := (if sa_errors a = [] then sa_config a else c)\<rparr>)"

end
