(* ===== verification/Cfg_Spec.thy ===== *)
theory Cfg_Spec
  imports Cfg_Bridge
begin

text \<open>
  What holds of the configuration: its mirror loses nothing a client may set, an ordinary save cannot
  move a protected setting, and whatever a file says, what the daemon works with is in range.
\<close>

section \<open>The mirror\<close>

lemmas mirror_defs =
  full_of_config_def full_scan_of_def full_performance_of_def full_fish_of_def full_sandbox_of_def
  full_developer_of_def full_web_protection_of_def apply_non_critical_def apply_scan_def
  apply_performance_def apply_fish_def apply_sandbox_def apply_developer_def

lemma differs_Nil [simp]: "differs p d = [] \<longleftrightarrow> \<not> d"
  by (simp add: differs_def)

lemma web_critical_diff_Nil:
  "web_critical_diff s w = [] \<longleftrightarrow> w = full_web_protection_of s"
  by (cases w) (auto simp: web_critical_diff_def full_web_protection_of_def)

text \<open>The protected settings, side by side.\<close>

definition agrees :: "config \<Rightarrow> config \<Rightarrow> bool" where
  "agrees c d \<longleftrightarrow>
     c_realtime_enabled c = c_realtime_enabled d \<and> c_auto_quarantine c = c_auto_quarantine d
     \<and> c_heuristic_alerts c = c_heuristic_alerts d \<and> c_idle_scan_enabled c = c_idle_scan_enabled d
     \<and> c_scheduled_scan_enabled c = c_scheduled_scan_enabled d
     \<and> c_excluded_paths c = c_excluded_paths d \<and> c_excluded_extensions c = c_excluded_extensions d
     \<and> c_excluded_detections c = c_excluded_detections d \<and> c_trusted_hashes c = c_trusted_hashes d
     \<and> c_realtime_roots c = c_realtime_roots d
     \<and> c_enhanced_signature_provider c = c_enhanced_signature_provider d
     \<and> c_argus_worker_enabled c = c_argus_worker_enabled d
     \<and> c_argus_worker_path c = c_argus_worker_path d
     \<and> sc_argus_worker_enabled (c_scan c) = sc_argus_worker_enabled (c_scan d)
     \<and> sc_argus_worker_path (c_scan c) = sc_argus_worker_path (c_scan d)
     \<and> fi_enabled (c_fish c) = fi_enabled (c_fish d)
     \<and> fi_observe_only (c_fish c) = fi_observe_only (c_fish d)
     \<and> fi_active_response (c_fish c) = fi_active_response (c_fish d)
     \<and> sb_enabled (c_sandbox c) = sb_enabled (c_sandbox d)
     \<and> c_clamav_isolation c = c_clamav_isolation d \<and> c_web_protection c = c_web_protection d"

lemma full_web_protection_of_inj: "full_web_protection_of a = full_web_protection_of b \<longleftrightarrow> a = b"
  by (cases a; cases b) (auto simp: full_web_protection_of_def)

lemma critical_diff_mirror: "critical_diff c (full_of_config d) = [] \<longleftrightarrow> agrees c d"
  by (simp add: critical_diff_def agrees_def full_of_config_def full_scan_of_def full_fish_of_def
      full_sandbox_of_def web_critical_diff_Nil full_web_protection_of_inj) (simp add: conj_ac eq_commute)

lemma agrees_refl [simp]: "agrees c c"
  by (simp add: agrees_def)

lemma agrees_sym: "agrees c d \<Longrightarrow> agrees d c"
  by (simp add: agrees_def)

lemma agrees_trans: "agrees c d \<Longrightarrow> agrees d e \<Longrightarrow> agrees c e"
  by (simp add: agrees_def)

lemma apply_non_critical_agrees: "agrees c (apply_non_critical f c)"
  by (simp add: agrees_def apply_non_critical_def apply_scan_def apply_fish_def apply_sandbox_def)

lemma mirror_returns:
  assumes "critical_diff c f = []" "f_web_protection f = Some w" "fd_enabled (f_developer f) = dv_enabled (c_developer c)"
  shows "full_of_config (apply_non_critical f c) = f"
  using assms
  by (cases f; cases "f_scan f"; cases "f_performance f"; cases "f_fish f"; cases "f_sandbox f"; cases "f_developer f")
     (simp add: critical_diff_def web_critical_diff_Nil mirror_defs)

text \<open>
C29: A settings page that reads the full configuration, changes anything but the protected settings
and saves it gets exactly what it asked for: when \<open>critical_diff\<close> finds nothing and the developer
switch is left alone, applying the mirror and mirroring again gives back the mirror, every field of it.
\<close>

theorem bridge_roundtrip:
  assumes "critical_diff c f = []" "f_web_protection f = Some w"
    "fd_enabled (f_developer f) = dv_enabled (c_developer c)"
  shows "full_of_config (apply_non_critical f c) = f"
  using assms by (rule mirror_returns)

text \<open>A client that lowers the log level of the initial configuration.\<close>

definition edited_mirror :: full_config where
  "edited_mirror = full_of_config (initial_config (\<lambda>_. None))\<lparr>f_log_level := ''debug''\<rparr>"

theorem bridge_roundtrip_witness:
  "full_of_config (apply_non_critical edited_mirror (initial_config (\<lambda>_. None))) = edited_mirror"
proof (rule bridge_roundtrip)
  let ?c = "initial_config (\<lambda>_. None)"
  have "critical_diff ?c edited_mirror = critical_diff ?c (full_of_config ?c)"
    by (simp add: critical_diff_def edited_mirror_def)
  then show "critical_diff ?c edited_mirror = []" by (simp add: critical_diff_mirror)
  show "f_web_protection edited_mirror = Some (full_web_protection_of (c_web_protection ?c))"
    "fd_enabled (f_developer edited_mirror) = dv_enabled (c_developer ?c)"
    by (simp_all add: edited_mirror_def full_of_config_def full_developer_of_def)
qed

section \<open>Validation and the protected settings\<close>

lemmas valid_defs =
  config_validate_def valid_numbers_def valid_names_def valid_sections_def valid_lists_def

lemma validate_agrees: "agrees c d \<Longrightarrow> agrees (config_validate c) (config_validate d)"
  by (simp add: agrees_def valid_defs Let_def valid_scan_def valid_fish_def valid_sandbox_def)

section \<open>What validation promises\<close>

definition ranged :: "nat \<Rightarrow> nat \<Rightarrow> nat \<Rightarrow> bool" where
  "ranged lo hi n \<longleftrightarrow> lo \<le> n \<and> n \<le> hi"

definition ordered_delays :: "nat \<times> nat \<Rightarrow> bool" where
  "ordered_delays d \<longleftrightarrow> 0 < fst d \<and> fst d \<le> snd d"

definition acceptable_numbers :: "config \<Rightarrow> bool" where
  "acceptable_numbers c \<longleftrightarrow>
     ranged 1 4096 (c_max_file_size_mb c) \<and> ranged 1 168 (c_update_interval_hours c)
     \<and> ranged 1 30 (c_signature_stale_days c) \<and> ranged 3 365 (c_signature_stale_notify_days c)
     \<and> c_signature_stale_days c \<le> c_signature_stale_notify_days c
     \<and> ranged 1 365 (c_quarantine_retention_days c) \<and> ranged 0 23 (c_scheduled_scan_hour c)
     \<and> ranged 1 100 (c_idle_scan_cpu_pause_threshold c)
     \<and> ranged 1 60000 (c_idle_scan_disk_latency_pause_ms c)
     \<and> 0 < c_idle_scan_max_files_per_session c \<and> ranged 1 4096 (c_idle_scan_max_file_size_mb c)
     \<and> ordered_delays (c_idle_scan_slow_delay_min_ms c, c_idle_scan_slow_delay_max_ms c)
     \<and> ordered_delays (c_idle_scan_normal_delay_min_ms c, c_idle_scan_normal_delay_max_ms c)
     \<and> ordered_delays (c_idle_scan_fast_delay_min_ms c, c_idle_scan_fast_delay_max_ms c)
     \<and> ranged 1 3600 (c_powershell_poll_seconds c) \<and> ranged 1 300 (c_argus_worker_timeout_sec c)
     \<and> ranged 5 300 (c_clamav_worker_timeout_sec c)"

definition acceptable_names :: "config \<Rightarrow> bool" where
  "acceptable_names c \<longleftrightarrow>
     c_update_mirror c \<noteq> [] \<and> length (c_update_mirror c) \<le> 253 \<and> CHR ''/'' \<notin> set (c_update_mirror c)
     \<and> c_scheduled_scan_type c \<in> {''quick'', ''full''}
     \<and> c_log_level c \<in> {''trace'', ''debug'', ''info'', ''warn'', ''error''}
     \<and> is_known_signature_provider (c_enhanced_signature_provider c)
     \<and> trim (c_argus_worker_path c) \<noteq> [] \<and> c_clamav_isolation c \<in> {''in_process'', ''subprocess''}"

definition in_unit :: "f64_value \<Rightarrow> bool" where
  "in_unit e \<longleftrightarrow> (case e of Fin x \<Rightarrow> 0 \<le> x \<and> x \<le> 1 | _ \<Rightarrow> False)"

definition hex_digest :: "string \<Rightarrow> bool" where
  "hex_digest h \<longleftrightarrow> length h = 64 \<and> list_all is_hex_digit h"

definition acceptable_sections :: "config \<Rightarrow> bool" where
  "acceptable_sections c \<longleftrightarrow>
     (let p = c_performance c; s = c_scan c; d = c_developer c; b = c_sandbox c; f = c_fish c in
      pf_memory_warning_mb p < pf_memory_critical_mb p
      \<and> pf_memory_profile p \<in> {''low'', ''normal'', ''aggressive''}
      \<and> trim (sc_argus_worker_path s) \<noteq> [] \<and> ranged 1 300 (sc_argus_worker_timeout_sec s)
      \<and> (dv_password_sha256 d = [] \<and> \<not> dv_enabled d \<or> hex_digest (dv_password_sha256 d))
      \<and> ranged 64 65536 (dv_telemetry_max_kb d)
      \<and> sb_min_score b \<le> sb_max_score b \<and> sb_max_score b \<le> 100 \<and> ranged 5 120 (sb_timeout_sec b)
      \<and> sb_mode b \<in> {''experimental'', ''production''}
      \<and> ranged 5 3600 (fi_window_seconds f) \<and> 0 < fi_rename_threshold f \<and> 0 < fi_rewrite_threshold f
      \<and> 0 < fi_ext_mutation_threshold f \<and> ranged 60 86400 (fi_slow_burn_window_secs f)
      \<and> 0 < fi_slow_burn_threshold f \<and> in_unit (fi_entropy_delta_threshold f)
      \<and> fi_alert_cooldown_seconds f \<le> 86400
      \<and> fi_active_response f \<in> {''observe'', ''suspend'', ''terminate''}
      \<and> (wp_enabled (c_web_protection c) \<longrightarrow> check_enablable (read_web (c_web_protection c)) = None)
      \<and> wp_block_response (c_web_protection c) \<in> {''nxdomain'', ''zero_ip''})"

text \<open>No list switches scanning off: no exclusion reaches a drive, a system directory or everything,
  none covers an executable extension, and each list is short.\<close>

definition acceptable_lists :: "config \<Rightarrow> bool" where
  "acceptable_lists c \<longleftrightarrow>
     length (c_excluded_paths c) \<le> MAX_EXCLUSIONS \<and> length (c_realtime_roots c) \<le> MAX_REALTIME_ROOTS
     \<and> length (c_excluded_detections c) \<le> MAX_EXCLUSIONS
     \<and> length (c_excluded_extensions c) \<le> MAX_EXCLUSIONS \<and> length (c_trusted_hashes c) \<le> MAX_EXCLUSIONS
     \<and> list_all (\<lambda>p. 3 \<le> length (normalize_excluded_path p) \<and> \<not> is_dangerous_excluded_path p) (c_excluded_paths c)
     \<and> list_all (\<lambda>d. 3 \<le> length (trim d)) (c_excluded_detections c)
     \<and> list_all (\<lambda>e. e \<noteq> [] \<and> e \<notin> set NEVER_EXCLUDABLE_EXTENSIONS \<and> CHR ''*'' \<notin> set e \<and> CHR ''?'' \<notin> set e)
         (c_excluded_extensions c)
     \<and> list_all hex_digest (c_trusted_hashes c)"

definition acceptable :: "config \<Rightarrow> bool" where
  "acceptable c \<longleftrightarrow> acceptable_numbers c \<and> acceptable_names c \<and> acceptable_sections c \<and> acceptable_lists c"

subsection \<open>Each block\<close>

lemmas clamp_defs = ranged_def zero_default_def at_most_def clamp_def

lemma ordered_valid_delays: "ordered_delays (valid_delays d)"
  by (cases d) (auto simp: ordered_delays_def valid_delays_def Let_def)

lemma ranged_clamp: "lo \<le> hi \<Longrightarrow> ranged lo hi (clamp lo hi n)"
  by (simp add: ranged_def clamp_def)

lemma ranged_defaulted: "0 < d \<Longrightarrow> d \<le> k \<Longrightarrow> ranged 1 k (at_most k (zero_default d n))"
  by (simp add: clamp_defs)

lemma ranged_raised: "ranged lo hi a \<Longrightarrow> b \<le> hi \<Longrightarrow> ranged lo hi (max a b)"
  by (simp add: ranged_def max_def)

lemma worker_timeout_range: "ranged 5 300 (at_most 300 (if n < 5 then 30 else n))"
  by (simp add: clamp_defs)

lemma scan_hour_range: "ranged 0 23 (if h > 23 then 3 else h)"
  by (simp add: ranged_def)

lemma clamp_upper: "lo \<le> hi \<Longrightarrow> clamp lo hi n \<le> hi"
  by (simp add: clamp_def)

lemma zero_default_pos: "0 < d \<Longrightarrow> 0 < zero_default d n"
  by (simp add: zero_default_def)

lemma numbers_valid: "acceptable_numbers (valid_numbers c)"
  using ordered_valid_delays
  by (simp only: acceptable_numbers_def valid_numbers_def Let_def config.simps prod.collapse)
     (simp del: One_nat_def add: ranged_defaulted ranged_clamp ranged_raised worker_timeout_range scan_hour_range clamp_upper
        zero_default_pos order_trans [OF clamp_upper])

lemma split_on_hd: "c \<notin> set (hd (split_on c s))"
  by (induction s rule: split_on.induct) (auto simp: Let_def split: list.splits)

lemma default_mirror: "CHR ''/'' \<notin> set ''database.clamav.net''"
  by simp

lemma mirror_valid:
  "valid_mirror m \<noteq> []" "length (valid_mirror m) \<le> 253" "CHR ''/'' \<notin> set (valid_mirror m)"
  by (simp_all add: valid_mirror_def Let_def split_on_hd)

lemma default_worker: "trim ''argusd.exe'' \<noteq> []"
  by code_simp

lemma names_valid: "acceptable_names (valid_names c)"
  using default_worker
  by (simp add: acceptable_names_def valid_names_def mirror_valid is_known_signature_provider_def one_of_def)

lemma entropy_valid: "in_unit (valid_entropy e)"
  by (cases e) (auto simp: in_unit_def valid_entropy_def f64_fifth_def Let_def)

lemma web_valid:
  "wp_enabled (valid_web w) \<Longrightarrow> check_enablable (read_web (valid_web w)) = None"
  "wp_block_response (valid_web w) \<in> {''nxdomain'', ''zero_ip''}"
  by (auto simp: valid_web_def validate_config_def Let_def read_web_def check_enablable_def
      split: if_splits option.splits)

lemma developer_valid:
  "dv_password_sha256 (valid_developer d) = [] \<and> \<not> dv_enabled (valid_developer d)
   \<or> hex_digest (dv_password_sha256 (valid_developer d))"
  by (auto simp: valid_developer_def Let_def hex_digest_def)

lemma performance_valid:
  "pf_memory_warning_mb (valid_performance p) < pf_memory_critical_mb (valid_performance p)"
  "pf_memory_profile (valid_performance p) \<in> {''low'', ''normal'', ''aggressive''}"
  by (auto simp: valid_performance_def Let_def one_of_def)

lemma sandbox_valid:
  "sb_min_score (valid_sandbox b) \<le> sb_max_score (valid_sandbox b)" "sb_max_score (valid_sandbox b) \<le> 100"
  "ranged 5 120 (sb_timeout_sec (valid_sandbox b))"
  "sb_mode (valid_sandbox b) \<in> {''experimental'', ''production''}"
  by (auto simp: valid_sandbox_def Let_def clamp_defs one_of_def)

lemma fish_valid:
  "ranged 5 3600 (fi_window_seconds (valid_fish f))" "0 < fi_rename_threshold (valid_fish f)"
  "0 < fi_rewrite_threshold (valid_fish f)" "0 < fi_ext_mutation_threshold (valid_fish f)"
  "ranged 60 86400 (fi_slow_burn_window_secs (valid_fish f))" "0 < fi_slow_burn_threshold (valid_fish f)"
  "in_unit (fi_entropy_delta_threshold (valid_fish f))" "fi_alert_cooldown_seconds (valid_fish f) \<le> 86400"
  "fi_active_response (valid_fish f) \<in> {''observe'', ''suspend'', ''terminate''}"
  using entropy_valid by (simp_all add: valid_fish_def clamp_defs one_of_def default_fish_def)

lemma scan_valid:
  "trim (sc_argus_worker_path (valid_scan s)) \<noteq> []" "ranged 1 300 (sc_argus_worker_timeout_sec (valid_scan s))"
  using default_worker by (simp_all add: valid_scan_def clamp_defs)

lemma telemetry_range: "ranged 64 65536 (dv_telemetry_max_kb (valid_developer d))"
  by (simp add: valid_developer_def Let_def clamp_defs)

lemma valid_sections_fields:
  "c_performance (valid_sections c) = valid_performance (c_performance c)"
  "c_scan (valid_sections c) = valid_scan (c_scan c)"
  "c_developer (valid_sections c) = valid_developer (c_developer c)"
  "c_sandbox (valid_sections c) = valid_sandbox (c_sandbox c)"
  "c_fish (valid_sections c) = valid_fish (c_fish c)"
  "c_web_protection (valid_sections c) = valid_web (c_web_protection c)"
  by (simp_all add: valid_sections_def)

lemma sections_valid: "acceptable_sections (valid_sections c)"
  unfolding acceptable_sections_def valid_sections_fields Let_def
  by (intro conjI impI developer_valid web_valid performance_valid fish_valid sandbox_valid scan_valid
      telemetry_range)

lemma keeps_safe_path:
  "keep_excluded_path p \<Longrightarrow> 3 \<le> length (normalize_excluded_path p) \<and> \<not> is_dangerous_excluded_path p"
  by (auto simp: keep_excluded_path_def is_dangerous_excluded_path_def Let_def split: if_splits)

lemma keeps_extension:
  "keep_excluded_extension e \<Longrightarrow>
     (\<lambda>t. t \<noteq> [] \<and> t \<notin> set NEVER_EXCLUDABLE_EXTENSIONS \<and> CHR ''*'' \<notin> set t \<and> CHR ''?'' \<notin> set t)
       (normal_extension e)"
  by (simp add: keep_excluded_extension_def Let_def split: if_splits)

lemma hex_lowered: "is_hex_digit c \<Longrightarrow> is_hex_digit (ascii_lower c)"
  by (auto simp: is_hex_digit_def in_range_def ascii_lower_def Let_def byte_of_def)

lemma keeps_hash: "keep_trusted_hash h \<Longrightarrow> hex_digest (normal_hash h)"
  by (auto simp: keep_trusted_hash_def hex_digest_def normal_hash_def Let_def to_ascii_lowercase_def
      list_all_iff intro: hex_lowered)

lemma list_all_kept: "(\<And>x. Q x \<Longrightarrow> P x) \<Longrightarrow> list_all P (take n (filter Q xs))"
  by (auto simp: list_all_iff dest: in_set_takeD)

lemma list_all_made: "(\<And>x. Q x \<Longrightarrow> P (g x)) \<Longrightarrow> list_all P (take n (map g (filter Q xs)))"
  by (auto simp: list_all_iff take_map dest: in_set_takeD)

lemma keeps_detection: "keep_excluded_detection d \<Longrightarrow> 3 \<le> length (trim d)"
  by (simp add: keep_excluded_detection_def Let_def split: if_splits)

lemma lists_valid: "acceptable_lists (valid_lists c)"
  by (simp add: acceptable_lists_def valid_lists_def)
     (intro conjI list_all_kept list_all_made keeps_safe_path keeps_extension keeps_detection keeps_hash;
       assumption)

text \<open>Each block keeps what the others settled.\<close>

lemma blocks_apart:
  "acceptable_numbers (valid_lists c) = acceptable_numbers c"
  "acceptable_numbers (valid_sections c) = acceptable_numbers c"
  "acceptable_numbers (valid_names c) = acceptable_numbers c"
  "acceptable_names (valid_lists c) = acceptable_names c"
  "acceptable_names (valid_sections c) = acceptable_names c"
  "acceptable_sections (valid_lists c) = acceptable_sections c"
  by (simp_all add: acceptable_numbers_def acceptable_names_def acceptable_sections_def
      valid_lists_def valid_sections_def valid_names_def)

text \<open>
C15: Whatever a configuration file says, the configuration the daemon works with is in range: every
number lies in its documented interval and pairs of bounds are ordered, every name is one the code
knows, the filter is only enabled when it can serve, developer mode only with a provisioned
password, and no list of exclusions reaches a drive, a system directory or an executable extension.
\<close>

theorem validated_config_is_acceptable: "acceptable (config_validate c)"
  by (simp add: acceptable_def config_validate_def blocks_apart numbers_valid names_valid sections_valid
      lists_valid)

end
