(* ===== verification/Ipc_Settings_Spec.thy ===== *)
theory Ipc_Settings_Spec
  imports Ipc_Settings Cfg_Spec
begin

text \<open>
  What a request can do to the configuration: an ordinary save changes what it names and none of the
  protected settings, whatever it names; an elevated one changes the protected settings it names, says
  so truthfully, and changes nothing when any part of it is wrong.
\<close>

section \<open>Merging\<close>

fun json_at :: "string list \<Rightarrow> json \<Rightarrow> json option" where
  "json_at [] j = Some j"
| "json_at (k # p) j = (case json_get j k of None \<Rightarrow> None | Some v \<Rightarrow> json_at p v)"

text \<open>The overlay says nothing about the path: following it ends at an object without the next key.\<close>

fun omits :: "json \<Rightarrow> string list \<Rightarrow> bool" where
  "omits (J_Obj os) (k # p) = (case map_of os k of None \<Rightarrow> True | Some v \<Rightarrow> omits v p)"
| "omits _ _ = False"

text \<open>The overlay has the last word on the path: following it reaches a value that is no object.\<close>

fun settles :: "json \<Rightarrow> string list \<Rightarrow> bool" where
  "settles (J_Obj os) (k # p) = (case map_of os k of None \<Rightarrow> False | Some v \<Rightarrow> settles v p)"
| "settles (J_Obj os) [] = False"
| "settles _ p = True"

fun json_ok :: "json \<Rightarrow> bool" where
  "json_ok (J_Obj os) = (distinct (map fst os) \<and> (\<forall>e \<in> set os. json_ok (snd e)))"
| "json_ok (J_Arr js) = (\<forall>j \<in> set js. json_ok j)"
| "json_ok _ = True"

abbreviation entry_of :: "(string \<times> json) list \<Rightarrow> string \<Rightarrow> json" where
  "entry_of es k \<equiv> (case map_of es k of None \<Rightarrow> J_Null | Some w \<Rightarrow> w)"

lemma merge_entries:
  assumes "distinct (map fst os)"
  shows "map_of (fold (\<lambda>(k, v) acc. AList.update k (json_merge (entry_of acc k) v) acc) os b) k
         = (case map_of os k of None \<Rightarrow> map_of b k | Some v \<Rightarrow> Some (json_merge (entry_of b k) v))"
  using assms
proof (induction os arbitrary: b)
  case (Cons e os)
  obtain k' v' where e: "e = (k', v')" by (cases e)
  have none: "map_of os k' = None" using Cons.prems by (simp add: e map_of_eq_None_iff)
  show ?case
    using Cons.IH [of "AList.update k' (json_merge (entry_of b k') v') b"] Cons.prems none
    by (cases "k = k'") (auto simp: e update_conv' split: option.splits)
qed simp

lemma json_get_merge:
  assumes "distinct (map fst os)"
  shows "json_get (json_merge b (J_Obj os)) k
         = (case map_of os k of
              None \<Rightarrow> json_get b k
            | Some v \<Rightarrow> Some (case b of J_Obj es \<Rightarrow> json_merge (entry_of es k) v | _ \<Rightarrow> v))"
  using assms merge_entries [OF assms] by (cases b) (auto split: option.splits)

lemma omits_at: "omits v p \<Longrightarrow> json_at p v = None"
  by (induction v p rule: omits.induct) (auto split: option.splits)

lemma merge_omitted: "json_ok ov \<Longrightarrow> omits ov p \<Longrightarrow> json_at p (json_merge b ov) = json_at p b"
proof (induction p arbitrary: b ov)
  case Nil
  then show ?case by (cases ov) auto
next
  case (Cons k p)
  then obtain os where ov: "ov = J_Obj os" and d: "distinct (map fst os)" by (cases ov) auto
  show ?case
  proof (cases "map_of os k")
    case None
    then show ?thesis by (simp add: ov json_get_merge [OF d])
  next
    case (Some v)
    then have v: "json_ok v" "omits v p"
      using Cons.prems by (auto simp: ov dest: map_of_SomeD)
    have empty: "json_at p v = None"
      using v(2) by (rule omits_at)
    show ?thesis
    proof (cases "\<exists>es. b = J_Obj es")
      case True
      then obtain es where b: "b = J_Obj es" by blast
      show ?thesis
      proof (cases "map_of es k")
        case None
        then show ?thesis
          using empty Some by (simp add: ov b json_get_merge [OF d] del: json_merge.simps(1))
      next
        case (Some w)
        then show ?thesis
          using Cons.IH [OF v, of w] \<open>map_of os k = Some v\<close> by (simp add: ov b json_get_merge [OF d] del: json_merge.simps(1))
      qed
    next
      case False
      then show ?thesis
        using empty Some by (cases b) (simp_all add: ov json_get_merge [OF d])
    qed
  qed
qed

lemma merge_settled: "json_ok ov \<Longrightarrow> settles ov p \<Longrightarrow> json_at p (json_merge b ov) = json_at p ov"
proof (induction p arbitrary: b ov)
  case Nil
  then show ?case by (cases ov; cases b) auto
next
  case (Cons k p)
  show ?case
  proof (cases "\<exists>os. ov = J_Obj os")
    case True
    then obtain os where ov: "ov = J_Obj os" by blast
    then have d: "distinct (map fst os)" using Cons.prems by simp
    obtain v where v: "map_of os k = Some v" "settles v p" "json_ok v"
      using Cons.prems by (auto simp: ov split: option.splits dest: map_of_SomeD)
    show ?thesis
      using Cons.IH [OF v(3,2)] v
      by (cases b) (simp_all add: ov json_get_merge [OF d] del: json_merge.simps(1))
  next
    case False
    then show ?thesis by (cases ov; cases b) auto
  qed
qed

section \<open>An ordinary save\<close>

lemma pin_critical_agrees: "agrees c (pin_critical c d)"
  by (simp add: agrees_def pin_critical_def)

lemma pin_critical_password:
  "dv_password_sha256 (c_developer (pin_critical c d)) = dv_password_sha256 (c_developer c)"
  by (simp add: pin_critical_def)

lemma settings_set_pins:
  assumes "settings_set_merge to_json of_json c params = Some d"
  shows "agrees c d" "dv_password_sha256 (c_developer d) = dv_password_sha256 (c_developer c)"
  using assms pin_critical_agrees pin_critical_password
  by (auto simp: settings_set_merge_def split: option.splits)

section \<open>An elevated change\<close>

text \<open>The protected settings as a table, by the keys of \<open>CRITICAL_FIELDS\<close>.\<close>

datatype setting = V_Flag bool | V_Text string | V_List "string list"

definition critical_table :: "config \<Rightarrow> (string \<times> setting) list" where
  "critical_table c =
     (let w = c_web_protection c in
      [(''realtime_enabled'', V_Flag (c_realtime_enabled c)),
       (''auto_quarantine'', V_Flag (c_auto_quarantine c)),
       (''argus_worker_enabled'', V_Flag (c_argus_worker_enabled c)),
       (''argus_worker_path'', V_Text (c_argus_worker_path c)),
       (''scan.argus_worker_enabled'', V_Flag (sc_argus_worker_enabled (c_scan c))),
       (''scan.argus_worker_path'', V_Text (sc_argus_worker_path (c_scan c))),
       (''excluded_paths'', V_List (c_excluded_paths c)),
       (''excluded_extensions'', V_List (c_excluded_extensions c)),
       (''excluded_detections'', V_List (c_excluded_detections c)),
       (''trusted_hashes'', V_List (c_trusted_hashes c)),
       (''realtime_roots'', V_List (c_realtime_roots c)),
       (''heuristic_alerts'', V_Flag (c_heuristic_alerts c)),
       (''idle_scan_enabled'', V_Flag (c_idle_scan_enabled c)),
       (''scheduled_scan_enabled'', V_Flag (c_scheduled_scan_enabled c)),
       (''enhanced_signature_provider'', V_Text (c_enhanced_signature_provider c)),
       (''fish.enabled'', V_Flag (fi_enabled (c_fish c))),
       (''fish.observe_only'', V_Flag (fi_observe_only (c_fish c))),
       (''fish.active_response'', V_Text (fi_active_response (c_fish c))),
       (''sandbox.enabled'', V_Flag (sb_enabled (c_sandbox c))),
       (''clamav_isolation'', V_Text (c_clamav_isolation c)),
       (''web_protection.enabled'', V_Flag (wp_enabled w)), (''web_protection.listen'', V_Text (wp_listen w)),
       (''web_protection.upstreams'', V_List (wp_upstreams w)),
       (''web_protection.block_response'', V_Text (wp_block_response w)),
       (''web_protection.health_check_name'', V_Text (wp_health_check_name w)),
       (''web_protection.blocklists'', V_List (wp_blocklists w)),
       (''web_protection.allowlist'', V_List (wp_allowlist w)),
       (''web_protection.log_queries'', V_Flag (wp_log_queries w))])"

definition critical_value :: "config \<Rightarrow> string \<Rightarrow> setting option" where
  "critical_value c k = map_of (critical_table c) k"

lemma critical_table_keys: "map fst (critical_table c) = CRITICAL_FIELDS"
  by (simp add: critical_table_def CRITICAL_FIELDS_def Let_def)

lemma web_section_eq:
  "w = w' \<longleftrightarrow>
     wp_enabled w = wp_enabled w' \<and> wp_listen w = wp_listen w' \<and> wp_upstreams w = wp_upstreams w'
     \<and> wp_block_response w = wp_block_response w' \<and> wp_health_check_name w = wp_health_check_name w'
     \<and> wp_blocklists w = wp_blocklists w' \<and> wp_allowlist w = wp_allowlist w'
     \<and> wp_log_queries w = wp_log_queries w'"
  for w w' :: web_protection_config
  by (cases w; cases w') simp

lemma agrees_table: "agrees c d \<longleftrightarrow> critical_table c = critical_table d"
  unfolding agrees_def critical_table_def Let_def web_section_eq list.inject prod.inject setting.inject
  by (rule iffI; elim conjE; intro conjI; (assumption | rule refl))

subsection \<open>What one parameter can do\<close>

text \<open>The worker's two settings have a second copy that is kept in step.\<close>

definition touched :: "string \<Rightarrow> string list" where
  "touched k = [k] @ (if k \<in> set [''argus_worker_enabled'', ''argus_worker_path''] then [''scan.'' @ k] else [])"

fun change_key :: "set_change \<Rightarrow> string" where
  "change_key (Flag_Set k _) = k"
| "change_key (Text_Set k _) = k"
| "change_key (List_Set k _) = k"

fun reported :: "set_change \<Rightarrow> setting option \<Rightarrow> bool" where
  "reported (Flag_Set _ b) x = (x = Some (V_Flag b))"
| "reported (Text_Set _ t) x = (x = Some (V_Text t))"
| "reported (List_Set _ n) x = (case x of Some (V_List xs) \<Rightarrow> length xs = n | _ \<Rightarrow> False)"

definition setter_ok :: "string \<Rightarrow> ('v \<Rightarrow> setting) \<Rightarrow> ('v \<Rightarrow> config \<Rightarrow> config) \<Rightarrow> bool" where
  "setter_ok key wrap g \<longleftrightarrow>
     (\<forall>v c. critical_value (g v c) key = Some (wrap v)
        \<and> (\<forall>k. k \<notin> set (touched key) \<longrightarrow> critical_value (g v c) k = critical_value c k)
        \<and> (\<forall>c0. pin_critical c0 (g v c) = pin_critical c0 c))"

definition good_step :: "string \<Rightarrow> (json \<Rightarrow> set_critical_apply \<Rightarrow> set_critical_apply) \<Rightarrow> bool" where
  "good_step key st \<longleftrightarrow>
     (\<forall>params a. let a' = st params a in
        sa_config a' = sa_config a \<and> sa_changes a' = sa_changes a
        \<or> json_get params key \<noteq> None
          \<and> (\<exists>ch. change_key ch = key \<and> sa_changes a' = sa_changes a @ [ch]
                 \<and> reported ch (critical_value (sa_config a') key))
          \<and> (\<forall>k. k \<notin> set (touched key) \<longrightarrow> critical_value (sa_config a') k = critical_value (sa_config a) k)
          \<and> (\<forall>c0. pin_critical c0 (sa_config a') = pin_critical c0 (sa_config a)))"

lemma good_flag: "setter_ok key V_Flag g \<Longrightarrow> good_step key (apply_flag key g)"
  by (auto simp: good_step_def setter_ok_def apply_flag_def put_def Let_def split: option.splits json.splits)

lemma good_choice: "setter_ok key V_Text g \<Longrightarrow> good_step key (apply_choice key known g)"
  by (auto simp: good_step_def setter_ok_def apply_choice_def put_def refuse_def Let_def
      split: option.splits json.splits)

lemma good_list: "setter_ok key V_List g \<Longrightarrow> good_step key (apply_list key check clean g)"
  by (auto simp: good_step_def setter_ok_def apply_list_def put_def Let_def
      split: option.splits prod.splits)

lemma good_web_flag: "setter_ok key V_Flag (\<lambda>v. on_web (g v)) \<Longrightarrow> good_step key (web_flag key g)"
  by (auto simp: good_step_def setter_ok_def web_flag_def web_key_def put_def refuse_def Let_def
      split: option.splits)

lemma good_web_text: "setter_ok key V_Text (\<lambda>v. on_web (g v)) \<Longrightarrow> good_step key (web_text key judge g)"
  by (auto simp: good_step_def setter_ok_def web_text_def web_key_def put_def refuse_def Let_def
      split: option.splits sum.splits)

lemma good_web_list: "setter_ok key V_List (\<lambda>v. on_web (g v)) \<Longrightarrow> good_step key (web_list key check g)"
  by (auto simp: good_step_def setter_ok_def web_list_def web_key_def put_def refuse_def Let_def
      split: option.splits prod.splits json.splits)

lemmas setter_defs = setter_ok_def critical_value_def critical_table_def touched_def Let_def on_web_def
  pin_critical_def

lemma good_realtime: "good_step ''realtime_enabled'' realtime_step"
proof -
  have "setter_ok ''realtime_enabled'' V_Flag (\<lambda>v c. c\<lparr>c_realtime_enabled := v\<rparr>)"
    by (simp add: setter_defs)
  then show ?thesis
    by (auto simp: good_step_def setter_ok_def realtime_step_def put_def Let_def split: option.splits json.splits)
qed

lemma refuse_or_put:
  "(if b1 then refuse e1 a else if b2 then refuse e2 a else if b3 then refuse e3 a else put g ch a) = refuse e1 a
   \<or> (if b1 then refuse e1 a else if b2 then refuse e2 a else if b3 then refuse e3 a else put g ch a) = refuse e2 a
   \<or> (if b1 then refuse e1 a else if b2 then refuse e2 a else if b3 then refuse e3 a else put g ch a) = refuse e3 a
   \<or> (if b1 then refuse e1 a else if b2 then refuse e2 a else if b3 then refuse e3 a else put g ch a) = put g ch a"
  by simp

lemma worker_path_cases:
  "worker_path_step params a = a \<and> (\<forall>v. json_get params ''argus_worker_path'' \<noteq> Some (J_Str v))
   \<or> (\<exists>e. worker_path_step params a = refuse e a)
   \<or> json_get params ''argus_worker_path'' \<noteq> None
      \<and> (\<exists>t. worker_path_step params a = put (set_worker_path t) (Text_Set ''argus_worker_path'' t) a)"
proof (cases "\<exists>v. json_get params ''argus_worker_path'' = Some (J_Str v)")
  case True
  then obtain v where v: "json_get params ''argus_worker_path'' = Some (J_Str v)" by blast
  let ?t = "trim v"
  let ?k = "''argus_worker_path''"
  have "worker_path_step params a = refuse (Field_Error ?k ''empty or too long'') a
        \<or> worker_path_step params a = refuse (Field_Error ?k ''rejected (dangerous or traversal)'') a
        \<or> worker_path_step params a = refuse (Field_Error ?k ''must end with .exe'') a
        \<or> worker_path_step params a = put (set_worker_path ?t) (Text_Set ?k ?t) a"
    unfolding worker_path_step_def Let_def v option.case json.case by (rule refuse_or_put)
  then show ?thesis using v by blast
next
  case False
  then show ?thesis by (simp add: worker_path_step_def Let_def split: option.split json.split)
qed

lemma setter_worker_path: "setter_ok ''argus_worker_path'' V_Text set_worker_path"
  by (simp add: setter_defs set_worker_path_def)

lemma good_worker_path: "good_step ''argus_worker_path'' worker_path_step"
  unfolding good_step_def Let_def
proof (intro allI, goal_cases)
  case (1 params a)
  show ?case
    using worker_path_cases [of params a] setter_worker_path
    by (auto simp: setter_ok_def put_def refuse_def)
qed

lemma good_servable: "good_step key (\<lambda>_. servable_step)"
  by (auto simp: good_step_def servable_step_def refuse_def Let_def split: option.splits)

subsection \<open>Every parameter\<close>

lemma setters_1:
  "setter_ok ''auto_quarantine'' V_Flag (\<lambda>v c. c\<lparr>c_auto_quarantine := v\<rparr>)"
  "setter_ok ''heuristic_alerts'' V_Flag (\<lambda>v c. c\<lparr>c_heuristic_alerts := v\<rparr>)"
  "setter_ok ''idle_scan_enabled'' V_Flag (\<lambda>v c. c\<lparr>c_idle_scan_enabled := v\<rparr>)"
  "setter_ok ''scheduled_scan_enabled'' V_Flag
     (\<lambda>v c. c\<lparr>c_scheduled_scan_enabled := v\<rparr>)"
  "setter_ok ''argus_worker_enabled'' V_Flag
     (\<lambda>v c. c\<lparr>c_argus_worker_enabled := v, c_scan := (c_scan c)\<lparr>sc_argus_worker_enabled := v\<rparr>\<rparr>)"
  by (simp_all add: setter_defs)

lemma setters_2:
  "setter_ok ''enhanced_signature_provider'' V_Text
     (\<lambda>v c. c\<lparr>c_enhanced_signature_provider := v\<rparr>)"
  "setter_ok ''fish.enabled'' V_Flag
     (\<lambda>v c. c\<lparr>c_fish := (c_fish c)\<lparr>fi_enabled := v\<rparr>\<rparr>)"
  "setter_ok ''fish.observe_only'' V_Flag
     (\<lambda>v c. c\<lparr>c_fish := (c_fish c)\<lparr>fi_observe_only := v\<rparr>\<rparr>)"
  "setter_ok ''fish.active_response'' V_Text
     (\<lambda>v c. c\<lparr>c_fish := (c_fish c)\<lparr>fi_active_response := v\<rparr>\<rparr>)"
  "setter_ok ''sandbox.enabled'' V_Flag
     (\<lambda>v c. c\<lparr>c_sandbox := (c_sandbox c)\<lparr>sb_enabled := v\<rparr>\<rparr>)"
  "setter_ok ''clamav_isolation'' V_Text (\<lambda>v c. c\<lparr>c_clamav_isolation := v\<rparr>)"
  by (simp_all add: setter_defs)

lemma setters_3:
  "setter_ok ''web_protection.enabled'' V_Flag
     (\<lambda>v. on_web ((\<lambda>v w. w\<lparr>wp_enabled := v\<rparr>) v))"
  "setter_ok ''web_protection.listen'' V_Text
     (\<lambda>v. on_web ((\<lambda>v w. w\<lparr>wp_listen := v\<rparr>) v))"
  "setter_ok ''web_protection.upstreams'' V_List
     (\<lambda>v. on_web ((\<lambda>v w. w\<lparr>wp_upstreams := v\<rparr>) v))"
  "setter_ok ''web_protection.block_response'' V_Text
     (\<lambda>v. on_web ((\<lambda>v w. w\<lparr>wp_block_response := v\<rparr>) v))"
  by (simp_all add: setter_defs)

lemma setters_4:
  "setter_ok ''web_protection.health_check_name'' V_Text
     (\<lambda>v. on_web ((\<lambda>v w. w\<lparr>wp_health_check_name := v\<rparr>) v))"
  "setter_ok ''web_protection.blocklists'' V_List
     (\<lambda>v. on_web ((\<lambda>v w. w\<lparr>wp_blocklists := v\<rparr>) v))"
  "setter_ok ''web_protection.allowlist'' V_List
     (\<lambda>v. on_web ((\<lambda>v w. w\<lparr>wp_allowlist := v\<rparr>) v))"
  "setter_ok ''web_protection.log_queries'' V_Flag
     (\<lambda>v. on_web ((\<lambda>v w. w\<lparr>wp_log_queries := v\<rparr>) v))"
  by (simp_all add: setter_defs)

lemma setters_5:
  "setter_ok ''excluded_paths'' V_List (\<lambda>v c. c\<lparr>c_excluded_paths := v\<rparr>)"
  "setter_ok ''excluded_extensions'' V_List (\<lambda>v c. c\<lparr>c_excluded_extensions := v\<rparr>)"
  "setter_ok ''excluded_detections'' V_List (\<lambda>v c. c\<lparr>c_excluded_detections := v\<rparr>)"
  "setter_ok ''trusted_hashes'' V_List (\<lambda>v c. c\<lparr>c_trusted_hashes := v\<rparr>)"
  "setter_ok ''realtime_roots'' V_List (\<lambda>v c. c\<lparr>c_realtime_roots := v\<rparr>)"
  by (simp_all add: setter_defs)

lemmas setters_ok = setters_1 setters_2 setters_3 setters_4 setters_5

definition step_keys :: "string list" where
  "step_keys =
     [''realtime_enabled'', ''auto_quarantine'', ''heuristic_alerts'', ''idle_scan_enabled'',
      ''scheduled_scan_enabled'', ''argus_worker_enabled'', ''enhanced_signature_provider'',
      ''argus_worker_path'', ''fish.enabled'', ''fish.observe_only'', ''fish.active_response'',
      ''sandbox.enabled'', ''clamav_isolation'', ''web_protection.enabled'',
      ''web_protection.listen'', ''web_protection.upstreams'', ''web_protection.block_response'',
      ''web_protection.health_check_name'', ''web_protection.blocklists'',
      ''web_protection.allowlist'', ''web_protection.log_queries'', [], ''excluded_paths'',
      ''excluded_extensions'', ''excluded_detections'', ''trusted_hashes'', ''realtime_roots'']"

lemma steps_good: "list_all2 good_step step_keys set_critical_steps"
  unfolding step_keys_def set_critical_steps_def
  by (intro list_all2_Cons [THEN iffD2] conjI list.rel_intros good_realtime good_worker_path good_servable
      good_flag good_choice good_list good_web_flag good_web_text good_web_list setters_ok)

subsection \<open>The whole request\<close>

definition truthful :: "json \<Rightarrow> config \<Rightarrow> set_critical_apply \<Rightarrow> bool" where
  "truthful params c0 a \<longleftrightarrow>
     pin_critical c0 (sa_config a) = c0
     \<and> (\<forall>ch \<in> set (sa_changes a). json_get params (change_key ch) \<noteq> None
          \<and> reported ch (critical_value (sa_config a) (change_key ch)))
     \<and> (\<forall>k. (\<forall>ch \<in> set (sa_changes a). k \<notin> set (touched (change_key ch)))
          \<longrightarrow> critical_value (sa_config a) k = critical_value c0 k)"

definition clear_of :: "string list \<Rightarrow> set_critical_apply \<Rightarrow> bool" where
  "clear_of ks a \<longleftrightarrow> (\<forall>ch \<in> set (sa_changes a). \<forall>k \<in> set ks. change_key ch \<notin> set (touched k))"

definition apart :: "string list \<Rightarrow> bool" where
  "apart ks \<longleftrightarrow> distinct ks \<and> (\<forall>k \<in> set ks. \<forall>k' \<in> set ks. k' \<in> set (touched k) \<longrightarrow> k' = k)"

lemma key_touched: "k \<in> set (touched k)"
  by (simp add: touched_def)

lemma step_truthful:
  assumes "good_step key st" "truthful params c0 a" "clear_of [key] a"
  shows "truthful params c0 (st params a)"
    "set (map change_key (sa_changes (st params a))) \<subseteq> insert key (set (map change_key (sa_changes a)))"
proof -
  let ?a' = "st params a"
  consider (same) "sa_config ?a' = sa_config a" "sa_changes ?a' = sa_changes a"
    | (changed) ch where "json_get params key \<noteq> None" "change_key ch = key" "sa_changes ?a' = sa_changes a @ [ch]"
        "reported ch (critical_value (sa_config ?a') key)"
        "\<And>k. k \<notin> set (touched key) \<Longrightarrow> critical_value (sa_config ?a') k = critical_value (sa_config a) k"
        "\<And>c0. pin_critical c0 (sa_config ?a') = pin_critical c0 (sa_config a)"
    using assms(1) unfolding good_step_def Let_def by blast
  then have "truthful params c0 ?a'
    \<and> set (map change_key (sa_changes ?a')) \<subseteq> insert key (set (map change_key (sa_changes a)))"
  proof cases
    case same
    then show ?thesis using assms(2) by (auto simp: truthful_def)
  next
    case changed
    then show ?thesis
      using assms(2,3) key_touched by (auto simp: truthful_def clear_of_def)
  qed
  then show "truthful params c0 ?a'"
    "set (map change_key (sa_changes ?a')) \<subseteq> insert key (set (map change_key (sa_changes a)))"
    by blast+
qed

lemma steps_truthful:
  assumes "list_all2 good_step ks sts" "apart ks" "truthful params c0 a" "clear_of ks a"
  shows "truthful params c0 (fold (\<lambda>st. st params) sts a)"
  using assms
proof (induction ks sts arbitrary: a rule: list_all2_induct)
  case (Cons k ks st sts)
  have t: "truthful params c0 (st params a)"
    and k: "set (map change_key (sa_changes (st params a))) \<subseteq> insert k (set (map change_key (sa_changes a)))"
    using step_truthful [OF Cons.hyps(1) Cons.prems(2)] Cons.prems(3) by (simp_all add: clear_of_def)
  have "clear_of ks (st params a)"
    unfolding clear_of_def
  proof (intro ballI)
    fix ch k' assume ch: "ch \<in> set (sa_changes (st params a))" and k': "k' \<in> set ks"
    then have "change_key ch = k \<or> change_key ch \<in> set (map change_key (sa_changes a))" using k by auto
    moreover have "k \<notin> set (touched k')"
      using Cons.prems(1) k' by (auto simp: apart_def)
    ultimately show "change_key ch \<notin> set (touched k')"
      using Cons.prems(3) k' by (auto simp: clear_of_def)
  qed
  moreover have "apart ks" using Cons.prems(1) by (auto simp: apart_def)
  ultimately show ?case using Cons.IH t by simp
qed simp

lemma step_keys_apart: "apart step_keys"
  by (simp add: apart_def step_keys_def touched_def)

lemma pin_own: "pin_critical c c = c"
  by (simp add: pin_critical_def)

lemma work_truthful: "truthful params c (set_critical_work c params)"
proof -
  let ?start = "\<lparr>sa_config = c, sa_changes = [], sa_errors = [], sa_toggle = None, sa_web = False\<rparr>"
  have "truthful params c (fold (\<lambda>st. st params) set_critical_steps ?start)"
    by (rule steps_truthful [OF steps_good step_keys_apart]) (simp_all add: truthful_def clear_of_def pin_own)
  then show ?thesis by (simp add: set_critical_work_def Let_def truthful_def)
qed

subsection \<open>No parameter goes unheard\<close>

text \<open>The JSON a parameter is read from: outside the web section a value of another kind is passed over.\<close>

fun is_flag :: "json \<Rightarrow> bool" where
  "is_flag (J_Bool _) = True"
| "is_flag _ = False"

fun is_text :: "json \<Rightarrow> bool" where
  "is_text (J_Str _) = True"
| "is_text _ = False"

fun is_list :: "json \<Rightarrow> bool" where
  "is_list (J_Arr _) = True"
| "is_list _ = False"

definition speaks :: "string \<Rightarrow> json \<Rightarrow> bool" where
  "speaks k v \<longleftrightarrow>
     (if take 15 k = ''web_protection.'' then True
      else if k \<in> set [''enhanced_signature_provider'', ''argus_worker_path'', ''fish.active_response'', ''clamav_isolation'']
      then is_text v
      else if k \<in> set [''excluded_paths'', ''excluded_extensions'', ''excluded_detections'', ''trusted_hashes'', ''realtime_roots'']
      then is_list v
      else k \<noteq> [] \<and> is_flag v)"

definition listens :: "(json \<Rightarrow> bool) \<Rightarrow> string \<Rightarrow> (json \<Rightarrow> set_critical_apply \<Rightarrow> set_critical_apply) \<Rightarrow> bool" where
  "listens kind key st \<longleftrightarrow>
     (\<forall>params a. \<exists>es cs. sa_errors (st params a) = sa_errors a @ es \<and> sa_changes (st params a) = sa_changes a @ cs
        \<and> (\<forall>v. json_get params key = Some v \<longrightarrow> kind v \<longrightarrow> es \<noteq> [] \<or> key \<in> set (map change_key cs)))"

lemma listens_flag: "listens is_flag key (apply_flag key g)"
  by (auto simp: listens_def apply_flag_def put_def split: option.splits json.splits)

lemma listens_choice: "listens is_text key (apply_choice key known g)"
  by (auto simp: listens_def apply_choice_def put_def refuse_def split: option.splits json.splits)

lemma listens_list: "listens is_list key (apply_list key check clean g)"
  by (auto simp: listens_def apply_list_def put_def Let_def elim!: is_list.elims
      split: option.splits prod.splits if_splits)

lemma listens_web:
  "listens (\<lambda>_. True) key (web_flag key g1)" "listens (\<lambda>_. True) key (web_text key judge g2)"
  "listens (\<lambda>_. True) key (web_list key check g3)"
  by (auto simp: listens_def web_flag_def web_text_def web_list_def web_key_def put_def refuse_def Let_def
      split: option.splits sum.splits json.splits prod.splits if_splits)

lemma listens_realtime: "listens is_flag ''realtime_enabled'' realtime_step"
  by (auto simp: listens_def realtime_step_def put_def split: option.splits json.splits)

lemma listens_worker_path: "listens is_text ''argus_worker_path'' worker_path_step"
  unfolding listens_def
proof (intro allI, goal_cases)
  case (1 params a)
  show ?case
    using worker_path_cases [of params a] by (auto simp: put_def refuse_def elim!: is_text.elims)
qed

lemma listens_servable: "listens (\<lambda>_. False) key (\<lambda>_. servable_step)"
  by (auto simp: listens_def servable_step_def refuse_def split: option.splits)

lemma listens_weaken: "listens kind key st \<Longrightarrow> (\<And>v. kind' v \<Longrightarrow> kind v) \<Longrightarrow> listens kind' key st"
  unfolding listens_def by meson

lemma steps_listen: "list_all2 (\<lambda>k. listens (speaks k) k) step_keys set_critical_steps"
  unfolding step_keys_def set_critical_steps_def
  by (intro list_all2_Cons [THEN iffD2] conjI list.rel_intros;
      ((rule listens_flag [THEN listens_weaken] listens_choice [THEN listens_weaken]
         listens_list [THEN listens_weaken] listens_web [THEN listens_weaken]
         listens_realtime [THEN listens_weaken] listens_worker_path [THEN listens_weaken]
         listens_servable [THEN listens_weaken]), simp add: speaks_def))

lemma steps_heard:
  assumes "list_all2 (\<lambda>k. listens (speaks k) k) ks sts"
  shows "\<exists>es cs. sa_errors (fold (\<lambda>st. st params) sts a) = sa_errors a @ es
    \<and> sa_changes (fold (\<lambda>st. st params) sts a) = sa_changes a @ cs
    \<and> (\<forall>k \<in> set ks. \<forall>v. json_get params k = Some v \<longrightarrow> speaks k v \<longrightarrow> es \<noteq> [] \<or> k \<in> set (map change_key cs))"
  using assms
proof (induction ks sts arbitrary: a rule: list_all2_induct)
  case (Cons k ks st sts)
  obtain es cs where 1: "sa_errors (st params a) = sa_errors a @ es" "sa_changes (st params a) = sa_changes a @ cs"
    "\<And>v. json_get params k = Some v \<Longrightarrow> speaks k v \<Longrightarrow> es \<noteq> [] \<or> k \<in> set (map change_key cs)"
    using Cons.hyps(1) unfolding listens_def by metis
  obtain es' cs' where 2:
    "sa_errors (fold (\<lambda>st. st params) sts (st params a)) = sa_errors (st params a) @ es'"
    "sa_changes (fold (\<lambda>st. st params) sts (st params a)) = sa_changes (st params a) @ cs'"
    "\<forall>k \<in> set ks. \<forall>v. json_get params k = Some v \<longrightarrow> speaks k v \<longrightarrow> es' \<noteq> [] \<or> k \<in> set (map change_key cs')"
    using Cons.IH by blast
  show ?case
    using 1 2 by (intro exI [of _ "es @ es'"] exI [of _ "cs @ cs'"]) auto
qed simp

definition heard :: "json \<Rightarrow> set_critical_apply \<Rightarrow> bool" where
  "heard params a \<longleftrightarrow>
     (\<forall>k v. json_get params k = Some v \<longrightarrow> k \<in> set set_critical_keys - {''token'', ''auth''} \<longrightarrow> speaks k v
        \<longrightarrow> k \<in> set (map change_key (sa_changes a)))"

lemma parameter_keys: "set set_critical_keys - {''token'', ''auth''} \<subseteq> set step_keys"
  by (simp add: set_critical_keys_def step_keys_def)

lemma work_heard: "sa_errors (set_critical_work c params) = [] \<Longrightarrow> heard params (set_critical_work c params)"
  using steps_heard [OF steps_listen, of params
      "\<lparr>sa_config = c, sa_changes = [], sa_errors = [], sa_toggle = None, sa_web = False\<rparr>"] parameter_keys
  by (auto simp: heard_def set_critical_work_def Let_def)

lemma known_keys: "unknown_keys params = [] \<Longrightarrow> json_get params k = Some v \<Longrightarrow> k \<in> set set_critical_keys"
  by (cases params) (auto simp: unknown_keys_def filter_empty_conv dest!: map_of_SomeD)

text \<open>A request that lowers one shield and adds one exclusion.\<close>

definition sample_request :: json where
  "sample_request =
     J_Obj [(''token'', J_Str ''t''), (''fish.enabled'', J_Bool False),
            (''excluded_extensions'', J_Arr [J_Str ''.LOG''])]"

definition sample_config :: config where
  "sample_config = initial_config (\<lambda>_. None)"

lemma sample_accepted: "sa_errors (apply_set_critical_params sample_config sample_request) = []"
  by code_simp

section \<open>A request that is refused\<close>

lemma set_critical_refused:
  "sa_errors (apply_set_critical_params c params) \<noteq> [] \<Longrightarrow> sa_config (apply_set_critical_params c params) = c"
  by (simp add: apply_set_critical_params_def Let_def)

section \<open>The filter is never switched off behind the caller's back\<close>

definition keeps_web :: "(json \<Rightarrow> set_critical_apply \<Rightarrow> set_critical_apply) \<Rightarrow> bool" where
  "keeps_web st \<longleftrightarrow>
     (\<forall>params a. c_web_protection (sa_config (st params a)) = c_web_protection (sa_config a)
        \<and> (sa_errors (st params a) = [] \<longrightarrow> sa_errors a = []))"

lemma keeps_web_list:
  "(\<And>v c. c_web_protection (g v c) = c_web_protection c) \<Longrightarrow> keeps_web (apply_list key check clean g)"
  by (auto simp: keeps_web_def apply_list_def put_def Let_def split: option.splits prod.splits)

lemma servable_judged:
  "sa_errors (servable_step a) = [] \<Longrightarrow> wp_enabled (c_web_protection (sa_config (servable_step a)))
   \<Longrightarrow> check_enablable (read_web (c_web_protection (sa_config (servable_step a)))) = None"
  by (auto simp: servable_step_def refuse_def split: option.splits if_splits)

lemma after_servable:
  assumes "list_all keeps_web sts" "sa_errors (fold (\<lambda>st. st params) sts (servable_step a)) = []"
    "wp_enabled (c_web_protection (sa_config (fold (\<lambda>st. st params) sts (servable_step a))))"
  shows "check_enablable (read_web (c_web_protection (sa_config (fold (\<lambda>st. st params) sts (servable_step a))))) = None"
proof -
  have "c_web_protection (sa_config (fold (\<lambda>st. st params) sts b)) = c_web_protection (sa_config b)
      \<and> (sa_errors (fold (\<lambda>st. st params) sts b) = [] \<longrightarrow> sa_errors b = [])" for b
    using assms(1)
  proof (induction sts arbitrary: b)
    case (Cons st sts)
    then have st: "keeps_web st" "list_all keeps_web sts" by simp_all
    have "c_web_protection (sa_config (st params b)) = c_web_protection (sa_config b)"
      "sa_errors (st params b) = [] \<longrightarrow> sa_errors b = []"
      using st(1) unfolding keeps_web_def by blast+
    then show ?case
      using Cons.IH [of "st params b", OF st(2)] by simp
  qed simp
  note kept = this [of "servable_step a"]
  have "sa_errors (servable_step a) = []" "wp_enabled (c_web_protection (sa_config (servable_step a)))"
    using kept assms(2,3) by simp_all
  then show ?thesis
    unfolding kept [THEN conjunct1] by (rule servable_judged)
qed

lemma accepted_web_servable:
  assumes "sa_errors (apply_set_critical_params c params) = []"
    "wp_enabled (c_web_protection (sa_config (apply_set_critical_params c params)))"
  shows "check_enablable (read_web (c_web_protection (sa_config (apply_set_critical_params c params)))) = None"
proof -
  let ?start = "\<lparr>sa_config = c, sa_changes = [], sa_errors = [], sa_toggle = None, sa_web = False\<rparr>"
  let ?front = "take 21 set_critical_steps" and ?rest = "drop 22 set_critical_steps"
  have split: "set_critical_steps = ?front @ (\<lambda>_. servable_step) # ?rest"
    by (simp add: set_critical_steps_def)
  have "list_all keeps_web ?rest"
    by (simp add: set_critical_steps_def keeps_web_list)
  note * = after_servable [OF this, of params "fold (\<lambda>st. st params) ?front ?start"]
  have "fold (\<lambda>st. st params) set_critical_steps ?start
    = fold (\<lambda>st. st params) ?rest (servable_step (fold (\<lambda>st. st params) ?front ?start))"
    by (subst split) simp
  then show ?thesis
    using assms * by (simp add: apply_set_critical_params_def set_critical_work_def Let_def)
qed

lemma enablable_answer: "check_enablable (c\<lparr>wc_block_response := r\<rparr>) = check_enablable c"
  by (simp add: check_enablable_def cong: option.case_cong ip_addr.case_cong if_cong)

lemma switch_judged_alike:
  "check_enablable (read_web w) = None \<Longrightarrow> wp_enabled (valid_web w) = wp_enabled w"
  by (simp add: valid_web_def validate_config_def enablable_answer Let_def) (simp add: read_web_def)

lemma switch_off_stays: "\<not> wp_enabled w \<Longrightarrow> \<not> wp_enabled (valid_web w)"
  by (auto simp: valid_web_def validate_config_def read_web_def Let_def)

lemma valid_web_log: "wp_log_queries (valid_web w) = wp_log_queries w"
  by (simp add: valid_web_def Let_def)

lemma validate_flags:
  assumes "wp_enabled (valid_web (c_web_protection d)) = wp_enabled (c_web_protection d)"
    "critical_value d k = Some (V_Flag b)"
  shows "critical_value (config_validate d) k = Some (V_Flag b)"
  using assms(2)
  by (simp add: critical_value_def critical_table_def Let_def valid_defs valid_scan_def valid_fish_def
      valid_sandbox_def assms(1) valid_web_log split: if_splits)

lemma accepted_switches_saved:
  assumes ok: "sa_errors (apply_set_critical_params c params) = []"
    and ch: "Flag_Set k b \<in> set (sa_changes (apply_set_critical_params c params))"
  shows "critical_value (config_validate (sa_config (apply_set_critical_params c params))) k = Some (V_Flag b)"
proof -
  let ?d = "sa_config (apply_set_critical_params c params)"
  have "truthful params c (apply_set_critical_params c params)"
    using ok work_truthful [of params c]
    by (simp add: apply_set_critical_params_def set_critical_work_def Let_def truthful_def)
  then have "critical_value ?d k = Some (V_Flag b)"
    using ch by (auto simp: truthful_def)
  moreover have "wp_enabled (valid_web (c_web_protection ?d)) = wp_enabled (c_web_protection ?d)"
    using accepted_web_servable [OF ok] switch_judged_alike switch_off_stays by blast
  ultimately show ?thesis by (rule validate_flags [rotated])
qed



end
