(* ===== verification/Ipc_Asked.thy ===== *)
theory Ipc_Asked
  imports Ipc_Settings_Spec
begin

text \<open>
  What an elevated request asks for, said without the code that carries it out: the value a parameter
  stands for, key by key. An accepted request sets exactly that, reports exactly that, and what is saved
  is what validation keeps of it.
\<close>

section \<open>What a parameter asks for\<close>

definition flag_keys :: "string list" where
  "flag_keys =
     [''realtime_enabled'', ''auto_quarantine'', ''heuristic_alerts'', ''idle_scan_enabled'',
      ''scheduled_scan_enabled'', ''argus_worker_enabled'', ''fish.enabled'', ''fish.observe_only'',
      ''sandbox.enabled'', ''web_protection.enabled'', ''web_protection.log_queries'']"

definition choice_keys :: "string list" where
  "choice_keys =
     [''enhanced_signature_provider'', ''fish.active_response'', ''clamav_isolation'',
      ''web_protection.block_response'']"

definition trimmed_keys :: "string list" where
  "trimmed_keys = [''argus_worker_path'', ''web_protection.listen'', ''web_protection.health_check_name'']"

definition list_keys :: "string list" where
  "list_keys =
     [''web_protection.upstreams'', ''web_protection.blocklists'', ''web_protection.allowlist'',
      ''excluded_paths'', ''excluded_extensions'', ''excluded_detections'', ''trusted_hashes'',
      ''realtime_roots'']"

text \<open>An extension is meant without its dots and in lower case, a hash in lower case, other entries as they are.\<close>

definition entry_meant :: "string \<Rightarrow> string \<Rightarrow> string" where
  "entry_meant k s =
     (if k = ''excluded_extensions'' then to_lowercase (dropWhile (\<lambda>c. c = CHR ''.'') (trim s))
      else if k = ''trusted_hashes'' then to_lowercase (trim s)
      else s)"

fun texts_of :: "json \<Rightarrow> string list option" where
  "texts_of (J_Arr vs) = those (map as_str vs)"
| "texts_of _ = None"

definition meant :: "string \<Rightarrow> json \<Rightarrow> setting option" where
  "meant k v =
     (if k \<in> set flag_keys then map_option V_Flag (as_bool v)
      else if k \<in> set choice_keys then map_option V_Text (as_str v)
      else if k \<in> set trimmed_keys then map_option (\<lambda>s. V_Text (trim s)) (as_str v)
      else if k \<in> set list_keys then map_option (\<lambda>xs. V_List (map (entry_meant k) xs)) (texts_of v)
      else None)"

text \<open>The value asked for a key, if any: nothing for a key that is absent or of a kind that is passed over.\<close>

definition asked :: "json \<Rightarrow> string \<Rightarrow> setting option" where
  "asked params k = Option.bind (json_get params k) (meant k)"

text \<open>The worker's settings are kept in two places under one key.\<close>

definition base_key :: "string \<Rightarrow> string" where
  "base_key k = (if take 5 k = ''scan.'' then drop 5 k else k)"

fun change_of :: "string \<Rightarrow> setting \<Rightarrow> set_change" where
  "change_of k (V_Flag b) = Flag_Set k b"
| "change_of k (V_Text t) = Text_Set k t"
| "change_of k (V_List xs) = List_Set k (length xs)"

definition changes_asked :: "json \<Rightarrow> string list \<Rightarrow> set_change list" where
  "changes_asked params ks =
     concat (map (\<lambda>k. case asked params k of None \<Rightarrow> [] | Some x \<Rightarrow> [change_of k x]) ks)"

text \<open>What a text must be for validation to keep it.\<close>

definition fits :: "string \<Rightarrow> setting \<Rightarrow> bool" where
  "fits k x =
     (case x of
        V_Text t \<Rightarrow>
          if k = ''enhanced_signature_provider'' then is_known_signature_provider t
          else if k = ''fish.active_response'' then t \<in> set [''observe'', ''suspend'', ''terminate'']
          else if k = ''clamav_isolation'' then t \<in> set [''in_process'', ''subprocess'']
          else if k = ''web_protection.block_response'' then t \<in> {''nxdomain'', ''zero_ip''}
          else if k = ''argus_worker_path'' then trim t \<noteq> []
          else True
      | _ \<Rightarrow> True)"

section \<open>One parameter\<close>

definition sets :: "string \<Rightarrow> ('v \<Rightarrow> setting) \<Rightarrow> ('v \<Rightarrow> config \<Rightarrow> config) \<Rightarrow> bool" where
  "sets key wrap g \<longleftrightarrow>
     (\<forall>v c k. critical_value (g v c) k = (if k \<in> set (touched key) then Some (wrap v) else critical_value c k))"

definition exact_step :: "string \<Rightarrow> (json \<Rightarrow> set_critical_apply \<Rightarrow> set_critical_apply) \<Rightarrow> bool" where
  "exact_step key st \<longleftrightarrow>
     (\<forall>params a. sa_errors (st params a) = [] \<longrightarrow>
        sa_errors a = []
        \<and> (case asked params key of
             None \<Rightarrow> sa_config (st params a) = sa_config a \<and> sa_changes (st params a) = sa_changes a
           | Some x \<Rightarrow> fits key x \<and> sa_changes (st params a) = sa_changes a @ [change_of key x]
               \<and> (\<forall>k. critical_value (sa_config (st params a)) k
                    = (if k \<in> set (touched key) then Some x else critical_value (sa_config a) k))))"

lemma touched_alone: "key \<notin> set [''argus_worker_enabled'', ''argus_worker_path''] \<Longrightarrow> touched key = [key]"
  by (simp add: touched_def)

lemma sets_alone:
  assumes "setter_ok key wrap g" "touched key = [key]"
  shows "sets key wrap g"
  using assms by (simp add: sets_def setter_ok_def)

lemma exact_flag:
  assumes "meant key = (\<lambda>v. map_option V_Flag (as_bool v))" "sets key V_Flag g"
  shows "exact_step key (apply_flag key g)"
  using assms
  by (auto simp: exact_step_def sets_def asked_def apply_flag_def put_def fits_def split: option.splits json.splits)

lemma exact_choice:
  assumes "meant key = (\<lambda>v. map_option V_Text (as_str v))" "sets key V_Text g"
    "\<And>t. known t \<Longrightarrow> fits key (V_Text t)"
  shows "exact_step key (apply_choice key known g)"
  using assms
  by (auto simp: exact_step_def sets_def asked_def apply_choice_def put_def refuse_def
      split: option.splits json.splits)

lemma check_entries_texts: "check_entries key check i vs = (out, []) \<Longrightarrow> those (map as_str vs) = Some out"
  by (induction vs arbitrary: i out) (auto simp: Let_def split: prod.splits option.splits)

lemma validated_texts: "validate_string_list key check v = (found, []) \<Longrightarrow> found = texts_of v"
  by (cases v) (auto simp: Let_def check_entries_texts split: if_splits prod.splits)

lemma exact_list:
  assumes "meant key = (\<lambda>v. map_option (\<lambda>xs. V_List (map clean xs)) (texts_of v))" "sets key V_List g"
  shows "exact_step key (apply_list key check clean g)"
  unfolding exact_step_def
proof (intro allI impI)
  fix params a
  assume ok: "sa_errors (apply_list key check clean g params a) = []"
  show "sa_errors a = []
    \<and> (case asked params key of
         None \<Rightarrow> sa_config (apply_list key check clean g params a) = sa_config a
           \<and> sa_changes (apply_list key check clean g params a) = sa_changes a
       | Some x \<Rightarrow> fits key x \<and> sa_changes (apply_list key check clean g params a) = sa_changes a @ [change_of key x]
           \<and> (\<forall>k. critical_value (sa_config (apply_list key check clean g params a)) k
                = (if k \<in> set (touched key) then Some x else critical_value (sa_config a) k)))"
  proof (cases "json_get params key")
    case None
    then show ?thesis
      using ok by (simp add: asked_def apply_list_def)
  next
    case (Some v)
    obtain found errs where v: "validate_string_list key check v = (found, errs)"
      by fastforce
    then have "errs = []" "sa_errors a = []"
      using ok Some by (cases found; simp add: apply_list_def put_def Let_def)+
    then show ?thesis
      using validated_texts [of key check v found] v Some assms
      by (auto simp: asked_def apply_list_def put_def sets_def fits_def split: option.splits)
  qed
qed

lemma exact_web_flag:
  assumes "meant key = (\<lambda>v. map_option V_Flag (as_bool v))" "sets key V_Flag (\<lambda>v. on_web (g v))"
  shows "exact_step key (web_flag key g)"
  using assms
  by (auto simp: exact_step_def sets_def asked_def web_flag_def web_key_def put_def refuse_def fits_def
      split: option.splits)

lemma exact_web_text:
  assumes "meant key = (\<lambda>v. map_option (\<lambda>s. V_Text (f s)) (as_str v))" "sets key V_Text (\<lambda>v. on_web (g v))"
    "\<And>s t. judge s = Inr t \<Longrightarrow> t = f s \<and> fits key (V_Text t)"
  shows "exact_step key (web_text key judge g)"
  using assms
  by (auto simp: exact_step_def sets_def asked_def web_text_def web_key_def put_def refuse_def
      split: option.splits sum.splits)

lemma exact_web_list:
  assumes "meant key = (\<lambda>v. map_option V_List (texts_of v))" "sets key V_List (\<lambda>v. on_web (g v))"
  shows "exact_step key (web_list key check g)"
  unfolding exact_step_def
proof (intro allI impI)
  fix params a
  assume ok: "sa_errors (web_list key check g params a) = []"
  show "sa_errors a = []
    \<and> (case asked params key of
         None \<Rightarrow> sa_config (web_list key check g params a) = sa_config a
           \<and> sa_changes (web_list key check g params a) = sa_changes a
       | Some x \<Rightarrow> fits key x \<and> sa_changes (web_list key check g params a) = sa_changes a @ [change_of key x]
           \<and> (\<forall>k. critical_value (sa_config (web_list key check g params a)) k
                = (if k \<in> set (touched key) then Some x else critical_value (sa_config a) k)))"
  proof (cases "json_get params key")
    case None
    then show ?thesis
      using ok by (simp add: asked_def web_list_def web_key_def)
  next
    case (Some v)
    then obtain vs where vs: "v = J_Arr vs"
      using ok by (cases v) (auto simp: web_list_def web_key_def refuse_def)
    obtain found errs where f: "validate_string_list key check v = (found, errs)"
      by fastforce
    then have "errs = []" "sa_errors a = []"
      using ok Some vs
      by (cases found; simp add: web_list_def web_key_def put_def Let_def del: validate_string_list.simps)+
    then show ?thesis
      using validated_texts [of key check v found] f Some vs assms
      by (auto simp: asked_def web_list_def web_key_def put_def sets_def fits_def
          simp del: validate_string_list.simps split: option.splits)
  qed
qed

text \<open>White space at the head is known from the first bytes.\<close>

lemma white_space_head_append:
  assumes "0 < white_space_head s"
  shows "0 < white_space_head (s @ z)"
proof (cases s)
  case Nil
  then show ?thesis using assms by (simp add: white_space_head_def)
next
  case (Cons a s1)
  show ?thesis
  proof (cases s1)
    case Nil
    then show ?thesis using assms Cons by (auto simp: white_space_head_def Let_def split: if_splits)
  next
    case s1: (Cons b s2)
    show ?thesis
    proof (cases s2)
      case Nil
      then show ?thesis using assms Cons s1
        by (auto simp: white_space_head_def Let_def numeral_3_eq_3 numeral_2_eq_2 split: if_splits)
    next
      case (Cons c s3)
      then show ?thesis using assms \<open>s = a # s1\<close> s1 by (simp add: white_space_head_def Let_def numeral_3_eq_3)
    qed
  qed
qed

lemma trim_end_prefix: "\<exists>z. s = trim_end s @ z"
  by (induction s) auto

lemma trim_start_stops: "white_space_head (trim_start s) = 0"
proof (induction s rule: trim_start.induct)
  case (1 s)
  then show ?case by (subst trim_start.simps) simp
qed

lemma trim_nonempty: "trim s \<noteq> [] \<Longrightarrow> trim (trim s) \<noteq> []"
proof -
  assume ne: "trim s \<noteq> []"
  obtain z where "trim_start s = trim s @ z"
    using trim_end_prefix [of "trim_start s"] by (auto simp: trim_def)
  then have "white_space_head (trim s) = 0"
    using white_space_head_append [of "trim s" z] trim_start_stops [of s] by auto
  then have "trim_start (trim s) = trim s"
    by (subst trim_start.simps) simp
  then have "trim (trim s) = trim_end (trim s)"
    unfolding trim_def [of "trim s"] by simp
  then show ?thesis
    using ne \<open>trim_start (trim s) = trim s\<close> by (cases "trim s") simp_all
qed

section \<open>Every parameter\<close>

lemma entries_meant:
  "entry_meant ''excluded_extensions'' = clean_extension" "entry_meant ''trusted_hashes'' = clean_hash"
  "k \<notin> set [''excluded_extensions'', ''trusted_hashes''] \<Longrightarrow> entry_meant k = (\<lambda>s. s)"
  by (rule ext, simp add: entry_meant_def clean_extension_def clean_hash_def)+

lemmas meant_defs = meant_def flag_keys_def choice_keys_def trimmed_keys_def list_keys_def entries_meant

lemma exact_realtime: "exact_step ''realtime_enabled'' realtime_step"
proof -
  have "sets ''realtime_enabled'' V_Flag (\<lambda>v c. c\<lparr>c_realtime_enabled := v\<rparr>)"
    by (rule sets_alone) (simp_all add: setter_defs)
  moreover have "meant ''realtime_enabled'' = (\<lambda>v. map_option V_Flag (as_bool v))"
    by (rule ext) (simp add: meant_defs)
  ultimately show ?thesis
    by (auto simp: exact_step_def sets_def asked_def realtime_step_def put_def fits_def
        split: option.splits json.splits)
qed

lemma sets_worker:
  "sets ''argus_worker_path'' V_Text set_worker_path"
  "sets ''argus_worker_enabled'' V_Flag
     (\<lambda>v c. c\<lparr>c_argus_worker_enabled := v, c_scan := (c_scan c)\<lparr>sc_argus_worker_enabled := v\<rparr>\<rparr>)"
  by (simp_all add: sets_def setter_defs set_worker_path_def)

lemma worker_path_accepted:
  assumes "json_get params ''argus_worker_path'' = Some (J_Str v)" "sa_errors (worker_path_step params a) = []"
  shows "trim v \<noteq> []
    \<and> worker_path_step params a = put (set_worker_path (trim v)) (Text_Set ''argus_worker_path'' (trim v)) a"
proof -
  let ?t = "trim v"
  have "worker_path_step params a = put (set_worker_path ?t) (Text_Set ''argus_worker_path'' ?t) a \<and> ?t \<noteq> []
      \<or> sa_errors (worker_path_step params a) \<noteq> []"
    unfolding worker_path_step_def Let_def assms(1) option.case json.case by (simp add: refuse_def)
  then show ?thesis
    using assms(2) by blast
qed

lemma exact_worker_path: "exact_step ''argus_worker_path'' worker_path_step"
  unfolding exact_step_def
proof (intro allI impI)
  fix params a
  let ?k = "''argus_worker_path''"
  assume ok: "sa_errors (worker_path_step params a) = []"
  have m: "meant ?k = (\<lambda>v. map_option (\<lambda>s. V_Text (trim s)) (as_str v))"
    by (rule ext) (simp add: meant_defs)
  show "sa_errors a = []
    \<and> (case asked params ?k of
         None \<Rightarrow> sa_config (worker_path_step params a) = sa_config a
           \<and> sa_changes (worker_path_step params a) = sa_changes a
       | Some x \<Rightarrow> fits ?k x \<and> sa_changes (worker_path_step params a) = sa_changes a @ [change_of ?k x]
           \<and> (\<forall>k. critical_value (sa_config (worker_path_step params a)) k
                = (if k \<in> set (touched ?k) then Some x else critical_value (sa_config a) k)))"
  proof (cases "\<exists>v. json_get params ?k = Some (J_Str v)")
    case True
    then obtain v where v: "json_get params ?k = Some (J_Str v)"
      by blast
    have "fits ?k (V_Text (trim v))"
      using trim_nonempty worker_path_accepted [OF v ok] by (simp add: fits_def)
    then show ?thesis
      using worker_path_accepted [OF v ok] ok sets_worker(1) v
      by (simp add: asked_def m put_def sets_def)
  next
    case False
    then have "worker_path_step params a = a" "asked params ?k = None"
      by (cases "json_get params ?k"; cases "the (json_get params ?k)"; simp add: worker_path_step_def asked_def m)+
    then show ?thesis
      using ok by simp
  qed
qed

lemma exact_servable: "exact_step [] (\<lambda>_. servable_step)"
proof -
  have "asked params [] = None" for params
    by (cases "json_get params []") (simp_all add: asked_def meant_defs)
  then show ?thesis
    by (auto simp: exact_step_def servable_step_def refuse_def split: option.splits)
qed

lemma exact_flags:
  "exact_step ''auto_quarantine'' (apply_flag ''auto_quarantine'' (\<lambda>v c. c\<lparr>c_auto_quarantine := v\<rparr>))"
  "exact_step ''heuristic_alerts'' (apply_flag ''heuristic_alerts'' (\<lambda>v c. c\<lparr>c_heuristic_alerts := v\<rparr>))"
  "exact_step ''idle_scan_enabled'' (apply_flag ''idle_scan_enabled'' (\<lambda>v c. c\<lparr>c_idle_scan_enabled := v\<rparr>))"
  "exact_step ''scheduled_scan_enabled''
     (apply_flag ''scheduled_scan_enabled'' (\<lambda>v c. c\<lparr>c_scheduled_scan_enabled := v\<rparr>))"
  "exact_step ''argus_worker_enabled'' (apply_flag ''argus_worker_enabled''
     (\<lambda>v c. c\<lparr>c_argus_worker_enabled := v, c_scan := (c_scan c)\<lparr>sc_argus_worker_enabled := v\<rparr>\<rparr>))"
  "exact_step ''fish.enabled'' (apply_flag ''fish.enabled'' (\<lambda>v c. c\<lparr>c_fish := (c_fish c)\<lparr>fi_enabled := v\<rparr>\<rparr>))"
  "exact_step ''fish.observe_only''
     (apply_flag ''fish.observe_only'' (\<lambda>v c. c\<lparr>c_fish := (c_fish c)\<lparr>fi_observe_only := v\<rparr>\<rparr>))"
  "exact_step ''sandbox.enabled''
     (apply_flag ''sandbox.enabled'' (\<lambda>v c. c\<lparr>c_sandbox := (c_sandbox c)\<lparr>sb_enabled := v\<rparr>\<rparr>))"
  by (rule exact_flag, rule ext, simp add: meant_defs, (rule sets_worker | (rule sets_alone, rule setters_ok, simp add: touched_def)))+

lemma exact_choices:
  "exact_step ''enhanced_signature_provider'' (apply_choice ''enhanced_signature_provider''
     is_known_signature_provider (\<lambda>v c. c\<lparr>c_enhanced_signature_provider := v\<rparr>))"
  "exact_step ''fish.active_response'' (apply_choice ''fish.active_response''
     (\<lambda>v. v \<in> set [''observe'', ''suspend'', ''terminate''])
     (\<lambda>v c. c\<lparr>c_fish := (c_fish c)\<lparr>fi_active_response := v\<rparr>\<rparr>))"
  "exact_step ''clamav_isolation'' (apply_choice ''clamav_isolation''
     (\<lambda>v. v \<in> set [''in_process'', ''subprocess'']) (\<lambda>v c. c\<lparr>c_clamav_isolation := v\<rparr>))"
  by (rule exact_choice, rule ext, simp add: meant_defs, (rule sets_alone, rule setters_ok, simp add: touched_def), simp add: fits_def)+

lemma exact_web_switches:
  "exact_step ''web_protection.enabled'' (web_flag ''web_protection.enabled'' (\<lambda>v w. w\<lparr>wp_enabled := v\<rparr>))"
  "exact_step ''web_protection.log_queries''
     (web_flag ''web_protection.log_queries'' (\<lambda>v w. w\<lparr>wp_log_queries := v\<rparr>))"
  by (rule exact_web_flag, rule ext, simp add: meant_defs, (rule sets_alone, rule setters_ok, simp add: touched_def))+

lemma judged:
  "judge_listen s = Inr t \<Longrightarrow> t = trim s" "judge_health_name s = Inr t \<Longrightarrow> t = trim s"
  "judge_block_response s = Inr t \<Longrightarrow> t = s \<and> t \<in> {''nxdomain'', ''zero_ip''}"
  by (auto simp: judge_listen_def judge_health_name_def judge_block_response_def Let_def split: if_splits)

lemma exact_web_texts:
  "exact_step ''web_protection.listen''
     (web_text ''web_protection.listen'' judge_listen (\<lambda>v w. w\<lparr>wp_listen := v\<rparr>))"
  "exact_step ''web_protection.block_response''
     (web_text ''web_protection.block_response'' judge_block_response (\<lambda>v w. w\<lparr>wp_block_response := v\<rparr>))"
  "exact_step ''web_protection.health_check_name''
     (web_text ''web_protection.health_check_name'' judge_health_name (\<lambda>v w. w\<lparr>wp_health_check_name := v\<rparr>))"
  subgoal
    by (rule exact_web_text [where f = trim], rule ext, simp add: meant_defs, (rule sets_alone, rule setters_ok, simp add: touched_def), simp add: fits_def judged)
  subgoal
    by (rule exact_web_text [where f = "\<lambda>s. s"], rule ext, simp add: meant_defs, (rule sets_alone, rule setters_ok, simp add: touched_def),
        drule judged, simp add: fits_def)
  subgoal
    by (rule exact_web_text [where f = trim], rule ext, simp add: meant_defs, (rule sets_alone, rule setters_ok, simp add: touched_def), simp add: fits_def judged)
  done

lemma exact_web_lists:
  "exact_step ''web_protection.upstreams''
     (web_list ''web_protection.upstreams'' check_upstream_entry (\<lambda>v w. w\<lparr>wp_upstreams := v\<rparr>))"
  "exact_step ''web_protection.blocklists''
     (web_list ''web_protection.blocklists'' check_blocklist_entry (\<lambda>v w. w\<lparr>wp_blocklists := v\<rparr>))"
  "exact_step ''web_protection.allowlist''
     (web_list ''web_protection.allowlist'' check_allowlist_entry (\<lambda>v w. w\<lparr>wp_allowlist := v\<rparr>))"
  by (rule exact_web_list, rule ext, simp add: meant_defs, (rule sets_alone, rule setters_ok, simp add: touched_def))+

lemma exact_lists:
  "exact_step ''excluded_paths''
     (apply_list ''excluded_paths'' check_excluded_path (\<lambda>s. s) (\<lambda>v c. c\<lparr>c_excluded_paths := v\<rparr>))"
  "exact_step ''excluded_extensions'' (apply_list ''excluded_extensions'' check_excluded_extension clean_extension
     (\<lambda>v c. c\<lparr>c_excluded_extensions := v\<rparr>))"
  "exact_step ''excluded_detections''
     (apply_list ''excluded_detections'' check_excluded_detection (\<lambda>s. s) (\<lambda>v c. c\<lparr>c_excluded_detections := v\<rparr>))"
  "exact_step ''trusted_hashes''
     (apply_list ''trusted_hashes'' check_trusted_hash clean_hash (\<lambda>v c. c\<lparr>c_trusted_hashes := v\<rparr>))"
  "exact_step ''realtime_roots''
     (apply_list ''realtime_roots'' check_realtime_root (\<lambda>s. s) (\<lambda>v c. c\<lparr>c_realtime_roots := v\<rparr>))"
  by (rule exact_list, rule ext, simp add: meant_defs, (rule sets_alone, rule setters_ok, simp add: touched_def))+

lemma steps_exact: "list_all2 exact_step step_keys set_critical_steps"
  unfolding step_keys_def set_critical_steps_def
  by (intro list_all2_Cons [THEN iffD2] conjI list.rel_intros exact_realtime exact_worker_path exact_servable
      exact_flags exact_choices exact_web_switches exact_web_texts exact_web_lists exact_lists)

section \<open>The whole request\<close>

definition value_after :: "json \<Rightarrow> string list \<Rightarrow> (string \<Rightarrow> setting option) \<Rightarrow> string \<Rightarrow> setting option" where
  "value_after params ks old k =
     (if base_key k \<in> set ks \<and> k \<in> set (touched (base_key k))
      then (case asked params (base_key k) of None \<Rightarrow> old k | Some x \<Rightarrow> Some x)
      else old k)"

lemma steps_exact_fold:
  assumes "list_all2 exact_step ks sts" "distinct ks" "\<forall>key \<in> set ks. \<forall>k \<in> set (touched key). base_key k = key"
    "sa_errors (fold (\<lambda>st. st params) sts a) = []"
  shows "sa_errors a = []
    \<and> sa_changes (fold (\<lambda>st. st params) sts a) = sa_changes a @ changes_asked params ks
    \<and> (\<forall>k \<in> set ks. \<forall>x. asked params k = Some x \<longrightarrow> fits k x)
    \<and> critical_value (sa_config (fold (\<lambda>st. st params) sts a))
        = value_after params ks (critical_value (sa_config a))"
  using assms
proof (induction ks sts arbitrary: a rule: list_all2_induct)
  case Nil
  then show ?case by (auto simp: changes_asked_def value_after_def)
next
  case (Cons key ks st sts)
  let ?a = "st params a"
  have ih: "sa_errors ?a = []" "sa_changes (fold (\<lambda>st. st params) sts ?a) = sa_changes ?a @ changes_asked params ks"
    "\<forall>k \<in> set ks. \<forall>x. asked params k = Some x \<longrightarrow> fits k x"
    "critical_value (sa_config (fold (\<lambda>st. st params) sts ?a)) = value_after params ks (critical_value (sa_config ?a))"
    using Cons.IH [of ?a] Cons.prems by simp_all
  have st: "sa_errors a = []
      \<and> (case asked params key of
           None \<Rightarrow> sa_config ?a = sa_config a \<and> sa_changes ?a = sa_changes a
         | Some x \<Rightarrow> fits key x \<and> sa_changes ?a = sa_changes a @ [change_of key x]
             \<and> (\<forall>k. critical_value (sa_config ?a) k
                  = (if k \<in> set (touched key) then Some x else critical_value (sa_config a) k)))"
    using Cons.hyps(1) ih(1) unfolding exact_step_def by blast
  have later: "base_key k \<notin> set ks" if "k \<in> set (touched key)" for k
    using Cons.prems that by auto
  have val: "critical_value (sa_config (fold (\<lambda>st. st params) sts ?a)) k
      = value_after params (key # ks) (critical_value (sa_config a)) k" for k
  proof (cases "k \<in> set (touched key)")
    case True
    then have "base_key k = key" "base_key k \<notin> set ks"
      using Cons.prems(2) later by auto
    then show ?thesis
      using True st by (auto simp: ih(4) value_after_def split: option.splits)
  next
    case False
    then have "critical_value (sa_config ?a) k = critical_value (sa_config a) k"
      using st by (auto split: option.splits)
    then show ?thesis
      using False by (auto simp: ih(4) value_after_def split: option.splits)
  qed
  show ?case
    using st ih(2,3) val by (auto simp: changes_asked_def split: option.splits)
qed

lemma step_keys_bases:
  "distinct step_keys" "\<forall>key \<in> set step_keys. \<forall>k \<in> set (touched key). base_key k = key"
  by (simp_all add: step_keys_def touched_def base_key_def)

lemma critical_bases: "\<forall>k \<in> set CRITICAL_FIELDS. base_key k \<in> set step_keys \<and> k \<in> set (touched (base_key k))"
  by (simp add: CRITICAL_FIELDS_def step_keys_def touched_def base_key_def)

lemma accepted_exact:
  assumes "sa_errors (apply_set_critical_params c params) = []"
  defines "a \<equiv> apply_set_critical_params c params"
  shows "sa_changes a = changes_asked params step_keys"
    and "k \<in> set CRITICAL_FIELDS \<Longrightarrow> critical_value (sa_config a) k
      = (case asked params (base_key k) of None \<Rightarrow> critical_value c k | Some x \<Rightarrow> Some x)"
    and "k \<in> set CRITICAL_FIELDS \<Longrightarrow> asked params (base_key k) = Some x \<Longrightarrow> fits (base_key k) x"
    and "pin_critical c (sa_config a) = c" and "unknown_keys params = []" and "heard params a"
proof -
  let ?start = "\<lparr>sa_config = c, sa_changes = [], sa_errors = [], sa_toggle = None, sa_web = False\<rparr>"
  let ?final = "fold (\<lambda>st. st params) set_critical_steps ?start"
  have w: "sa_errors (set_critical_work c params) = []"
    using assms(1) by (simp add: apply_set_critical_params_def Let_def)
  then have e: "sa_errors ?final = []" and unknown: "unknown_keys params = []"
    by (simp_all add: set_critical_work_def Let_def)
  have a: "sa_config a = sa_config ?final" "sa_changes a = sa_changes ?final"
    using w by (simp_all add: a_def apply_set_critical_params_def set_critical_work_def Let_def)
  note f = steps_exact_fold [OF steps_exact step_keys_bases e]
  show "sa_changes a = changes_asked params step_keys"
    using f a by simp
  show "critical_value (sa_config a) k
      = (case asked params (base_key k) of None \<Rightarrow> critical_value c k | Some x \<Rightarrow> Some x)"
    if "k \<in> set CRITICAL_FIELDS"
    using f a critical_bases that by (simp add: value_after_def)
  show "fits (base_key k) x" if "k \<in> set CRITICAL_FIELDS" "asked params (base_key k) = Some x"
    using f critical_bases that by blast
  have "sa_config a = sa_config (set_critical_work c params)" "sa_changes a = sa_changes (set_critical_work c params)"
    using w by (simp_all add: a_def apply_set_critical_params_def Let_def)
  then show "pin_critical c (sa_config a) = c" "heard params a"
    using work_truthful [of params c] work_heard [OF w] by (simp_all add: truthful_def heard_def)
  show "unknown_keys params = []" by (rule unknown)
qed

section \<open>What is saved\<close>

text \<open>What validation keeps of a list: at most so many entries, and only those that pass.\<close>

definition kept_entries :: "string \<Rightarrow> string list \<Rightarrow> string list" where
  "kept_entries k xs =
     (if k = ''excluded_paths'' then take 50 (filter keep_excluded_path xs)
      else if k = ''excluded_detections'' then take 50 (filter keep_excluded_detection xs)
      else if k = ''excluded_extensions'' then take 50 (map normal_extension (filter keep_excluded_extension xs))
      else if k = ''trusted_hashes'' then take 50 (map normal_hash (filter keep_trusted_hash xs))
      else if k = ''realtime_roots'' then take 64 xs
      else xs)"

fun kept :: "string \<Rightarrow> setting \<Rightarrow> setting" where
  "kept k (V_List xs) = V_List (kept_entries k xs)"
| "kept k x = x"

lemma valid_web_parts:
  "wp_listen (valid_web w) = wp_listen w" "wp_upstreams (valid_web w) = wp_upstreams w"
  "wp_health_check_name (valid_web w) = wp_health_check_name w" "wp_blocklists (valid_web w) = wp_blocklists w"
  "wp_allowlist (valid_web w) = wp_allowlist w"
  "wp_block_response w \<in> {''nxdomain'', ''zero_ip''} \<Longrightarrow> wp_block_response (valid_web w) = wp_block_response w"
  by (simp_all add: valid_web_def validate_config_def read_web_def Let_def)

lemma text_settings:
  "critical_value d k = Some (V_Text t) \<Longrightarrow>
     k \<in> {''argus_worker_path'', ''scan.argus_worker_path'', ''enhanced_signature_provider'',
       ''fish.active_response'', ''clamav_isolation'', ''web_protection.listen'',
       ''web_protection.block_response'', ''web_protection.health_check_name''}"
  by (simp add: critical_value_def critical_table_def Let_def split: if_splits)

lemma validate_texts:
  assumes "critical_value d k = Some (V_Text t)" "fits (base_key k) (V_Text t)"
  shows "critical_value (config_validate d) k = Some (V_Text t)"
  using text_settings [OF assms(1)] assms
  by (elim insertE emptyE)
    (simp_all add: critical_value_def critical_table_def Let_def valid_defs valid_scan_def valid_fish_def
      valid_web_parts one_of_def fits_def base_key_def)

lemma validate_lists:
  assumes "critical_value d k = Some (V_List xs)"
  shows "critical_value (config_validate d) k = Some (V_List (kept_entries k xs))"
  using assms
  by (auto simp: critical_value_def critical_table_def Let_def valid_defs valid_scan_def valid_fish_def
      valid_sandbox_def valid_web_parts kept_entries_def MAX_EXCLUSIONS_def MAX_REALTIME_ROOTS_def split: if_splits)

lemma validate_kept:
  assumes "wp_enabled (valid_web (c_web_protection d)) = wp_enabled (c_web_protection d)"
    "critical_value d k = Some x" "fits (base_key k) x"
  shows "critical_value (config_validate d) k = Some (kept k x)"
  using assms validate_flags [OF assms(1)] validate_texts [of d k] validate_lists [of d k] by (cases x) simp_all

text \<open>
C7: An elevated request that is accepted did what it was asked and reports it. Every protected setting
has the value the request asks for it (a switch or choice as given; the worker's path, the listen address
and the health name without white space at their ends; a list entry by entry, extensions in lower case
without their dots and hashes in lower case) or, where it asks for none, the value it had, and nothing
outside them moved. The reply lists exactly the settings asked for, in the daemon's order and with these
values, of a list the number of its entries. The request carried no key the daemon does not know, and of
those it carried only a value of the wrong kind outside the web section is passed over without a word.
What reaches the disk is what validation keeps: switches and texts as asked for, lists cut down to the
entries that pass and to 50 of them, or 64 roots.
\<close>

theorem set_critical_reports_what_it_did:
  assumes "sa_errors (apply_set_critical_params c params) = []"
  defines "a \<equiv> apply_set_critical_params c params"
  shows "(\<forall>k \<in> set CRITICAL_FIELDS. critical_value (sa_config a) k
        = (case asked params (base_key k) of None \<Rightarrow> critical_value c k | Some x \<Rightarrow> Some x))
    \<and> pin_critical c (sa_config a) = c
    \<and> sa_changes a = changes_asked params step_keys
    \<and> unknown_keys params = []
    \<and> (\<forall>k v. json_get params k = Some v \<longrightarrow> k \<notin> {''token'', ''auth''} \<longrightarrow> asked params k = None \<longrightarrow> \<not> speaks k v)
    \<and> (\<forall>k \<in> set CRITICAL_FIELDS. \<forall>x. asked params (base_key k) = Some x
        \<longrightarrow> critical_value (config_validate (sa_config a)) k = Some (kept k x))"
proof (intro conjI)
  note e = accepted_exact [OF assms(1), folded a_def]
  show "\<forall>k \<in> set CRITICAL_FIELDS. critical_value (sa_config a) k
      = (case asked params (base_key k) of None \<Rightarrow> critical_value c k | Some x \<Rightarrow> Some x)"
    using e(2) by blast
  show "pin_critical c (sa_config a) = c" "sa_changes a = changes_asked params step_keys" "unknown_keys params = []"
    using e by blast+
  have "change_key (change_of k x) = k" for k x
    by (cases x) simp_all
  then have "asked params k \<noteq> None" if "k \<in> set (map change_key (sa_changes a))" for k
    using that e(1) by (cases "asked params k") (auto simp: changes_asked_def split: option.splits)
  then show "\<forall>k v. json_get params k = Some v \<longrightarrow> k \<notin> {''token'', ''auth''} \<longrightarrow> asked params k = None \<longrightarrow> \<not> speaks k v"
    using e(6) known_keys [OF e(5)] unfolding heard_def by (metis DiffI empty_iff empty_set insert_iff list.simps(15))
  have "wp_enabled (valid_web (c_web_protection (sa_config a))) = wp_enabled (c_web_protection (sa_config a))"
    using accepted_web_servable [OF assms(1)] switch_judged_alike switch_off_stays unfolding a_def by blast
  then show "\<forall>k \<in> set CRITICAL_FIELDS. \<forall>x. asked params (base_key k) = Some x
      \<longrightarrow> critical_value (config_validate (sa_config a)) k = Some (kept k x)"
    using validate_kept e(2,3) by fastforce
qed

text \<open>A request that lowers one shield and adds two exclusions, one of which validation drops.\<close>

definition two_extensions :: json where
  "two_extensions =
     J_Obj [(''token'', J_Str ''t''), (''fish.enabled'', J_Bool False),
            (''excluded_extensions'', J_Arr [J_Str ''.LOG'', J_Str ''exe''])]"

theorem set_critical_reports_what_it_did_witness:
  "let a = apply_set_critical_params sample_config two_extensions in
     sa_changes a = [Flag_Set ''fish.enabled'' False, List_Set ''excluded_extensions'' 2]
     \<and> critical_value (sa_config a) ''excluded_extensions'' = Some (V_List [''log'', ''exe''])
     \<and> critical_value (config_validate (sa_config a)) ''excluded_extensions'' = Some (V_List [''log''])"
proof -
  have ok: "sa_errors (apply_set_critical_params sample_config two_extensions) = []"
    by code_simp
  have "asked two_extensions (base_key ''excluded_extensions'') = Some (V_List [''log'', ''exe''])"
    "kept ''excluded_extensions'' (V_List [''log'', ''exe'']) = V_List [''log'']"
    "changes_asked two_extensions step_keys
      = [Flag_Set ''fish.enabled'' False, List_Set ''excluded_extensions'' 2]"
    by code_simp+
  moreover have "''excluded_extensions'' \<in> set CRITICAL_FIELDS"
    by (simp add: CRITICAL_FIELDS_def)
  ultimately show ?thesis
    using set_critical_reports_what_it_did [OF ok] by (simp add: Let_def)
qed

end
