(* ===== verification/Ipc_Dispatch.thy ===== *)
theory Ipc_Dispatch
  imports Ipc_Policy Ipc_Settings
begin

text \<open>
  One request, from the elevation gate to the reply: \<open>dispatch_sync\<close> of
  \<open>crates/sentinelld/src/ipc/mod.rs\<close> with the parts of \<open>AppState\<close> (\<open>ipc/state.rs\<close>) that guard it, and
  the framing of \<open>handle_connection\<close>. What a handler asks of another component (a scan, the vault, the
  signature engine) is a deed, recorded with its arguments; what comes of it is the machine's answer.
  Requests are atomic: the code runs handlers on several connections at once, but takes and clears the
  token under one lock and saves the configuration under another.
\<close>

section \<open>The daemon, as the control plane sees it\<close>

datatype deed =
    Reload_Engine | Start_Scan string "string option" | Cancel_Scan
  | Quarantine_Add string string string | Quarantine_Restore string
  | Quarantine_Restore_As string string | Quarantine_Delete string
  | Report_Safe string string string | Scan_Buffer string | Start_Update | Analyze_File string
  | Set_Source string | Update_Source string | Rollback_Sources | Reload_Argus | Scan_Process nat
  | Report_Fullscreen bool | Run_Benchmark nat | Pause_Protection | Resume_Protection
  | Save_Settings config | Save_Full config | Save_Critical config | Save_Developer config

record activity_entry =
  ae_type :: string
  ae_message :: string
  ae_detail :: "string option"

text \<open>The challenge token in the slot: the token, the method it is for, and when it was issued.\<close>

type_synonym challenge = "string \<times> string \<times> nat"

record daemon =
  dm_secret :: "string option"
  dm_challenge :: "challenge option"
  dm_limiter :: rate_limiter
  dm_reloading :: bool
  dm_file :: config_file
  dm_exclusions :: "string list"
  dm_hashes :: "string list"
  dm_hot :: "config option"
  dm_developer :: developer_config
  dm_user_disabled :: bool
  dm_activity :: "activity_entry list"
  dm_deeds :: "deed list"

text \<open>What the machine contributes to one request: the clock, the environment, the libraries that turn
  JSON into settings, whether a save goes through, and what comes of a deed.\<close>

record machine =
  mc_now :: nat
  mc_host :: Ipc_Auth.host
  mc_env :: "string \<Rightarrow> string option"
  mc_heals :: bool
  mc_saves :: bool
  mc_uuid :: string
  mc_to_json :: "config \<Rightarrow> json option"
  mc_of_json :: "json \<Rightarrow> config option"
  mc_full_of_json :: "json \<Rightarrow> full_config option"
  mc_size :: "json \<Rightarrow> nat"
  mc_sha256 :: "string \<Rightarrow> string"
  mc_exists :: "string \<Rightarrow> bool"
  mc_scanning :: bool
  mc_outcome :: "deed \<Rightarrow> bool"

datatype refusal = Invalid_Params | Insufficient_Privilege | Payload_Too_Large | Rate_Limited nat
  | Engine_Reloading | Unauthorized | Method_Not_Found | Invalid_Request | Parse_Error

datatype reply =
    Refused refusal
  | Answered string
  | Sent_Config config
  | Sent_Full full_config
  | Sent_Restarts "(string \<times> restart_need) list"
  | Token_Issued string string
  | Done deed bool
  | Changed "set_change list" bool
  | Not_Done string

type_synonym handler = "machine \<Rightarrow> json \<Rightarrow> client_identity option \<Rightarrow> daemon \<Rightarrow> reply \<times> daemon"

definition log_activity :: "string \<Rightarrow> string \<Rightarrow> string \<Rightarrow> daemon \<Rightarrow> daemon" where
  "log_activity category title message d =
     (let entries = dm_activity d @ [\<lparr>ae_type = category, ae_message = title,
                                       ae_detail = (if message = [] then None else Some message)\<rparr>] in
      d\<lparr>dm_activity := (if length entries > 500 then drop (length entries - 500) entries else entries)\<rparr>)"

section \<open>The secret and the token\<close>

definition constant_time_eq :: "string \<Rightarrow> string \<Rightarrow> bool" where
  "constant_time_eq a b \<longleftrightarrow>
     (if length a \<noteq> length b then False
      else fold (\<lambda>(x, y) diff. diff OR (of_char x XOR of_char y)) (zip a b) (0 :: 8 word) = 0)"

definition validate_ipc_auth :: "string \<Rightarrow> daemon \<Rightarrow> bool" where
  "validate_ipc_auth auth d =
     (case dm_secret d of
        None \<Rightarrow> False
      | Some secret \<Rightarrow> constant_time_eq secret auth)"

definition generate_challenge_token :: "string \<Rightarrow> machine \<Rightarrow> daemon \<Rightarrow> string \<times> daemon" where
  "generate_challenge_token method m d =
     (mc_uuid m, d\<lparr>dm_challenge := Some (mc_uuid m, method, mc_now m)\<rparr>)"

definition TOKEN_LIFETIME_SECS :: nat where "TOKEN_LIFETIME_SECS = 60"

text \<open>A token is gone after one presentation, right or wrong.\<close>

definition validate_challenge_token :: "string \<Rightarrow> string \<Rightarrow> nat \<Rightarrow> daemon \<Rightarrow> bool \<times> daemon" where
  "validate_challenge_token token expected_method now d =
     (let d' = d\<lparr>dm_challenge := None\<rparr>;
          rejected = (False, log_activity ''security''
                       ''Invalid challenge token - dangerous command rejected'' expected_method d') in
      case dm_challenge d of
        None \<Rightarrow> rejected
      | Some (stored, stored_method, created) \<Rightarrow>
          if constant_time_eq stored token \<and> stored_method = expected_method
             \<and> (now - created) div NANOS_PER_SEC < TOKEN_LIFETIME_SECS
          then (True, d') else rejected)"

definition CHALLENGEABLE_METHODS :: "string list" where
  "CHALLENGEABLE_METHODS =
     [''engine.reload'', ''argus.reload'', ''settings.set'', ''settings.set_full'', ''sources.set'',
      ''sources.update'', ''sources.rollback'', ''protection.set_critical'', ''protection.disable'',
      ''protection.enable'', ''quarantine.add'', ''quarantine.restore'', ''quarantine.restore_as'',
      ''quarantine.delete'', ''memory.scan_process'']"

definition is_challengeable_method :: "string \<Rightarrow> bool" where
  "is_challengeable_method method \<longleftrightarrow> method \<in> set CHALLENGEABLE_METHODS"

section \<open>Handlers\<close>

definition authed :: "handler \<Rightarrow> handler" where
  "authed h m params peer d =
     (if validate_ipc_auth (str_param params ''auth'' []) d then h m params peer d
      else (Refused Invalid_Params, d))"

definition tokened :: "string \<Rightarrow> string \<Rightarrow> reply \<Rightarrow> handler \<Rightarrow> handler" where
  "tokened method key refused h m params peer d =
     (case validate_challenge_token (str_param params key []) method (mc_now m) d of
        (True, d') \<Rightarrow> h m params peer d'
      | (False, d') \<Rightarrow> (refused, d'))"

definition answer :: "string \<Rightarrow> handler" where
  "answer what m params peer d = (Answered what, d)"

definition record_deed :: "deed \<Rightarrow> daemon \<Rightarrow> daemon" where
  "record_deed w d = d\<lparr>dm_deeds := dm_deeds d @ [w]\<rparr>"

definition perform_deed :: "(json \<Rightarrow> deed) \<Rightarrow> handler" where
  "perform_deed deed_of m params peer d =
     (let w = deed_of params in (Done w (mc_outcome m w), record_deed w d))"

definition not_done :: "string \<Rightarrow> handler" where
  "not_done why m params peer d = (Not_Done why, d)"

definition refuse_with :: "refusal \<Rightarrow> handler" where
  "refuse_with r m params peer d = (Refused r, d)"

subsection \<open>Scans and files\<close>

text \<open>A path the daemon, running as SYSTEM, may be made to open.\<close>

definition bar :: char where "bar = CHR 0x5C"

definition validate_local_scan_path :: "string \<Rightarrow> bool" where
  "validate_local_scan_path t \<longleftrightarrow>
     (if t = [] then False
      else if length t > 4096 then False
      else
        let lower = to_ascii_lowercase t;
            is_unc_share = starts_with t [bar, bar] \<and> \<not> starts_with lower [bar, bar, CHR ''?'', bar]
                             \<and> \<not> starts_with lower [bar, bar, CHR ''.'', bar]
                           \<or> starts_with t ''//'';
            is_long_unc = starts_with lower ([bar, bar, CHR ''?'', bar] @ ''unc'' @ [bar]);
            is_device_ns = starts_with lower [bar, bar, CHR ''.'', bar]
                           \<or> contains lower (bar # ''globalroot'' @ [bar])
                           \<or> contains lower (bar # ''physicaldrive'') in
        \<not> (is_unc_share \<or> is_long_unc \<or> is_device_ns) \<and> CHR 0x00 \<notin> set t)"

definition opt_str :: "json \<Rightarrow> string \<Rightarrow> string option" where
  "opt_str params key = (case json_get params key of None \<Rightarrow> None | Some v \<Rightarrow> as_str v)"

definition bool_param :: "json \<Rightarrow> string \<Rightarrow> bool" where
  "bool_param params key =
     (case json_get params key of None \<Rightarrow> False | Some v \<Rightarrow> (case as_bool v of None \<Rightarrow> False | Some b \<Rightarrow> b))"

definition nat_param :: "json \<Rightarrow> string \<Rightarrow> nat \<Rightarrow> nat" where
  "nat_param params key dflt =
     (case json_get params key of None \<Rightarrow> dflt | Some v \<Rightarrow> (case as_u64 v of None \<Rightarrow> dflt | Some n \<Rightarrow> n))"

definition scan_start :: handler where
  "scan_start m params peer d =
     (case opt_str params ''target'' of
        Some t \<Rightarrow>
          if validate_local_scan_path t
          then perform_deed (\<lambda>p. Start_Scan (str_param p ''type'' ''quick'') (Some t)) m params peer d
          else refuse_with Invalid_Params m params peer d
      | None \<Rightarrow> perform_deed (\<lambda>p. Start_Scan (str_param p ''type'' ''quick'') None) m params peer d)"

definition scan_cancel :: handler where
  "scan_cancel m params peer d =
     (if mc_scanning m
      then (let (r, d') = perform_deed (\<lambda>_. Cancel_Scan) m params peer d in
            (r, log_activity ''scan'' ''Scan cancelled by user'' [] d'))
      else (Answered ''scan already completed'', d))"

definition argus_analyze :: handler where
  "argus_analyze m params peer d =
     (case opt_str params ''path'' of
        None \<Rightarrow> not_done ''Missing path parameter'' m params peer d
      | Some p \<Rightarrow>
          if \<not> validate_local_scan_path p then refuse_with Invalid_Params m params peer d
          else if mc_exists m p then perform_deed (\<lambda>_. Analyze_File p) m params peer d
          else not_done ''File not found'' m params peer d)"

definition report_safe :: handler where
  "report_safe m params peer d =
     (let sha256 = str_param params ''sha256'' []; file = str_param params ''file_path'' [] in
      if sha256 = [] \<or> file = [] then not_done ''missing sha256 or file_path'' m params peer d
      else perform_deed (\<lambda>p. Report_Safe (str_param p ''quarantine_id'' []) sha256 file) m params peer d)"

definition runtime_scan_buffer :: handler where
  "runtime_scan_buffer m params peer d =
     (if str_param params ''content'' [] = [] then not_done ''empty content'' m params peer d
      else perform_deed (\<lambda>p. Scan_Buffer (str_param p ''content'' [])) m params peer d)"

definition memory_scan_process :: handler where
  "memory_scan_process m params peer d =
     (let pid = nat_param params ''pid'' 0 in
      if pid = 0 then not_done ''pid required'' m params peer d
      else if pid > u32_max then not_done ''pid out of range'' m params peer d
      else (let (r, d') = perform_deed (\<lambda>_. Scan_Process pid) m params peer d in
            (r, log_activity ''memory_scan'' ''Memory scan'' (show_nat pid) d')))"

subsection \<open>The vault\<close>

definition quarantine_add :: handler where
  "quarantine_add m params peer d =
     (let path = str_param params ''path'' []; virus = str_param params ''virus_name'' ''Unknown'';
          scan_id = str_param params ''scan_id'' [] in
      if length path > 4096 \<or> length virus > 256 \<or> length scan_id > 128
      then refuse_with Invalid_Params m params peer d
      else perform_deed (\<lambda>_. Quarantine_Add path virus scan_id) m params peer d)"

definition quarantine_restore_as :: handler where
  "quarantine_restore_as m params peer d =
     (let i = str_param params ''id'' []; dest = str_param params ''dest'' [] in
      if length i > 128 \<or> length dest > 4096 then not_done ''id/dest param too long'' m params peer d
      else if dest = [] then not_done ''dest path required'' m params peer d
      else perform_deed (\<lambda>_. Quarantine_Restore_As i dest) m params peer d)"

subsection \<open>Signature sources\<close>

text \<open>What \<open>set_enhanced\<close> asks of a provider; the texts shown to the user are left out.\<close>

record signature_provider =
  sp_id :: string
  sp_available :: bool

definition builtin_providers :: "signature_provider list" where
  "builtin_providers =
     [\<lparr>sp_id = ''sanesecurity'', sp_available = True\<rparr>, \<lparr>sp_id = ''securiteinfo'', sp_available = True\<rparr>,
      \<lparr>sp_id = ''malwarepatrol'', sp_available = True\<rparr>, \<lparr>sp_id = ''interserver'', sp_available = False\<rparr>]"

definition provider_available :: "string \<Rightarrow> bool" where
  "provider_available p \<longleftrightarrow> list_ex (\<lambda>sp. sp_id sp = p \<and> sp_available sp) builtin_providers"

text \<open>\<open>SignatureSourceManager::set_enhanced\<close>: whether it changed anything, and what is active now.\<close>

definition set_enhanced :: "string option \<Rightarrow> string option \<Rightarrow> bool \<times> string option" where
  "set_enhanced new_id active =
     (if new_id = active then (False, active)
      else case new_id of
        Some p \<Rightarrow> if provider_available p then (True, new_id) else (False, active)
      | None \<Rightarrow> (True, new_id))"

text \<open>\<open>Config::load(None).unwrap_or_default()\<close>, with the file it may have written.\<close>

definition load_now :: "machine \<Rightarrow> daemon \<Rightarrow> config \<times> daemon" where
  "load_now m d =
     (let (c, file) = load_or_default (mc_env m) (mc_heals m) (dm_file d) in (c, d\<lparr>dm_file := file\<rparr>))"

definition save_now :: "machine \<Rightarrow> config \<Rightarrow> deed \<Rightarrow> daemon \<Rightarrow> daemon" where
  "save_now m c w d = record_deed w (d\<lparr>dm_file := save_config (mc_saves m) c (dm_file d)\<rparr>)"

definition sources_set :: handler where
  "sources_set m params peer d =
     (let p = str_param params ''provider'' ''none'';
          new_provider = (if p = ''none'' then None else Some p) in
      if \<not> fst (set_enhanced new_provider None) \<and> new_provider \<noteq> None
      then refuse_with Invalid_Params m params peer d
      else
        (let (c, d1) = load_now m d;
             d2 = save_now m (c\<lparr>c_enhanced_signature_provider := p\<rparr>) (Set_Source p) d1 in
         (Done (Set_Source p) True,
          log_activity ''sources'' (''Enhanced signature provider changed to: '' @ p) [] d2)))"

definition sources_status :: handler where
  "sources_status m params peer d = (let (c, d') = load_now m d in (Answered ''sources.status'', d'))"

definition sources_update :: handler where
  "sources_update m params peer d =
     (let (c, d1) = load_now m d; p = c_enhanced_signature_provider c in
      if p = ''none'' then not_done ''no enhanced provider configured'' m params peer d1
      else if \<not> provider_available p then not_done ''configured provider not found in registry'' m params peer d1
      else (let (r, d2) = perform_deed (\<lambda>_. Update_Source p) m params peer d1 in
            (r, log_activity ''sources'' (if mc_outcome m (Update_Source p) then ''Enhanced signatures updated''
                                         else ''Enhanced signature update FAILED'') [] d2)))"

definition sources_rollback :: handler where
  "sources_rollback m params peer d =
     (let (r, d') = perform_deed (\<lambda>_. Rollback_Sources) m params peer d in
      (r, log_activity ''sources'' ''Enhanced signatures rolled back'' [] d'))"

subsection \<open>Settings\<close>

definition settings_get :: handler where
  "settings_get m params peer d =
     (let (c, d') = load_now m d in
      (Sent_Config (c\<lparr>c_developer := (c_developer c)\<lparr>dv_password_sha256 := []\<rparr>\<rparr>), d'))"

definition settings_get_full :: handler where
  "settings_get_full m params peer d = (let (c, d') = load_now m d in (Sent_Full (full_of_config c), d'))"

definition settings_get_defaults :: handler where
  "settings_get_defaults m params peer d = (Sent_Full default_full_config, d)"

definition settings_restart_requirements :: handler where
  "settings_restart_requirements m params peer d = (Sent_Restarts restart_map, d)"

definition settings_set :: handler where
  "settings_set m params peer d =
     (let (current, d1) = load_now m d in
      case settings_set_merge (mc_to_json m) (mc_of_json m) current params of
        None \<Rightarrow> not_done ''invalid config'' m params peer d1
      | Some merged \<Rightarrow>
          (let c = config_validate merged;
               d2 = log_activity ''settings'' ''Configuration updated via IPC'' []
                      (d1\<lparr>dm_exclusions := c_excluded_detections c\<rparr>) in
           (Done (Save_Settings c) (mc_saves m), save_now m c (Save_Settings c) d2)))"

text \<open>\<open>refresh_hot_config\<close> copies the settings a running daemon re-reads; the model keeps the
  configuration they were last taken from.\<close>

definition refresh_hot_config :: "config \<Rightarrow> daemon \<Rightarrow> daemon" where
  "refresh_hot_config c d = d\<lparr>dm_hot := Some c\<rparr>"

definition settings_set_full :: handler where
  "settings_set_full m params peer d =
     (case mc_full_of_json m (without_envelope params) of
        None \<Rightarrow> not_done ''invalid FullConfig'' m params peer d
      | Some full \<Rightarrow>
          (let (current, d1) = load_now m d; diffs = critical_diff current full in
           if diffs \<noteq> []
           then (Refused Insufficient_Privilege,
                 log_activity ''settings''
                   (''settings.set_full rejected: '' @ concat (map (\<lambda>k. k @ '', '') diffs))
                   ''Use protection.set_critical (requires UAC) for these fields'' d1)
           else
             (let c = config_validate (apply_non_critical full current);
                  d2 = save_now m c (Save_Full c) d1 in
              (Done (Save_Full c) (mc_saves m),
               if mc_saves m
               then log_activity ''settings'' ''Configuration updated via settings.set_full'' []
                      (refresh_hot_config c d2)
               else d2))))"

subsection \<open>Protection\<close>

definition disable_protection :: "daemon \<Rightarrow> daemon" where
  "disable_protection d = d\<lparr>dm_user_disabled := True\<rparr>"

definition enable_protection :: "daemon \<Rightarrow> daemon" where
  "enable_protection d = d\<lparr>dm_user_disabled := False\<rparr>"

definition load_trusted_hashes :: "string list \<Rightarrow> daemon \<Rightarrow> daemon" where
  "load_trusted_hashes hs d = d\<lparr>dm_hashes := map to_lowercase hs\<rparr>"

definition protection_set_critical :: handler where
  "protection_set_critical m params peer d =
     (let (current, d1) = load_now m d; a = apply_set_critical_params current params in
      if sa_errors a \<noteq> []
      then (Refused Invalid_Params, log_activity ''protection'' ''protection.set_critical rejected'' [] d1)
      else
        (let c = config_validate (sa_config a); d2 = save_now m c (Save_Critical c) d1 in
         if \<not> mc_saves m then (Not_Done ''save failed'', d2)
         else
           (let d3 = refresh_hot_config c
                       (load_trusted_hashes (c_trusted_hashes c)
                         (log_activity ''protection'' ''Critical settings changed''
                            ''Requires administrator elevation'' d2
                          \<lparr>dm_exclusions := c_excluded_detections c\<rparr>)) in
            (Changed (sa_changes a) (sa_web a),
             case sa_toggle a of
               None \<Rightarrow> d3
             | Some True \<Rightarrow> enable_protection d3
             | Some False \<Rightarrow> disable_protection d3))))"

definition protection_disable :: handler where
  "protection_disable m params peer d =
     (Done Pause_Protection True,
      log_activity ''protection'' ''Protection paused by user'' []
        (disable_protection (record_deed Pause_Protection d)))"

definition protection_enable :: handler where
  "protection_enable m params peer d =
     (Done Resume_Protection True,
      log_activity ''protection'' ''Protection resumed by user'' []
        (enable_protection (record_deed Resume_Protection d)))"

subsection \<open>Developer mode\<close>

definition verify_developer_password :: "(string \<Rightarrow> string) \<Rightarrow> string \<Rightarrow> string \<Rightarrow> bool" where
  "verify_developer_password sha256 input stored_hash =
     (let stored = to_ascii_lowercase (trim stored_hash) in
      if length stored \<noteq> 64 \<or> \<not> list_all is_hex_digit stored then False
      else constant_time_eq (sha256 input) stored)"

definition dev_set_developer_mode :: handler where
  "dev_set_developer_mode m params peer d =
     (let (c, d1) = load_now m d in
      if \<not> verify_developer_password (mc_sha256 m) (str_param params ''password'' [])
             (dv_password_sha256 (c_developer c))
      then (Refused Invalid_Params,
            log_activity ''developer'' ''Developer-mode toggle rejected (bad/absent password)'' [] d1)
      else
        (let dev = (c_developer c)\<lparr>dv_enabled := bool_param params ''enabled''\<rparr>;
             dev' = (case json_get params ''telemetry_enabled'' of
                       Some (J_Bool t) \<Rightarrow> dev\<lparr>dv_telemetry_enabled := t\<rparr>
                     | _ \<Rightarrow> dev);
             c' = config_validate (c\<lparr>c_developer := dev'\<rparr>);
             d2 = save_now m c' (Save_Developer c') d1 in
         (Done (Save_Developer c') (mc_saves m),
          if mc_saves m
          then log_activity ''developer''
                 (if dv_enabled (c_developer c') then ''Developer mode enabled'' else ''Developer mode disabled'') []
                 (d2\<lparr>dm_developer := c_developer c'\<rparr>)
          else d2)))"

definition benchmark_run :: handler where
  "benchmark_run m params peer d =
     (if \<not> dv_enabled (dm_developer d) then refuse_with Invalid_Params m params peer d
      else perform_deed (\<lambda>p. Run_Benchmark (clamp 1 10 (nat_param p ''passes'' 3))) m params peer d)"

subsection \<open>The activity log\<close>

text \<open>\<open>chars().take(n)\<close>.\<close>

fun take_chars :: "nat \<Rightarrow> string \<Rightarrow> string" where
  "take_chars 0 s = []"
| "take_chars (Suc n) s = (if s = [] then [] else take (max 1 (utf8_head s)) s @ take_chars n (drop (max 1 (utf8_head s)) s))"

definition bounded_param :: "json \<Rightarrow> string \<Rightarrow> string \<Rightarrow> nat \<Rightarrow> string" where
  "bounded_param params key fallback n =
     take_chars n (case opt_str params key of
                     None \<Rightarrow> fallback
                   | Some s \<Rightarrow> if trim s = [] then fallback else s)"

definition activity_log :: handler where
  "activity_log m params peer d =
     (Answered ''logged'',
      log_activity (''gui:'' @ bounded_param params ''category'' ''general'' 40)
        (''[gui] '' @ bounded_param params ''title'' ''Activity event'' 154)
        (bounded_param params ''message'' [] 512) d)"

subsection \<open>Tokens\<close>

definition security_challenge :: handler where
  "security_challenge m params peer d =
     (let method = str_param params ''method'' [] in
      if \<not> is_challengeable_method method then refuse_with Invalid_Params m params peer d
      else case require_elevation peer of
        Auth_Deny _ \<Rightarrow> refuse_with Insufficient_Privilege m params peer d
      | Auth_Allow \<Rightarrow>
          (let (token, d') = generate_challenge_token method m d in (Token_Issued token method, d')))"

section \<open>The dispatch table\<close>

definition refuse_params :: reply where "refuse_params = Refused Invalid_Params"
definition refuse_privilege :: reply where "refuse_privilege = Refused Insufficient_Privilege"

definition open_reads :: "string list" where
  "open_reads = [''engine.status'', ''scan.status'', ''scan.history'', ''update.status'', ''stats.runtime'',
     ''argus.version'', ''argus.packs'', ''health'']"

definition authed_reads :: "string list" where
  "authed_reads = [''quarantine.list'', ''runtime.status'', ''trust.status'', ''detections.list'',
     ''webprotection.status'', ''watcher.status'', ''idle_scanner.status'', ''activity.list'',
     ''argus.verdicts'', ''memory.list_processes'', ''diagnostics.export'', ''dev.status'']"

definition authed_handlers :: "(string \<times> handler) list" where
  "authed_handlers =
     [(''scan.start'', scan_start), (''scan.cancel'', scan_cancel), (''calibration.report_safe'', report_safe),
      (''runtime.scan_buffer'', runtime_scan_buffer), (''update.start'', perform_deed (\<lambda>_. Start_Update)),
      (''activity.log'', activity_log), (''argus.analyze'', argus_analyze),
      (''memory.scan_process'', memory_scan_process), (''settings.get'', settings_get),
      (''security.challenge'', security_challenge),
      (''system.fullscreen_report'', perform_deed (\<lambda>p. Report_Fullscreen (bool_param p ''active''))),
      (''settings.get_full'', settings_get_full), (''settings.get_defaults'', settings_get_defaults),
      (''settings.restart_requirements'', settings_restart_requirements),
      (''dev.set_developer_mode'', dev_set_developer_mode), (''benchmark.run'', benchmark_run)]"

text \<open>The commands that spend a token: the parameter it comes in, what refusing it answers, and what
  the command does.\<close>

definition authed_token_handlers :: "(string \<times> handler) list" where
  "authed_token_handlers =
     [(''engine.reload'', tokened ''engine.reload'' ''token'' refuse_params (perform_deed (\<lambda>_. Reload_Engine))),
      (''argus.reload'', tokened ''argus.reload'' ''token'' refuse_params (perform_deed (\<lambda>_. Reload_Argus))),
      (''settings.set'', tokened ''settings.set'' ''token'' refuse_params settings_set),
      (''settings.set_full'', tokened ''settings.set_full'' ''token'' refuse_params settings_set_full)]"

definition token_handlers :: "(string \<times> handler) list" where
  "token_handlers =
     [(''quarantine.add'', tokened ''quarantine.add'' ''token'' (Not_Done ''Challenge token required'') quarantine_add),
      (''quarantine.restore'', tokened ''quarantine.restore'' ''token'' (Not_Done ''Challenge token required'')
         (perform_deed (\<lambda>p. Quarantine_Restore (str_param p ''id'' [])))),
      (''quarantine.restore_as'', tokened ''quarantine.restore_as'' ''token''
         (Not_Done ''Challenge token required'') quarantine_restore_as),
      (''quarantine.delete'', tokened ''quarantine.delete'' ''token'' (Not_Done ''Challenge token required'')
         (perform_deed (\<lambda>p. Quarantine_Delete (str_param p ''id'' [])))),
      (''sources.set'', tokened ''sources.set'' ''challenge_token'' refuse_privilege sources_set),
      (''sources.update'', tokened ''sources.update'' ''challenge_token'' refuse_privilege sources_update),
      (''sources.rollback'', tokened ''sources.rollback'' ''challenge_token'' refuse_privilege sources_rollback),
      (''protection.set_critical'', tokened ''protection.set_critical'' ''token'' refuse_params protection_set_critical),
      (''protection.disable'', tokened ''protection.disable'' ''token'' refuse_params protection_disable),
      (''protection.enable'', tokened ''protection.enable'' ''token'' refuse_params protection_enable)]"

definition handlers :: "(string \<times> handler) list" where
  "handlers = map (\<lambda>k. (k, answer k)) open_reads
     @ [(''sources.status'', sources_status), (''sources.list'', sources_status)]
     @ map (\<lambda>k. (k, authed (answer k))) authed_reads
     @ map (\<lambda>(k, h). (k, authed h)) (authed_handlers @ authed_token_handlers) @ token_handlers"

definition run_handler :: "string \<Rightarrow> handler" where
  "run_handler method =
     (case map_of handlers method of None \<Rightarrow> refuse_with Method_Not_Found | Some h \<Rightarrow> h)"

section \<open>Dispatch\<close>

definition central_gate :: "string \<Rightarrow> method_policy \<Rightarrow> handler" where
  "central_gate method pol m params peer d =
     (if mc_size m params > max_payload_bytes pol then (Refused Payload_Too_Large, d)
      else
        (case check_rate (mc_host m) (mp_bucket pol) peer (mc_now m) (dm_limiter d) of
           (Some retry, l) \<Rightarrow> (Refused (Rate_Limited retry), d\<lparr>dm_limiter := l\<rparr>)
         | (None, l) \<Rightarrow>
             (let d' = d\<lparr>dm_limiter := l\<rparr> in
              if \<not> allowed_while_reloading pol \<and> dm_reloading d' then (Refused Engine_Reloading, d')
              else if mp_class pol \<in> {Authenticated_Read, Authenticated_Action}
                      \<and> \<not> validate_ipc_auth (str_param params ''auth'' []) d'
              then (Refused Unauthorized, d')
              else run_handler method m params peer d')))"

definition dispatch :: "string \<Rightarrow> handler" where
  "dispatch method m params peer d =
     (if is_challengeable_method method \<and> require_elevation peer \<noteq> Auth_Allow
      then (Refused Insufficient_Privilege,
            log_activity ''security'' (''Rejected privileged method '' @ method @ '' from unelevated caller'')
              (case require_elevation peer of Auth_Deny why \<Rightarrow> why | Auth_Allow \<Rightarrow> []) d)
      else case policy_of method of
        Some pol \<Rightarrow> central_gate method pol m params peer d
      | None \<Rightarrow> run_handler method m params peer d)"

section \<open>Frames\<close>

definition MIN_FRAME_SIZE :: nat where "MIN_FRAME_SIZE = 2"
definition MAX_FRAME_SIZE :: nat where "MAX_FRAME_SIZE = 1024 * 1024"

record rpc_request =
  rq_method :: string
  rq_params :: json

text \<open>One turn of the connection loop, from the bytes that have arrived: \<open>None\<close> closes the connection.
  A declared length out of bounds closes it before the payload is read.\<close>

definition frame_length :: "u8 list \<Rightarrow> nat" where
  "frame_length h = unat (be32 (h ! 0) (h ! 1) (h ! 2) (h ! 3))"

definition serve_frame ::
    "(u8 list \<Rightarrow> rpc_request option) \<Rightarrow> machine \<Rightarrow> client_identity option \<Rightarrow> u8 list \<Rightarrow> daemon
     \<Rightarrow> (reply \<times> u8 list) option \<times> daemon" where
  "serve_frame parse m peer bytes d =
     (if length bytes < 4 then (None, d)
      else
        let n = frame_length (take 4 bytes); body = drop 4 bytes in
        if n < MIN_FRAME_SIZE then (None, d)
        else if n > MAX_FRAME_SIZE then (None, d)
        else if length body < n then (None, d)
        else
          (case parse (take n body) of
             None \<Rightarrow> (Some (Refused Parse_Error, drop n body), d)
           | Some rq \<Rightarrow>
               if length (rq_method rq) > 64 then (Some (Refused Invalid_Request, drop n body), d)
               else
                 (let (r, d') = dispatch (rq_method rq) m (rq_params rq) peer d in
                  (Some (r, drop n body), d'))))"

end
