(* ===== verification/Ipc_Dispatch_Spec.thy ===== *)
theory Ipc_Dispatch_Spec
  imports Ipc_Dispatch Ipc_Settings_Spec
begin

text \<open>
  What the control plane guarantees whatever is sent to it: protection only changes for an elevated
  caller who spends a token issued for exactly that command; no token pays twice; without the secret
  and without a token nothing happens; and an ordinary save never moves a protected setting.
\<close>

section \<open>Comparing secrets\<close>

lemma xor_zero: "(a :: 8 word) XOR b = 0 \<longleftrightarrow> a = b"
  by (metis bit.xor_self xor.right_neutral xor.assoc xor.commute)

lemma diff_zero:
  "fold (\<lambda>(x, y) diff. diff OR (of_char x XOR of_char y)) zs (acc :: 8 word) = 0
   \<longleftrightarrow> acc = 0 \<and> (\<forall>(x, y) \<in> set zs. (of_char x :: 8 word) = of_char y)"
  by (induction zs arbitrary: acc) (auto simp: xor_zero or_eq_0_iff)

lemma byte_inj: "(of_char x :: 8 word) = of_char y \<longleftrightarrow> x = y"
proof
  assume "(of_char x :: 8 word) = of_char y"
  then have "(of_nat (of_char x) :: 8 word) = of_nat (of_char y)" by (simp add: of_nat_of_char)
  then have "take_bit 8 (of_char x :: nat) = take_bit 8 (of_char y)" by (simp add: word_of_nat_eq_iff)
  then have "(of_char x :: nat) = of_char y" by (simp add: take_bit_nat_def)
  then show "x = y" by simp
qed simp

lemma zip_agree: "length a = length b \<Longrightarrow> (\<forall>(x, y) \<in> set (zip a b). x = y) \<longleftrightarrow> a = b"
  by (induction a b rule: list_induct2) auto

lemma constant_time_eq_is_eq: "constant_time_eq a b \<longleftrightarrow> a = b"
  unfolding constant_time_eq_def diff_zero byte_inj using zip_agree [of a b] by (cases "a = b") simp_all

lemma registered_methods: "set (map fst handlers) = set (map fst method_registry)"
  by code_simp

lemma validate_ipc_auth_iff: "validate_ipc_auth auth d \<longleftrightarrow> dm_secret d = Some auth"
  by (auto simp: validate_ipc_auth_def constant_time_eq_is_eq split: option.splits)

section \<open>Whose deed it is\<close>

text \<open>The command a privileged deed belongs to.\<close>

fun deed_owner :: "deed \<Rightarrow> string option" where
  "deed_owner Reload_Engine = Some ''engine.reload''"
| "deed_owner Reload_Argus = Some ''argus.reload''"
| "deed_owner (Quarantine_Add _ _ _) = Some ''quarantine.add''"
| "deed_owner (Quarantine_Restore _) = Some ''quarantine.restore''"
| "deed_owner (Quarantine_Restore_As _ _) = Some ''quarantine.restore_as''"
| "deed_owner (Quarantine_Delete _) = Some ''quarantine.delete''"
| "deed_owner (Set_Source _) = Some ''sources.set''"
| "deed_owner (Update_Source _) = Some ''sources.update''"
| "deed_owner Rollback_Sources = Some ''sources.rollback''"
| "deed_owner Pause_Protection = Some ''protection.disable''"
| "deed_owner Resume_Protection = Some ''protection.enable''"
| "deed_owner (Save_Settings _) = Some ''settings.set''"
| "deed_owner (Save_Full _) = Some ''settings.set_full''"
| "deed_owner (Save_Critical _) = Some ''protection.set_critical''"
| "deed_owner _ = None"

definition privileged_deeds :: "daemon \<Rightarrow> deed list" where
  "privileged_deeds d = filter (\<lambda>w. deed_owner w \<noteq> None) (dm_deeds d)"

text \<open>What decides how well the machine is protected, as far as a request can move it while the daemon
  runs. The file is looked at on its own.\<close>

definition posture :: "daemon \<Rightarrow> string list \<times> string list \<times> config option \<times> bool \<times> deed list" where
  "posture d = (dm_exclusions d, dm_hashes d, dm_hot d, dm_user_disabled d, privileged_deeds d)"

lemma log_activity_keeps [simp]:
  "dm_secret (log_activity a b c d) = dm_secret d" "dm_challenge (log_activity a b c d) = dm_challenge d"
  "dm_limiter (log_activity a b c d) = dm_limiter d" "dm_file (log_activity a b c d) = dm_file d"
  "dm_exclusions (log_activity a b c d) = dm_exclusions d" "dm_hashes (log_activity a b c d) = dm_hashes d"
  "dm_hot (log_activity a b c d) = dm_hot d" "dm_user_disabled (log_activity a b c d) = dm_user_disabled d"
  "dm_deeds (log_activity a b c d) = dm_deeds d" "dm_developer (log_activity a b c d) = dm_developer d"
  "privileged_deeds (log_activity a b c d) = privileged_deeds d" "posture (log_activity a b c d) = posture d"
  by (simp_all add: log_activity_def Let_def privileged_deeds_def posture_def)

lemma record_deed_keeps [simp]:
  "dm_challenge (record_deed w d) = dm_challenge d" "dm_file (record_deed w d) = dm_file d"
  "privileged_deeds (record_deed w d) = privileged_deeds d @ (if deed_owner w = None then [] else [w])"
  "deed_owner w = None \<Longrightarrow> posture (record_deed w d) = posture d"
  by (simp_all add: record_deed_def privileged_deeds_def posture_def)

lemma load_now_keeps [simp]:
  "dm_challenge (snd (load_now m d)) = dm_challenge d" "posture (snd (load_now m d)) = posture d"
  "privileged_deeds (snd (load_now m d)) = privileged_deeds d"
  by (simp_all add: load_now_def posture_def privileged_deeds_def split: prod.splits)

lemma save_now_keeps [simp]:
  "dm_challenge (save_now m c w d) = dm_challenge d"
  "privileged_deeds (save_now m c w d) = privileged_deeds d @ (if deed_owner w = None then [] else [w])"
  "deed_owner w = None \<Longrightarrow> posture (save_now m c w d) = posture d"
  by (simp_all add: save_now_def record_deed_def posture_def privileged_deeds_def)

section \<open>Two kinds of handler\<close>

text \<open>A mild handler leaves the posture and the token alone; the body of a command may change the posture,
  keeps the token, and adds at most one privileged deed, its own.\<close>

definition mild :: "handler \<Rightarrow> bool" where
  "mild h \<longleftrightarrow> (\<forall>m params peer d. posture (snd (h m params peer d)) = posture d
     \<and> dm_challenge (snd (h m params peer d)) = dm_challenge d)"

definition body_of :: "string \<Rightarrow> handler \<Rightarrow> bool" where
  "body_of k h \<longleftrightarrow> (\<forall>m params peer d. dm_challenge (snd (h m params peer d)) = dm_challenge d
     \<and> (\<exists>ws. privileged_deeds (snd (h m params peer d)) = privileged_deeds d @ ws
            \<and> length ws \<le> 1 \<and> (\<forall>w \<in> set ws. deed_owner w = Some k)))"

lemma mild_authed: "mild h \<Longrightarrow> mild (authed h)"
  by (simp add: mild_def authed_def)

lemma mild_answer: "mild (answer k)"
  by (simp add: mild_def answer_def)

lemma mild_refuse: "mild (refuse_with r)" "mild (not_done why)"
  by (simp_all add: mild_def refuse_with_def not_done_def)

lemma mild_perform: "(\<And>p. deed_owner (f p) = None) \<Longrightarrow> mild (perform_deed f)"
  by (simp add: mild_def perform_deed_def Let_def)

lemmas perform_mild = mild_perform [unfolded mild_def, rule_format]
lemmas refuse_mild = mild_refuse [unfolded mild_def, rule_format]

lemma mild_scans:
  "mild scan_start" "mild scan_cancel" "mild argus_analyze" "mild report_safe" "mild runtime_scan_buffer"
  "mild memory_scan_process"
  unfolding mild_def scan_start_def scan_cancel_def argus_analyze_def report_safe_def runtime_scan_buffer_def
    memory_scan_process_def Let_def
  by (auto simp: perform_deed_def refuse_with_def not_done_def Let_def split: option.splits)

lemma mild_settings:
  "mild settings_get" "mild settings_get_full" "mild settings_get_defaults"
  "mild settings_restart_requirements" "mild sources_status"
  unfolding mild_def settings_get_def settings_get_full_def settings_get_defaults_def
    settings_restart_requirements_def sources_status_def Let_def
  by (auto simp: split_beta)

lemma mild_developer: "mild dev_set_developer_mode" "mild benchmark_run" "mild activity_log"
  unfolding mild_def dev_set_developer_mode_def benchmark_run_def activity_log_def Let_def
  by (auto simp: split_beta perform_deed_def refuse_with_def Let_def posture_def privileged_deeds_def save_now_def record_deed_def
      load_now_def)

lemma body_perform: "(\<And>p. deed_owner (f p) = Some k) \<Longrightarrow> body_of k (perform_deed f)"
  by (simp add: body_of_def perform_deed_def Let_def)

lemma bodies_vault:
  "body_of ''quarantine.add'' quarantine_add" "body_of ''quarantine.restore_as'' quarantine_restore_as"
  by (auto simp: body_of_def quarantine_add_def quarantine_restore_as_def perform_deed_def refuse_with_def not_done_def
      Let_def)

lemma bodies_sources:
  "body_of ''sources.set'' sources_set" "body_of ''sources.update'' sources_update"
  by (auto simp: body_of_def sources_set_def sources_update_def perform_deed_def refuse_with_def not_done_def
      Let_def split_beta)

lemma body_rollback: "body_of ''sources.rollback'' sources_rollback"
  by (simp add: body_of_def sources_rollback_def perform_deed_def Let_def)

lemma posture_parts [simp]:
  "privileged_deeds (d\<lparr>dm_exclusions := x\<rparr>) = privileged_deeds d"
  "privileged_deeds (d\<lparr>dm_hashes := hs\<rparr>) = privileged_deeds d"
  "privileged_deeds (d\<lparr>dm_hot := h\<rparr>) = privileged_deeds d"
  "privileged_deeds (d\<lparr>dm_user_disabled := b\<rparr>) = privileged_deeds d"
  "privileged_deeds (d\<lparr>dm_challenge := ch\<rparr>) = privileged_deeds d"
  "privileged_deeds (d\<lparr>dm_limiter := l\<rparr>) = privileged_deeds d"
  by (simp_all add: privileged_deeds_def)

lemma body_settings_set: "body_of ''settings.set'' settings_set"
  by (auto simp: body_of_def settings_set_def not_done_def Let_def split_beta split: option.splits)

lemma body_settings_set_full: "body_of ''settings.set_full'' settings_set_full"
  by (auto simp: body_of_def settings_set_full_def refresh_hot_config_def not_done_def Let_def split_beta
      split: option.splits)

lemma body_set_critical: "body_of ''protection.set_critical'' protection_set_critical"
  by (auto simp: body_of_def protection_set_critical_def refresh_hot_config_def load_trusted_hashes_def
      enable_protection_def disable_protection_def Let_def split_beta split: option.splits bool.splits)

lemma bodies_protection:
  "body_of ''protection.disable'' protection_disable" "body_of ''protection.enable'' protection_enable"
  by (simp_all add: body_of_def protection_disable_def protection_enable_def enable_protection_def
      disable_protection_def)

section \<open>The table\<close>

definition token_methods :: "string list" where
  "token_methods = map fst authed_token_handlers @ map fst token_handlers"

definition token_key :: "string \<Rightarrow> string" where
  "token_key k = (if k \<in> set [''sources.set'', ''sources.update'', ''sources.rollback''] then ''challenge_token'' else ''token'')"

text \<open>The token the request presents is the one in the slot, issued for this method, and less than a
  minute old.\<close>

definition holds_token :: "string \<Rightarrow> machine \<Rightarrow> json \<Rightarrow> daemon \<Rightarrow> bool" where
  "holds_token k m params d \<longleftrightarrow>
     (\<exists>created. dm_challenge d = Some (str_param params (token_key k) [], k, created)
        \<and> (mc_now m - created) div NANOS_PER_SEC < TOKEN_LIFETIME_SECS)"

definition commanded :: "string \<Rightarrow> handler \<Rightarrow> bool" where
  "commanded k h \<longleftrightarrow> (\<forall>m params peer d. let d' = snd (h m params peer d) in
     (posture d' = posture d \<and> (dm_challenge d' = dm_challenge d \<or> dm_challenge d' = None))
     \<or> holds_token k m params d \<and> dm_challenge d' = None
       \<and> (\<exists>ws. privileged_deeds d' = privileged_deeds d @ ws \<and> length ws \<le> 1
              \<and> (\<forall>w \<in> set ws. deed_owner w = Some k)))"

lemma mild_commanded: "mild h \<Longrightarrow> commanded k h"
  by (simp add: mild_def commanded_def Let_def)

lemma commanded_authed: "commanded k h \<Longrightarrow> commanded k (authed h)"
  by (simp add: commanded_def authed_def Let_def)

lemma posture_no_challenge [simp]: "posture (d\<lparr>dm_challenge := ch\<rparr>) = posture d"
  by (simp add: posture_def privileged_deeds_def)

lemma token_checked:
  "validate_challenge_token t k now d = (ok, d') \<Longrightarrow>
     posture d' = posture d \<and> dm_challenge d' = None \<and> dm_secret d' = dm_secret d \<and> dm_file d' = dm_file d
     \<and> dm_deeds d' = dm_deeds d \<and> privileged_deeds d' = privileged_deeds d
     \<and> (ok \<longleftrightarrow> (\<exists>created. dm_challenge d = Some (t, k, created) \<and> (now - created) div NANOS_PER_SEC < TOKEN_LIFETIME_SECS))"
  by (auto simp: validate_challenge_token_def Let_def constant_time_eq_is_eq split: option.splits prod.splits if_splits)

lemma commanded_tokened:
  assumes "body_of k h" "key = token_key k"
  shows "commanded k (tokened k key refused h)"
  unfolding commanded_def Let_def
proof (intro allI, goal_cases)
  case (1 m params peer d)
  obtain ok d1 where v: "validate_challenge_token (str_param params key []) k (mc_now m) d = (ok, d1)" by force
  note t = token_checked [OF v]
  show ?case
  proof (cases ok)
    case True
    obtain ws where "privileged_deeds (snd (h m params peer d1)) = privileged_deeds d1 @ ws" "length ws \<le> 1"
      "\<forall>w \<in> set ws. deed_owner w = Some k" "dm_challenge (snd (h m params peer d1)) = dm_challenge d1"
      using assms(1) unfolding body_of_def by blast
    moreover have "holds_token k m params d"
      using t True assms(2) by (auto simp: holds_token_def)
    ultimately show ?thesis
      using v t True by (intro disjI2) (simp add: tokened_def)
  next
    case False
    then have v': "validate_challenge_token (str_param params key []) k (mc_now m) d = (False, d1)" using v by simp
    have "posture d1 = posture d" "dm_challenge d1 = None" using t by auto
    then show ?thesis by (simp add: tokened_def v')
  qed
qed

lemma authed_token_handlers_commanded: "list_all (\<lambda>(k, h). commanded k h) authed_token_handlers"
  unfolding authed_token_handlers_def
  by (simp add: commanded_tokened token_key_def body_perform body_settings_set body_settings_set_full)

lemma token_handlers_commanded: "list_all (\<lambda>(k, h). commanded k h) token_handlers"
  unfolding token_handlers_def
  by (simp add: commanded_tokened token_key_def body_perform bodies_vault bodies_sources body_rollback
      body_set_critical bodies_protection)

text \<open>Issuing a token is the one handler that fills the slot.\<close>

definition issuing :: "handler \<Rightarrow> bool" where
  "issuing h \<longleftrightarrow> (\<forall>m params peer d. let (r, d') = h m params peer d in
     posture d' = posture d
     \<and> (dm_challenge d' = dm_challenge d
        \<or> (\<exists>t k. r = Token_Issued t k \<and> dm_challenge d' = Some (t, k, mc_now m)
             \<and> is_challengeable_method k \<and> require_elevation peer = Auth_Allow \<and> dm_secret d = Some (str_param params ''auth'' []))))"

lemma issuing_challenge: "issuing (authed security_challenge)"
  by (auto simp: issuing_def authed_def security_challenge_def refuse_with_def generate_challenge_token_def
      validate_ipc_auth_iff Let_def split: auth_decision.splits)

lemma authed_handlers_mild:
  "list_all (\<lambda>(k, h). k = ''security.challenge'' \<or> mild h) authed_handlers"
  unfolding authed_handlers_def
  by (simp add: mild_scans mild_settings mild_developer mild_perform)

lemma mild_issuing: "mild h \<Longrightarrow> issuing h"
  by (auto simp: mild_def issuing_def Let_def split: prod.splits) (metis snd_conv)+

definition proper :: "string \<Rightarrow> handler \<Rightarrow> bool" where
  "proper k h \<longleftrightarrow> (if k \<in> set token_methods then commanded k h else issuing h)"

lemma token_methods_eq: "token_methods = [''engine.reload'', ''argus.reload'', ''settings.set'', ''settings.set_full'',
    ''quarantine.add'', ''quarantine.restore'', ''quarantine.restore_as'', ''quarantine.delete'', ''sources.set'',
    ''sources.update'', ''sources.rollback'', ''protection.set_critical'', ''protection.disable'', ''protection.enable'']"
  by (simp add: token_methods_def authed_token_handlers_def token_handlers_def)

lemma reads_proper:
  "list_all (\<lambda>k. proper k (answer k)) open_reads" "list_all (\<lambda>k. proper k (authed (answer k))) authed_reads"
  by (simp_all add: open_reads_def authed_reads_def proper_def token_methods_eq mild_issuing mild_answer mild_authed)

lemma authed_handlers_proper: "list_all (\<lambda>(k, h). proper k (authed h)) authed_handlers"
proof -
  have issue: "issuing (authed h)" if "(k, h) \<in> set authed_handlers" for k h
  proof (cases "k = ''security.challenge''")
    case True
    then have "h = security_challenge" using that by (auto simp: authed_handlers_def)
    then show ?thesis using issuing_challenge by simp
  next
    case False
    then have "mild h" using authed_handlers_mild that by (auto simp: list_all_iff)
    then show ?thesis by (intro mild_issuing mild_authed)
  qed
  have "k \<notin> set token_methods" if "(k, h) \<in> set authed_handlers" for k h
    using that by (auto simp: authed_handlers_def token_methods_eq)
  then show ?thesis using issue by (auto simp: list_all_iff proper_def)
qed

lemma commanded_proper: "k \<in> set token_methods \<Longrightarrow> commanded k h \<Longrightarrow> proper k h"
  by (simp add: proper_def)

lemma token_handlers_proper:
  "list_all (\<lambda>(k, h). proper k (authed h)) authed_token_handlers" "list_all (\<lambda>(k, h). proper k h) token_handlers"
proof -
  have "proper k (authed h)" if "(k, h) \<in> set authed_token_handlers" for k h
  proof (rule commanded_proper)
    show "k \<in> set token_methods" using that by (force simp: token_methods_def)
    show "commanded k (authed h)"
      using that authed_token_handlers_commanded by (intro commanded_authed) (auto simp: list_all_iff)
  qed
  moreover have "proper k h" if "(k, h) \<in> set token_handlers" for k h
  proof (rule commanded_proper)
    show "k \<in> set token_methods" using that by (force simp: token_methods_def)
    show "commanded k h" using that token_handlers_commanded by (auto simp: list_all_iff)
  qed
  ultimately show "list_all (\<lambda>(k, h). proper k (authed h)) authed_token_handlers"
    "list_all (\<lambda>(k, h). proper k h) token_handlers" by (auto simp: list_all_iff)
qed

lemma sources_status_proper: "proper ''sources.status'' sources_status" "proper ''sources.list'' sources_status"
  by (simp_all add: proper_def token_methods_eq mild_issuing mild_settings)

lemma handlers_proper: "list_all (\<lambda>(k, h). proper k h) handlers"
  using reads_proper authed_handlers_proper token_handlers_proper sources_status_proper
  by (simp add: handlers_def list.pred_map comp_def case_prod_unfold)

lemma handler_names:
  "map fst handlers = open_reads @ [''sources.status'', ''sources.list''] @ authed_reads @ map fst authed_handlers
     @ token_methods"
  by (simp add: handlers_def token_methods_def comp_def case_prod_unfold)

lemma run_handler_proper: "proper k (run_handler k)"
proof (cases "map_of handlers k")
  case None
  then have "k \<notin> set (map fst handlers)" by (simp add: map_of_eq_None_iff)
  then have "k \<notin> set token_methods"
    unfolding handler_names by simp
  then show ?thesis using None by (simp add: run_handler_def proper_def mild_issuing mild_refuse)
next
  case (Some h)
  then show ?thesis using handlers_proper by (auto simp: run_handler_def list_all_iff dest!: map_of_SomeD)
qed

section \<open>A whole request\<close>

lemma challengeable_tokens: "k \<in> set token_methods \<Longrightarrow> is_challengeable_method k"
  by (auto simp: token_methods_eq is_challengeable_method_def CHALLENGEABLE_METHODS_def)

lemma posture_limiter [simp]: "posture (d\<lparr>dm_limiter := l\<rparr>) = posture d"
  by (simp add: posture_def)

lemma holds_token_limiter [simp]: "holds_token k m params (d\<lparr>dm_limiter := l\<rparr>) = holds_token k m params d"
  by (simp add: holds_token_def)

text \<open>Where a request ends up: refused or quiet, a token issued, or a command run.\<close>

definition request_kept :: "reply \<Rightarrow> daemon \<Rightarrow> daemon \<Rightarrow> bool" where
  "request_kept r d d' \<longleftrightarrow> posture d' = posture d \<and> (dm_challenge d' = dm_challenge d \<or> dm_challenge d' = None)"

definition request_issued :: "machine \<Rightarrow> client_identity option \<Rightarrow> json \<Rightarrow> reply \<Rightarrow> daemon \<Rightarrow> daemon \<Rightarrow> bool" where
  "request_issued m peer params r d d' \<longleftrightarrow>
     posture d' = posture d \<and> require_elevation peer = Auth_Allow \<and> dm_secret d = Some (str_param params ''auth'' [])
     \<and> (\<exists>t k. r = Token_Issued t k \<and> dm_challenge d' = Some (t, k, mc_now m) \<and> is_challengeable_method k)"

definition request_commanded :: "string \<Rightarrow> machine \<Rightarrow> client_identity option \<Rightarrow> json \<Rightarrow> daemon \<Rightarrow> daemon \<Rightarrow> bool" where
  "request_commanded k m peer params d d' \<longleftrightarrow>
     k \<in> set token_methods \<and> require_elevation peer = Auth_Allow \<and> holds_token k m params d
     \<and> dm_challenge d' = None
     \<and> (\<exists>ws. privileged_deeds d' = privileged_deeds d @ ws \<and> length ws \<le> 1 \<and> (\<forall>w \<in> set ws. deed_owner w = Some k))"

lemma run_handler_outcome:
  assumes "is_challengeable_method k \<longrightarrow> require_elevation peer = Auth_Allow" "run_handler k m params peer d = (r, d')"
  shows "request_kept r d d' \<or> request_issued m peer params r d d' \<or> request_commanded k m peer params d d'"
proof (cases "k \<in> set token_methods")
  case True
  then have "commanded k (run_handler k)" using run_handler_proper [of k] by (simp add: proper_def)
  from this [unfolded commanded_def Let_def, rule_format, of m params peer d] show ?thesis
    using assms True challengeable_tokens [OF True] by (auto simp: request_kept_def request_commanded_def)
next
  case False
  then have "issuing (run_handler k)" using run_handler_proper [of k] by (simp add: proper_def)
  from this [unfolded issuing_def, rule_format, of m params peer d] show ?thesis
    using assms(2) by (auto simp: request_kept_def request_issued_def)
qed

lemma dispatch_outcome:
  assumes "dispatch k m params peer d = (r, d')"
  shows "request_kept r d d' \<or> request_issued m peer params r d d' \<or> request_commanded k m peer params d d'"
proof (cases "is_challengeable_method k \<and> require_elevation peer \<noteq> Auth_Allow")
  case True
  then show ?thesis using assms by (auto simp: dispatch_def request_kept_def)
next
  case False
  then have el: "is_challengeable_method k \<longrightarrow> require_elevation peer = Auth_Allow" by blast
  show ?thesis
  proof (cases "policy_of k")
    case None
    then show ?thesis using assms False run_handler_outcome [OF el] by (simp add: dispatch_def)
  next
    case (Some pol)
    then have g: "central_gate k pol m params peer d = (r, d')" using assms False by (simp add: dispatch_def)
    obtain v l where c: "check_rate (mc_host m) (mp_bucket pol) peer (mc_now m) (dm_limiter d) = (v, l)" by force
    consider (stopped) "d' = d \<or> d' = d\<lparr>dm_limiter := l\<rparr>"
      | (ran) "run_handler k m params peer (d\<lparr>dm_limiter := l\<rparr>) = (r, d')"
      using g by (auto simp: central_gate_def c Let_def split: option.splits if_splits)
    then show ?thesis
    proof cases
      case stopped
      then show ?thesis by (auto simp: request_kept_def)
    next
      case ran
      from run_handler_outcome [OF el this] show ?thesis
        by (simp add: request_kept_def request_issued_def request_commanded_def)
    qed
  qed
qed

lemma elevation_allowed:
  "require_elevation peer = Auth_Allow
   \<longleftrightarrow> (\<exists>i. peer = Some i \<and> \<not> ci_untrusted i \<and> (ci_elevated i \<or> ci_system i))"
  by (auto simp: require_elevation_def split: option.splits)

section \<open>Protection only changes by consent\<close>

lemma posture_change_paid:
  assumes "posture (snd (dispatch k m params peer d)) \<noteq> posture d"
  shows "request_commanded k m peer params d (snd (dispatch k m params peer d))"
  using dispatch_outcome [OF surjective_pairing, of k m params peer d] assms
  by (auto simp: request_kept_def request_issued_def)

text \<open>
C1: No request weakens protection unless an administrator asked for exactly that command: if the
exclusions in force, the trusted hashes, the settings the shields run on, the pause switch or the list
of privileged deeds is different after a request, then the caller was positively identified as elevated
or SYSTEM, the method is one of the fourteen commands, and the request presented the token in the slot,
issued for this very method less than a minute before; and the slot is empty now.
\<close>

theorem protection_changes_need_consent:
  assumes "posture (snd (dispatch k m params peer d)) \<noteq> posture d"
  shows "k \<in> set token_methods
    \<and> (\<exists>i. peer = Some i \<and> \<not> ci_untrusted i \<and> (ci_elevated i \<or> ci_system i))
    \<and> holds_token k m params d \<and> dm_challenge (snd (dispatch k m params peer d)) = None"
  using posture_change_paid [OF assms] by (auto simp: request_commanded_def elevation_allowed)

definition sample_admin :: client_identity where
  "sample_admin = \<lparr>ci_sid = ''S-1-5-21'', ci_session = 1, ci_elevated = True, ci_system = False,
                   ci_untrusted = False, ci_image = None\<rparr>"

definition sample_machine :: machine where
  "sample_machine =
     \<lparr>mc_now = 0, mc_host = \<lparr>image_dir = (\<lambda>_. None), program_vars = (None, None)\<rparr>, mc_env = (\<lambda>_. None),
      mc_heals = True, mc_saves = True, mc_uuid = ''u'', mc_to_json = (\<lambda>_. None), mc_of_json = (\<lambda>_. None),
      mc_full_of_json = (\<lambda>_. None), mc_size = (\<lambda>_. 0), mc_sha256 = (\<lambda>s. s), mc_exists = (\<lambda>_. True),
      mc_scanning = False, mc_outcome = (\<lambda>_. True)\<rparr>"

definition sample_daemon :: daemon where
  "sample_daemon =
     \<lparr>dm_secret = Some ''s'', dm_challenge = Some (''u'', ''protection.disable'', 0),
      dm_limiter = new_rate_limiter 0, dm_reloading = False, dm_file = Missing_File, dm_exclusions = [],
      dm_hashes = [], dm_hot = None, dm_developer = default_developer, dm_user_disabled = False,
      dm_activity = [], dm_deeds = []\<rparr>"

definition sample_params :: json where
  "sample_params = J_Obj [(''token'', J_Str ''u'')]"

lemma minted_nothing: "minted rate 0 = 0"
  by (simp add: minted_def as_secs_f64_def f64_add_def f64_of_def f64_times_def f64_over_def f64_floor_def)

lemma sample_rate:
  "fst (check_rate (mc_host sample_machine) ConfigMutation_Bucket (Some sample_admin) 0 (new_rate_limiter 0)) = None"
  by (simp add: check_rate_def first_party_peer_def is_first_party_def check_principal_def check_global_def
      take_token_def refill_bucket_def minted_nothing new_rate_limiter_def make_room_def new_bucket_config_def
      sample_admin_def bucket_state.truncate_def MAX_PRINCIPAL_ENTRIES_def Let_def)

lemma sample_policy: "policy_of ''protection.disable'' = Some (priv_mutation 1024 ConfigMutation_Bucket)"
  by code_simp

lemma sample_handler:
  "run_handler ''protection.disable'' = tokened ''protection.disable'' ''token'' refuse_params protection_disable"
  by (simp add: run_handler_def handlers_def open_reads_def authed_reads_def authed_handlers_def
      authed_token_handlers_def token_handlers_def)

lemma sample_paused:
  "dm_user_disabled (snd (dispatch ''protection.disable'' sample_machine sample_params (Some sample_admin) sample_daemon))"
proof -
  obtain l where l: "check_rate (mc_host sample_machine) ConfigMutation_Bucket (Some sample_admin) 0 (new_rate_limiter 0)
      = (None, l)"
    using sample_rate by (metis prod.collapse)
  have "mc_now sample_machine = 0" "mc_size sample_machine sample_params = 0" "str_param sample_params ''token'' [] = ''u''"
    by (simp_all add: sample_machine_def sample_params_def str_param_def)
  moreover have "dm_limiter sample_daemon = new_rate_limiter 0" "\<not> dm_reloading sample_daemon"
    "dm_challenge sample_daemon = Some (''u'', ''protection.disable'', 0)"
    by (simp_all add: sample_daemon_def)
  moreover have "require_elevation (Some sample_admin) = Auth_Allow"
    by (simp add: require_elevation_def sample_admin_def)
  ultimately show ?thesis
    using l
    by (simp add: dispatch_def sample_policy central_gate_def priv_mutation_def sample_handler tokened_def
        validate_challenge_token_def constant_time_eq_is_eq TOKEN_LIFETIME_SECS_def Let_def protection_disable_def
        disable_protection_def log_activity_def)
qed

theorem protection_changes_need_consent_witness:
  "dm_challenge (snd (dispatch ''protection.disable'' sample_machine sample_params (Some sample_admin) sample_daemon)) = None
   \<and> holds_token ''protection.disable'' sample_machine sample_params sample_daemon"
proof -
  have "posture (snd (dispatch ''protection.disable'' sample_machine sample_params (Some sample_admin) sample_daemon))
    \<noteq> posture sample_daemon"
    using sample_paused by (simp add: posture_def sample_daemon_def)
  from protection_changes_need_consent [OF this] show ?thesis by blast
qed

section \<open>A token pays once\<close>

type_synonym request = "string \<times> machine \<times> json \<times> client_identity option"

fun serve_requests :: "request list \<Rightarrow> daemon \<Rightarrow> reply list \<times> daemon" where
  "serve_requests [] d = ([], d)"
| "serve_requests ((k, m, params, peer) # rs) d =
     (let (r, d1) = dispatch k m params peer d; (replies, d2) = serve_requests rs d1 in (r # replies, d2))"

definition spent :: "string \<Rightarrow> daemon \<Rightarrow> nat" where
  "spent k d = length (filter (\<lambda>w. deed_owner w = Some k) (dm_deeds d))"

definition pending :: "string \<Rightarrow> daemon \<Rightarrow> nat" where
  "pending k d = (case dm_challenge d of Some (_, k', _) \<Rightarrow> if k' = k then 1 else 0 | None \<Rightarrow> 0)"

definition issued :: "string \<Rightarrow> reply list \<Rightarrow> nat" where
  "issued k rs = length (filter (\<lambda>r. case r of Token_Issued _ k' \<Rightarrow> k' = k | _ \<Rightarrow> False) rs)"

lemma spent_privileged: "spent k d = length (filter (\<lambda>w. deed_owner w = Some k) (privileged_deeds d))"
  by (simp add: spent_def privileged_deeds_def) (metis (mono_tags, lifting) option.distinct(1))

lemma posture_spent: "posture d' = posture d \<Longrightarrow> spent k d' = spent k d"
  by (simp add: spent_privileged posture_def)

lemma dispatch_accounts:
  assumes "dispatch k m params peer d = (r, d')"
  shows "spent c d' + pending c d' \<le> spent c d + pending c d + issued c [r]"
  using dispatch_outcome [OF assms]
proof (elim disjE)
  assume "request_kept r d d'"
  then show ?thesis
    using posture_spent [of d' d c] by (auto simp: request_kept_def pending_def)
next
  assume "request_issued m peer params r d d'"
  then show ?thesis
    using posture_spent [of d' d c] by (auto simp: request_issued_def pending_def issued_def)
next
  assume "request_commanded k m peer params d d'"
  then obtain ws where ws: "privileged_deeds d' = privileged_deeds d @ ws" "length ws \<le> 1"
    "\<forall>w \<in> set ws. deed_owner w = Some k" and t: "holds_token k m params d" "dm_challenge d' = None"
    by (auto simp: request_commanded_def)
  have "length (filter (\<lambda>w. deed_owner w = Some c) ws) \<le> (if c = k then 1 else 0)"
    using ws(2,3) by (cases ws) auto
  moreover have "pending k d = 1" using t(1) by (auto simp: holds_token_def pending_def)
  ultimately show ?thesis using ws(1) t(2) by (auto simp: spent_privileged pending_def split: if_splits)
qed

lemma serve_accounts: "serve_requests rs d = (replies, d') \<Longrightarrow> spent k d' + pending k d' \<le> spent k d + pending k d + issued k replies"
proof (induction rs d arbitrary: replies d' rule: serve_requests.induct)
  case (2 c m params peer rs d)
  obtain r d1 where 1: "dispatch c m params peer d = (r, d1)" by force
  obtain rest d2 where 2: "serve_requests rs d1 = (rest, d2)" by force
  have "replies = r # rest" "d' = d2" using "2.prems" 1 2 by auto
  moreover have "issued k (r # rest) = issued k [r] + issued k rest" by (simp add: issued_def)
  ultimately show ?case using dispatch_accounts [OF 1, of k] "2.IH" [OF 1 [symmetric] refl 2] by simp
qed (simp add: issued_def)

text \<open>
C14: However many requests arrive, from whomever, in whatever order, a token pays for one command: the
times a privileged command has run never exceed the tokens issued for that command, with the one that
may have been waiting in the slot at the start.
\<close>

theorem a_token_pays_once:
  assumes "serve_requests rs d = (replies, d')"
  shows "spent k d' \<le> spent k d + pending k d + issued k replies"
  using serve_accounts [OF assms, of k] by linarith

definition sample_requests :: "request list" where
  "sample_requests = replicate 3 (''protection.disable'', sample_machine, sample_params, Some sample_admin)"

theorem a_token_pays_once_witness:
  "spent ''protection.disable'' (snd (serve_requests sample_requests sample_daemon))
   \<le> 1 + issued ''protection.disable'' (fst (serve_requests sample_requests sample_daemon))"
proof -
  have "spent ''protection.disable'' sample_daemon = 0" "pending ''protection.disable'' sample_daemon = 1"
    by (simp_all add: spent_def pending_def sample_daemon_def)
  then show ?thesis
    using a_token_pays_once [OF surjective_pairing, of "''protection.disable''" sample_requests sample_daemon]
    by simp
qed

section \<open>An ordinary save\<close>

text \<open>The developer password is settled outside the control plane.\<close>

definition same_protection :: "config \<Rightarrow> config \<Rightarrow> bool" where
  "same_protection c c' \<longleftrightarrow>
     critical_table c = critical_table c'
     \<and> dv_password_sha256 (c_developer c) = dv_password_sha256 (c_developer c')"

definition saved_by :: "machine \<Rightarrow> daemon \<Rightarrow> daemon \<Rightarrow> bool" where
  "saved_by m d d' \<longleftrightarrow>
     dm_file d' = dm_file d \<or> dm_file d' = dm_file (snd (load_now m d))
     \<or> (\<exists>c'. dm_file d' = Config_File c' \<and> same_protection (config_validate (fst (load_now m d))) c')"

lemma validated_password:
  "dv_password_sha256 (c_developer c) = dv_password_sha256 (c_developer d)
   \<Longrightarrow> dv_password_sha256 (c_developer (config_validate c)) = dv_password_sha256 (c_developer (config_validate d))"
  by (simp add: valid_defs valid_developer_def Let_def)

lemma validated_alike:
  assumes "agrees c d" "dv_password_sha256 (c_developer c) = dv_password_sha256 (c_developer d)"
  shows "same_protection (config_validate c) (config_validate d)"
  using validate_agrees [OF assms(1)] validated_password [OF assms(2)]
  by (simp only: same_protection_def agrees_table simp_thms)

lemma settings_set_saves: "saved_by m d (snd (settings_set m params peer d))"
proof (cases "settings_set_merge (mc_to_json m) (mc_of_json m) (fst (load_now m d)) params")
  case None
  then show ?thesis by (simp add: settings_set_def saved_by_def not_done_def split_beta)
next
  case (Some merged)
  have "same_protection (config_validate (fst (load_now m d))) (config_validate merged)"
    by (rule validated_alike [OF settings_set_pins(1) [OF Some] settings_set_pins(2) [OF Some, symmetric]])
  then show ?thesis
    using Some by (simp add: settings_set_def saved_by_def save_now_def save_config_def record_deed_def Let_def split_beta)
qed

lemma settings_set_full_saves: "saved_by m d (snd (settings_set_full m params peer d))"
proof (cases "mc_full_of_json m (without_envelope params)")
  case None
  then show ?thesis by (simp add: settings_set_full_def saved_by_def not_done_def)
next
  case (Some full)
  have "dv_password_sha256 (c_developer c) = dv_password_sha256 (c_developer (apply_non_critical full c))" for c
    by (simp add: apply_non_critical_def apply_developer_def)
  then have "same_protection (config_validate (fst (load_now m d)))
      (config_validate (apply_non_critical full (fst (load_now m d))))"
    by (rule validated_alike [OF apply_non_critical_agrees])
  then show ?thesis
    using Some
    by (simp add: settings_set_full_def saved_by_def save_now_def save_config_def record_deed_def
        refresh_hot_config_def Let_def split_beta)
qed

lemma saved_by_challenge [simp]: "saved_by m (d\<lparr>dm_challenge := ch\<rparr>) d' = saved_by m d d'"
  by (simp add: saved_by_def load_now_def split_beta)

lemma saved_by_same_file:
  assumes "dm_file d1 = dm_file d"
  shows "saved_by m d1 d' = saved_by m d d'"
proof -
  have "fst (load_now m d1) = fst (load_now m d)" "dm_file (snd (load_now m d1)) = dm_file (snd (load_now m d))"
    using assms by (simp_all add: load_now_def split_beta)
  then show ?thesis using assms by (simp add: saved_by_def)
qed

lemma saved_by_refl [simp]: "saved_by m d d"
  by (simp add: saved_by_def)

lemma tokened_saves:
  assumes "\<And>d. saved_by m d (snd (h m params peer d))"
  shows "saved_by m d (snd (tokened k key refused h m params peer d))"
proof -
  obtain ok d1 where v: "validate_challenge_token (str_param params key []) k (mc_now m) d = (ok, d1)" by force
  then have "dm_file d1 = dm_file d" using token_checked by blast
  note same = saved_by_same_file [OF this]
  show ?thesis
  proof (cases ok)
    case True
    have "tokened k key refused h m params peer d = h m params peer d1" using v True by (simp add: tokened_def)
    then show ?thesis using assms [of d1] same by simp
  next
    case False
    have "tokened k key refused h m params peer d = (refused, d1)" using v False by (simp add: tokened_def)
    then show ?thesis using same [of m d1] by simp
  qed
qed

lemma dispatch_saves:
  assumes "k = ''settings.set'' \<or> k = ''settings.set_full''"
  shows "saved_by m d (snd (dispatch k m params peer d))"
proof -
  have body: "saved_by m d1 (snd (run_handler k m params peer d1))" for d1
  proof -
    have "run_handler ''settings.set'' = authed (tokened ''settings.set'' ''token'' refuse_params settings_set)"
      "run_handler ''settings.set_full'' = authed (tokened ''settings.set_full'' ''token'' refuse_params settings_set_full)"
      by (simp_all add: run_handler_def handlers_def open_reads_def authed_reads_def authed_handlers_def
          authed_token_handlers_def)
    then show ?thesis
      using assms tokened_saves [where h = settings_set, OF settings_set_saves]
        tokened_saves [where h = settings_set_full, OF settings_set_full_saves]
      by (auto simp: authed_def)
  qed
  have "saved_by m d (snd (run_handler k m params peer (d\<lparr>dm_limiter := l\<rparr>)))" for l
    using body [of "d\<lparr>dm_limiter := l\<rparr>"] saved_by_same_file [of "d\<lparr>dm_limiter := l\<rparr>" d m] by simp
  moreover have "saved_by m d (d\<lparr>dm_limiter := l\<rparr>)" for l by (simp add: saved_by_def)
  ultimately have "saved_by m d (snd (central_gate k pol m params peer d))" for pol
    by (auto simp: central_gate_def Let_def split: option.splits prod.splits)
  then show ?thesis
    using body [of d] by (auto simp: dispatch_def saved_by_def split: option.splits)
qed

text \<open>
C18: An ordinary save never moves a protected setting, whatever it is sent: after \<open>settings.set\<close> or
\<open>settings.set_full\<close> the file is the one that was there, or the one loading it restored, or a
configuration whose protected settings and developer password are those the daemon was working with.
The libraries that read and write JSON are parameters; nothing is assumed of them.
\<close>

theorem ordinary_save_keeps_protection:
  assumes "k = ''settings.set'' \<or> k = ''settings.set_full''"
  shows "saved_by m d (snd (dispatch k m params peer d))"
  using assms by (rule dispatch_saves)

text \<open>A save that asks for the exclusion of everything and presents no token.\<close>

definition bold_params :: json where
  "bold_params = J_Obj [(''excluded_paths'', J_Arr [J_Str ''/''])]"

theorem ordinary_save_keeps_protection_witness:
  "saved_by sample_machine sample_daemon
     (snd (dispatch ''settings.set'' sample_machine bold_params (Some sample_admin) sample_daemon))"
  using ordinary_save_keeps_protection [of "''settings.set''"] by blast

section \<open>Without the secret and without a token\<close>

definition public_questions :: "string list" where
  "public_questions = [''health'', ''engine.status'', ''scan.status'', ''update.status'', ''argus.version'']"

text \<open>These have no check of their own: the gate in front of every handler is what asks for the secret.\<close>

definition gated_questions :: "string list" where
  "gated_questions = [''sources.status'', ''sources.list'', ''scan.history'', ''stats.runtime'', ''argus.packs'']"

definition turned_away :: "string \<Rightarrow> reply \<Rightarrow> bool" where
  "turned_away k r \<longleftrightarrow> (case r of Refused _ \<Rightarrow> True | Not_Done _ \<Rightarrow> True | Answered w \<Rightarrow> w = k \<and> k \<in> set public_questions | _ \<Rightarrow> False)"

definition untouched :: "daemon \<Rightarrow> daemon \<Rightarrow> bool" where
  "untouched d d' \<longleftrightarrow> posture d' = posture d \<and> dm_file d' = dm_file d \<and> dm_deeds d' = dm_deeds d
     \<and> dm_developer d' = dm_developer d"

definition closed :: "string \<Rightarrow> handler \<Rightarrow> bool" where
  "closed k h \<longleftrightarrow> (\<forall>m params peer d. dm_secret d \<noteq> Some (str_param params ''auth'' []) \<longrightarrow> \<not> holds_token k m params d \<longrightarrow>
     untouched d (snd (h m params peer d)) \<and> turned_away k (fst (h m params peer d)))"

lemma untouched_refl [simp]: "untouched d d" "untouched d (d\<lparr>dm_limiter := l\<rparr>)" "untouched d (log_activity a b c d)"
  by (simp_all add: untouched_def)

lemma closed_reads: "k \<in> set public_questions \<Longrightarrow> closed k (answer k)"
  by (simp add: closed_def answer_def turned_away_def)

lemma closed_authed: "closed k (authed h)"
  by (simp add: closed_def authed_def validate_ipc_auth_iff turned_away_def)

lemma developer_kept:
  "validate_challenge_token t k now d = (ok, d') \<Longrightarrow> dm_developer d' = dm_developer d"
  by (auto simp: validate_challenge_token_def Let_def split: option.splits prod.splits if_splits)

lemma closed_tokened:
  assumes "key = token_key k" "turned_away k refused"
  shows "closed k (tokened k key refused h)"
  unfolding closed_def
proof (intro allI impI, goal_cases)
  case (1 m params peer d)
  obtain ok d1 where v: "validate_challenge_token (str_param params key []) k (mc_now m) d = (ok, d1)" by force
  note t = token_checked [OF v]
  have "\<not> ok" using t 1(2) assms(1) by (auto simp: holds_token_def)
  then have "tokened k key refused h m params peer d = (refused, d1)" using v by (simp add: tokened_def)
  moreover have "untouched d d1" using t developer_kept [OF v] by (simp add: untouched_def)
  ultimately show ?case using assms(2) by simp
qed

lemma token_handlers_closed: "list_all (\<lambda>(k, h). closed k h) token_handlers"
  unfolding token_handlers_def
  by (simp add: closed_tokened token_key_def turned_away_def refuse_params_def refuse_privilege_def)

lemma handlers_closed: "list_all (\<lambda>(k, h). k \<in> set gated_questions \<or> closed k h) handlers"
  using token_handlers_closed closed_reads closed_authed
  by (auto simp: handlers_def list_all_iff open_reads_def gated_questions_def public_questions_def)

lemma run_handler_closed:
  assumes "k \<notin> set gated_questions"
  shows "closed k (run_handler k)"
proof (cases "map_of handlers k")
  case None
  then show ?thesis by (simp add: run_handler_def closed_def refuse_with_def turned_away_def)
next
  case (Some h)
  then show ?thesis using handlers_closed assms by (auto simp: run_handler_def list_all_iff dest!: map_of_SomeD)
qed

lemma gated_policy:
  "list_all (\<lambda>k. policy_of k = Some (auth_read 1024 Status_Bucket)) gated_questions"
  by code_simp

lemma stranger_request:
  assumes "dm_secret d \<noteq> Some (str_param params ''auth'' [])" "\<not> holds_token k m params d"
  shows "untouched d (snd (dispatch k m params peer d)) \<and> turned_away k (fst (dispatch k m params peer d))"
proof -
  let ?ok = "\<lambda>x. untouched d (snd x) \<and> turned_away k (fst x)"
  have away: "?ok (Refused e, d)" "?ok (Refused e, d\<lparr>dm_limiter := l\<rparr>)" "?ok (Refused e, log_activity a b c d)" for e l a b c
    by (simp_all add: turned_away_def)
  have ran: "?ok (run_handler k m params peer (d\<lparr>dm_limiter := l\<rparr>))" "?ok (run_handler k m params peer d)"
    if "k \<notin> set gated_questions" for l
    using run_handler_closed [OF that] assms unfolding closed_def
    by (auto simp: untouched_def dest!: spec [of _ m] spec [of _ params] spec [of _ peer])
  have gate: "?ok (central_gate k pol m params peer d)"
    if "k \<in> set gated_questions \<longrightarrow> mp_class pol = Authenticated_Read" for pol
    using away ran that assms(1)
    by (auto simp: central_gate_def validate_ipc_auth_iff Let_def split: option.splits prod.splits)
  show ?thesis
  proof (cases "k \<in> set gated_questions")
    case True
    then have "policy_of k = Some (auth_read 1024 Status_Bucket)" using gated_policy by (auto simp: list_all_iff)
    then show ?thesis using gate [of "auth_read 1024 Status_Bucket"] away by (auto simp: dispatch_def auth_read_def)
  next
    case False
    then show ?thesis using gate ran(2) away by (auto simp: dispatch_def split: option.splits)
  qed
qed

text \<open>
C25: A caller who has neither the secret nor the waiting token achieves nothing: the request is turned
away, or is one of the five public questions and is answered; nothing is asked of another component,
the file, the posture and the developer settings are as they were. That includes methods nobody
registered.
\<close>

theorem strangers_change_nothing:
  assumes "dm_secret d \<noteq> Some (str_param params ''auth'' [])" "\<not> holds_token k m params d"
  shows "untouched d (snd (dispatch k m params peer d)) \<and> turned_away k (fst (dispatch k m params peer d))"
  using stranger_request [OF assms] by blast

theorem strangers_change_nothing_witness:
  "untouched sample_daemon (snd (dispatch ''quarantine.delete'' sample_machine sample_params None sample_daemon))"
proof -
  have "dm_secret sample_daemon \<noteq> Some (str_param sample_params ''auth'' [])"
    "\<not> holds_token ''quarantine.delete'' sample_machine sample_params sample_daemon"
    by (simp_all add: sample_daemon_def sample_params_def str_param_def holds_token_def)
  then show ?thesis using strangers_change_nothing by blast
qed

section \<open>A source that does not stay\<close>

lemma provider_after_load:
  "c_enhanced_signature_provider (config_validate (expanded env (c\<lparr>c_enhanced_signature_provider := p\<rparr>)))
   = (if is_known_signature_provider p then p else ''none'')"
  by (simp add: valid_defs expanded_def Let_def)

lemma saved_source:
  assumes "provider_available p" "str_param params ''provider'' ''none'' = p" "dm_file d = Config_File c" "mc_saves m"
  shows "fst (sources_set m params peer d) = Done (Set_Source p) True"
    "c_enhanced_signature_provider (fst (load_now m' (snd (sources_set m params peer d))))
     = (if is_known_signature_provider p then p else ''none'')"
proof -
  have p: "p \<noteq> ''none''" using assms(1) by (auto simp: provider_available_def builtin_providers_def)
  have "load_now m d = (config_validate (expanded (mc_env m) c), d)"
    using assms(3) by (simp add: load_now_def load_or_default_def load_config_def Let_def)
  then have "sources_set m params peer d =
    (Done (Set_Source p) True,
     log_activity ''sources'' (''Enhanced signature provider changed to: '' @ p) []
       (save_now m ((config_validate (expanded (mc_env m) c))\<lparr>c_enhanced_signature_provider := p\<rparr>) (Set_Source p) d))"
    using p assms(1,2) by (simp add: sources_set_def set_enhanced_def Let_def)
  then show "fst (sources_set m params peer d) = Done (Set_Source p) True"
    "c_enhanced_signature_provider (fst (load_now m' (snd (sources_set m params peer d))))
     = (if is_known_signature_provider p then p else ''none'')"
    using assms(4)
    by (simp_all add: load_now_def load_or_default_def load_config_def save_now_def save_config_def record_deed_def
        provider_after_load Let_def)
qed

text \<open>
C37: Two lists of signature sources disagree. \<open>sources.set\<close> takes its list from the registry of sources,
where SaneSecurity is offered; it answers that the source was changed and writes it to the file; and the
next time the file is loaded, validation, which has a list of its own, puts it back to none. The source
the other list has and the registry does not, URLhaus, is accepted by validation and can never be
updated.
\<close>

theorem sanesecurity_does_not_stay:
  assumes "str_param params ''provider'' ''none'' = ''sanesecurity''" "dm_file d = Config_File c" "mc_saves m"
  shows "fst (sources_set m params peer d) = Done (Set_Source ''sanesecurity'') True
    \<and> c_enhanced_signature_provider (fst (load_now m' (snd (sources_set m params peer d)))) = ''none''
    \<and> is_known_signature_provider ''urlhaus'' \<and> \<not> provider_available ''urlhaus''"
proof -
  have "provider_available ''sanesecurity''" "\<not> is_known_signature_provider ''sanesecurity''"
    "is_known_signature_provider ''urlhaus''" "\<not> provider_available ''urlhaus''"
    by (simp_all add: provider_available_def builtin_providers_def is_known_signature_provider_def)
  then show ?thesis using saved_source [of "''sanesecurity''", OF _ assms] by simp
qed

theorem sanesecurity_does_not_stay_witness:
  "c_enhanced_signature_provider
     (fst (load_now sample_machine
        (snd (sources_set sample_machine (J_Obj [(''provider'', J_Str ''sanesecurity'')]) None
           (sample_daemon\<lparr>dm_file := Config_File sample_config\<rparr>))))) = ''none''"
  using sanesecurity_does_not_stay [of "J_Obj [(''provider'', J_Str ''sanesecurity'')]"
      "sample_daemon\<lparr>dm_file := Config_File sample_config\<rparr>" sample_config sample_machine None sample_machine]
  by (simp add: str_param_def sample_machine_def)

end
