(* ===== verification/Spec2Isabelle.thy ===== *)
theory Spec2Isabelle
  imports Load_Spec Proxy_Listen Argus_Runs Ledger_Spec Nrpt_Spec Web_Watch Web_Spec Ipc_Rate Ipc_Asked Ipc_Dispatch_Spec
begin

text \<open>
  Sentinella is an endpoint protection suite in Rust. This development models the two engines that decide
  something about untrusted input, the filtering DNS proxy \<open>dnsguard\<close> and the heuristic file analyser
  \<open>argus\<close>, and what the daemon builds on them: the subsystem that points the machine's DNS at the proxy,
  with the boot reconciler that takes the rule away again, the ledger that turns the score of an
  analysis into the final one, and the control plane through which users and tools steer all of it, with
  the configuration it changes. Every definition is executable; the comments of the theories name the
  files and functions under \<open>src/\<close>.

  \<^bold>\<open>How the parts interact.\<close> A DNS packet arrives at a listener (\<open>udp_loop\<close>, \<open>tcp_loop\<close>), is parsed by the
  wire codec, decided by the domain filter, answered from the block policy or the response cache or sent to
  an upstream, validated, normalised and sent back. A file scan reads and hashes a file, asks the trusted
  cache, runs the layers behind gates on a time budget, applies installer leniency, scores the findings and
  remembers clean trusted files; the blocklist and the trusted cache are reloaded by the daemon, which adds
  its own evidence to the score in a ledger. The daemon starts the proxy, runs its self-test, records a
  GUID, writes the DNS policy rule of that name and watches over it; the reconciler, a process of its own,
  reads the record at boot, probes the proxy and removes the rule when nothing answers. A client of the
  control plane is identified by the operating system when it connects, is admitted within its quota, and
  sends requests, each of which passes the elevation gate, the payload cap, two layers of rate limits, the
  reload gate and the secret before its handler runs; the handlers that change anything take a token.

  \<^bold>\<open>The DNS proxy\<close>, \<open>src/crates/dnsguard/src/\<close>:
  \<^item> \<open>Prelude\<close>: bytes, big-endian words, ranges and text shared by all parts. \<open>Std_Text\<close>: what the code uses
    of the standard library's text functions (UTF-8 validity, white space, IP literals).
  \<^item> \<open>Wire\<close>, \<open>Wire_Build\<close>, \<open>Wire_Edns\<close>: \<open>wire.rs\<close>. Words keep their width, slices that can fail are options,
    \<open>WireError\<close> is a datatype. \<open>Wire_Names\<close>, \<open>Wire_Query\<close>, \<open>Wire_Cursor\<close>, \<open>Wire_Response\<close> and \<open>Wire_Opt\<close> show
    that parsing is exact and injective, that built packets read back, that responses that pass validation
    answer their question, and that OPT records are stripped and added exactly.
  \<^item> \<open>Domain_Filter\<close>, \<open>Domain_Load\<close>: \<open>filter.rs\<close>. \<open>Domain_Spec\<close> relates a decision to the rule sets over
    labels; \<open>Load_Spec\<close> shows the budgets of the list loaders and that loading only ever blocks more.
  \<^item> \<open>Proxy\<close>, \<open>Proxy_Query\<close>, \<open>Proxy_Serve\<close>: the state, the cache and the pipeline of one query of \<open>proxy.rs\<close>.
    \<open>Cache_Spec\<close> accounts for the bytes of the cache; \<open>Answer_Valid\<close> and \<open>Proxy_Spec\<close> show the invariant of the
    reachable states and that every answer is valid; \<open>Proxy_Egress\<close> shows what leaves the process and how
    large it is; \<open>Proxy_Health\<close> models the self-test; \<open>Proxy_Listen\<close> the two listeners as a machine over
    events, the size of every datagram they send, and the locale \<open>permit_pool\<close> for their three bounded pools, interpreted on each.

  \<^bold>\<open>The file analyser\<close>, \<open>src/crates/argus/src/\<close>:
  \<^item> \<open>Argus_Verdict\<close>: \<open>verdict.rs\<close>; its ordered enumerations are instances of \<open>linorder\<close>.
  \<^item> \<open>Argus_Framework\<close>: \<open>layers/framework/mod.rs\<close>; text markers and file names never authorize leniency.
  \<^item> \<open>Argus_Float\<close>: the binary64 product and floor that scale weights to a cap. \<open>Argus_Score\<close>: the passes of
    \<open>engine.rs\<close> from findings to verdict and explanation. \<open>Argus_Score_Spec\<close> proves them with the locale
    \<open>weight_reducer\<close>, the contract of a pass, interpreted on deduplication, mitigation, each cap and their
    composition; \<open>Argus_Order\<close> shows that the order of the findings is immaterial.
  \<^item> \<open>Argus_Trust\<close>: \<open>layers/trusted_cache.rs\<close>. \<open>Argus_Ioc\<close>: \<open>layers/ioc.rs\<close>. \<open>Argus_Correlation\<close>: the event
    window of \<open>correlation.rs\<close>. Each has its invariant over everything its operations can build.
  \<^item> \<open>Argus_Engine\<close>: a scan from end to end and the budgets of \<open>budget.rs\<close>, with the reload sequences of
    \<open>sentinelld/src/ipc\<close>. \<open>Argus_Engine_Spec\<close> shows which scans are analyses and when one panics, that a scan
    reported as complete left out nothing but what a failing scanner keeps to itself, and when known malware is
    convicted; \<open>Argus_Runs\<close> evaluates scans, three of which show the trusted cache being filled too early. The
    limits of \<open>yara.rs\<close> around its library are in \<open>yara_scan\<close>; whether the library fails is a field of \<open>scan_env\<close>.

  \<^bold>\<open>The daemon\<close>, \<open>src/crates/sentinelld/src/\<close>, \<open>src/crates/nrpt/\<close>, \<open>src/crates/sentinella-dnsreconcile/\<close>:
  \<^item> \<open>Ledger\<close>: \<open>convergence.rs\<close>. \<open>Ledger_Spec\<close> proves the score it converges to, through the locale \<open>fair_cut\<close>, the
    contract of the cut of the post-analysis weights, interpreted on the code's allocation, and that each
    addition gets its weight or what the stronger ones have left of the budget.
  \<^item> \<open>Nrpt_Rule\<close>: the registry and record operations of \<open>nrpt\<close>, each a function from the host to a result and
    the durable effects it has, in order. \<open>Nrpt_Task\<close>: the check of the reconciler's scheduled task.
    \<open>Nrpt_Reconcile\<close>: the reconciler's \<open>main.rs\<close>.
  \<^item> \<open>Web_Rule\<close>: \<open>web_protection/rule.rs\<close>, installing, removing and the watchdog; \<open>Web_Watch\<close> shows when it
    fires. \<open>Web_Upstreams\<close>: \<open>upstreams.rs\<close> and \<open>config.rs\<close>. \<open>Web_Service\<close>: \<open>service.rs\<close>, \<open>lists.rs\<close> and \<open>status.rs\<close>,
    with \<open>start\<close> composed of all the above; \<open>Web_Spec\<close> has the properties of its addresses and refusals.
  \<^item> \<open>Nrpt_Protocol\<close>: an abstract protocol of rule, record and disk, which every operation obeys and every
    effect simulates. \<open>Nrpt_World\<close>: the machine over its life as the step relation \<open>world_step\<close>, whose steps are
    effects, operations, crashes, losses of power, lazy flushes and edits by others; its invariant by
    induction over the reachable states. \<open>Nrpt_Spec\<close>: the properties, a start worked out on a sample
    machine, and a history for each hazard that loses a rule.

  \<^bold>\<open>The control plane\<close>, \<open>src/crates/sentinelld/src/ipc/\<close>, \<open>config/\<close>, \<open>src/crates/sentinella-ipc-proto/\<close>:
  \<^item> \<open>Ipc_Auth\<close>: \<open>client_auth.rs\<close>, \<open>fairness.rs\<close> and the accept loop of \<open>mod.rs\<close> as the step relation
    \<open>accept_step\<close>; \<open>Ipc_Auth_Spec\<close> accounts for permits and quotas in every reachable state and shows that
    nobody is crowded out.
  \<^item> \<open>Ipc_Policy\<close>: \<open>policy.rs\<close>, the table of methods and the rate limiter with its binary64 arithmetic;
    \<open>Ipc_Rate\<close> bounds what it lets through over any window, with the locale \<open>paced\<close>, the contract of a refill,
    interpreted on the code's bucket.
  \<^item> \<open>Std_Addr\<close>: socket addresses as the standard library parses them. \<open>Cfg_Types\<close>, \<open>Cfg_Validate\<close>: the
    configuration of \<open>config/mod.rs\<close>, \<open>fish/mod.rs\<close> and \<open>web_protection/config.rs\<close> with its defaults, validation,
    expansion, load and save. \<open>Cfg_Bridge\<close>: its mirror on the wire, \<open>full_config.rs\<close>. \<open>Cfg_Spec\<close>: the mirror
    loses nothing, and what validation promises.
  \<^item> \<open>Ipc_Settings\<close>: \<open>settings_set_merge\<close> and \<open>apply_set_critical_params\<close>, one step per parameter over JSON;
    \<open>Ipc_Settings_Spec\<close> shows that an accepted request did what it reports; \<open>Ipc_Asked\<close> says what a request asks
    for without the code that carries it out, and shows that exactly this is set, reported and, as far as
    validation keeps it, saved.
  \<^item> \<open>Ipc_Dispatch\<close>: \<open>dispatch_sync\<close> with the guards of \<open>state.rs\<close>, a handler per method and the frame around a
    request; \<open>Ipc_Dispatch_Spec\<close> shows what no caller can do without elevation, secret and token.

  \<^bold>\<open>Parameters.\<close> Sockets, clocks, the keyed hash behind transaction ids and what answers a probe are records
  passed to the operations (\<open>env\<close>, \<open>probe_env\<close>, \<open>tcp_message\<close>); so are the content layers of the analyser, the
  SHA-256 function, the file system and the clock of a scan (\<open>layer_set\<close>, \<open>scan_env\<close>, \<open>ioc_file\<close>, \<open>clock\<close>), and
  what the registry, the files and the adapters answer to the daemon (\<open>io\<close>, \<open>task_env\<close>, \<open>start_env\<close>). What
  the operating system says of a client is the record \<open>token_answers\<close>; the clock, the environment, the SHA-256
  function, the libraries that turn JSON into settings and back, and what comes of a deed are the record
  \<open>machine\<close>, of which nothing is assumed. The
  theorems hold for every value of them unless a hypothesis says otherwise.

  \<^bold>\<open>Bounds.\<close> Recursion ends by a measure or is structural; nothing runs on fuel. A DNS name has at most 127
  labels and 255 bytes, which bounds the name loops; a TCP connection is a list of messages and ends by its
  deadlines. Weights, scores and counters are natural numbers: the sums of \<open>u32\<close> weights are exact below
  \<open>2^32\<close>, which the theorems on scores assume, and the \<open>u64\<close> counters are taken not to wrap. Scaled weights
  are computed with 53-bit significands and ties to even, for weights and caps of at most 32 bits; the refill of a
  rate bucket likewise, for windows of at most 115 days and three years of uptime.

  \<^bold>\<open>Abstractions.\<close> Hash maps are association lists with unique keys, hash sets lists or sets. A lock or an atomic
  makes one operation one step; the interleavings modelled are those between operations. Log lines and text
  rendered for display are left out; reasons are kept as data. Strings are their UTF-8 bytes.

  A request of the control plane is one step: the code runs handlers on several connections, but takes a
  token under one lock and saves the configuration under another. What a handler asks of the scanner, the
  vault or the signature engine is recorded as a deed with its arguments; of \<open>refresh_hot_config\<close> the model
  keeps the configuration last taken over. Configuration files are the values their text stands for.

  The life of the machine with its rule has crashes of either process between any two effects. What the
  code does not rule out is an explicit set of hazards, an argument of \<open>world_step\<close> and \<open>reachable\<close>: a start
  whose read of the record fails, operations of the daemon and the reconciler that overlap, a record that
  reaches the disk before the policy it speaks of, and a loss of power. Operations that overlap have their
  effects interleaved, each operation's decided on what it found when it began. Which sets of hazards lose a
  rule is itself a theorem, an equivalence; the theorems that need none of them to have struck say so by
  \<open>harmless\<close>, and the others hold for every set.

  \<^bold>\<open>Not modelled.\<close> The content layers of the analyser and the NSIS, Inno Setup and WiX detectors (arguments of
  the engine here), which rest on third-party parsers; the adaptive profile; of the configuration, the TOML
  text, the merge that keeps its comments and the integrity sidecar; of the control plane, the answers of
  the methods that only read; of the daemon, access control lists, quarantine, process lineage, scan
  orchestration, memory footprint, trust graph and updater; the worker processes, the AMSI provider, the
  command line tools and the GUI. Most of these are I/O around Windows interfaces.
\<close>

end
